(* ===== verification/Prelude.thy ===== *)
theory Prelude
  imports Complex_Main "HOL-Library.AList"
begin

text \<open>
  Shared vocabulary of the development: JavaScript values as they reach the program from SDK
  events and JSON bodies, the outcome of an awaited call, JavaScript string and \<open>Map\<close>
  operations, and the two generic interfaces (a keyed store, and a machine with an invariant)
  that the component theories interpret.

  Strings are HOL strings, so a character is one of the first 256 code points and \<open>length\<close> is
  the number of UTF-16 units of such a string. Times are integers (milliseconds).
\<close>

named_theorems js_simps \<open>evaluation of JavaScript values and strings\<close>

section \<open>Outcome of an awaited call\<close>

text \<open>
  An \<open>await\<close> either yields a value or rejects with an error, of which the program only ever
  reads the message.
\<close>

datatype 'a ext = Ret 'a | Throw string

fun is_ret :: "'a ext \<Rightarrow> bool" where
  "is_ret (Ret _) = True"
| "is_ret (Throw _) = False"

lemma is_ret_iff: "is_ret r \<longleftrightarrow> (\<exists>a. r = Ret a)"
  by (cases r) auto

section \<open>JavaScript values\<close>

datatype jsval =
    JUndef
  | JNull
  | JBool bool
  | JNum int      \<comment> \<open>a number that \<open>Number.isInteger\<close> accepts\<close>
  | JFrac rat     \<comment> \<open>a finite number that is not an integer\<close>
  | JNaN
  | JInf bool
  | JStr string
  | JArr "jsval list"
  | JObj "(string \<times> jsval) list"

fun truthy :: "jsval \<Rightarrow> bool" where
  "truthy JUndef = False"
| "truthy JNull = False"
| "truthy (JBool b) = b"
| "truthy (JNum n) = (n \<noteq> 0)"
| "truthy JNaN = False"
| "truthy (JStr s) = (s \<noteq> [])"
| "truthy _ = True"

text \<open>\<open>typeof v === "object"\<close> for a value that is not \<open>null\<close>.\<close>

fun is_object :: "jsval \<Rightarrow> bool" where
  "is_object (JArr _) = True"
| "is_object (JObj _) = True"
| "is_object _ = False"

text \<open>
  Property access \<open>v.k\<close> on an object, and \<open>v?.k\<close> on anything. Where the program reads a
  property of a value that may be \<open>null\<close> or \<open>undefined\<close> without \<open>?.\<close>, the model branches on
  \<open>nullish\<close> first.
\<close>

fun get :: "jsval \<Rightarrow> string \<Rightarrow> jsval" where
  "get (JObj kvs) k = (case map_of kvs k of Some v \<Rightarrow> v | None \<Rightarrow> JUndef)"
| "get _ k = JUndef"

fun nullish :: "jsval \<Rightarrow> bool" where
  "nullish JUndef = True"
| "nullish JNull = True"
| "nullish _ = False"

text \<open>\<open>v || w\<close> and \<open>v ?? w\<close>.\<close>

definition js_or :: "jsval \<Rightarrow> jsval \<Rightarrow> jsval" where
  "js_or v w = (if truthy v then v else w)"

definition js_coalesce :: "jsval \<Rightarrow> jsval \<Rightarrow> jsval" where
  "js_coalesce v w = (if nullish v then w else v)"

text \<open>\<open>typeof v === "number"\<close>.\<close>

fun is_number :: "jsval \<Rightarrow> bool" where
  "is_number (JNum _) = True"
| "is_number (JFrac _) = True"
| "is_number JNaN = True"
| "is_number (JInf _) = True"
| "is_number _ = False"

fun the_str :: "jsval \<Rightarrow> string option" where
  "the_str (JStr s) = Some s"
| "the_str _ = None"

fun the_int :: "jsval \<Rightarrow> int option" where
  "the_int (JNum n) = Some n"
| "the_int _ = None"

fun the_arr :: "jsval \<Rightarrow> jsval list option" where
  "the_arr (JArr vs) = Some vs"
| "the_arr _ = None"

fun str_or :: "string \<Rightarrow> string \<Rightarrow> string" where
  "str_or s t = (if s = [] then t else s)"

fun array_or :: "jsval \<Rightarrow> jsval list \<Rightarrow> jsval list" where
  "array_or (JArr xs) d = xs"
| "array_or _ d = d"

lemma the_str_Some [simp]: "the_str v = Some s \<longleftrightarrow> v = JStr s"
  by (cases v) auto

lemma the_int_Some [simp]: "the_int v = Some n \<longleftrightarrow> v = JNum n"
  by (cases v) auto

lemma the_arr_Some [simp]: "the_arr v = Some vs \<longleftrightarrow> v = JArr vs"
  by (cases v) auto

lemma nullish_not_truthy: "nullish v \<Longrightarrow> \<not> truthy v"
  by (cases v) auto

section \<open>Strings\<close>

definition is_space :: "char \<Rightarrow> bool" where
  "is_space c \<longleftrightarrow> c \<in> {CHR 0x09, CHR 0x0A, CHR 0x0B, CHR 0x0C, CHR 0x0D, CHR 0x20, CHR 0xA0}"

definition trim :: "string \<Rightarrow> string" where
  "trim s = rev (dropWhile is_space (rev (dropWhile is_space s)))"

lemma trim_Nil [simp]: "trim [] = []"
  by (simp add: trim_def)

lemma length_trim: "length (trim s) \<le> length s"
proof -
  have "length (dropWhile is_space (rev (dropWhile is_space s))) \<le> length (dropWhile is_space s)"
    by (metis length_dropWhile_le length_rev)
  then show ?thesis
    using length_dropWhile_le [of is_space s] by (simp add: trim_def)
qed

lemma trim_last_not_space: "trim s \<noteq> [] \<Longrightarrow> \<not> is_space (last (trim s))"
  unfolding trim_def by (metis hd_dropWhile last_rev rev_is_Nil_conv)

lemma dropWhile_rev_hd:
  assumes "xs \<noteq> []" "\<not> p (hd xs)"
  shows "dropWhile p (rev xs) = [] \<or> last (dropWhile p (rev xs)) = hd xs"
proof -
  obtain x ys where xs: "xs = x # ys" using assms(1) by (cases xs) auto
  have "last (dropWhile p (rev ys @ [x])) = x"
    using assms(2) xs by (simp add: dropWhile_append)
  then show ?thesis by (simp add: xs)
qed

lemma trim_idem [simp]: "trim (trim s) = trim s"
proof (cases "trim s = []")
  case True
  then show ?thesis by simp
next
  case False
  let ?d = "dropWhile is_space s"
  have d: "?d \<noteq> []"
  proof
    assume "?d = []"
    then have "trim s = []" unfolding trim_def by (simp only: rev.simps dropWhile.simps)
    with False show False by simp
  qed
  then have h: "\<not> is_space (hd ?d)" by (rule hd_dropWhile)
  have "last (dropWhile is_space (rev ?d)) = hd ?d"
    using dropWhile_rev_hd [where p = is_space and xs = "dropWhile is_space s", OF d h] False
    unfolding trim_def by (metis rev.simps(1))
  then have "hd (trim s) = hd ?d"
    using False by (simp add: trim_def hd_rev)
  then have "\<not> is_space (hd (trim s))" using h by simp
  then have a: "dropWhile is_space (trim s) = trim s"
    using False by (cases "trim s") auto
  have "\<not> is_space (hd (rev (trim s)))"
    using trim_last_not_space [OF False] by (simp add: hd_rev)
  then have "dropWhile is_space (rev (trim s)) = rev (trim s)"
    using False by (cases "rev (trim s)") auto
  then show ?thesis by (subst trim_def) (simp add: a)
qed

text \<open>
  \<open>boundedString(value, maxLength)\<close> of the connector (the same helper appears as \<open>bounded\<close> in
  the event adapter and as the test \<open>nonEmpty\<close> in the dispatch verifier): a non-empty string of
  bounded length, or nothing.
\<close>

definition bounded_string :: "jsval \<Rightarrow> nat \<Rightarrow> string option" where
  "bounded_string v n =
     (case v of JStr s \<Rightarrow> if 0 < length s \<and> length s \<le> n then Some s else None | _ \<Rightarrow> None)"

lemma bounded_string_Some:
  "bounded_string v n = Some s \<longleftrightarrow> v = JStr s \<and> s \<noteq> [] \<and> length s \<le> n"
  by (cases v) (auto simp: bounded_string_def)

text \<open>\<open>boundedString(value, n)?.trim() || null\<close>\<close>

definition trimmed :: "jsval \<Rightarrow> nat \<Rightarrow> string option" where
  "trimmed v n =
     (case bounded_string v n of None \<Rightarrow> None | Some s \<Rightarrow> if trim s = [] then None else Some (trim s))"

lemma trimmed_Some:
  "trimmed v n = Some s \<Longrightarrow> s \<noteq> [] \<and> length s \<le> n \<and> trim s = s"
  using length_trim order_trans
  by (auto simp: trimmed_def bounded_string_Some split: option.splits if_splits)

fun is_hex :: "char \<Rightarrow> bool" where
  "is_hex c = (c \<in> set ''0123456789abcdefABCDEF'')"

text \<open>\<open>xs.join(sep)\<close>, \<open>Array.from(new Set(xs))\<close> (first occurrences), \<open>s.toLowerCase()\<close>.\<close>

fun js_join :: "string \<Rightarrow> string list \<Rightarrow> string" where
  "js_join sep [] = []"
| "js_join sep [x] = x"
| "js_join sep (x # xs) = x @ sep @ js_join sep xs"

definition js_uniq :: "'a list \<Rightarrow> 'a list" where
  "js_uniq xs = rev (remdups (rev xs))"

lemma set_js_uniq [simp]: "set (js_uniq xs) = set xs"
  by (simp add: js_uniq_def)

lemma distinct_js_uniq [simp]: "distinct (js_uniq xs)"
  by (simp add: js_uniq_def)

lemma js_uniq_Nil [simp]: "js_uniq xs = [] \<longleftrightarrow> xs = []"
  by (simp add: js_uniq_def)

lemma js_uniq_distinct: "distinct xs \<Longrightarrow> js_uniq xs = xs"
  by (simp add: js_uniq_def distinct_remdups_id)

text \<open>\<open>s.split(c)\<close> for a one-character separator, and \<open>s.split(c).map(trim).filter(Boolean)\<close>.\<close>

fun split_on :: "char \<Rightarrow> string \<Rightarrow> string list" where
  "split_on c [] = [[]]"
| "split_on c (x # xs) =
     (if x = c then [] # split_on c xs else case split_on c xs of y # ys \<Rightarrow> (x # y) # ys | [] \<Rightarrow> [[x]])"

definition trim_parts :: "char \<Rightarrow> string \<Rightarrow> string list" where
  "trim_parts c s = filter (\<lambda>x. x \<noteq> []) (map trim (split_on c s))"

lemma split_on_not_Nil [simp]: "split_on c s \<noteq> []"
  by (induction s) (auto split: list.split)

lemma split_on_plain: "c \<notin> set x \<Longrightarrow> split_on c x = [x]"
  by (induction x) auto

lemma split_on_append: "c \<notin> set x \<Longrightarrow> split_on c (x @ c # s) = x # split_on c s"
  by (induction x) auto

lemma trim_spaces: "list_all is_space ws \<Longrightarrow> trim (ws @ s) = trim s"
  by (induction ws) (simp_all add: trim_def)

lemma split_on_spaces:
  assumes "list_all is_space ws" "c \<notin> set ws"
  shows "\<exists>y ys. split_on c s = y # ys \<and> split_on c (ws @ s) = (ws @ y) # ys"
  using assms
proof (induction ws)
  case Nil
  then show ?case by (cases "split_on c s") (simp_all add: split_on_not_Nil)
next
  case (Cons w ws)
  then show ?case by (auto split: list.split)
qed

text \<open>A list of trimmed entries without the separator survives being joined and split.\<close>

definition entry_ok :: "char \<Rightarrow> string \<Rightarrow> bool" where
  "entry_ok c x \<longleftrightarrow> x \<noteq> [] \<and> trim x = x \<and> c \<notin> set x"

lemma split_on_parts: "list_all (\<lambda>x. c \<notin> set x) (split_on c s)"
  by (induction s) (auto split: list.split)

lemma set_trim: "set (trim s) \<subseteq> set s"
  unfolding trim_def by (metis set_dropWhileD set_rev subsetI)

lemma trim_parts_ok: "list_all (entry_ok c) (trim_parts c s)"
  using split_on_parts [of c s] set_trim by (fastforce simp: trim_parts_def entry_ok_def list_all_iff)

lemma trim_parts_join:
  assumes "list_all (entry_ok c) xs" "list_all is_space ws" "c \<notin> set ws"
  shows "trim_parts c (js_join (c # ws) xs) = xs"
  using assms(1)
proof (induction xs)
  case (Cons x xs)
  show ?case
  proof (cases xs)
    case more: (Cons y zs)
    let ?s = "js_join (c # ws) xs"
    obtain p ps where "split_on c ?s = p # ps" "split_on c (ws @ ?s) = (ws @ p) # ps"
      using split_on_spaces [OF assms(2,3), of ?s] by blast
    then have "trim_parts c (js_join (c # ws) (x # xs)) = x # trim_parts c ?s"
      using Cons.prems trim_spaces [OF assms(2)] more
      by (simp add: trim_parts_def split_on_append entry_ok_def)
    then show ?thesis using Cons.IH Cons.prems by simp
  qed (use Cons.prems in \<open>simp add: trim_parts_def split_on_plain entry_ok_def\<close>)
qed (simp add: trim_parts_def)

definition lower_latin :: "char \<Rightarrow> char" where
  "lower_latin c = (let n = of_char c :: nat in
     if 65 \<le> n \<and> n \<le> 90 \<or> 192 \<le> n \<and> n \<le> 222 \<and> n \<noteq> 215 then char_of (n + 32) else c)"

definition to_lower :: "string \<Rightarrow> string" where
  "to_lower s = map lower_latin s"

definition upper_latin :: "char \<Rightarrow> char" where
  "upper_latin c = (let n = of_char c :: nat in
     if 97 \<le> n \<and> n \<le> 122 \<or> 224 \<le> n \<and> n \<le> 254 \<and> n \<noteq> 247 then char_of (n - 32) else c)"

definition to_upper :: "string \<Rightarrow> string" where
  "to_upper s = map upper_latin s"

definition starts_with :: "string \<Rightarrow> string \<Rightarrow> bool" where
  "starts_with p s \<longleftrightarrow> take (length p) s = p"

fun includes_str :: "string \<Rightarrow> string \<Rightarrow> bool" where
  "includes_str p [] = (p = [])"
| "includes_str p (c # s) = (starts_with p (c # s) \<or> includes_str p s)"

text \<open>\<open>s.replace(/\/+$/, '')\<close>, and an environment variable with its default.\<close>

definition strip_slashes :: "string \<Rightarrow> string" where
  "strip_slashes s = rev (dropWhile (\<lambda>c. c = CHR ''/'') (rev s))"

definition get_env :: "(string \<Rightarrow> string option) \<Rightarrow> string \<Rightarrow> string \<Rightarrow> string" where
  "get_env env key fallback = (case env key of Some v \<Rightarrow> str_or v fallback | None \<Rightarrow> fallback)"

text \<open>Decimal numerals, and \<open>String(v)\<close> (the digits of a fraction are the parameter \<open>fr\<close>).\<close>

fun decimal :: "nat \<Rightarrow> string" where
  "decimal n = (if n < 10 then [char_of (48 + n)] else decimal (n div 10) @ [char_of (48 + n mod 10)])"

declare decimal.simps [simp del]

definition int_string :: "int \<Rightarrow> string" where
  "int_string i = (if i < 0 then ''-'' @ decimal (nat (- i)) else decimal (nat i))"

text \<open>\<open>s.padStart(2, '0')\<close>.\<close>

definition pad2 :: "string \<Rightarrow> string" where
  "pad2 s = replicate (2 - length s) (CHR ''0'') @ s"

lemma decimal_small: "n < 10 \<Longrightarrow> decimal n = [char_of (48 + n)]"
  by (simp add: decimal.simps)

lemma length_decimal2: "n < 60 \<Longrightarrow> length (pad2 (decimal n)) = 2"
  by (cases "n < 10") (simp_all add: pad2_def decimal.simps [of n] decimal_small)

text \<open>\<open>Math.round\<close>.\<close>

definition js_round :: "rat \<Rightarrow> int" where
  "js_round q = \<lfloor>q + 1 / 2\<rfloor>"

fun js_string :: "(rat \<Rightarrow> string) \<Rightarrow> jsval \<Rightarrow> string" where
  "js_string fr JUndef = ''undefined''"
| "js_string fr JNull = ''null''"
| "js_string fr (JBool b) = (if b then ''true'' else ''false'')"
| "js_string fr (JNum n) = int_string n"
| "js_string fr (JFrac q) = fr q"
| "js_string fr JNaN = ''NaN''"
| "js_string fr (JInf neg) = (if neg then ''-Infinity'' else ''Infinity'')"
| "js_string fr (JStr s) = s"
| "js_string fr (JArr vs) = js_join '','' (map (\<lambda>v. if nullish v then [] else js_string fr v) vs)"
| "js_string fr (JObj _) = ''[object Object]''"

text \<open>\<open>v.trim()\<close>; a list shown as one text, and a text read as a list.\<close>

fun trim_of :: "jsval \<Rightarrow> string ext" where
  "trim_of (JStr s) = Ret (trim s)"
| "trim_of _ = Throw ''trim is not a function''"

definition comma_text :: "(rat \<Rightarrow> string) \<Rightarrow> jsval \<Rightarrow> string" where
  "comma_text fr v = (case v of
       JArr vs \<Rightarrow> js_join '', '' (map (\<lambda>x. if nullish x then [] else js_string fr x) vs) | _ \<Rightarrow> [])"

definition comma_list :: "string \<Rightarrow> string list" where
  "comma_list s = trim_parts (CHR '','') s"

section \<open>Ordered maps\<close>

text \<open>
  A JavaScript \<open>Map\<close> keeps its keys in insertion order and overwrites a value in place: an
  association list with \<open>AList.update\<close> and \<open>AList.delete\<close>. The interface the components use it
  through is the locale \<open>keyed_store\<close>.
\<close>

type_synonym ('k, 'v) jsmap = "('k \<times> 'v) list"

definition jm_get :: "('k, 'v) jsmap \<Rightarrow> 'k \<Rightarrow> 'v option" where
  "jm_get m k = map_of m k"

definition jm_set :: "'k \<Rightarrow> 'v \<Rightarrow> ('k, 'v) jsmap \<Rightarrow> ('k, 'v) jsmap" where
  "jm_set k v m = AList.update k v m"

definition jm_delete :: "'k \<Rightarrow> ('k, 'v) jsmap \<Rightarrow> ('k, 'v) jsmap" where
  "jm_delete k m = AList.delete k m"

definition jm_keys :: "('k, 'v) jsmap \<Rightarrow> 'k list" where
  "jm_keys m = map fst m"

locale keyed_store =
  fixes lookup :: "'m \<Rightarrow> 'k \<Rightarrow> 'v option"
    and insert_key :: "'k \<Rightarrow> 'v \<Rightarrow> 'm \<Rightarrow> 'm"
    and remove_key :: "'k \<Rightarrow> 'm \<Rightarrow> 'm"
  assumes lookup_insert: "lookup (insert_key k v m) k' = (if k' = k then Some v else lookup m k')"
    and lookup_remove: "lookup (remove_key k m) k' = (if k' = k then None else lookup m k')"
begin

lemma remove_insert: "lookup (remove_key k (insert_key k v m)) = lookup (remove_key k m)"
  by (rule ext) (simp add: lookup_insert lookup_remove)

lemma insert_other: "k' \<noteq> k \<Longrightarrow> lookup (insert_key k v m) k' = lookup m k'"
  by (simp add: lookup_insert)

lemma remove_shrinks: "lookup (remove_key k m) k' = Some v \<Longrightarrow> lookup m k' = Some v \<and> k' \<noteq> k"
  by (simp add: lookup_remove split: if_splits)

end

interpretation jm: keyed_store jm_get jm_set jm_delete
  by unfold_locales (auto simp: jm_get_def jm_set_def jm_delete_def update_conv' delete_conv')

lemma jm_get_Nil [simp]: "jm_get [] k = None"
  by (simp add: jm_get_def)

lemma jm_get_set [simp]: "jm_get (jm_set k v m) k' = (if k' = k then Some v else jm_get m k')"
  by (rule jm.lookup_insert)

lemma jm_get_delete [simp]: "jm_get (jm_delete k m) k' = (if k' = k then None else jm_get m k')"
  by (rule jm.lookup_remove)

lemma jm_keys_set: "set (jm_keys (jm_set k v m)) = insert k (set (jm_keys m))"
  by (auto simp: jm_keys_def jm_set_def update_keys)

lemma jm_keys_delete: "set (jm_keys (jm_delete k m)) = set (jm_keys m) - {k}"
  by (auto simp: jm_keys_def jm_delete_def delete_keys)

lemma jm_distinct_set: "distinct (jm_keys m) \<Longrightarrow> distinct (jm_keys (jm_set k v m))"
  by (simp add: jm_keys_def jm_set_def distinct_update)

lemma jm_distinct_delete: "distinct (jm_keys m) \<Longrightarrow> distinct (jm_keys (jm_delete k m))"
  by (simp add: jm_keys_def jm_delete_def distinct_delete)

lemma jm_get_in: "distinct (jm_keys m) \<Longrightarrow> jm_get m k = Some v \<longleftrightarrow> (k, v) \<in> set m"
  by (simp add: jm_get_def jm_keys_def)

lemma jm_get_SomeD: "jm_get m k = Some v \<Longrightarrow> (k, v) \<in> set m"
  by (simp add: jm_get_def map_of_SomeD)

lemma jm_get_None: "jm_get m k = None \<longleftrightarrow> k \<notin> set (jm_keys m)"
  by (simp add: jm_get_def jm_keys_def map_of_eq_None_iff)

lemma jm_empty_iff: "m = [] \<longleftrightarrow> (\<forall>k. jm_get m k = None)"
  by (auto simp: jm_get_None jm_keys_def)

section \<open>Machines with an invariant\<close>

text \<open>
  A hook or a controller of the program is a state and one total step per event it handles. Its
  runs are folds of the step over the events in the order they are delivered.
\<close>

definition run :: "('s \<Rightarrow> 'e \<Rightarrow> 's) \<Rightarrow> 's \<Rightarrow> 'e list \<Rightarrow> 's" where
  "run step s es = foldl step s es"

lemma run_Nil [simp]: "run step s [] = s"
  by (simp add: run_def)

lemma run_Cons [simp]: "run step s (e # es) = run step (step s e) es"
  by (simp add: run_def)

lemma run_append: "run step s (es @ fs) = run step (run step s es) fs"
  by (simp add: run_def)

locale machine =
  fixes step :: "'s \<Rightarrow> 'e \<Rightarrow> 's"
    and inv :: "'s \<Rightarrow> bool"
  assumes inv_step: "inv s \<Longrightarrow> inv (step s e)"
begin

lemma inv_run: "inv s \<Longrightarrow> inv (run step s es)"
  by (induction es arbitrary: s) (auto intro: inv_step)

lemma inv_run_prefix: "inv s \<Longrightarrow> inv (run step s (take n es))"
  by (rule inv_run)

end

section \<open>Objects and HTTP messages\<close>

text \<open>\<open>{...a, ...b}\<close>: the fields of \<open>a\<close>, overwritten or extended by those of \<open>b\<close>.\<close>

definition js_merge :: "(string \<times> jsval) list \<Rightarrow> (string \<times> jsval) list \<Rightarrow> (string \<times> jsval) list" where
  "js_merge a b = fold (\<lambda>(k, v) m. jm_set k v m) b a"

fun obj_fields :: "jsval \<Rightarrow> (string \<times> jsval) list" where
  "obj_fields (JObj kvs) = kvs"
| "obj_fields _ = []"

text \<open>\<open>{...a, ...v}\<close> for an arbitrary value \<open>v\<close>: arrays and strings spread by index, other
primitives to nothing.\<close>

fun spread :: "jsval \<Rightarrow> (string \<times> jsval) list" where
  "spread (JObj kvs) = kvs"
| "spread (JArr vs) = zip (map decimal [0..<length vs]) vs"
| "spread (JStr s) = zip (map decimal [0..<length s]) (map (\<lambda>c. JStr [c]) s)"
| "spread _ = []"

definition set_field :: "string \<Rightarrow> jsval \<Rightarrow> jsval \<Rightarrow> jsval" where
  "set_field k v ob = JObj (jm_set k v (obj_fields ob))"

lemma get_obj_fields: "get (JObj kvs) k = (case jm_get kvs k of Some v \<Rightarrow> v | None \<Rightarrow> JUndef)"
  by (simp add: jm_get_def)

lemma get_set_field [simp]:
  "is_object ob \<Longrightarrow> get (set_field k v ob) k' = (if k' = k then v else get (JObj (obj_fields ob)) k')"
  by (simp add: set_field_def get_obj_fields del: get.simps)

lemma js_merge_Nil [simp]: "js_merge a [] = a"
  by (simp add: js_merge_def)

lemma js_merge_snoc: "js_merge a (b @ [(k, v)]) = jm_set k v (js_merge a b)"
  by (simp add: js_merge_def)

lemma jm_get_merge_other: "k \<notin> fst ` set b \<Longrightarrow> jm_get (js_merge a b) k = jm_get a k"
  unfolding js_merge_def by (induction b arbitrary: a) auto

lemma jm_get_merge:
  "distinct (map fst b) \<Longrightarrow> (k, v) \<in> set b \<Longrightarrow> jm_get (js_merge a b) k = Some v"
proof (induction b arbitrary: a)
  case Nil
  then show ?case by simp
next
  case (Cons p b)
  obtain k' v' where p: "p = (k', v')" by (cases p)
  show ?case
  proof (cases "(k, v) \<in> set b")
    case True
    then show ?thesis using Cons p by (simp add: js_merge_def)
  next
    case False
    then have "k = k'" "v = v'" using Cons.prems p by auto
    then have "k \<notin> fst ` set b" using Cons.prems(1) p by simp
    then show ?thesis using jm_get_merge_other [of k b "jm_set k v a"] p \<open>k = k'\<close> \<open>v = v'\<close>
      by (simp add: js_merge_def)
  qed
qed

lemma jm_get_merge_mono: "jm_get a k \<noteq> None \<Longrightarrow> jm_get (js_merge a b) k \<noteq> None"
  unfolding js_merge_def by (induction b arbitrary: a) (auto simp: split_beta)

text \<open>
  HTTP messages as \<open>fetch\<close> and the route handlers see them: header names in lower case, the URL
  already split, a body that \<open>json()\<close> parses or rejects.
\<close>

record http_request =
  hq_method :: string
  hq_urlOrigin :: string
  hq_query :: "(string \<times> string) list"
  hq_headers :: "(string, string) jsmap"
  hq_body :: "jsval ext"

datatype http_body = Json jsval | Raw string

record http_response =
  hr_status :: int
  hr_headers :: "(string, string) jsmap"
  hr_body :: http_body

text \<open>What \<open>fetch\<close> answers: a status and a body that \<open>json()\<close> parses or rejects; \<open>res.json().catch(() => d)\<close>.\<close>

record reply =
  rp_status :: int
  rp_json :: "jsval ext"

definition reply_ok :: "reply \<Rightarrow> bool" where
  "reply_ok r \<longleftrightarrow> 200 \<le> rp_status r \<and> rp_status r \<le> 299"

definition json_or :: "jsval \<Rightarrow> reply \<Rightarrow> jsval" where
  "json_or d r = (case rp_json r of Ret v \<Rightarrow> v | Throw _ \<Rightarrow> d)"

definition json_response :: "int \<Rightarrow> jsval \<Rightarrow> http_response" where
  "json_response st v = \<lparr>hr_status = st, hr_headers = [], hr_body = Json v\<rparr>"

definition error_json :: "string \<Rightarrow> string \<Rightarrow> jsval" where
  "error_json code msg = JObj [(''status'', JStr ''error''), (''error_code'', JStr code), (''error_message'', JStr msg)]"

end
