(* ===== verification/Call_Controller.thy ===== *)
theory Call_Controller
  imports Prelude
begin

text \<open>
  The inbound-call controller of \<open>connector/call-controller.mjs\<close>, operation by operation.

  The injected adapters (\<open>claimCall\<close>, \<open>transitionCall\<close>, \<dots>) are fields of the record \<open>deps\<close>:
  functions of the request and of an arbitrary state \<open>'w\<close> of the outside world, so every sequence
  of answers an adapter can give is covered. The controller object is the record \<open>ctl\<close>. Entries
  are kept in a store indexed by reference, because the closures of the code hold an entry after
  it has left the \<open>calls\<close> map. The field \<open>trace\<close> records the external calls made so far, newest
  first; no operation reads it.
\<close>

section \<open>Data\<close>

datatype call_state = Claimed | Connecting | Active | Ending | Ended | Failed

datatype failure_action = Disconnect | Transfer

record binding =
  bd_companyId :: string
  bd_authSubject :: string
  bd_timezone :: string
  bd_profileVersion :: int
  bd_integrationId :: string
  bd_routePointDn :: string
  bd_dids :: "string list"
  bd_transferDestinations :: "string list"
  bd_failureAction :: failure_action
  bd_failureDestination :: "string option"

record entry =
  en_callId :: string
  en_claimToken :: string
  en_roomName :: string
  en_participantId :: int
  en_state :: call_state
  en_sessionId :: string
  en_dispatchId :: "string option"
  en_closeMedia :: bool
  en_leaseTimer :: bool
  en_renewFailures :: nat
  en_leaseLost :: bool

datatype reason =
    Invalid_event | Controller_stopping | Unsupported_event | Invalid_route_point_event
  | Unsupported_direction | Unconfigured_did | Claim_failed | Duplicate_event | Call_not_claimed
  | Claimed_call_invalid | Invalid_media_failure | Media_failure_call_not_tracked
  | Media_failure_call_terminal | Media_failure_state_update_failed
  | Media_failure_cleanup_incomplete | Media_failure_fallback_incomplete
  | Call_failed_after_media_fallback | Invalid_call_hangup | Call_not_tracked | Already_terminal
  | End_transition_lost | Cleanup_incomplete | Call_ended_normally | Shutdown_transition_lost
  | Shutdown_cleanup_incomplete | Shutdown_fallback_incomplete | Shutdown_state_update_failed
  | Call_ended_for_shutdown | Claim_transition_lost | Call_active | State_update_failed
  | Failure_fallback_incomplete | Claim_transition_failed | Media_bridge_failed
  | Active_transition_lost | Dispatch_failed | Call_start_failed | Invalid_end_event | Call_ended
  | End_transition_failed | Lease_renewal_failed | Lease_renewal_skipped | Lease_renewal_retry
  | Lease_renewed | Lease_lost_cleanup_incomplete | Lease_lost_fallback_incomplete
  | Lease_lost_state_update_failed | Call_ended_after_lease_loss

definition accepted :: "reason \<Rightarrow> bool" where
  "accepted r \<longleftrightarrow> r = Call_active"

section \<open>Requests to the injected adapters\<close>

record claim_request =
  cq_companyId :: string
  cq_integrationId :: string
  cq_pbxCallId :: string
  cq_eventId :: string
  cq_eventType :: string
  cq_did :: string
  cq_direction :: string

record transition_request =
  tq_companyId :: string
  tq_pbxCallId :: string
  tq_claimToken :: string
  tq_expectedState :: call_state
  tq_newState :: call_state
  tq_dispatchId :: "string option"

record renew_request =
  rq_companyId :: string
  rq_integrationId :: string
  rq_pbxCallId :: string
  rq_claimToken :: string
  rq_sessionId :: string

record dispatch_request =
  dq_companyId :: string
  dq_authSubject :: string
  dq_timezone :: string
  dq_profileVersion :: int
  dq_integrationId :: string
  dq_sessionId :: string
  dq_roomName :: string
  dq_userIdentity :: string

record media_request =
  mq_sessionId :: string
  mq_roomName :: string
  mq_dispatchId :: string
  mq_pbxParticipantId :: int

record stop_request =
  sq_companyId :: string
  sq_integrationId :: string
  sq_sessionId :: string
  sq_roomName :: string
  sq_dispatchId :: string

record fallback_request =
  fq_companyId :: string
  fq_integrationId :: string
  fq_pbxParticipantId :: int
  fq_sessionId :: string
  fq_reason :: jsval
  fq_failureAction :: failure_action
  fq_failureDestination :: "string option"

text \<open>
  The adapters. \<open>transitionCall\<close> and \<open>renewCallLease\<close> yield the truth value the code tests,
  \<open>handlePbxFallback\<close> whether the answer is \<open>=== true\<close>, \<open>attachMedia\<close> whether the answer is an
  object with a \<open>close\<close> function; \<open>closeMedia\<close> is a call of that function for a session.
\<close>

record 'w deps =
  claimCall :: "claim_request \<Rightarrow> 'w \<Rightarrow> jsval ext \<times> 'w"
  transitionCall :: "transition_request \<Rightarrow> 'w \<Rightarrow> bool ext \<times> 'w"
  renewCallLease :: "renew_request \<Rightarrow> 'w \<Rightarrow> bool ext \<times> 'w"
  dispatchAgent :: "dispatch_request \<Rightarrow> 'w \<Rightarrow> jsval ext \<times> 'w"
  attachMedia :: "media_request \<Rightarrow> 'w \<Rightarrow> bool ext \<times> 'w"
  closeMedia :: "string \<Rightarrow> 'w \<Rightarrow> unit ext \<times> 'w"
  stopAgent :: "stop_request \<Rightarrow> 'w \<Rightarrow> unit ext \<times> 'w"
  handlePbxFallback :: "fallback_request \<Rightarrow> 'w \<Rightarrow> bool ext \<times> 'w"
  randomUUID :: "'w \<Rightarrow> string \<times> 'w"

datatype act =
    AClaim claim_request "jsval ext"
  | ABestEffort transition_request "bool ext"
  | ATransition nat transition_request "bool ext"
  | ARenew nat renew_request "bool ext"
  | ADispatch nat dispatch_request "jsval ext"
  | AAttach nat media_request "bool ext"
  | ACloseMedia nat string "unit ext"
  | AStopAgent nat stop_request "unit ext"
  | AFallback nat fallback_request "bool ext"
  | ADecision reason

record 'w ctl =
  stopping :: bool
  calls :: "(string, nat) jsmap"
  heap :: "nat \<Rightarrow> entry"
  next_ref :: nat
  world :: 'w
  trace :: "act list"

definition blank_entry :: entry where
  "blank_entry = \<lparr>en_callId = [], en_claimToken = [], en_roomName = [], en_participantId = 0,
     en_state = Claimed, en_sessionId = [], en_dispatchId = None, en_closeMedia = False,
     en_leaseTimer = False, en_renewFailures = 0, en_leaseLost = False\<rparr>"

definition new_ctl :: "'w \<Rightarrow> 'w ctl" where
  "new_ctl w = \<lparr>stopping = False, calls = [], heap = (\<lambda>_. blank_entry), next_ref = 0, world = w,
     trace = []\<rparr>"

section \<open>The constructor's checks\<close>

definition is_uuid :: "string \<Rightarrow> bool" where
  "is_uuid s \<longleftrightarrow> length s = 36
     \<and> (\<forall>i \<in> set [0..<36]. if i \<in> {8, 13, 18, 23} then s ! i = CHR ''-'' else is_hex (s ! i))
     \<and> s ! 14 \<in> set ''12345678'' \<and> s ! 19 \<in> set ''89abAB''"

fun raw_strings :: "nat \<Rightarrow> jsval list \<Rightarrow> string list" where
  "raw_strings n [] = []"
| "raw_strings n (v # vs) =
     (case trimmed v n of None \<Rightarrow> raw_strings n vs | Some s \<Rightarrow> s # raw_strings n vs)"

definition failure_action_of :: "jsval \<Rightarrow> failure_action option" where
  "failure_action_of v =
     (if v = JStr ''disconnect'' then Some Disconnect
      else if v = JStr ''transfer'' then Some Transfer else None)"

text \<open>
  \<open>isIanaTimezone\<close> asks \<open>Intl.DateTimeFormat\<close>, a table of the runtime: the parameter \<open>iana\<close>.
  The tests that the adapters are functions hold by their types. A company id that is not a
  string is refused (the regular expression would first convert it to one).
\<close>

definition new_binding :: "(string \<Rightarrow> bool) \<Rightarrow> jsval \<Rightarrow> string + binding" where
  "new_binding iana tb =
     (let company = the_str (get tb ''companyId'');
          subj = trimmed (get tb ''authSubject'') 255;
          tz = trimmed (get tb ''timezone'') 128;
          pv = the_int (get tb ''profileVersion'');
          integ = trimmed (get tb ''integrationId'') 255;
          rp = trimmed (get tb ''routePointDn'') 128;
          rawDids = the_arr (get tb ''dids'');
          transfers = map_option (raw_strings 128) (the_arr (get tb ''transferDestinations''));
          dids = raw_strings 64 (the rawDids);
          fa = failure_action_of (get tb ''failureAction'');
          dest = trimmed (get tb ''failureDestination'') 128
      in if company = None \<or> \<not> is_uuid (the company) then Inl ''A verified tenant binding is required''
         else if subj = None then Inl ''A verified auth subject is required''
         else if tz = None \<or> \<not> iana (the tz) then Inl ''A valid tenant timezone is required''
         else if pv = None \<or> the pv < 1 then Inl ''A published profile version is required''
         else if integ = None \<or> rp = None \<or> rawDids = None
         then Inl ''A tenant-bound active integration is required''
         else if dids = [] then Inl ''At least one tenant-bound inbound DID is required''
         else if transfers = None \<or> fa = None
         then Inl ''An explicit tenant 3CX failure policy is required''
         else if fa = Some Disconnect \<and> \<not> nullish (get tb ''failureDestination'')
         then Inl ''Disconnect failure policy cannot include a destination''
         else if fa = Some Transfer \<and> (dest = None \<or> the dest \<notin> set (the transfers))
         then Inl ''Transfer failure destination must be allowlisted for this tenant''
         else Inr \<lparr>bd_companyId = the company, bd_authSubject = the subj, bd_timezone = the tz,
                bd_profileVersion = the pv, bd_integrationId = the integ, bd_routePointDn = the rp,
                bd_dids = dids, bd_transferDestinations = the transfers,
                bd_failureAction = the fa, bd_failureDestination = dest\<rparr>)"

definition lease_interval_ok :: "jsval \<Rightarrow> bool" where
  "lease_interval_ok v \<longleftrightarrow> (case v of JNum n \<Rightarrow> 100 \<le> n \<and> n \<le> 300000 | _ \<Rightarrow> False)"

section \<open>State updates and external calls\<close>

definition upd :: "nat \<Rightarrow> (entry \<Rightarrow> entry) \<Rightarrow> 'w ctl \<Rightarrow> 'w ctl" where
  "upd i f c = c\<lparr>heap := (heap c)(i := f (heap c i))\<rparr>"

definition log_act :: "act \<Rightarrow> 'w ctl \<Rightarrow> 'w ctl" where
  "log_act a c = c\<lparr>trace := a # trace c\<rparr>"

definition ext_call :: "('w \<Rightarrow> 'a \<times> 'w) \<Rightarrow> ('a \<Rightarrow> act) \<Rightarrow> 'w ctl \<Rightarrow> 'a \<times> 'w ctl" where
  "ext_call f mk c = (case f (world c) of (r, w) \<Rightarrow> (r, c\<lparr>world := w, trace := mk r # trace c\<rparr>))"

text \<open>\<open>#decision\<close>: report the reason (a throwing \<open>onDecision\<close> is swallowed) and return it.\<close>

definition decide :: "reason \<Rightarrow> 'w ctl \<Rightarrow> reason \<times> 'w ctl" where
  "decide r c = (r, log_act (ADecision r) c)"

definition forget :: "nat \<Rightarrow> 'w ctl \<Rightarrow> 'w ctl" where
  "forget i c = c\<lparr>calls := jm_delete (en_callId (heap c i)) (calls c)\<rparr>"

definition clear_lease_renewal :: "nat \<Rightarrow> 'w ctl \<Rightarrow> 'w ctl" where
  "clear_lease_renewal i c = upd i (\<lambda>e. e\<lparr>en_leaseTimer := False\<rparr>) c"

definition schedule_lease_renewal :: "nat \<Rightarrow> 'w ctl \<Rightarrow> 'w ctl" where
  "schedule_lease_renewal i c =
     (let e = heap c i in
      if en_state e \<noteq> Active \<or> en_leaseTimer e \<or> en_leaseLost e then c
      else upd i (\<lambda>e. e\<lparr>en_leaseTimer := True\<rparr>) c)"

definition transition_req :: "binding \<Rightarrow> entry \<Rightarrow> call_state \<Rightarrow> string option \<Rightarrow> transition_request" where
  "transition_req b e new disp =
     \<lparr>tq_companyId = bd_companyId b, tq_pbxCallId = en_callId e, tq_claimToken = en_claimToken e,
      tq_expectedState = en_state e, tq_newState = new, tq_dispatchId = disp\<rparr>"

definition transition ::
    "'w deps \<Rightarrow> binding \<Rightarrow> nat \<Rightarrow> call_state \<Rightarrow> string option \<Rightarrow> 'w ctl \<Rightarrow> bool ext \<times> 'w ctl" where
  "transition d b i new disp c =
     (let req = transition_req b (heap c i) new disp in
      case ext_call (transitionCall d req) (ATransition i req) c of
        (r, c1) \<Rightarrow> (r, if r = Ret True then upd i (\<lambda>e. e\<lparr>en_state := new\<rparr>) c1 else c1))"

definition fallback_req :: "binding \<Rightarrow> entry \<Rightarrow> jsval \<Rightarrow> fallback_request" where
  "fallback_req b e why =
     \<lparr>fq_companyId = bd_companyId b, fq_integrationId = bd_integrationId b,
      fq_pbxParticipantId = en_participantId e, fq_sessionId = en_sessionId e, fq_reason = why,
      fq_failureAction = bd_failureAction b,
      fq_failureDestination =
        (if bd_failureAction b = Transfer then bd_failureDestination b else None)\<rparr>"

text \<open>\<open>await handlePbxFallback(req) === true\<close> inside \<open>try\<close>: a rejection counts as incomplete.\<close>

definition pbx_fallback :: "'w deps \<Rightarrow> nat \<Rightarrow> fallback_request \<Rightarrow> 'w ctl \<Rightarrow> bool \<times> 'w ctl" where
  "pbx_fallback d i req c =
     (case ext_call (handlePbxFallback d req) (AFallback i req) c of (r, c1) \<Rightarrow> (r = Ret True, c1))"

definition close_media_step :: "'w deps \<Rightarrow> nat \<Rightarrow> 'w ctl \<Rightarrow> bool \<times> 'w ctl" where
  "close_media_step d i c =
     (if en_closeMedia (heap c i)
      then (let s = en_sessionId (heap c i) in
            case ext_call (closeMedia d s) (ACloseMedia i s) c of
              (Ret _, c1) \<Rightarrow> (True, upd i (\<lambda>e. e\<lparr>en_closeMedia := False\<rparr>) c1)
            | (Throw _, c1) \<Rightarrow> (False, c1))
      else (True, c))"

definition stop_agent_step :: "'w deps \<Rightarrow> binding \<Rightarrow> nat \<Rightarrow> 'w ctl \<Rightarrow> bool \<times> 'w ctl" where
  "stop_agent_step d b i c =
     (case en_dispatchId (heap c i) of
        None \<Rightarrow> (True, c)
      | Some disp \<Rightarrow>
          let e = heap c i;
              req = \<lparr>sq_companyId = bd_companyId b, sq_integrationId = bd_integrationId b,
                     sq_sessionId = en_sessionId e, sq_roomName = en_roomName e,
                     sq_dispatchId = disp\<rparr>
          in (case ext_call (stopAgent d req) (AStopAgent i req) c of
                (Ret _, c1) \<Rightarrow> (True, upd i (\<lambda>e. e\<lparr>en_dispatchId := None\<rparr>) c1)
              | (Throw _, c1) \<Rightarrow> (False, c1)))"

definition cleanup :: "'w deps \<Rightarrow> binding \<Rightarrow> nat \<Rightarrow> 'w ctl \<Rightarrow> bool \<times> 'w ctl" where
  "cleanup d b i c =
     (case close_media_step d i (clear_lease_renewal i c) of
        (ok1, c1) \<Rightarrow> (case stop_agent_step d b i c1 of (ok2, c2) \<Rightarrow> (ok1 \<and> ok2, c2)))"

section \<open>Starting a call\<close>

datatype stage = SClaim | SDispatch | SMedia | SActivation

definition classify_failure :: "stage \<Rightarrow> string \<Rightarrow> reason" where
  "classify_failure st msg =
     (if st = SClaim then Claim_transition_failed
      else if st = SMedia then Media_bridge_failed
      else if st = SActivation \<and> msg = ''active_transition_lost'' then Active_transition_lost
      else if st = SDispatch then Dispatch_failed
      else Call_start_failed)"

definition failure_text :: "reason \<Rightarrow> string" where
  "failure_text r =
     (case r of Claim_transition_failed \<Rightarrow> ''claim_transition_failed''
      | Media_bridge_failed \<Rightarrow> ''media_bridge_failed''
      | Active_transition_lost \<Rightarrow> ''active_transition_lost''
      | Dispatch_failed \<Rightarrow> ''dispatch_failed''
      | _ \<Rightarrow> ''call_start_failed'')"

text \<open>The \<open>catch\<close> block of \<open>#startCall\<close>.\<close>

definition start_failed :: "'w deps \<Rightarrow> binding \<Rightarrow> nat \<Rightarrow> stage \<Rightarrow> string \<Rightarrow> 'w ctl \<Rightarrow> reason \<times> 'w ctl" where
  "start_failed d b i st msg c =
     (let why = classify_failure st msg in
      case cleanup d b i c of
        (False, c1) \<Rightarrow> decide Cleanup_incomplete (snd (transition d b i Ending None c1))
      | (True, c1) \<Rightarrow>
          (case transition d b i Ending None c1 of
             (r, c2) \<Rightarrow>
               if r \<noteq> Ret True then decide State_update_failed c2
               else (case pbx_fallback d i
                        (fallback_req b (heap c2 i) (JStr (failure_text why))) c2 of
                      (False, c3) \<Rightarrow> decide Failure_fallback_incomplete c3
                    | (True, c3) \<Rightarrow>
                        (case transition d b i Failed None c3 of
                           (r', c4) \<Rightarrow>
                             if r' = Ret True then decide why (forget i c4)
                             else decide State_update_failed c4))))"

definition dispatch_req :: "binding \<Rightarrow> entry \<Rightarrow> dispatch_request" where
  "dispatch_req b e =
     \<lparr>dq_companyId = bd_companyId b, dq_authSubject = bd_authSubject b,
      dq_timezone = bd_timezone b, dq_profileVersion = bd_profileVersion b,
      dq_integrationId = bd_integrationId b, dq_sessionId = en_sessionId e,
      dq_roomName = en_roomName e, dq_userIdentity = ''threecx-'' @ en_sessionId e\<rparr>"

definition media_req :: "entry \<Rightarrow> media_request" where
  "media_req e =
     \<lparr>mq_sessionId = en_sessionId e, mq_roomName = en_roomName e,
      mq_dispatchId = the (en_dispatchId e), mq_pbxParticipantId = en_participantId e\<rparr>"

text \<open>\<open>#startCall\<close>: the \<open>try\<close> block, leaving to \<open>start_failed\<close> where the code throws.\<close>

definition start_activate :: "'w deps \<Rightarrow> binding \<Rightarrow> nat \<Rightarrow> 'w ctl \<Rightarrow> reason \<times> 'w ctl" where
  "start_activate d b i c =
     (case transition d b i Active (en_dispatchId (heap c i)) c of
        (Ret True, c1) \<Rightarrow> decide Call_active (schedule_lease_renewal i c1)
      | (Ret False, c1) \<Rightarrow> start_failed d b i SActivation ''active_transition_lost'' c1
      | (Throw m, c1) \<Rightarrow> start_failed d b i SActivation m c1)"

definition start_media :: "'w deps \<Rightarrow> binding \<Rightarrow> nat \<Rightarrow> 'w ctl \<Rightarrow> reason \<times> 'w ctl" where
  "start_media d b i c =
     (let req = media_req (heap c i) in
      case ext_call (attachMedia d req) (AAttach i req) c of
        (Ret True, c1) \<Rightarrow> start_activate d b i (upd i (\<lambda>e. e\<lparr>en_closeMedia := True\<rparr>) c1)
      | (Ret False, c1) \<Rightarrow> start_failed d b i SMedia ''media_bridge_not_ready'' c1
      | (Throw m, c1) \<Rightarrow> start_failed d b i SMedia m c1)"

definition start_call :: "'w deps \<Rightarrow> binding \<Rightarrow> nat \<Rightarrow> 'w ctl \<Rightarrow> reason \<times> 'w ctl" where
  "start_call d b i c =
     (case transition d b i Connecting None c of
        (Throw m, c1) \<Rightarrow> start_failed d b i SClaim m c1
      | (Ret False, c1) \<Rightarrow> decide Claim_transition_lost (forget i (snd (cleanup d b i c1)))
      | (Ret True, c1) \<Rightarrow>
          (let req = dispatch_req b (heap c1 i) in
           case ext_call (dispatchAgent d req) (ADispatch i req) c1 of
             (Throw m, c2) \<Rightarrow> start_failed d b i SDispatch m c2
           | (Ret v, c2) \<Rightarrow>
               (let disp = bounded_string (get v ''dispatchId'') 255;
                    c3 = upd i (\<lambda>e. e\<lparr>en_dispatchId := disp\<rparr>) c2
                in if disp = None then start_failed d b i SDispatch ''dispatch_not_created'' c3
                   else start_media d b i c3)))"

section \<open>Ending a call\<close>

text \<open>
  The operations below run inside \<open>#serialize\<close>. A result \<open>Throw\<close> is a rejected promise: a
  rejecting \<open>transitionCall\<close> is not caught there.
\<close>

definition terminal :: "call_state \<Rightarrow> bool" where
  "terminal s \<longleftrightarrow> s = Ended \<or> s = Failed"

text \<open>\<open>entry.state !== "ending" && !(await this.#transition(entry, "ending"))\<close>\<close>

definition ensure_ending :: "'w deps \<Rightarrow> binding \<Rightarrow> nat \<Rightarrow> 'w ctl \<Rightarrow> bool ext \<times> 'w ctl" where
  "ensure_ending d b i c =
     (if en_state (heap c i) = Ending then (Ret True, c) else transition d b i Ending None c)"

definition ret_decide :: "reason \<Rightarrow> 'w ctl \<Rightarrow> reason ext \<times> 'w ctl" where
  "ret_decide r c = (case decide r c of (r', c') \<Rightarrow> (Ret r', c'))"

definition media_failure_op :: "'w deps \<Rightarrow> binding \<Rightarrow> string \<Rightarrow> nat \<Rightarrow> 'w ctl \<Rightarrow> reason ext \<times> 'w ctl" where
  "media_failure_op d b why i c0 =
     (let c = clear_lease_renewal i c0 in
      if terminal (en_state (heap c i)) then ret_decide Media_failure_call_terminal c
      else (case ensure_ending d b i c of
        (Throw m, c1) \<Rightarrow> (Throw m, c1)
      | (Ret False, c1) \<Rightarrow> ret_decide Media_failure_state_update_failed c1
      | (Ret True, c1) \<Rightarrow> (case cleanup d b i c1 of
          (False, c2) \<Rightarrow> ret_decide Media_failure_cleanup_incomplete c2
        | (True, c2) \<Rightarrow> (case pbx_fallback d i (fallback_req b (heap c2 i) (JStr why)) c2 of
            (False, c3) \<Rightarrow> ret_decide Media_failure_fallback_incomplete c3
          | (True, c3) \<Rightarrow> (case transition d b i Failed None c3 of
              (Throw m, c4) \<Rightarrow> (Throw m, c4)
            | (Ret False, c4) \<Rightarrow> ret_decide Media_failure_state_update_failed c4
            | (Ret True, c4) \<Rightarrow> ret_decide Call_failed_after_media_fallback (forget i c4))))))"

definition hangup_req :: "binding \<Rightarrow> entry \<Rightarrow> jsval \<Rightarrow> fallback_request" where
  "hangup_req b e why =
     \<lparr>fq_companyId = bd_companyId b, fq_integrationId = bd_integrationId b,
      fq_pbxParticipantId = en_participantId e, fq_sessionId = en_sessionId e, fq_reason = why,
      fq_failureAction = Disconnect, fq_failureDestination = None\<rparr>"

definition hangup_op :: "'w deps \<Rightarrow> binding \<Rightarrow> jsval \<Rightarrow> nat \<Rightarrow> 'w ctl \<Rightarrow> reason ext \<times> 'w ctl" where
  "hangup_op d b why i c0 =
     (let c = clear_lease_renewal i c0 in
      if terminal (en_state (heap c i)) then ret_decide Already_terminal c
      else (case ensure_ending d b i c of
        (Throw m, c1) \<Rightarrow> (Throw m, c1)
      | (Ret False, c1) \<Rightarrow> ret_decide End_transition_lost c1
      | (Ret True, c1) \<Rightarrow> (case cleanup d b i c1 of
          (False, c2) \<Rightarrow> ret_decide Cleanup_incomplete c2
        | (True, c2) \<Rightarrow>
            (case transition d b i Ended None
                    (snd (pbx_fallback d i (hangup_req b (heap c2 i) why) c2)) of
              (Throw m, c4) \<Rightarrow> (Throw m, c4)
            | (Ret False, c4) \<Rightarrow> ret_decide End_transition_lost c4
            | (Ret True, c4) \<Rightarrow> ret_decide Call_ended_normally (forget i c4)))))"

definition shutdown_op :: "'w deps \<Rightarrow> binding \<Rightarrow> nat \<Rightarrow> 'w ctl \<Rightarrow> reason ext \<times> 'w ctl" where
  "shutdown_op d b i c0 =
     (let c = clear_lease_renewal i c0; prior = en_state (heap c i) in
      if terminal prior then ret_decide Already_terminal (forget i c)
      else (case (if prior \<noteq> Claimed \<and> prior \<noteq> Ending then transition d b i Ending None c
                  else (Ret True, c)) of
        (Throw m, c1) \<Rightarrow> (Throw m, c1)
      | (Ret False, c1) \<Rightarrow> ret_decide Shutdown_transition_lost c1
      | (Ret True, c1) \<Rightarrow> (case cleanup d b i c1 of
          (False, c2) \<Rightarrow> ret_decide Shutdown_cleanup_incomplete c2
        | (True, c2) \<Rightarrow>
            (case pbx_fallback d i (fallback_req b (heap c2 i) (JStr ''connector_shutdown'')) c2 of
              (False, c3) \<Rightarrow> ret_decide Shutdown_fallback_incomplete c3
            | (True, c3) \<Rightarrow> (case transition d b i Ended None c3 of
                (Throw m, c4) \<Rightarrow> (Throw m, c4)
              | (Ret False, c4) \<Rightarrow> ret_decide Shutdown_state_update_failed c4
              | (Ret True, c4) \<Rightarrow> ret_decide Call_ended_for_shutdown (forget i c4))))))"

text \<open>\<open>#endCall\<close> catches a rejecting transition itself.\<close>

definition end_finish :: "'w deps \<Rightarrow> binding \<Rightarrow> nat \<Rightarrow> 'w ctl \<Rightarrow> reason \<times> 'w ctl" where
  "end_finish d b i c =
     (case transition d b i Ended None c of
        (Throw m, c1) \<Rightarrow> decide End_transition_failed c1
      | (Ret False, c1) \<Rightarrow> decide End_transition_lost c1
      | (Ret True, c1) \<Rightarrow> decide Call_ended (forget i c1))"

definition end_op :: "'w deps \<Rightarrow> binding \<Rightarrow> nat \<Rightarrow> 'w ctl \<Rightarrow> reason \<times> 'w ctl" where
  "end_op d b i c0 =
     (let c = clear_lease_renewal i c0 in
      if terminal (en_state (heap c i)) then decide Already_terminal c
      else if en_state (heap c i) = Claimed then end_finish d b i c
      else (case ensure_ending d b i c of
        (Throw m, c1) \<Rightarrow> decide End_transition_failed c1
      | (Ret False, c1) \<Rightarrow> decide End_transition_lost c1
      | (Ret True, c1) \<Rightarrow> (case cleanup d b i c1 of
          (False, c2) \<Rightarrow> decide Cleanup_incomplete c2
        | (True, c2) \<Rightarrow> end_finish d b i c2)))"

section \<open>Lease renewal\<close>

definition renew_req :: "binding \<Rightarrow> entry \<Rightarrow> renew_request" where
  "renew_req b e =
     \<lparr>rq_companyId = bd_companyId b, rq_integrationId = bd_integrationId b,
      rq_pbxCallId = en_callId e, rq_claimToken = en_claimToken e, rq_sessionId = en_sessionId e\<rparr>"

definition lease_lost :: "'w deps \<Rightarrow> binding \<Rightarrow> nat \<Rightarrow> 'w ctl \<Rightarrow> reason ext \<times> 'w ctl" where
  "lease_lost d b i c0 =
     (let c = clear_lease_renewal i (upd i (\<lambda>e. e\<lparr>en_leaseLost := True\<rparr>) c0) in
      case transition d b i Ending None c of
        (Throw m, c1) \<Rightarrow> (Throw m, c1)
      | (Ret transitioned, c1) \<Rightarrow> (case cleanup d b i c1 of
          (False, c2) \<Rightarrow> ret_decide Lease_lost_cleanup_incomplete c2
        | (True, c2) \<Rightarrow>
            (case pbx_fallback d i
                    (fallback_req b (heap c2 i) (JStr ''call_claim_lease_lost'')) c2 of
              (False, c3) \<Rightarrow> ret_decide Lease_lost_fallback_incomplete c3
            | (True, c3) \<Rightarrow>
                if \<not> transitioned then ret_decide Lease_lost_state_update_failed c3
                else (case transition d b i Ended None c3 of
                  (Throw m, c4) \<Rightarrow> (Throw m, c4)
                | (Ret False, c4) \<Rightarrow> ret_decide Lease_lost_state_update_failed c4
                | (Ret True, c4) \<Rightarrow> ret_decide Call_ended_after_lease_loss (forget i c4)))))"

definition renew_lease :: "'w deps \<Rightarrow> binding \<Rightarrow> nat \<Rightarrow> 'w ctl \<Rightarrow> reason ext \<times> 'w ctl" where
  "renew_lease d b i c =
     (if en_state (heap c i) \<noteq> Active then ret_decide Lease_renewal_skipped c
      else (let req = renew_req b (heap c i) in
        case ext_call (renewCallLease d req) (ARenew i req) c of
          (Ret True, c1) \<Rightarrow>
            ret_decide Lease_renewed (upd i (\<lambda>e. e\<lparr>en_renewFailures := 0\<rparr>) c1)
        | (Ret False, c1) \<Rightarrow> lease_lost d b i c1
        | (Throw _, c1) \<Rightarrow>
            (let c2 = upd i (\<lambda>e. e\<lparr>en_renewFailures := Suc (en_renewFailures e)\<rparr>) c1 in
             if en_renewFailures (heap c2 i) < 2 then ret_decide Lease_renewal_retry c2
             else lease_lost d b i c2)))"

text \<open>
  The timer's callback: the renewal inside the lock, then \<open>.catch(() => decision)\<close>. The
  \<open>.finally\<close> part, \<open>schedule_lease_renewal\<close>, runs in a later turn and is a step of its own.
\<close>

definition renew_task :: "'w deps \<Rightarrow> binding \<Rightarrow> nat \<Rightarrow> 'w ctl \<Rightarrow> reason ext \<times> 'w ctl" where
  "renew_task d b i c =
     (case renew_lease d b i c of
        (Ret r, c1) \<Rightarrow> (Ret r, c1)
      | (Throw _, c1) \<Rightarrow> ret_decide Lease_renewal_failed c1)"

section \<open>Incoming events\<close>

definition lower_char :: "char \<Rightarrow> char" where
  "lower_char c = (case map_of (zip ''ABCDEFGHIJKLMNOPQRSTUVWXYZ'' ''abcdefghijklmnopqrstuvwxyz'') c of
     Some l \<Rightarrow> l | None \<Rightarrow> c)"

text \<open>\<open>/^threecx-[0-9a-f]{32}$/i\<close>\<close>

definition is_room_name :: "string \<Rightarrow> bool" where
  "is_room_name s \<longleftrightarrow> length s = 40 \<and> map lower_char (take 8 s) = ''threecx-''
     \<and> list_all is_hex (drop 8 s)"

definition best_effort_failure ::
    "'w deps \<Rightarrow> binding \<Rightarrow> string \<Rightarrow> string option \<Rightarrow> reason \<Rightarrow> 'w ctl \<Rightarrow> 'w ctl" where
  "best_effort_failure d b callId token why c =
     (case token of
        None \<Rightarrow> c
      | Some t \<Rightarrow>
          let req = \<lparr>tq_companyId = bd_companyId b, tq_pbxCallId = callId, tq_claimToken = t,
                     tq_expectedState = Claimed, tq_newState = Failed, tq_dispatchId = None\<rparr>
          in (case ext_call (transitionCall d req) (ABestEffort req) c of
                (Ret _, c1) \<Rightarrow> c1
              | (Throw _, c1) \<Rightarrow> snd (decide why c1)))"

definition join_fields :: "binding \<Rightarrow> jsval \<Rightarrow> (reason, string \<times> string \<times> string \<times> int) sum" where
  "join_fields b ev =
     (if get ev ''type'' \<noteq> JStr ''routepoint_participant_connected'' then Inl Unsupported_event
      else (case (bounded_string (get ev ''callId'') 255, bounded_string (get ev ''eventId'') 255,
                  bounded_string (get ev ''did'') 64, get ev ''participantId'') of
        (Some callId, Some eventId, Some did, JNum p) \<Rightarrow>
          if p < 1 \<or> get ev ''routePointDn'' \<noteq> JStr (bd_routePointDn b)
          then Inl Invalid_route_point_event
          else if get ev ''direction'' \<noteq> JStr ''inbound'' then Inl Unsupported_direction
          else if did \<notin> set (bd_dids b) then Inl Unconfigured_did
          else Inr (callId, eventId, did, p)
      | _ \<Rightarrow> Inl Invalid_route_point_event))"

definition claim_req :: "binding \<Rightarrow> string \<Rightarrow> string \<Rightarrow> string \<Rightarrow> claim_request" where
  "claim_req b callId eventId did =
     \<lparr>cq_companyId = bd_companyId b, cq_integrationId = bd_integrationId b, cq_pbxCallId = callId,
      cq_eventId = eventId, cq_eventType = ''routepoint_participant_connected'', cq_did = did,
      cq_direction = ''inbound''\<rparr>"

definition new_entry :: "string \<Rightarrow> string \<Rightarrow> string \<Rightarrow> int \<Rightarrow> string \<Rightarrow> entry" where
  "new_entry callId token room p sid =
     blank_entry\<lparr>en_callId := callId, en_claimToken := token, en_roomName := room,
       en_participantId := p, en_sessionId := sid\<rparr>"

text \<open>
  \<open>#handleJoinEvent\<close> up to the creation of the entry: either a decision, or the reference of the
  new entry, whose start is then queued on the entry's lock.
\<close>

definition claim_phase :: "'w deps \<Rightarrow> binding \<Rightarrow> jsval \<Rightarrow> 'w ctl \<Rightarrow> (reason, nat) sum \<times> 'w ctl" where
  "claim_phase d b ev c =
     (case join_fields b ev of
        Inl r \<Rightarrow> (case decide r c of (r', c') \<Rightarrow> (Inl r', c'))
      | Inr (callId, eventId, did, p) \<Rightarrow>
          let req = claim_req b callId eventId did in
          (case ext_call (claimCall d req) (AClaim req) c of
            (Throw _, c1) \<Rightarrow> (case decide Claim_failed c1 of (r', c') \<Rightarrow> (Inl r', c'))
          | (Ret claim, c1) \<Rightarrow>
              if \<not> truthy (get claim ''claimed'')
              then (case decide (if get claim ''reason'' = JStr ''duplicate_event''
                                 then Duplicate_event else Call_not_claimed) c1 of
                      (r', c') \<Rightarrow> (Inl r', c'))
              else (let row = js_or (get claim ''call'') (JObj []);
                        token = bounded_string (get row ''claim_token'') 128;
                        room = bounded_string (get row ''livekit_room'') 128
                    in (case (token, room) of
                      (Some t, Some rm) \<Rightarrow>
                        if is_room_name rm
                        then (case randomUUID d (world c1) of
                          (sid, w) \<Rightarrow>
                            let i = next_ref c1 in
                            (Inr i, c1\<lparr>world := w, next_ref := Suc i,
                               heap := (heap c1)(i := new_entry callId t rm p sid),
                               calls := jm_set callId i (calls c1)\<rparr>))
                        else (case decide Claimed_call_invalid
                                (best_effort_failure d b callId token Claimed_call_invalid c1) of
                                (r', c') \<Rightarrow> (Inl r', c'))
                    | _ \<Rightarrow> (case decide Claimed_call_invalid
                              (best_effort_failure d b callId token Claimed_call_invalid c1) of
                              (r', c') \<Rightarrow> (Inl r', c'))))))"

definition handle_join_event :: "'w deps \<Rightarrow> binding \<Rightarrow> jsval \<Rightarrow> 'w ctl \<Rightarrow> reason \<times> 'w ctl" where
  "handle_join_event d b ev c =
     (case claim_phase d b ev c of
        (Inl r, c1) \<Rightarrow> (r, c1)
      | (Inr i, c1) \<Rightarrow> start_call d b i c1)"

definition end_lookup :: "binding \<Rightarrow> jsval \<Rightarrow> 'w ctl \<Rightarrow> (reason, nat) sum" where
  "end_lookup b ev c =
     (case (bounded_string (get ev ''callId'') 255, bounded_string (get ev ''eventId'') 255) of
        (Some callId, Some eventId) \<Rightarrow>
          if get ev ''routePointDn'' \<noteq> JStr (bd_routePointDn b) then Inl Invalid_end_event
          else (case jm_get (calls c) callId of None \<Rightarrow> Inl Call_not_tracked | Some i \<Rightarrow> Inr i)
      | _ \<Rightarrow> Inl Invalid_end_event)"

definition end_call :: "'w deps \<Rightarrow> binding \<Rightarrow> jsval \<Rightarrow> 'w ctl \<Rightarrow> reason \<times> 'w ctl" where
  "end_call d b ev c =
     (case end_lookup b ev c of Inl r \<Rightarrow> decide r c | Inr i \<Rightarrow> end_op d b i c)"

text \<open>\<open>handleEvent\<close>, run to its completion with nothing else queued.\<close>

definition handle_event :: "'w deps \<Rightarrow> binding \<Rightarrow> jsval \<Rightarrow> 'w ctl \<Rightarrow> reason \<times> 'w ctl" where
  "handle_event d b ev c =
     (if \<not> is_object ev then decide Invalid_event c
      else if get ev ''type'' = JStr ''routepoint_call_ended'' then end_call d b ev c
      else if stopping c then decide Controller_stopping c
      else handle_join_event d b ev c)"

definition find_session :: "string \<Rightarrow> 'w ctl \<Rightarrow> nat option" where
  "find_session sid c = List.find (\<lambda>i. en_sessionId (heap c i) = sid) (map snd (calls c))"

definition media_failure_reasons :: "string list" where
  "media_failure_reasons = [''agent_audio_stream_failed'', ''agent_audio_unsubscribed'',
     ''verified_agent_disconnected'', ''livekit_room_disconnected'', ''pbx_audio_stream_ended'',
     ''pbx_audio_stream_failed'', ''pbx_audio_queue_overflow'']"

definition media_failure_lookup :: "jsval \<Rightarrow> jsval \<Rightarrow> 'w ctl \<Rightarrow> (reason, nat \<times> string) sum" where
  "media_failure_lookup sessionId why c =
     (case (bounded_string sessionId 255, why) of
        (Some sid, JStr r) \<Rightarrow>
          if r \<in> set media_failure_reasons
          then (case find_session sid c of
                  None \<Rightarrow> Inl Media_failure_call_not_tracked | Some i \<Rightarrow> Inr (i, r))
          else Inl Invalid_media_failure
      | _ \<Rightarrow> Inl Invalid_media_failure)"

definition handle_media_failure :: "'w deps \<Rightarrow> binding \<Rightarrow> jsval \<Rightarrow> jsval \<Rightarrow> 'w ctl \<Rightarrow> reason ext \<times> 'w ctl" where
  "handle_media_failure d b sessionId why c =
     (case media_failure_lookup sessionId why c of
        Inl r \<Rightarrow> ret_decide r c
      | Inr (i, r) \<Rightarrow> media_failure_op d b r i c)"

definition hangup_lookup :: "jsval \<Rightarrow> 'w ctl \<Rightarrow> (reason, nat) sum" where
  "hangup_lookup sessionId c =
     (case bounded_string sessionId 255 of
        None \<Rightarrow> Inl Invalid_call_hangup
      | Some sid \<Rightarrow> (case find_session sid c of None \<Rightarrow> Inl Call_not_tracked | Some i \<Rightarrow> Inr i))"

definition hangup_reason :: "jsval \<Rightarrow> jsval" where
  "hangup_reason why = (if why = JUndef then JStr ''agent_completed'' else why)"

definition handle_call_hangup :: "'w deps \<Rightarrow> binding \<Rightarrow> jsval \<Rightarrow> jsval \<Rightarrow> 'w ctl \<Rightarrow> reason ext \<times> 'w ctl" where
  "handle_call_hangup d b sessionId why c =
     (case hangup_lookup sessionId c of
        Inl r \<Rightarrow> ret_decide r c
      | Inr i \<Rightarrow> hangup_op d b (hangup_reason why) i c)"

section \<open>Shutdown\<close>

text \<open>
  \<open>shutdown()\<close> with no join in flight: the entries tracked at that moment one after the other;
  a rejection aborts the loop.
\<close>

fun shutdown_loop :: "'w deps \<Rightarrow> binding \<Rightarrow> nat list \<Rightarrow> 'w ctl \<Rightarrow> reason list ext \<times> 'w ctl" where
  "shutdown_loop d b [] c = (Ret [], c)"
| "shutdown_loop d b (i # is) c =
     (case shutdown_op d b i c of
        (Throw m, c1) \<Rightarrow> (Throw m, c1)
      | (Ret r, c1) \<Rightarrow> (case shutdown_loop d b is c1 of
          (Throw m, c2) \<Rightarrow> (Throw m, c2)
        | (Ret rs, c2) \<Rightarrow> (Ret (r # rs), c2)))"

definition shutdown :: "'w deps \<Rightarrow> binding \<Rightarrow> 'w ctl \<Rightarrow> (bool \<times> reason list) ext \<times> 'w ctl" where
  "shutdown d b c =
     (let c0 = c\<lparr>stopping := True\<rparr> in
      case shutdown_loop d b (map snd (calls c0)) c0 of
        (Throw m, c1) \<Rightarrow> (Throw m, c1)
      | (Ret rs, c1) \<Rightarrow> (Ret (calls c1 = [], rs), c1))"

end
