(* ===== verification/Call_Invariants.thy ===== *)
theory Call_Invariants
  imports Call_Controller
begin

text \<open>
  What \<open>connector/call-controller.mjs\<close> promises about every call, under every interleaving of
  its operations and every sequence of answers of its adapters.

  The promise is a protocol for one call, given as a monitor: the record \<open>acall\<close> is what an
  observer of the external calls made for an entry knows about it, \<open>permits\<close> says which call may
  come next, \<open>observe\<close> what it teaches. \<open>mon\<close> runs the monitor over a trace. The lemmas
  \<open>\<dots>_conforms\<close> show that each operation of the controller follows the protocol and that the
  entry's fields agree with the observer's knowledge; the step relation \<open>sys_step\<close> composes the
  operations the way \<open>#serialize\<close>, the timers and \<open>shutdown\<close> do.

  An operation runs in one step of \<open>sys_step\<close>. This loses nothing for properties of single
  calls: \<open>#serialize\<close> runs the operations of one entry one after the other, an operation
  changes only its own entry and its own key of \<open>calls\<close> (lemma \<open>frame\<close>), and the adapters'
  answers are arbitrary functions of an outside state that rule \<open>env\<close> changes at will.
\<close>

section \<open>The protocol of one call\<close>

record acall =
  ac_state :: call_state
  ac_media :: bool
  ac_agent :: "string option"
  ac_dispatched :: bool
  ac_attached :: bool
  ac_dropped :: bool

definition acall0 :: acall where
  "acall0 = \<lparr>ac_state = Claimed, ac_media = False, ac_agent = None, ac_dispatched = False,
     ac_attached = False, ac_dropped = False\<rparr>"

fun act_ref :: "act \<Rightarrow> nat option" where
  "act_ref (ATransition i _ _) = Some i"
| "act_ref (ARenew i _ _) = Some i"
| "act_ref (ADispatch i _ _) = Some i"
| "act_ref (AAttach i _ _) = Some i"
| "act_ref (ACloseMedia i _ _) = Some i"
| "act_ref (AStopAgent i _ _) = Some i"
| "act_ref (AFallback i _ _) = Some i"
| "act_ref _ = None"

fun call_edge :: "call_state \<Rightarrow> call_state \<Rightarrow> bool" where
  "call_edge Claimed s = (s = Connecting \<or> s = Ending \<or> s = Ended)"
| "call_edge Connecting s = (s = Active \<or> s = Ending)"
| "call_edge Active s = (s = Ending)"
| "call_edge Ending s = (s = Ended \<or> s = Failed)"
| "call_edge _ _ = False"

fun observe :: "acall \<Rightarrow> act \<Rightarrow> acall" where
  "observe v (ATransition _ req (Ret True)) = v\<lparr>ac_state := tq_newState req\<rparr>"
| "observe v (ADispatch _ _ (Ret x)) =
     v\<lparr>ac_dispatched := True, ac_agent := bounded_string (get x ''dispatchId'') 255\<rparr>"
| "observe v (ADispatch _ _ (Throw _)) = v\<lparr>ac_dispatched := True\<rparr>"
| "observe v (AAttach _ _ r) = v\<lparr>ac_attached := True, ac_media := (r = Ret True)\<rparr>"
| "observe v (ACloseMedia _ _ (Ret _)) = v\<lparr>ac_media := False\<rparr>"
| "observe v (AStopAgent _ _ (Ret _)) = v\<lparr>ac_agent := None\<rparr>"
| "observe v (AFallback _ _ (Ret True)) = v\<lparr>ac_dropped := True\<rparr>"
| "observe v _ = v"

definition clean :: "acall \<Rightarrow> bool" where
  "clean v \<longleftrightarrow> \<not> ac_media v \<and> ac_agent v = None"

text \<open>
  The PBX may be told to move the caller without an acknowledged \<open>ending\<close> only when the lease
  was lost, and for a claimed call at shutdown.
\<close>

definition drop_allowed :: "acall \<Rightarrow> jsval \<Rightarrow> bool" where
  "drop_allowed v why \<longleftrightarrow> ac_state v = Ending
     \<or> ac_state v = Claimed \<and> why = JStr ''connector_shutdown''
     \<or> ac_state v = Active \<and> why = JStr ''call_claim_lease_lost''"

fun permits :: "binding \<Rightarrow> entry \<Rightarrow> acall \<Rightarrow> act \<Rightarrow> bool" where
  "permits b e v (ATransition _ req _) =
     (let new = tq_newState req in
      req = transition_req b (e\<lparr>en_state := ac_state v\<rparr>) new
              (if new = Active then ac_agent v else None)
      \<and> call_edge (ac_state v) new
      \<and> (new = Active \<longrightarrow> ac_media v \<and> ac_agent v \<noteq> None)
      \<and> (terminal new \<longrightarrow> clean v)
      \<and> (new = Failed \<longrightarrow> ac_dropped v))"
| "permits b e v (ARenew _ req _) = (ac_state v = Active \<and> req = renew_req b e)"
| "permits b e v (ADispatch _ req _) =
     (ac_state v = Connecting \<and> \<not> ac_dispatched v \<and> req = dispatch_req b e)"
| "permits b e v (AAttach _ req _) =
     (ac_state v = Connecting \<and> \<not> ac_attached v \<and> ac_agent v \<noteq> None
      \<and> req = media_req (e\<lparr>en_dispatchId := ac_agent v\<rparr>))"
| "permits b e v (ACloseMedia _ s _) = (ac_media v \<and> s = en_sessionId e)"
| "permits b e v (AStopAgent _ req _) =
     (ac_agent v = Some (sq_dispatchId req) \<and> sq_companyId req = bd_companyId b
      \<and> sq_integrationId req = bd_integrationId b \<and> sq_sessionId req = en_sessionId e
      \<and> sq_roomName req = en_roomName e)"
| "permits b e v (AFallback _ req _) =
     (clean v \<and> drop_allowed v (fq_reason req)
      \<and> (req = fallback_req b e (fq_reason req) \<or> req = hangup_req b e (fq_reason req)))"
| "permits b e v _ = True"

text \<open>The monitor, over a trace that lists the newest call first.\<close>

fun mon :: "binding \<Rightarrow> entry \<Rightarrow> nat \<Rightarrow> act list \<Rightarrow> acall option" where
  "mon b e i [] = Some acall0"
| "mon b e i (a # t) =
     (case mon b e i t of
        None \<Rightarrow> None
      | Some v \<Rightarrow> if act_ref a \<noteq> Some i then Some v
                  else if permits b e v a then Some (observe v a) else None)"

text \<open>What is known after any permitted sequence of calls.\<close>

definition acall_ok :: "acall \<Rightarrow> bool" where
  "acall_ok v \<longleftrightarrow>
     (ac_state v = Claimed \<longrightarrow> \<not> ac_dispatched v)
     \<and> (ac_agent v \<noteq> None \<longrightarrow> ac_dispatched v) \<and> (ac_attached v \<longrightarrow> ac_dispatched v)
     \<and> (ac_media v \<longrightarrow> ac_attached v)
     \<and> (terminal (ac_state v) \<longrightarrow> clean v) \<and> (ac_state v = Failed \<longrightarrow> ac_dropped v)
     \<and> (ac_state v = Active \<longrightarrow> ac_attached v)"

lemma acall_ok_0 [simp]: "acall_ok acall0"
  by (simp add: acall_ok_def acall0_def terminal_def)

lemma acall_ok_observe:
  assumes "acall_ok v" "permits b e v a"
  shows "acall_ok (observe v a)"
  using assms
  by (cases "(v, a)" rule: observe.cases; cases "ac_state v")
     (auto simp: acall_ok_def clean_def terminal_def Let_def)

lemma mon_ok: "mon b e i t = Some v \<Longrightarrow> acall_ok v"
  by (induction t arbitrary: v) (auto split: option.splits if_splits intro: acall_ok_observe)

lemma mon_append_other:
  "\<forall>a \<in> set t. act_ref a \<noteq> Some i \<Longrightarrow> mon b e i (t @ t') = mon b e i t'"
  by (induction t) (auto split: option.splits)

lemma mon_suffix: "mon b e i (t @ t') = Some v \<Longrightarrow> \<exists>v'. mon b e i t' = Some v'"
  by (induction t arbitrary: v) (auto split: option.splits if_splits)

lemma mon_split:
  assumes "mon b e i (t @ a # t') = Some v" "act_ref a = Some i"
  obtains v' where "mon b e i t' = Some v'" "permits b e v' a"
  using assms mon_suffix [of b e i t "a # t'"] by (auto split: option.splits if_splits)

text \<open>The acknowledged state is the one of the newest acknowledged transition.\<close>

fun last_ack :: "nat \<Rightarrow> act list \<Rightarrow> call_state" where
  "last_ack i [] = Claimed"
| "last_ack i (ATransition j req (Ret True) # t) =
     (if j = i then tq_newState req else last_ack i t)"
| "last_ack i (_ # t) = last_ack i t"

definition acked :: "nat \<Rightarrow> call_state \<Rightarrow> act list \<Rightarrow> bool" where
  "acked i s t \<longleftrightarrow> (\<exists>req. ATransition i req (Ret True) \<in> set t \<and> tq_newState req = s)"

lemma mon_state: "mon b e i t = Some v \<Longrightarrow> ac_state v = last_ack i t"
proof (induction t arbitrary: v)
  case Nil
  then show ?case by (auto simp: acall0_def)
next
  case (Cons a t)
  then obtain v' where v': "mon b e i t = Some v'" by (auto split: option.splits)
  then have "ac_state v' = last_ack i t" by (rule Cons.IH)
  with v' Cons.prems show ?case
    by (cases "(v', a)" rule: observe.cases) (auto split: if_splits)
qed

text \<open>
  What the trace itself says about the resources of a call: a media bridge that was attached and
  not closed since, the dispatch that was created and not stopped since.
\<close>

fun held_media :: "nat \<Rightarrow> act list \<Rightarrow> bool" where
  "held_media i [] = False"
| "held_media i (AAttach j _ r # t) = (if j = i then r = Ret True else held_media i t)"
| "held_media i (ACloseMedia j _ (Ret _) # t) = (if j = i then False else held_media i t)"
| "held_media i (_ # t) = held_media i t"

fun held_agent :: "nat \<Rightarrow> act list \<Rightarrow> string option" where
  "held_agent i [] = None"
| "held_agent i (ADispatch j _ (Ret x) # t) =
     (if j = i then bounded_string (get x ''dispatchId'') 255 else held_agent i t)"
| "held_agent i (AStopAgent j _ (Ret _) # t) = (if j = i then None else held_agent i t)"
| "held_agent i (_ # t) = held_agent i t"

lemma mon_held: "mon b e i t = Some v \<Longrightarrow> ac_media v = held_media i t \<and> ac_agent v = held_agent i t"
proof (induction t arbitrary: v)
  case Nil
  then show ?case by (auto simp: acall0_def)
next
  case (Cons a t)
  then obtain v' where v': "mon b e i t = Some v'" by (auto split: option.splits)
  have IH: "ac_media v' = held_media i t" "ac_agent v' = held_agent i t"
    using Cons.IH [OF v'] by auto
  have "v = (if act_ref a = Some i then observe v' a else v')"
    using v' Cons.prems by (auto split: if_splits)
  then show ?case
    by (cases "(v', a)" rule: observe.cases) (auto simp: IH)
qed

lemma acked_append: "acked i s t \<Longrightarrow> acked i s (t' @ t)"
  by (auto simp: acked_def)

lemma acked_Cons: "acked i s t \<Longrightarrow> acked i s (a # t)"
  by (auto simp: acked_def)

lemma last_ack_acked: "last_ack i t \<noteq> Claimed \<Longrightarrow> acked i (last_ack i t) t"
proof (induction t)
  case Nil
  then show ?case by simp
next
  case (Cons a t)
  show ?case
  proof (cases "\<exists>req. a = ATransition i req (Ret True)")
    case True
    then show ?thesis by (auto simp: acked_def)
  next
    case False
    then have "last_ack i (a # t) = last_ack i t"
      by (cases "(i, a # t)" rule: last_ack.cases) auto
    then show ?thesis using Cons by (auto intro: acked_Cons)
  qed
qed

lemma mon_acked: "mon b e i t = Some v \<Longrightarrow> ac_state v \<noteq> Claimed \<Longrightarrow> acked i (ac_state v) t"
  using mon_state last_ack_acked by metis

lemma mon_flag:
  assumes "\<not> flag acall0" "\<And>v a. flag (observe v a) \<longleftrightarrow> flag v \<or> g a"
  shows "mon b e i t = Some v \<Longrightarrow> flag v \<longleftrightarrow> (\<exists>a \<in> set t. act_ref a = Some i \<and> g a)"
proof (induction t arbitrary: v)
  case Nil
  then show ?case using assms(1) by auto
next
  case (Cons a t)
  then obtain v' where v': "mon b e i t = Some v'" by (auto split: option.splits)
  have "v = (if act_ref a = Some i then observe v' a else v')"
    using v' Cons.prems by (auto split: if_splits)
  then show ?case using Cons.IH [OF v'] assms(2) by auto
qed

fun is_dispatch :: "act \<Rightarrow> bool" where
  "is_dispatch (ADispatch _ _ _) = True"
| "is_dispatch _ = False"

fun is_attach :: "act \<Rightarrow> bool" where
  "is_attach (AAttach _ _ _) = True"
| "is_attach _ = False"

fun is_drop :: "act \<Rightarrow> bool" where
  "is_drop (AFallback _ _ (Ret True)) = True"
| "is_drop _ = False"

lemma observe_flags:
  "ac_dispatched (observe v a) \<longleftrightarrow> ac_dispatched v \<or> is_dispatch a"
  "ac_attached (observe v a) \<longleftrightarrow> ac_attached v \<or> is_attach a"
  "ac_dropped (observe v a) \<longleftrightarrow> ac_dropped v \<or> is_drop a"
  by (cases "(v, a)" rule: observe.cases; simp)+

lemma mon_dispatched:
  "mon b e i t = Some v \<Longrightarrow>
     ac_dispatched v \<longleftrightarrow> (\<exists>a \<in> set t. act_ref a = Some i \<and> is_dispatch a)"
  by (rule mon_flag) (simp_all add: acall0_def observe_flags)

lemma mon_attached:
  "mon b e i t = Some v \<Longrightarrow>
     ac_attached v \<longleftrightarrow> (\<exists>a \<in> set t. act_ref a = Some i \<and> is_attach a)"
  by (rule mon_flag) (simp_all add: acall0_def observe_flags)

lemma mon_dropped:
  "mon b e i t = Some v \<Longrightarrow>
     ac_dropped v \<longleftrightarrow> (\<exists>a \<in> set t. act_ref a = Some i \<and> is_drop a)"
  by (rule mon_flag) (simp_all add: acall0_def observe_flags)

section \<open>The operations follow the protocol\<close>

definition ident :: "entry \<Rightarrow> entry" where
  "ident e = e\<lparr>en_state := Claimed, en_dispatchId := None, en_closeMedia := False,
     en_leaseTimer := False, en_renewFailures := 0, en_leaseLost := False\<rparr>"

definition agrees :: "acall \<Rightarrow> entry \<Rightarrow> bool" where
  "agrees v e \<longleftrightarrow> ac_state v = en_state e \<and> ac_media v = en_closeMedia e
     \<and> ac_agent v = en_dispatchId e"

text \<open>Entry \<open>i\<close> has followed the protocol, and its fields are what the observer knows.\<close>

definition conf :: "binding \<Rightarrow> nat \<Rightarrow> 'w ctl \<Rightarrow> acall \<Rightarrow> bool" where
  "conf b i c v \<longleftrightarrow> mon b (ident (heap c i)) i (trace c) = Some v \<and> agrees v (heap c i)"

text \<open>
  An operation of entry \<open>i\<close> leaves everything else alone; without the grant \<open>g\<close> it dispatches no
  agent and attaches no media.
\<close>

definition own_act :: "bool \<Rightarrow> nat \<Rightarrow> act \<Rightarrow> bool" where
  "own_act g i a \<longleftrightarrow>
     ((\<exists>r. a = ADecision r) \<or> act_ref a = Some i) \<and> (g \<or> \<not> is_dispatch a \<and> \<not> is_attach a)"

definition frame :: "bool \<Rightarrow> nat \<Rightarrow> 'w ctl \<Rightarrow> 'w ctl \<Rightarrow> bool" where
  "frame g i c c' \<longleftrightarrow> (\<forall>j. j \<noteq> i \<longrightarrow> heap c' j = heap c j) \<and> ident (heap c' i) = ident (heap c i)
     \<and> next_ref c' = next_ref c \<and> stopping c' = stopping c
     \<and> (\<exists>t. trace c' = t @ trace c \<and> (\<forall>a \<in> set t. own_act g i a))"

definition on :: "bool \<Rightarrow> binding \<Rightarrow> nat \<Rightarrow> 'w ctl \<Rightarrow> 'w ctl \<Rightarrow> acall \<Rightarrow> bool" where
  "on g b i c0 c v \<longleftrightarrow> frame g i c0 c \<and> calls c = calls c0 \<and> conf b i c v"

lemma frame_refl [simp]: "frame g i c c"
  by (auto simp: frame_def)

lemma frame_append:
  assumes "frame g i c0 c" "\<forall>j. j \<noteq> i \<longrightarrow> heap c' j = heap c j" "ident (heap c' i) = ident (heap c i)"
    "next_ref c' = next_ref c" "stopping c' = stopping c" "trace c' = a @ trace c"
    "\<forall>x \<in> set a. own_act g i x"
  shows "frame g i c0 c'"
proof -
  obtain t where "trace c = t @ trace c0" "\<forall>a \<in> set t. own_act g i a"
    using assms(1) by (auto simp: frame_def)
  then have "trace c' = (a @ t) @ trace c0 \<and> (\<forall>x \<in> set (a @ t). own_act g i x)"
    using assms(6,7) by auto
  then show ?thesis using assms(1-5) unfolding frame_def by metis
qed

lemma frame_callId: "frame g i c c' \<Longrightarrow> en_callId (heap c' i) = en_callId (heap c i)"
  unfolding frame_def ident_def by (metis entry.select_convs(1) entry.surjective entry.update_convs)

lemma on_start: "conf b i c v \<Longrightarrow> on g b i c c v"
  by (simp add: on_def)

lemma on_agrees: "on g b i c0 c v \<Longrightarrow> agrees v (heap c i)"
  by (simp add: on_def conf_def)

lemma on_ok: "on g b i c0 c v \<Longrightarrow> acall_ok v"
  by (auto simp: on_def conf_def intro: mon_ok)

text \<open>One external call that the protocol permits, and the update of the entry that follows it.\<close>

lemma on_call:
  assumes "on g b i c0 c v" "act_ref a = Some i" "permits b (ident (heap c i)) v a"
    "trace c' = a # trace c" "\<forall>j. j \<noteq> i \<longrightarrow> heap c' j = heap c j"
    "ident (heap c' i) = ident (heap c i)" "agrees (observe v a) (heap c' i)"
    "calls c' = calls c" "next_ref c' = next_ref c" "stopping c' = stopping c" "own_act g i a"
  shows "on g b i c0 c' (observe v a)"
proof -
  have "frame g i c0 c'"
    by (rule frame_append [of g i c0 c, where a = "[a]"]) (use assms in \<open>auto simp: on_def\<close>)
  then show ?thesis using assms by (auto simp: on_def conf_def)
qed

lemma on_quiet:
  assumes "on g b i c0 c v" "trace c' = a @ trace c" "\<forall>x \<in> set a. act_ref x = None \<and> own_act g i x"
    "\<forall>j. j \<noteq> i \<longrightarrow> heap c' j = heap c j" "ident (heap c' i) = ident (heap c i)"
    "agrees v (heap c' i)"
    "calls c' = calls c" "next_ref c' = next_ref c" "stopping c' = stopping c"
  shows "on g b i c0 c' v"
proof -
  have "frame g i c0 c'"
    by (rule frame_append [of g i c0 c, where a = a]) (use assms in \<open>auto simp: on_def\<close>)
  moreover have "mon b (ident (heap c i)) i (a @ trace c) = mon b (ident (heap c i)) i (trace c)"
    using assms(3) by (intro mon_append_other) auto
  ultimately show ?thesis using assms by (auto simp: on_def conf_def)
qed

lemmas ident_simps = ident_def agrees_def own_act_def

text \<open>Primitive steps.\<close>

lemma on_clear: "on g b i c0 c v \<Longrightarrow> on g b i c0 (clear_lease_renewal i c) v"
  by (rule on_quiet [where a = "[]" and c = c]) (auto simp: clear_lease_renewal_def upd_def ident_simps dest: on_agrees)

lemma on_schedule: "on g b i c0 c v \<Longrightarrow> on g b i c0 (schedule_lease_renewal i c) v"
  by (rule on_quiet [where a = "[]" and c = c])
     (auto simp: schedule_lease_renewal_def Let_def upd_def ident_simps dest: on_agrees)

definition may_move :: "acall \<Rightarrow> call_state \<Rightarrow> string option \<Rightarrow> bool" where
  "may_move v new disp \<longleftrightarrow> call_edge (ac_state v) new
     \<and> disp = (if new = Active then ac_agent v else None)
     \<and> (new = Active \<longrightarrow> ac_media v \<and> ac_agent v \<noteq> None) \<and> (terminal new \<longrightarrow> clean v)
     \<and> (new = Failed \<longrightarrow> ac_dropped v)"

lemma observe_transition [simp]:
  "observe v (ATransition i req r) = (if r = Ret True then v\<lparr>ac_state := tq_newState req\<rparr> else v)"
  by (cases "(v, ATransition i req r)" rule: observe.cases) auto

lemma on_transition:
  assumes t: "transition d b i new disp c = (r, c')" and "on g b i c0 c v" "may_move v new disp"
  shows "on g b i c0 c' (if r = Ret True then v\<lparr>ac_state := new\<rparr> else v)"
proof -
  let ?req = "transition_req b (heap c i) new disp"
  have ag: "agrees v (heap c i)" using assms(2) by (rule on_agrees)
  obtain w where c': "c' = c\<lparr>world := w, trace := ATransition i ?req r # trace c,
      heap := if r = Ret True then (heap c)(i := heap c i\<lparr>en_state := new\<rparr>) else heap c\<rparr>"
    using t by (auto simp: transition_def ext_call_def upd_def Let_def split: prod.splits if_splits)
  have n: "tq_newState ?req = new" by (simp add: transition_req_def)
  have "permits b (ident (heap c i)) v (ATransition i ?req r)"
    using assms(3) ag by (auto simp: may_move_def transition_req_def ident_simps)
  then have "on g b i c0 c' (observe v (ATransition i ?req r))"
    by (rule on_call [OF assms(2), rotated]) (use ag n in \<open>auto simp: c' ident_simps\<close>)
  then show ?thesis by (simp only: observe_transition n)
qed

lemma on_moved:
  "transition d b i new disp c = (Ret True, c') \<Longrightarrow> on g b i c0 c v \<Longrightarrow> may_move v new disp \<Longrightarrow>
     on g b i c0 c' (v\<lparr>ac_state := new\<rparr>)"
  by (drule on_transition) auto

lemma on_not_moved:
  "transition d b i new disp c = (r, c') \<Longrightarrow> r \<noteq> Ret True \<Longrightarrow> on g b i c0 c v \<Longrightarrow> may_move v new disp \<Longrightarrow>
     on g b i c0 c' v"
  by (drule on_transition) auto

lemma on_fallback:
  assumes "pbx_fallback d i req c = (ok, c')" "on g b i c0 c v" "clean v" "drop_allowed v (fq_reason req)"
    "req = fallback_req b (heap c i) (fq_reason req) \<or> req = hangup_req b (heap c i) (fq_reason req)"
  shows "on g b i c0 c' (v\<lparr>ac_dropped := ac_dropped v \<or> ok\<rparr>)"
proof -
  have ag: "agrees v (heap c i)" using assms(2) by (rule on_agrees)
  obtain w r where c': "c' = c\<lparr>world := w, trace := AFallback i req r # trace c\<rparr>" "ok = (r = Ret True)"
    using assms(1) by (auto simp: pbx_fallback_def ext_call_def split: prod.splits)
  have o: "observe v (AFallback i req r) = v\<lparr>ac_dropped := ac_dropped v \<or> ok\<rparr>"
    unfolding c' by (cases "(v, AFallback i req r)" rule: observe.cases) auto
  have "permits b (ident (heap c i)) v (AFallback i req r)"
    using assms(3-5) by (auto simp: fallback_req_def hangup_req_def ident_def)
  then have "on g b i c0 c' (observe v (AFallback i req r))"
    by (rule on_call [OF assms(2), rotated]) (use ag o in \<open>auto simp: c' ident_simps\<close>)
  then show ?thesis by (simp only: o)
qed

lemma acall_same [simp]:
  "ac_media v = m \<Longrightarrow> v\<lparr>ac_media := m\<rparr> = v"
  "ac_agent v = a \<Longrightarrow> v\<lparr>ac_agent := a\<rparr> = v"
  "ac_state v = s \<Longrightarrow> v\<lparr>ac_state := s\<rparr> = v"
  by auto

lemma on_close_media:
  assumes "close_media_step d i c = (ok, c')" "on g b i c0 c v"
  shows "on g b i c0 c' (v\<lparr>ac_media := \<not> ok\<rparr>)" "\<not> ok \<Longrightarrow> ac_media v"
proof -
  have ag: "agrees v (heap c i)" using assms(2) by (rule on_agrees)
  have "on g b i c0 c' (v\<lparr>ac_media := \<not> ok\<rparr>) \<and> (\<not> ok \<longrightarrow> ac_media v)"
  proof (cases "en_closeMedia (heap c i)")
    case False
    then show ?thesis using assms ag by (auto simp: close_media_step_def agrees_def)
  next
    case True
    let ?s = "en_sessionId (heap c i)"
    obtain w r where c': "c' = c\<lparr>world := w, trace := ACloseMedia i ?s r # trace c,
        heap := if is_ret r then (heap c)(i := heap c i\<lparr>en_closeMedia := False\<rparr>) else heap c\<rparr>"
        "ok = is_ret r"
      using assms(1) True
      by (auto simp: close_media_step_def ext_call_def upd_def Let_def split: prod.splits ext.splits)
    have o: "observe v (ACloseMedia i ?s r) = v\<lparr>ac_media := \<not> ok\<rparr>"
      using ag True unfolding c' by (cases r) (auto simp: agrees_def)
    have "permits b (ident (heap c i)) v (ACloseMedia i ?s r)"
      using ag True by (auto simp: ident_simps)
    then have "on g b i c0 c' (observe v (ACloseMedia i ?s r))"
      by (rule on_call [OF assms(2), rotated]) (use ag o True in \<open>auto simp: c' ident_simps\<close>)
    then show ?thesis using True ag by (auto simp only: o agrees_def)
  qed
  then show "on g b i c0 c' (v\<lparr>ac_media := \<not> ok\<rparr>)" "\<not> ok \<Longrightarrow> ac_media v" by auto
qed

lemma on_stop_agent:
  assumes "stop_agent_step d b i c = (ok, c')" "on g b i c0 c v"
  shows "on g b i c0 c' (v\<lparr>ac_agent := if ok then None else ac_agent v\<rparr>)" "\<not> ok \<Longrightarrow> ac_agent v \<noteq> None"
proof -
  have ag: "agrees v (heap c i)" using assms(2) by (rule on_agrees)
  have "on g b i c0 c' (v\<lparr>ac_agent := if ok then None else ac_agent v\<rparr>) \<and> (\<not> ok \<longrightarrow> ac_agent v \<noteq> None)"
  proof (cases "en_dispatchId (heap c i)")
    case None
    then show ?thesis using assms ag by (auto simp: stop_agent_step_def agrees_def)
  next
    case (Some disp)
    let ?e = "heap c i"
    let ?req = "\<lparr>sq_companyId = bd_companyId b, sq_integrationId = bd_integrationId b,
       sq_sessionId = en_sessionId ?e, sq_roomName = en_roomName ?e, sq_dispatchId = disp\<rparr>"
    obtain w r where c': "c' = c\<lparr>world := w, trace := AStopAgent i ?req r # trace c,
        heap := if is_ret r then (heap c)(i := heap c i\<lparr>en_dispatchId := None\<rparr>) else heap c\<rparr>"
        "ok = is_ret r"
      using assms(1) Some
      by (auto simp: stop_agent_step_def ext_call_def upd_def Let_def split: prod.splits ext.splits)
    have o: "observe v (AStopAgent i ?req r) = v\<lparr>ac_agent := if ok then None else ac_agent v\<rparr>"
      unfolding c' by (cases r) auto
    have "permits b (ident (heap c i)) v (AStopAgent i ?req r)"
      using ag Some by (auto simp: ident_simps)
    then have "on g b i c0 c' (observe v (AStopAgent i ?req r))"
      by (rule on_call [OF assms(2), rotated]) (use ag o in \<open>auto simp: c' ident_simps\<close>)
    then show ?thesis using Some ag by (simp only: o agrees_def) auto
  qed
  then show "on g b i c0 c' (v\<lparr>ac_agent := if ok then None else ac_agent v\<rparr>)" "\<not> ok \<Longrightarrow> ac_agent v \<noteq> None"
    by auto
qed

lemma on_cleanup:
  assumes "cleanup d b i c = (ok, c')" "on g b i c0 c v"
  obtains m a where "on g b i c0 c' (v\<lparr>ac_media := m, ac_agent := a\<rparr>)" "m \<Longrightarrow> ac_media v"
    "a = None \<or> a = ac_agent v" "ok \<longleftrightarrow> \<not> m \<and> a = None"
proof -
  obtain ok1 c1 where 1: "close_media_step d i (clear_lease_renewal i c) = (ok1, c1)"
    by (metis surj_pair)
  obtain ok2 where 2: "stop_agent_step d b i c1 = (ok2, c')" "ok = (ok1 \<and> ok2)"
    using assms(1) 1 by (auto simp: cleanup_def split: prod.splits)
  note m = on_close_media [OF 1 on_clear [OF assms(2)]]
  note a = on_stop_agent [OF 2(1) m(1)]
  show ?thesis
    by (rule that [of "if ok2 then None else ac_agent v" "\<not> ok1"])
       (use a m(2) 2(2) in \<open>auto simp del: acall_same\<close>)
qed

lemma on_cleaned:
  assumes "cleanup d b i c = (True, c')" "on g b i c0 c v"
  shows "on g b i c0 c' (v\<lparr>ac_media := False, ac_agent := None\<rparr>)"
  using on_cleanup [OF assms] by (metis (full_types))

text \<open>
  The end of an operation: either the entry stays in \<open>calls\<close>, and then it did not become
  terminal, or its key is deleted, and then nothing of it is live.
\<close>

definition settles :: "bool \<Rightarrow> binding \<Rightarrow> nat \<Rightarrow> 'w ctl \<Rightarrow> 'w ctl \<Rightarrow> bool" where
  "settles g b i c0 c \<longleftrightarrow> frame g i c0 c \<and> (\<exists>v. conf b i c v \<and>
     (calls c = calls c0 \<and> (terminal (ac_state v) \<longrightarrow> terminal (en_state (heap c0 i)))
      \<or> calls c = jm_delete (en_callId (heap c0 i)) (calls c0) \<and> clean v))"

lemma on_decide: "on g b i c0 c v \<Longrightarrow> on g b i c0 (snd (decide r c)) v"
  by (rule on_quiet [where a = "[ADecision r]" and c = c])
     (auto simp: decide_def log_act_def own_act_def dest: on_agrees)

lemma settle_keep:
  "on g b i c0 c v \<Longrightarrow> terminal (ac_state v) \<longrightarrow> terminal (en_state (heap c0 i)) \<Longrightarrow>
     settles g b i c0 (snd (decide r c))"
  using on_decide [of g b i c0 c v r] by (auto simp: settles_def on_def)

lemma settle_throw:
  "on g b i c0 c v \<Longrightarrow> terminal (ac_state v) \<longrightarrow> terminal (en_state (heap c0 i)) \<Longrightarrow>
     settles g b i c0 c"
  by (auto simp: settles_def on_def)

lemma settle_forget:
  assumes "on g b i c0 c v" "clean v"
  shows "settles g b i c0 (snd (decide r (forget i c)))"
proof -
  have "frame g i c0 (snd (decide r (forget i c)))" "conf b i (snd (decide r (forget i c))) v"
    using assms(1) frame_append [of g i c0 c "snd (decide r (forget i c))" "[ADecision r]"]
    by (auto simp: on_def conf_def decide_def log_act_def forget_def own_act_def)
  moreover have "calls (snd (decide r (forget i c))) = jm_delete (en_callId (heap c0 i)) (calls c0)"
    using assms(1) frame_callId [of g i c0 c]
    by (auto simp: on_def decide_def log_act_def forget_def)
  ultimately show ?thesis using assms(2) by (auto simp: settles_def)
qed

lemma move_ending [simp]:
  "may_move v Ending None \<longleftrightarrow> ac_state v \<in> {Claimed, Connecting, Active}"
  by (cases "ac_state v") (auto simp: may_move_def terminal_def)

lemma move_ended [simp]:
  "may_move v Ended None \<longleftrightarrow> ac_state v \<in> {Claimed, Ending} \<and> clean v"
  by (cases "ac_state v") (auto simp: may_move_def terminal_def)

lemma move_failed [simp]:
  "may_move v Failed None \<longleftrightarrow> ac_state v = Ending \<and> clean v \<and> ac_dropped v"
  by (cases "ac_state v") (auto simp: may_move_def terminal_def)

lemma terminal_simps [simp]:
  "\<not> terminal Claimed" "\<not> terminal Connecting" "\<not> terminal Active" "\<not> terminal Ending"
  "terminal Ended" "terminal Failed"
  by (auto simp: terminal_def)

lemma clean_simps [simp]:
  "clean (v\<lparr>ac_state := s\<rparr>) = clean v" "clean (v\<lparr>ac_dropped := x\<rparr>) = clean v"
  "clean (v\<lparr>ac_media := False, ac_agent := None\<rparr>)"
  by (auto simp: clean_def)

lemma snd_ret_decide [simp]: "snd (ret_decide r c) = snd (decide r c)"
  by (simp add: ret_decide_def split: prod.splits)

lemma start_failed_settles:
  assumes "on g b i c0 c v" "ac_state v \<in> {Claimed, Connecting}"
  shows "settles g b i c0 (snd (start_failed d b i st msg c))"
proof -
  obtain ok c1 where 1: "cleanup d b i c = (ok, c1)" by (metis surj_pair)
  obtain m a where m: "on g b i c0 c1 (v\<lparr>ac_media := m, ac_agent := a\<rparr>)" "ok \<longleftrightarrow> \<not> m \<and> a = None"
    using on_cleanup [OF 1 assms(1)] by metis
  obtain r c2 where 2: "transition d b i Ending None c1 = (r, c2)" by (metis surj_pair)
  let ?v = "v\<lparr>ac_media := m, ac_agent := a\<rparr>"
  let ?w = "if r = Ret True then ?v\<lparr>ac_state := Ending\<rparr> else ?v"
  have w: "on g b i c0 c2 ?w"
    by (rule on_transition [OF 2 m(1)]) (use assms(2) in auto)
  have nt: "\<not> terminal (ac_state ?w)" using assms(2) by auto
  show ?thesis
  proof (cases "ok \<and> r = Ret True")
    case False
    then show ?thesis
      using settle_keep [OF w] nt 1 2 by (cases ok) (auto simp: start_failed_def Let_def)
  next
    case True
    let ?u = "?v\<lparr>ac_state := Ending\<rparr>"
    have u: "on g b i c0 c2 ?u" "clean ?u" using w True m(2) by (auto simp: clean_def)
    obtain ok3 c3 where 3: "pbx_fallback d i (fallback_req b (heap c2 i)
         (JStr (failure_text (classify_failure st msg)))) c2 = (ok3, c3)"
      by (metis surj_pair)
    have f: "on g b i c0 c3 (?u\<lparr>ac_dropped := ac_dropped ?u \<or> ok3\<rparr>)"
      by (rule on_fallback [OF 3 u]) (auto simp: drop_allowed_def fallback_req_def)
    obtain r4 c4 where 4: "transition d b i Failed None c3 = (r4, c4)" by (metis surj_pair)
    have g: "on g b i c0 c4 (if r4 = Ret True then ?u\<lparr>ac_dropped := True, ac_state := Failed\<rparr>
               else ?u\<lparr>ac_dropped := True\<rparr>)" if ok3
      using on_transition [OF 4 f] that u(2) by (simp add: clean_def split: if_splits)
    show ?thesis
    proof (cases "ok3 \<and> r4 = Ret True")
      case True
      then have "settles g b i c0 (snd (decide (classify_failure st msg) (forget i c4)))"
        using g u(2) by (intro settle_forget [of g b i c0 c4]) (auto simp: clean_def)
      then show ?thesis using True \<open>ok \<and> r = Ret True\<close> 1 2 3 4
        by (auto simp: start_failed_def Let_def)
    next
      case False
      then show ?thesis using \<open>ok \<and> r = Ret True\<close> 1 2 3 4 settle_keep [OF f] settle_keep [OF g]
        by (cases ok3) (auto simp: start_failed_def Let_def)
    qed
  qed
qed

lemma on_ensure_ending:
  assumes "ensure_ending d b i c = (r, c')" "on g b i c0 c v" "\<not> terminal (ac_state v)"
  shows "on g b i c0 c' (if r = Ret True then v\<lparr>ac_state := Ending\<rparr> else v)"
proof (cases "ac_state v = Ending")
  case True
  then show ?thesis using assms True on_agrees [OF assms(2)]
    by (auto simp: ensure_ending_def agrees_def)
next
  case False
  then have t: "transition d b i Ending None c = (r, c')"
    using assms(1) on_agrees [OF assms(2)] by (auto simp: ensure_ending_def agrees_def)
  show ?thesis
    by (rule on_transition [OF t assms(2)]) (use assms(3) False in \<open>cases "ac_state v"; auto\<close>)
qed

text \<open>The last two steps of an operation: record the terminal state, then forget the entry.\<close>

lemma finish_settles:
  assumes "on g b i c0 c v" "ac_state v \<in> {Claimed, Ending}" "clean v"
    "new = Ended \<or> new = Failed \<and> ac_state v = Ending \<and> ac_dropped v"
    "transition d b i new None c = (r, c')"
  shows "r = Ret True \<Longrightarrow> settles g b i c0 (snd (decide why (forget i c')))"
    and "r \<noteq> Ret True \<Longrightarrow> settles g b i c0 (snd (decide why c'))"
    and "r \<noteq> Ret True \<Longrightarrow> settles g b i c0 c'"
proof -
  have m: "may_move v new None" using assms(2-4) by auto
  note t = on_transition [OF assms(5,1) m]
  show "settles g b i c0 (snd (decide why (forget i c')))" if "r = Ret True"
    using settle_forget [OF t] assms(3) that by simp
  show "settles g b i c0 (snd (decide why c'))" "settles g b i c0 c'" if "r \<noteq> Ret True"
    using settle_keep [OF t] settle_throw [OF t] assms(2) that by auto
qed

lemma end_finish_settles:
  assumes "on g b i c0 c v" "ac_state v \<in> {Claimed, Ending}" "clean v"
  shows "settles g b i c0 (snd (end_finish d b i c))"
proof -
  obtain r c' where t: "transition d b i Ended None c = (r, c')" by (metis surj_pair)
  show ?thesis
    using finish_settles [OF assms, of Ended, OF _ t] t
    by (auto simp: end_finish_def split: ext.splits bool.splits)
qed

lemma claimed_clean: "on g b i c0 c v \<Longrightarrow> ac_state v = Claimed \<Longrightarrow> clean v"
  using on_ok [of g b i c0 c v] by (auto simp: acall_ok_def clean_def)

lemma end_op_settles:
  assumes "conf b i c v"
  shows "settles g b i c (snd (end_op d b i c))"
proof -
  have c1: "on g b i c (clear_lease_renewal i c) v" by (intro on_clear on_start assms)
  let ?c1 = "clear_lease_renewal i c"
  have st: "en_state (heap ?c1 i) = ac_state v" "en_state (heap c i) = ac_state v"
    using on_agrees [OF c1] on_agrees [OF on_start [OF assms]] by (auto simp: agrees_def)
  show ?thesis
  proof (cases "ac_state v = Claimed \<or> terminal (ac_state v)")
    case True
    then show ?thesis
      using settle_keep [OF c1] end_finish_settles [OF c1] claimed_clean [OF c1] st
      by (auto simp: end_op_def Let_def)
  next
    case False
    obtain r2 c2 where 2: "ensure_ending d b i ?c1 = (r2, c2)" by (metis surj_pair)
    note e = on_ensure_ending [OF 2 c1]
    obtain ok3 c3 where 3: "cleanup d b i c2 = (ok3, c3)" by (metis surj_pair)
    show ?thesis
    proof (cases "r2 = Ret True")
      case notTrue: False
      then show ?thesis using e settle_keep [of g b i c c2 v] False 2 st
        by (auto simp: end_op_def Let_def split: ext.splits bool.splits)
    next
      case True
      then have e': "on g b i c c2 (v\<lparr>ac_state := Ending\<rparr>)" using e False by simp
      obtain m a where cl: "on g b i c c3 (v\<lparr>ac_state := Ending, ac_media := m, ac_agent := a\<rparr>)"
        "ok3 \<longleftrightarrow> \<not> m \<and> a = None"
        using on_cleanup [OF 3 e'] by metis
      show ?thesis
        using False True 2 3 st cl(2) settle_keep [OF cl(1)] end_finish_settles [OF cl(1)]
        by (cases ok3) (auto simp: end_op_def Let_def clean_def)
    qed
  qed
qed

text \<open>
  \<open>ending\<close>, cleanup, and the PBX told to move the caller: the common part of a media failure, a
  hang-up and a shutdown.
\<close>

lemma end_and_clean:
  assumes "on g b i c0 c v" "\<not> terminal (ac_state v)" "ensure_ending d b i c = (Ret True, c1)"
    "cleanup d b i c1 = (ok, c2)"
  obtains u where "on g b i c0 c2 u" "ac_state u = Ending" "ok \<longleftrightarrow> clean u"
proof -
  have "on g b i c0 c1 (v\<lparr>ac_state := Ending\<rparr>)"
    using on_ensure_ending [OF assms(3,1,2)] by simp
  from on_cleanup [OF assms(4) this] show ?thesis
    by (metis acall.select_convs(1) acall.select_convs(2) acall.select_convs(3) acall.surjective
        acall.update_convs(1) acall.update_convs(2) acall.update_convs(3) clean_def that)
qed

lemma media_failure_settles:
  assumes "conf b i c v"
  shows "settles g b i c (snd (media_failure_op d b why i c))"
proof -
  have c1: "on g b i c (clear_lease_renewal i c) v" by (intro on_clear on_start assms)
  let ?c1 = "clear_lease_renewal i c"
  have st: "en_state (heap ?c1 i) = ac_state v" "en_state (heap c i) = ac_state v"
    using on_agrees [OF c1] on_agrees [OF on_start [OF assms]] by (auto simp: agrees_def)
  obtain r2 c2 where 2: "ensure_ending d b i ?c1 = (r2, c2)" by (metis surj_pair)
  obtain ok3 c3 where 3: "cleanup d b i c2 = (ok3, c3)" by (metis surj_pair)
  obtain ok4 c4 where 4: "pbx_fallback d i (fallback_req b (heap c3 i) (JStr why)) c3 = (ok4, c4)"
    by (metis surj_pair)
  obtain r5 c5 where 5: "transition d b i Failed None c4 = (r5, c5)" by (metis surj_pair)
  consider (t) "terminal (ac_state v)" | (n) "\<not> terminal (ac_state v)" "r2 \<noteq> Ret True"
    | (e) "\<not> terminal (ac_state v)" "r2 = Ret True" by blast
  then show ?thesis
  proof cases
    case t
    then show ?thesis using settle_keep [OF c1] st by (auto simp: media_failure_op_def Let_def)
  next
    case n
    then have o: "on g b i c c2 v" using on_ensure_ending [OF 2 c1] by simp
    show ?thesis using n settle_keep [OF o] settle_throw [OF o] 2 st
      by (auto simp: media_failure_op_def Let_def split: ext.splits bool.splits)
  next
    case e
    obtain u where u: "on g b i c c3 u" "ac_state u = Ending" "ok3 \<longleftrightarrow> clean u"
      using end_and_clean [OF c1 e(1) 2 [unfolded e(2)] 3] by metis
    note keep3 = settle_keep [OF u(1)]
    show ?thesis
    proof (cases ok3)
      case False
      then show ?thesis using keep3 u(2) e 2 3 st by (auto simp: media_failure_op_def Let_def)
    next
      case True
      have f: "on g b i c c4 (u\<lparr>ac_dropped := ac_dropped u \<or> ok4\<rparr>)"
        by (rule on_fallback [OF 4 u(1)]) (use True u in \<open>auto simp: drop_allowed_def fallback_req_def\<close>)
      show ?thesis
        using True e 2 3 4 5 st u settle_keep [OF f] finish_settles [OF f _ _ _ 5]
        by (cases ok4) (auto simp: media_failure_op_def Let_def split: ext.splits bool.splits)
    qed
  qed
qed

lemma hangup_settles:
  assumes "conf b i c v"
  shows "settles g b i c (snd (hangup_op d b why i c))"
proof -
  have c1: "on g b i c (clear_lease_renewal i c) v" by (intro on_clear on_start assms)
  let ?c1 = "clear_lease_renewal i c"
  have st: "en_state (heap ?c1 i) = ac_state v" "en_state (heap c i) = ac_state v"
    using on_agrees [OF c1] on_agrees [OF on_start [OF assms]] by (auto simp: agrees_def)
  obtain r2 c2 where 2: "ensure_ending d b i ?c1 = (r2, c2)" by (metis surj_pair)
  obtain ok3 c3 where 3: "cleanup d b i c2 = (ok3, c3)" by (metis surj_pair)
  obtain ok4 c4 where 4: "pbx_fallback d i (hangup_req b (heap c3 i) why) c3 = (ok4, c4)"
    by (metis surj_pair)
  obtain r5 c5 where 5: "transition d b i Ended None c4 = (r5, c5)" by (metis surj_pair)
  consider (t) "terminal (ac_state v)" | (n) "\<not> terminal (ac_state v)" "r2 \<noteq> Ret True"
    | (e) "\<not> terminal (ac_state v)" "r2 = Ret True" by blast
  then show ?thesis
  proof cases
    case t
    then show ?thesis using settle_keep [OF c1] st by (auto simp: hangup_op_def Let_def)
  next
    case n
    then have o: "on g b i c c2 v" using on_ensure_ending [OF 2 c1] by simp
    show ?thesis using n settle_keep [OF o] settle_throw [OF o] 2 st
      by (auto simp: hangup_op_def Let_def split: ext.splits bool.splits)
  next
    case e
    obtain u where u: "on g b i c c3 u" "ac_state u = Ending" "ok3 \<longleftrightarrow> clean u"
      using end_and_clean [OF c1 e(1) 2 [unfolded e(2)] 3] by metis
    show ?thesis
    proof (cases ok3)
      case False
      then show ?thesis using settle_keep [OF u(1)] u(2) e 2 3 st by (auto simp: hangup_op_def Let_def)
    next
      case True
      have f: "on g b i c c4 (u\<lparr>ac_dropped := ac_dropped u \<or> ok4\<rparr>)"
        by (rule on_fallback [OF 4 u(1)]) (use True u in \<open>auto simp: drop_allowed_def hangup_req_def\<close>)
      show ?thesis
        using True e 2 3 4 5 st u finish_settles [OF f _ _ _ 5]
        by (auto simp: hangup_op_def Let_def split: ext.splits bool.splits)
    qed
  qed
qed

text \<open>
  A shutdown differs in that a claimed entry is not moved to \<open>ending\<close>; it has nothing to clean.
\<close>

lemma shutdown_settles:
  assumes "conf b i c v"
  shows "settles g b i c (snd (shutdown_op d b i c))"
proof -
  have c1: "on g b i c (clear_lease_renewal i c) v" by (intro on_clear on_start assms)
  let ?c1 = "clear_lease_renewal i c"
  have st: "en_state (heap ?c1 i) = ac_state v" "en_state (heap c i) = ac_state v"
    using on_agrees [OF c1] on_agrees [OF on_start [OF assms]] by (auto simp: agrees_def)
  define r2c2 where "r2c2 = (if ac_state v \<noteq> Claimed \<and> ac_state v \<noteq> Ending
    then transition d b i Ending None ?c1 else (Ret True, ?c1))"
  obtain r2 c2 where 2: "r2c2 = (r2, c2)" by (metis surj_pair)
  obtain ok3 c3 where 3: "cleanup d b i c2 = (ok3, c3)" by (metis surj_pair)
  obtain ok4 c4 where 4: "pbx_fallback d i
      (fallback_req b (heap c3 i) (JStr ''connector_shutdown'')) c3 = (ok4, c4)"
    by (metis surj_pair)
  obtain r5 c5 where 5: "transition d b i Ended None c4 = (r5, c5)" by (metis surj_pair)
  note defs = shutdown_op_def Let_def r2c2_def [symmetric] st 2
  show ?thesis
  proof (cases "terminal (ac_state v)")
    case True
    then show ?thesis using settle_forget [OF c1] on_ok [OF c1] by (auto simp: defs acall_ok_def)
  next
    case nt: False
    define w where "w = (if r2 = Ret True \<and> ac_state v \<noteq> Claimed then v\<lparr>ac_state := Ending\<rparr> else v)"
    have u2: "on g b i c c2 w"
    proof (cases "ac_state v \<noteq> Claimed \<and> ac_state v \<noteq> Ending")
      case True
      then have t: "transition d b i Ending None ?c1 = (r2, c2)" using 2 by (simp add: r2c2_def)
      show ?thesis using on_transition [OF t c1] True nt by (cases "ac_state v") (auto simp: w_def)
    next
      case False
      then have "r2 = Ret True" "c2 = ?c1" using 2 by (auto simp: r2c2_def)
      then show ?thesis using c1 False by (auto simp: w_def)
    qed
    show ?thesis
    proof (cases "r2 = Ret True")
      case False
      then show ?thesis using settle_keep [OF u2] settle_throw [OF u2] nt
        by (auto simp: defs w_def split: ext.splits bool.splits)
    next
      case True
      obtain m a where cl: "on g b i c c3 (w\<lparr>ac_media := m, ac_agent := a\<rparr>)" "ok3 \<longleftrightarrow> \<not> m \<and> a = None"
        using on_cleanup [OF 3 u2] by metis
      define u where "u = w\<lparr>ac_media := m, ac_agent := a\<rparr>"
      have u: "on g b i c c3 u" "ac_state u \<in> {Claimed, Ending}" "ok3 \<longleftrightarrow> clean u"
        using cl True by (auto simp: u_def w_def clean_def)
      show ?thesis
      proof (cases ok3)
        case False
        then show ?thesis using settle_keep [OF u(1)] u(2) nt True 3
          by (auto simp: defs)
      next
        case ok: True
        have f: "on g b i c c4 (u\<lparr>ac_dropped := ac_dropped u \<or> ok4\<rparr>)"
          by (rule on_fallback [OF 4 u(1)]) (use ok u in \<open>auto simp: drop_allowed_def fallback_req_def\<close>)
        show ?thesis
          using ok nt True 3 4 5 u settle_keep [OF f] finish_settles [OF f _ _ _ 5]
          by (cases ok4) (auto simp: defs split: ext.splits bool.splits)
      qed
    qed
  qed
qed

lemma lease_lost_settles:
  assumes o: "on g b i c0 c v" and st: "ac_state v = Active"
  shows "settles g b i c0 (snd (lease_lost d b i c))"
proof -
  let ?e = "upd i (\<lambda>e. e\<lparr>en_leaseLost := True\<rparr>) c"
  have "on g b i c0 ?e v"
    by (rule on_quiet [where a = "[]" and c = c])
       (use o in \<open>auto simp: upd_def ident_simps dest: on_agrees\<close>)
  then have c1: "on g b i c0 (clear_lease_renewal i ?e) v" by (rule on_clear)
  obtain r2 c2 where 2: "transition d b i Ending None (clear_lease_renewal i ?e) = (r2, c2)"
    by (metis surj_pair)
  define w where "w = (if r2 = Ret True then v\<lparr>ac_state := Ending\<rparr> else v)"
  have w: "on g b i c0 c2 w" unfolding w_def by (rule on_transition [OF 2 c1]) (simp add: st)
  obtain ok3 c3 where 3: "cleanup d b i c2 = (ok3, c3)" by (metis surj_pair)
  obtain ok4 c4 where 4: "pbx_fallback d i
      (fallback_req b (heap c3 i) (JStr ''call_claim_lease_lost'')) c3 = (ok4, c4)"
    by (metis surj_pair)
  obtain r5 c5 where 5: "transition d b i Ended None c4 = (r5, c5)" by (metis surj_pair)
  obtain m a where cl: "on g b i c0 c3 (w\<lparr>ac_media := m, ac_agent := a\<rparr>)" "ok3 \<longleftrightarrow> \<not> m \<and> a = None"
    using on_cleanup [OF 3 w] by metis
  define u where "u = w\<lparr>ac_media := m, ac_agent := a\<rparr>"
  have u: "on g b i c0 c3 u" "\<not> terminal (ac_state u)" "ok3 \<longleftrightarrow> clean u"
    "ac_state u = (if r2 = Ret True then Ending else Active)"
    using cl st by (auto simp: u_def w_def clean_def)
  note defs = lease_lost_def Let_def 2
  show ?thesis
  proof (cases "ok3 \<and> (\<exists>x. r2 = Ret x)")
    case False
    then show ?thesis
      using settle_keep [OF u(1)] settle_throw [OF w] u(2) st 3
      by (auto simp: defs w_def split: ext.splits bool.splits)
  next
    case True
    have f: "on g b i c0 c4 (u\<lparr>ac_dropped := ac_dropped u \<or> ok4\<rparr>)"
      by (rule on_fallback [OF 4 u(1)]) (use True u in \<open>auto simp: drop_allowed_def fallback_req_def\<close>)
    show ?thesis
      using True 3 4 5 u settle_keep [OF f] finish_settles [OF f _ _ _ 5]
      by (cases ok4) (auto simp: defs split: ext.splits bool.splits if_splits)
  qed
qed

lemma settles_decide:
  assumes "settles g b i c0 c"
  shows "settles g b i c0 (snd (decide r c))"
proof -
  have f: "frame g i c0 (snd (decide r c))"
    using assms frame_append [of g i c0 c "snd (decide r c)" "[ADecision r]"]
    by (auto simp: settles_def decide_def log_act_def own_act_def)
  have k: "conf b i (snd (decide r c)) v = conf b i c v" for v
    by (auto simp: conf_def decide_def log_act_def split: option.splits)
  have "calls (snd (decide r c)) = calls c" by (simp add: decide_def log_act_def)
  then show ?thesis using assms f by (auto simp: settles_def k)
qed

lemma renew_lease_settles:
  assumes "conf b i c v"
  shows "settles g b i c (snd (renew_lease d b i c))"
proof -
  have o: "on g b i c c v" by (intro on_start assms)
  have ag: "agrees v (heap c i)" using o by (rule on_agrees)
  have nt: "terminal (ac_state v) \<longrightarrow> terminal (en_state (heap c i))" using ag by (auto simp: agrees_def)
  let ?req = "renew_req b (heap c i)"
  obtain r c1 where 1: "ext_call (renewCallLease d ?req) (ARenew i ?req) c = (r, c1)"
    by (metis surj_pair)
  let ?c2 = "upd i (\<lambda>e. e\<lparr>en_renewFailures := Suc (en_renewFailures e)\<rparr>) c1"
  let ?c0 = "upd i (\<lambda>e. e\<lparr>en_renewFailures := 0\<rparr>) c1"
  show ?thesis
  proof (cases "en_state (heap c i) = Active")
    case False
    then show ?thesis using settle_keep [OF o nt] by (simp add: renew_lease_def)
  next
    case True
    then have act: "ac_state v = Active" using ag by (simp add: agrees_def)
    have "permits b (ident (heap c i)) v (ARenew i ?req r)"
      using act by (auto simp: renew_req_def ident_def)
    then have "on g b i c c1 (observe v (ARenew i ?req r))"
      by (rule on_call [OF o, rotated])
         (use 1 ag in \<open>auto simp: ext_call_def ident_simps split: prod.splits\<close>)
    then have o1: "on g b i c c1 v" by simp
    have "on g b i c ?c2 v" "on g b i c ?c0 v"
      by (rule on_quiet [where a = "[]" and c = c1];
          use o1 in \<open>auto simp: upd_def ident_simps dest: on_agrees\<close>)+
    then show ?thesis
      using True 1 act settle_keep [of g b i c ?c0 v] settle_keep [of g b i c ?c2 v]
        lease_lost_settles [OF o1 act] lease_lost_settles [of g b i c ?c2 v]
      by (auto simp: renew_lease_def Let_def split: ext.splits bool.splits)
  qed
qed

lemma renew_settles:
  assumes "conf b i c v"
  shows "settles g b i c (snd (renew_task d b i c))"
  using renew_lease_settles [OF assms, where d = d] settles_decide [OF renew_lease_settles [OF assms, where d = d]]
  by (auto simp: renew_task_def split: prod.splits ext.splits)

text \<open>Starting a call; the dispatch is the only one its entry ever makes.\<close>

lemma start_activate_settles:
  assumes o: "on g b i c0 c v" and v: "ac_state v = Connecting" "ac_media v" "ac_agent v \<noteq> None"
  shows "settles g b i c0 (snd (start_activate d b i c))"
proof -
  have ag: "en_dispatchId (heap c i) = ac_agent v" using on_agrees [OF o] by (simp add: agrees_def)
  obtain r c1 where 1: "transition d b i Active (ac_agent v) c = (r, c1)" by (metis surj_pair)
  have m: "may_move v Active (ac_agent v)" using v by (auto simp: may_move_def)
  note t = on_transition [OF 1 o m]
  show ?thesis
  proof (cases "r = Ret True")
    case True
    then have s: "on g b i c0 (schedule_lease_renewal i c1) (v\<lparr>ac_state := Active\<rparr>)"
      using on_schedule t by fastforce
    show ?thesis using settle_keep [OF s] True 1 ag by (simp add: start_activate_def)
  next
    case False
    then show ?thesis using start_failed_settles [of g b i c0 c1 v] t v 1 ag
      by (auto simp: start_activate_def split: ext.splits bool.splits)
  qed
qed

lemma start_media_settles:
  assumes o: "on True b i c0 c v" and v: "ac_state v = Connecting" "\<not> ac_attached v" "ac_agent v \<noteq> None"
  shows "settles True b i c0 (snd (start_media d b i c))"
proof -
  let ?req = "media_req (heap c i)"
  have ag: "agrees v (heap c i)" using o by (rule on_agrees)
  have nm: "\<not> ac_media v" using on_ok [OF o] v by (auto simp: acall_ok_def)
  obtain r c1 where 1: "ext_call (attachMedia d ?req) (AAttach i ?req) c = (r, c1)" by (metis surj_pair)
  define c2 where "c2 = (if r = Ret True then upd i (\<lambda>e. e\<lparr>en_closeMedia := True\<rparr>) c1 else c1)"
  let ?w = "v\<lparr>ac_attached := True, ac_media := (r = Ret True)\<rparr>"
  have "permits b (ident (heap c i)) v (AAttach i ?req r)"
    using ag v by (auto simp: media_req_def ident_simps)
  then have "on True b i c0 c2 (observe v (AAttach i ?req r))"
    by (rule on_call [OF o, rotated])
       (use 1 ag nm in \<open>auto simp: c2_def ext_call_def upd_def ident_simps split: prod.splits\<close>)
  then have w: "on True b i c0 c2 ?w" by simp
  show ?thesis
  proof (cases "r = Ret True")
    case True
    then show ?thesis using start_activate_settles [OF w] v 1 by (simp add: start_media_def Let_def c2_def)
  next
    case False
    then show ?thesis using start_failed_settles [OF w] v 1
      by (auto simp: start_media_def Let_def c2_def split: ext.splits bool.splits)
  qed
qed

lemma start_call_settles:
  assumes "conf b i c v" "ac_state v = Claimed"
  shows "settles True b i c (snd (start_call d b i c))"
proof -
  have o: "on True b i c c v" by (intro on_start assms)
  have ok: "clean v" "\<not> ac_dispatched v" "\<not> ac_attached v"
    using on_ok [OF o] assms(2) by (auto simp: acall_ok_def clean_def)
  obtain r1 c1 where 1: "transition d b i Connecting None c = (r1, c1)" by (metis surj_pair)
  have m: "may_move v Connecting None" using assms(2) by (auto simp: may_move_def)
  note t = on_transition [OF 1 o m]
  consider (lost) "r1 = Ret False" | (thrown) e where "r1 = Throw e" | (go) "r1 = Ret True"
    by (cases r1) auto
  then show ?thesis
  proof cases
    case lost
    obtain k c2 where 2: "cleanup d b i c1 = (k, c2)" by (metis surj_pair)
    have o1: "on True b i c c1 v" using t lost by simp
    obtain m' a where cl: "on True b i c c2 (v\<lparr>ac_media := m', ac_agent := a\<rparr>)" "m' \<longrightarrow> ac_media v"
      "a = None \<or> a = ac_agent v"
      using on_cleanup [OF 2 o1] by metis
    have "clean (v\<lparr>ac_media := m', ac_agent := a\<rparr>)" using cl(2,3) ok(1) by (auto simp: clean_def)
    then show ?thesis using settle_forget [OF cl(1)] lost 1 2 by (simp add: start_call_def)
  next
    case thrown
    then show ?thesis using start_failed_settles [of True b i c c1 v] t 1 assms(2) by (simp add: start_call_def)
  next
    case go
    define w where "w = v\<lparr>ac_state := Connecting\<rparr>"
    have w: "on True b i c c1 w" using t go by (simp add: w_def)
    let ?req = "dispatch_req b (heap c1 i)"
    obtain r2 c2 where 2: "ext_call (dispatchAgent d ?req) (ADispatch i ?req) c1 = (r2, c2)"
      by (metis surj_pair)
    define c3 where "c3 = (case r2 of Throw _ \<Rightarrow> c2
      | Ret x \<Rightarrow> upd i (\<lambda>e. e\<lparr>en_dispatchId := bounded_string (get x ''dispatchId'') 255\<rparr>) c2)"
    let ?w = "observe w (ADispatch i ?req r2)"
    have "permits b (ident (heap c1 i)) w (ADispatch i ?req r2)"
      using ok by (auto simp: w_def dispatch_req_def ident_def)
    then have o3: "on True b i c c3 ?w"
      by (rule on_call [OF w, rotated])
         (use 2 on_agrees [OF w] ok in \<open>auto simp: c3_def ext_call_def upd_def ident_simps w_def clean_def
            split: prod.splits ext.splits\<close>)
    have st3: "ac_state ?w = Connecting" "\<not> ac_attached ?w"
      using ok by (cases r2; auto simp: w_def)+
    show ?thesis
      using go 1 2 start_failed_settles [OF o3] start_media_settles [OF o3] st3
      by (cases r2) (auto simp: start_call_def Let_def c3_def)
  qed
qed

end
