(* ===== verification/Call_System.thy ===== *)
theory Call_System
  imports Call_Invariants
begin

text \<open>
  The connector's call controller in operation: joins admitted and waiting for their claim, the
  operations queued on each entry's lock (\<open>#serialize\<close>), the lease timers, and a shutdown that
  drains. \<open>reach\<close> is the set of states of a controller that starts empty; the properties of
  single calls are proved on all of them.
\<close>

section \<open>The step relation\<close>

datatype op = OStart | OMediaFail string | OHangup jsval | OEnd | OShutdown | ORenew

fun run_op :: "'w deps \<Rightarrow> binding \<Rightarrow> op \<Rightarrow> nat \<Rightarrow> 'w ctl \<Rightarrow> 'w ctl" where
  "run_op d b OStart i c = snd (start_call d b i c)"
| "run_op d b (OMediaFail why) i c = snd (media_failure_op d b why i c)"
| "run_op d b (OHangup why) i c = snd (hangup_op d b why i c)"
| "run_op d b OEnd i c = snd (end_op d b i c)"
| "run_op d b OShutdown i c = snd (shutdown_op d b i c)"
| "run_op d b ORenew i c = snd (renew_task d b i c)"

record 'w sys =
  sy_ctl :: "'w ctl"
  sy_joins :: "jsval list"           \<comment> \<open>\<open>inflightJoins\<close> that wait for \<open>claimCall\<close>\<close>
  sy_lock :: "nat \<Rightarrow> op list"        \<comment> \<open>the operations chained on \<open>entry.lock\<close>\<close>
  sy_finally :: "nat list"           \<comment> \<open>\<open>.finally(() => #scheduleLeaseRenewal)\<close> callbacks due\<close>

definition enqueue :: "nat \<Rightarrow> op \<Rightarrow> 'w sys \<Rightarrow> 'w sys" where
  "enqueue i oper s = s\<lparr>sy_lock := (sy_lock s)(i := sy_lock s i @ [oper])\<rparr>"

definition new_sys :: "'w \<Rightarrow> 'w sys" where
  "new_sys w = \<lparr>sy_ctl = new_ctl w, sy_joins = [], sy_lock = (\<lambda>_. []), sy_finally = []\<rparr>"

text \<open>
  Rule \<open>claimed\<close> carries the one law of the durable store that the controller relies on (the
  comment at line 135 of \<open>connector/call-controller.mjs\<close>): a call id is claimed once.
\<close>

definition call_id_new :: "'w ctl \<Rightarrow> string \<Rightarrow> bool" where
  "call_id_new c k \<longleftrightarrow> (\<forall>j < next_ref c. en_callId (heap c j) \<noteq> k)"

inductive sys_step :: "'w deps \<Rightarrow> binding \<Rightarrow> 'w sys \<Rightarrow> 'w sys \<Rightarrow> bool" for d b where
  env: "sys_step d b s (s\<lparr>sy_ctl := (sy_ctl s)\<lparr>world := w\<rparr>\<rparr>)"
| rejected: "sys_step d b s (s\<lparr>sy_ctl := snd (decide r (sy_ctl s))\<rparr>)"
| admitted: "\<not> stopping (sy_ctl s) \<Longrightarrow> is_object ev \<Longrightarrow>
    get ev ''type'' \<noteq> JStr ''routepoint_call_ended'' \<Longrightarrow>
    sys_step d b s (s\<lparr>sy_joins := sy_joins s @ [ev]\<rparr>)"
| not_claimed: "sy_joins s = xs @ ev # ys \<Longrightarrow> claim_phase d b ev (sy_ctl s) = (Inl r, c) \<Longrightarrow>
    sys_step d b s (s\<lparr>sy_ctl := c, sy_joins := xs @ ys\<rparr>)"
| claimed: "sy_joins s = xs @ ev # ys \<Longrightarrow> claim_phase d b ev (sy_ctl s) = (Inr i, c) \<Longrightarrow>
    call_id_new (sy_ctl s) (en_callId (heap c i)) \<Longrightarrow>
    sys_step d b s (enqueue i OStart (s\<lparr>sy_ctl := c, sy_joins := xs @ ys\<rparr>))"
| ended: "end_lookup b ev (sy_ctl s) = Inr i \<Longrightarrow> sys_step d b s (enqueue i OEnd s)"
| media_failed: "media_failure_lookup sid why (sy_ctl s) = Inr (i, r) \<Longrightarrow>
    sys_step d b s (enqueue i (OMediaFail r) s)"
| hung_up: "hangup_lookup sid (sy_ctl s) = Inr i \<Longrightarrow>
    sys_step d b s (enqueue i (OHangup (hangup_reason why)) s)"
| timer: "i < next_ref (sy_ctl s) \<Longrightarrow> en_leaseTimer (heap (sy_ctl s) i) \<Longrightarrow>
    sys_step d b s (enqueue i ORenew (s\<lparr>sy_ctl := clear_lease_renewal i (sy_ctl s)\<rparr>))"
| again: "sy_finally s = xs @ i # ys \<Longrightarrow>
    sys_step d b s (s\<lparr>sy_ctl := schedule_lease_renewal i (sy_ctl s), sy_finally := xs @ ys\<rparr>)"
| stop: "sys_step d b s (s\<lparr>sy_ctl := (sy_ctl s)\<lparr>stopping := True\<rparr>\<rparr>)"
| drain: "stopping (sy_ctl s) \<Longrightarrow> sy_joins s = [] \<Longrightarrow> \<forall>j < next_ref (sy_ctl s). OStart \<notin> set (sy_lock s j) \<Longrightarrow>
    i < next_ref (sy_ctl s) \<Longrightarrow> sys_step d b s (enqueue i OShutdown s)"
| operate: "sy_lock s i = oper # rest \<Longrightarrow>
    sys_step d b s (s\<lparr>sy_ctl := run_op d b oper i (sy_ctl s), sy_lock := (sy_lock s)(i := rest),
      sy_finally := (if oper = ORenew then i # sy_finally s else sy_finally s)\<rparr>)"

inductive reach :: "'w deps \<Rightarrow> binding \<Rightarrow> 'w \<Rightarrow> 'w sys \<Rightarrow> bool" for d b w where
  start: "reach d b w (new_sys w)"
| step: "reach d b w s \<Longrightarrow> sys_step d b s s' \<Longrightarrow> reach d b w s'"

section \<open>The invariant\<close>

definition tracked :: "'w ctl \<Rightarrow> nat \<Rightarrow> bool" where
  "tracked c i \<longleftrightarrow> jm_get (calls c) (en_callId (heap c i)) = Some i"

definition live :: "'w ctl \<Rightarrow> nat \<Rightarrow> bool" where
  "live c i \<longleftrightarrow> en_closeMedia (heap c i) \<or> en_dispatchId (heap c i) \<noteq> None"

text \<open>Every entry follows the protocol; a live one is tracked, a tracked one is not terminal.\<close>

definition entry_inv :: "binding \<Rightarrow> 'w ctl \<Rightarrow> nat \<Rightarrow> bool" where
  "entry_inv b c i \<longleftrightarrow> (\<exists>v. conf b i c v) \<and> (live c i \<longrightarrow> tracked c i)
     \<and> (tracked c i \<longrightarrow> \<not> terminal (en_state (heap c i)))"

text \<open>The \<open>calls\<close> map and the store of entries fit together.\<close>

definition ctl_inv :: "'w ctl \<Rightarrow> bool" where
  "ctl_inv c \<longleftrightarrow>
     (\<forall>k i. jm_get (calls c) k = Some i \<longrightarrow> i < next_ref c \<and> en_callId (heap c i) = k)
     \<and> (\<forall>i j. i < next_ref c \<longrightarrow> j < next_ref c \<longrightarrow> en_callId (heap c i) = en_callId (heap c j) \<longrightarrow> i = j)
     \<and> (\<forall>i \<ge> next_ref c. \<forall>a \<in> set (trace c). act_ref a \<noteq> Some i)
     \<and> distinct (jm_keys (calls c))"

lemma ctl_invI:
  assumes "\<And>k i. jm_get (calls c) k = Some i \<Longrightarrow> i < next_ref c \<and> en_callId (heap c i) = k"
    "\<And>i j. i < next_ref c \<Longrightarrow> j < next_ref c \<Longrightarrow> en_callId (heap c i) = en_callId (heap c j) \<Longrightarrow> i = j"
    "\<And>i a. next_ref c \<le> i \<Longrightarrow> a \<in> set (trace c) \<Longrightarrow> act_ref a \<noteq> Some i"
    "distinct (jm_keys (calls c))"
  shows "ctl_inv c"
  using assms by (auto simp: ctl_inv_def)

lemma ctl_invD:
  assumes "ctl_inv c"
  shows "jm_get (calls c) k = Some i \<Longrightarrow> i < next_ref c \<and> en_callId (heap c i) = k"
    "i < next_ref c \<Longrightarrow> j < next_ref c \<Longrightarrow> en_callId (heap c i) = en_callId (heap c j) \<Longrightarrow> i = j"
    "next_ref c \<le> i \<Longrightarrow> a \<in> set (trace c) \<Longrightarrow> act_ref a \<noteq> Some i"
    "distinct (jm_keys (calls c))"
  using assms by (auto simp: ctl_inv_def)

text \<open>The start of a call is the first operation ever queued for it.\<close>

definition lock_inv :: "'w sys \<Rightarrow> bool" where
  "lock_inv s \<longleftrightarrow>
     (\<forall>i \<ge> next_ref (sy_ctl s). sy_lock s i = [])
     \<and> (\<forall>i. OStart \<notin> set (tl (sy_lock s i)))
     \<and> (\<forall>i. sy_lock s i \<noteq> [] \<longrightarrow> hd (sy_lock s i) = OStart \<longrightarrow>
          en_state (heap (sy_ctl s) i) = Claimed \<and> tracked (sy_ctl s) i)
     \<and> (\<forall>i \<in> set (sy_finally s). i < next_ref (sy_ctl s))"

definition sys_inv :: "binding \<Rightarrow> 'w sys \<Rightarrow> bool" where
  "sys_inv b s \<longleftrightarrow> (\<forall>i < next_ref (sy_ctl s). entry_inv b (sy_ctl s) i)
     \<and> ctl_inv (sy_ctl s) \<and> lock_inv s"

lemma sys_inv_new: "sys_inv b (new_sys w)"
  by (simp add: sys_inv_def new_sys_def new_ctl_def ctl_inv_def lock_inv_def jm_keys_def)

lemma conf_live: "conf b i c v \<Longrightarrow> live c i \<longleftrightarrow> \<not> clean v"
  by (auto simp: conf_def agrees_def live_def clean_def)

subsection \<open>Operations keep it\<close>

lemma clean_stays:
  assumes "mon b e i t' = Some v0" "clean v0" "\<forall>a \<in> set t. \<not> is_dispatch a \<and> \<not> is_attach a"
  shows "mon b e i (t @ t') = Some v \<Longrightarrow> clean v"
  using assms(3)
proof (induction t arbitrary: v)
  case Nil
  then show ?case using assms by simp
next
  case (Cons a t)
  then obtain v' where v': "mon b e i (t @ t') = Some v'" by (auto split: option.splits)
  then have "clean v'" using Cons by simp
  then show ?case using v' Cons.prems
    by (cases "(v', a)" rule: observe.cases) (auto simp: clean_def split: if_splits)
qed

lemma no_new_resources:
  assumes "frame False i c c'" "conf b i c v0" "clean v0" "conf b i c' v"
  shows "clean v"
proof -
  obtain t where t: "trace c' = t @ trace c" "\<forall>a \<in> set t. own_act False i a"
    using assms(1) by (auto simp: frame_def)
  have "ident (heap c' i) = ident (heap c i)" using assms(1) by (simp add: frame_def)
  then show ?thesis
    using clean_stays [of b "ident (heap c i)" i "trace c" v0 t v] assms t
    by (auto simp: conf_def own_act_def)
qed

lemma frame_other:
  assumes "frame g i c c'" "j \<noteq> i"
  shows "heap c' j = heap c j" "conf b j c' v \<longleftrightarrow> conf b j c v"
proof -
  obtain t where "trace c' = t @ trace c" "\<forall>a \<in> set t. own_act g i a"
    using assms(1) by (auto simp: frame_def)
  then have "mon b e j (trace c') = mon b e j (trace c)" for e
    using assms(2) by (auto intro!: mon_append_other simp: own_act_def)
  moreover show "heap c' j = heap c j" using assms by (auto simp: frame_def)
  ultimately show "conf b j c' v \<longleftrightarrow> conf b j c v" by (simp add: conf_def)
qed

lemma op_keeps:
  assumes s: "settles g b i c c'" and inv: "\<forall>j < next_ref c. entry_inv b c j" "ctl_inv c"
    and i: "i < next_ref c" and g: "g \<longrightarrow> tracked c i"
  shows "\<forall>j < next_ref c'. entry_inv b c' j" "ctl_inv c'" "\<And>j. j \<noteq> i \<Longrightarrow> tracked c' j \<longleftrightarrow> tracked c j"
proof -
  have f: "frame g i c c'" using s by (simp add: settles_def)
  have n: "next_ref c' = next_ref c" using f by (simp add: frame_def)
  have id: "en_callId (heap c' j) = en_callId (heap c j)" for j
    using frame_callId [OF f] frame_other [OF f] by (cases "j = i") auto
  have del: "calls c' = calls c \<or> calls c' = jm_delete (en_callId (heap c i)) (calls c)"
    using s by (auto simp: settles_def)
  obtain t where t: "trace c' = t @ trace c" "\<forall>a \<in> set t. own_act g i a"
    using f by (auto simp: frame_def)
  note old = ctl_invD [OF inv(2)]
  have sub: "jm_get (calls c') k = Some j \<Longrightarrow> jm_get (calls c) k = Some j" for k j
    using del by (auto split: if_splits)
  show "ctl_inv c'"
  proof (rule ctl_invI, unfold n id)
    show "j < next_ref c \<and> en_callId (heap c j) = k" if "jm_get (calls c') k = Some j" for k j
      using old(1) [OF sub [OF that]] .
    show "j = l" if "j < next_ref c" "l < next_ref c" "en_callId (heap c j) = en_callId (heap c l)" for j l
      using old(2) that .
    show "act_ref a \<noteq> Some j" if "next_ref c \<le> j" "a \<in> set (trace c')" for j a
      using old(3) [of j a] that t i by (auto simp: own_act_def)
    show "distinct (jm_keys (calls c'))" using del old(4) jm_distinct_delete by auto
  qed
  show other_tracked: "tracked c' j \<longleftrightarrow> tracked c j" if "j \<noteq> i" for j
  proof
    show "tracked c' j \<Longrightarrow> tracked c j" using sub by (simp add: tracked_def id)
    assume "tracked c j"
    then have "jm_get (calls c) (en_callId (heap c j)) = Some j" by (simp add: tracked_def)
    moreover from this have "en_callId (heap c j) \<noteq> en_callId (heap c i)"
      using old(1) old(2) [of j i] i that by blast
    ultimately show "tracked c' j" using del by (auto simp: tracked_def id)
  qed
  have other: "entry_inv b c' j" if "j \<noteq> i" "j < next_ref c" for j
  proof -
    have "live c' j = live c j" using frame_other [OF f that(1)] by (auto simp: live_def)
    then show ?thesis using inv(1) that frame_other [OF f that(1)] other_tracked
      by (auto simp: entry_inv_def)
  qed
  obtain v where v: "conf b i c' v"
    and fin: "calls c' = calls c \<and> (terminal (ac_state v) \<longrightarrow> terminal (en_state (heap c i)))
      \<or> calls c' = jm_delete (en_callId (heap c i)) (calls c) \<and> clean v"
    using s by (auto simp: settles_def)
  have st: "ac_state v = en_state (heap c' i)" using v by (simp add: conf_def agrees_def)
  obtain v0 where v0: "conf b i c v0" and i_inv: "entry_inv b c i"
    using inv(1) i by (auto simp: entry_inv_def)
  have "entry_inv b c' i"
    using fin
  proof
    assume a: "calls c' = calls c \<and> (terminal (ac_state v) \<longrightarrow> terminal (en_state (heap c i)))"
    then have tr: "tracked c' i = tracked c i" by (simp add: tracked_def id)
    have "live c' i \<longrightarrow> tracked c i"
    proof (cases g)
      case False
      then show ?thesis
        using no_new_resources [of i c c' b v0 v] f v v0 conf_live i_inv by (auto simp: entry_inv_def)
    qed (use g in simp)
    then show ?thesis using a tr v i_inv st by (auto simp: entry_inv_def)
  next
    assume a: "calls c' = jm_delete (en_callId (heap c i)) (calls c) \<and> clean v"
    then have "\<not> tracked c' i" by (simp add: tracked_def id)
    then show ?thesis using a v conf_live [OF v] by (auto simp: entry_inv_def)
  qed
  then show "\<forall>j < next_ref c'. entry_inv b c' j"
    using other n by metis
qed

lemma run_op_settles:
  assumes "conf b i c v" "oper = OStart \<Longrightarrow> ac_state v = Claimed"
  shows "settles (oper = OStart) b i c (run_op d b oper i c)"
  using assms start_call_settles media_failure_settles hangup_settles end_op_settles
    shutdown_settles renew_settles
  by (cases oper) auto

subsection \<open>Every step keeps it\<close>

lemma quiet_keeps:
  assumes "heap c' = heap c" "calls c' = calls c" "next_ref c' = next_ref c"
    "trace c' = t @ trace c" "\<forall>a \<in> set t. act_ref a = None"
  shows "entry_inv b c' j \<longleftrightarrow> entry_inv b c j" "ctl_inv c' \<longleftrightarrow> ctl_inv c" "tracked c' j \<longleftrightarrow> tracked c j"
proof -
  have "mon b e j (t @ trace c) = mon b e j (trace c)" for e
    using assms(5) by (intro mon_append_other) auto
  then show "entry_inv b c' j \<longleftrightarrow> entry_inv b c j" "tracked c' j \<longleftrightarrow> tracked c j"
    using assms by (auto simp: entry_inv_def conf_def live_def tracked_def)
  show "ctl_inv c' \<longleftrightarrow> ctl_inv c" using assms by (auto simp: ctl_inv_def)
qed

lemma timer_keeps:
  assumes "heap c' = (heap c)(i := (heap c i)\<lparr>en_leaseTimer := x\<rparr>)" "calls c' = calls c"
    "next_ref c' = next_ref c" "trace c' = trace c"
  shows "entry_inv b c' j \<longleftrightarrow> entry_inv b c j" "ctl_inv c' \<longleftrightarrow> ctl_inv c" "tracked c' j \<longleftrightarrow> tracked c j"
    "en_state (heap c' j) = en_state (heap c j)"
proof -
  have same: "ident (heap c' j) = ident (heap c j)" "en_callId (heap c' j) = en_callId (heap c j)"
    "en_closeMedia (heap c' j) = en_closeMedia (heap c j)"
    "en_dispatchId (heap c' j) = en_dispatchId (heap c j)"
    "en_state (heap c' j) = en_state (heap c j)" for j
    by (cases "j = i"; simp add: assms(1) ident_def)+
  then show "en_state (heap c' j) = en_state (heap c j)" by simp
  show tr: "tracked c' j \<longleftrightarrow> tracked c j" by (simp add: tracked_def assms(2) same(2))
  show "entry_inv b c' j \<longleftrightarrow> entry_inv b c j"
    by (simp only: entry_inv_def conf_def live_def agrees_def tr same assms(4))
  show "ctl_inv c' \<longleftrightarrow> ctl_inv c" by (simp only: ctl_inv_def same assms(2-4))
qed

lemma sys_inv_ctl:
  assumes "sys_inv b s" "next_ref c' = next_ref (sy_ctl s)" "ctl_inv c' \<longleftrightarrow> ctl_inv (sy_ctl s)"
    "\<And>j. entry_inv b c' j \<longleftrightarrow> entry_inv b (sy_ctl s) j" "\<And>j. tracked c' j \<longleftrightarrow> tracked (sy_ctl s) j"
    "\<And>j. en_state (heap c' j) = en_state (heap (sy_ctl s) j)"
    "set f \<subseteq> set (sy_finally s)"
  shows "sys_inv b (s\<lparr>sy_ctl := c', sy_joins := q, sy_finally := f\<rparr>)"
proof -
  have "lock_inv (s\<lparr>sy_ctl := c', sy_joins := q, sy_finally := f\<rparr>)"
  proof -
    have "lock_inv s" using assms(1) by (simp add: sys_inv_def)
    then show ?thesis using assms(7) by (auto simp: lock_inv_def assms(2,5,6))
  qed
  then show ?thesis using assms(1-4) by (simp add: sys_inv_def)
qed

lemma lock_inv_enqueue:
  assumes "lock_inv s" "i < next_ref (sy_ctl s)" "oper \<noteq> OStart"
  shows "lock_inv (enqueue i oper s)"
proof -
  have t: "set (tl (sy_lock s i @ [oper])) \<subseteq> insert oper (set (tl (sy_lock s i)))"
    by (cases "sy_lock s i") auto
  have h: "hd (sy_lock s i @ [oper]) = (if sy_lock s i = [] then oper else hd (sy_lock s i))"
    by (cases "sy_lock s i") auto
  have "OStart \<notin> set (tl (sy_lock (enqueue i oper s) j))" for j
    using assms(1,3) t by (auto simp: lock_inv_def enqueue_def)
  moreover have "en_state (heap (sy_ctl s) j) = Claimed \<and> tracked (sy_ctl s) j"
    if "hd (sy_lock (enqueue i oper s) j) = OStart" "sy_lock (enqueue i oper s) j \<noteq> []" for j
    using assms(1,3) that h by (auto simp: lock_inv_def enqueue_def split: if_splits)
  ultimately show ?thesis using assms(1,2) by (simp add: lock_inv_def enqueue_def)
qed

lemma sys_inv_enqueue:
  assumes "sys_inv b s" "i < next_ref (sy_ctl s)" "oper \<noteq> OStart"
  shows "sys_inv b (enqueue i oper s)"
  using assms lock_inv_enqueue by (auto simp: sys_inv_def) (auto simp: enqueue_def)

lemma claim_phase_Inl:
  assumes "claim_phase d b ev c = (Inl r, c')"
  shows "\<exists>t. heap c' = heap c \<and> calls c' = calls c \<and> next_ref c' = next_ref c \<and> stopping c' = stopping c
    \<and> trace c' = t @ trace c \<and> (\<forall>a \<in> set t. act_ref a = None)"
  using assms
  by (auto simp: claim_phase_def decide_def log_act_def ext_call_def best_effort_failure_def Let_def
      split: sum.splits prod.splits ext.splits option.splits if_splits)

lemma claim_phase_Inr:
  assumes "claim_phase d b ev c = (Inr i, c')"
  shows "i = next_ref c" "next_ref c' = Suc i" "\<And>j. j \<noteq> i \<Longrightarrow> heap c' j = heap c j"
    "calls c' = jm_set (en_callId (heap c' i)) i (calls c)" "ident (heap c' i) = heap c' i"
    "\<exists>a. trace c' = a # trace c \<and> act_ref a = None" "stopping c' = stopping c"
  using assms
  by (auto simp: claim_phase_def decide_def log_act_def ext_call_def best_effort_failure_def Let_def
      new_entry_def blank_entry_def ident_def
      split: sum.splits prod.splits ext.splits option.splits if_splits)

lemma claimed_keeps:
  assumes inv: "sys_inv b s" and c: "claim_phase d b ev (sy_ctl s) = (Inr i, c')"
    and new: "call_id_new (sy_ctl s) (en_callId (heap c' i))"
  shows "sys_inv b (enqueue i OStart (s\<lparr>sy_ctl := c', sy_joins := q\<rparr>))"
proof -
  let ?c = "sy_ctl s" and ?k = "en_callId (heap c' i)"
  note e = claim_phase_Inr [OF c]
  have fields: "en_state (heap c' i) = Claimed" "\<not> en_closeMedia (heap c' i)"
    "en_dispatchId (heap c' i) = None"
    using arg_cong [OF e(5), of en_state] arg_cong [OF e(5), of en_closeMedia]
      arg_cong [OF e(5), of en_dispatchId] by (simp_all add: ident_def)
  have fresh: "\<forall>j < i. en_callId (heap ?c j) \<noteq> ?k" using new e(1) by (simp add: call_id_new_def)
  have ci: "ctl_inv ?c" "lock_inv s" and ei: "\<forall>j < i. entry_inv b ?c j"
    using inv e(1) by (auto simp: sys_inv_def)
  obtain a where a: "trace c' = a # trace ?c" "act_ref a = None" using e(6) by blast
  have tr: "tracked c' j \<longleftrightarrow> tracked ?c j" if "j < i" for j
    using that fresh e(3) [of j] by (auto simp: tracked_def e(4))
  have tri: "tracked c' i" by (simp add: tracked_def e(4))
  have no: "\<forall>j \<ge> i. \<forall>a \<in> set (trace c'). act_ref a \<noteq> Some j"
    using ci(1) a e(1) by (auto simp: ctl_inv_def)
  then have "mon b x i (trace c') = Some acall0" for x
    using mon_append_other [of "trace c'" i b x "[]"] by simp
  then have "conf b i c' acall0" using fields by (simp add: conf_def agrees_def acall0_def)
  then have new_i: "entry_inv b c' i"
    using tri fields by (auto simp: entry_inv_def)
  have old: "entry_inv b c' j" if "j < i" for j
    using ei that tr e(3) [of j] a by (auto simp: entry_inv_def conf_def live_def)
  note o = ctl_invD [OF ci(1)]
  have "ctl_inv c'"
  proof (rule ctl_invI, unfold e(2))
    show "j < Suc i \<and> en_callId (heap c' j) = k" if "jm_get (calls c') k = Some j" for k j
      using that o(1) [of k j] e(1) e(3) [of j] by (auto simp: e(4) split: if_splits)
    show "j = l" if "j < Suc i" "l < Suc i" "en_callId (heap c' j) = en_callId (heap c' l)" for j l
      using that fresh o(2) [of j l] e(1) e(3) [of j] e(3) [of l]
      by (cases "j = i"; cases "l = i") (auto simp: less_Suc_eq)
    show "act_ref a \<noteq> Some j" if "Suc i \<le> j" "a \<in> set (trace c')" for j a
      using no that by simp
    show "distinct (jm_keys (calls c'))" using o(4) by (simp add: e(4) jm_distinct_set)
  qed
  moreover have "lock_inv (enqueue i OStart (s\<lparr>sy_ctl := c', sy_joins := q\<rparr>))"
  proof -
    have l: "sy_lock s j = []" if "j \<ge> i" for j using ci(2) that e(1) by (simp add: lock_inv_def)
    have "en_state (heap c' j) = Claimed \<and> tracked c' j"
      if "sy_lock s j \<noteq> []" "hd (sy_lock s j) = OStart" for j
    proof -
      have "j < i" using that(1) l [of j] not_le by blast
      then show ?thesis using ci(2) that tr [of j] e(3) [of j] by (simp add: lock_inv_def)
    qed
    then show ?thesis
      using ci(2) l fields tri e(1,2) by (auto simp: lock_inv_def enqueue_def)
  qed
  ultimately show ?thesis using new_i old e(2) by (auto simp: sys_inv_def enqueue_def less_Suc_eq)
qed

lemma operate_keeps:
  assumes inv: "sys_inv b s" and q: "sy_lock s i = oper # rest"
  shows "sys_inv b (s\<lparr>sy_ctl := run_op d b oper i (sy_ctl s), sy_lock := (sy_lock s)(i := rest),
    sy_finally := (if oper = ORenew then i # sy_finally s else sy_finally s)\<rparr>)"
proof -
  let ?c = "sy_ctl s" and ?c' = "run_op d b oper i (sy_ctl s)"
  have l: "lock_inv s" and ci: "ctl_inv ?c" and ei: "\<forall>j < next_ref ?c. entry_inv b ?c j"
    using inv by (auto simp: sys_inv_def)
  have i: "i < next_ref ?c" using l q unfolding lock_inv_def by (metis linorder_not_less list.distinct(1))
  obtain v where v: "conf b i ?c v" using ei i by (auto simp: entry_inv_def)
  have st: "oper = OStart \<Longrightarrow> ac_state v = Claimed \<and> tracked ?c i"
    using l q v unfolding lock_inv_def conf_def agrees_def
    by (metis list.distinct(1) list.sel(1))
  have s': "settles (oper = OStart) b i ?c ?c'" using run_op_settles [OF v] st by blast
  have f: "frame (oper = OStart) i ?c ?c'" using s' by (simp add: settles_def)
  have n: "next_ref ?c' = next_ref ?c" using f by (simp add: frame_def)
  have keep: "\<forall>j < next_ref ?c'. entry_inv b ?c' j" "ctl_inv ?c'" "\<And>j. j \<noteq> i \<Longrightarrow> tracked ?c' j \<longleftrightarrow> tracked ?c j"
    using op_keeps [OF s' ei ci i] st by auto
  have rest: "OStart \<notin> set rest" using l q unfolding lock_inv_def by (metis list.sel(3))
  have 1: "OStart \<notin> set (tl (((sy_lock s)(i := rest)) j))" for j
    using l rest by (cases rest) (auto simp: lock_inv_def)
  have 2: "en_state (heap ?c' j) = Claimed \<and> tracked ?c' j"
    if "((sy_lock s)(i := rest)) j \<noteq> []" "hd (((sy_lock s)(i := rest)) j) = OStart" for j
  proof (cases "j = i")
    case True
    then show ?thesis using that rest by (metis fun_upd_same hd_in_set)
  next
    case False
    then show ?thesis using that l keep(3) frame_other(1) [OF f] by (simp add: lock_inv_def)
  qed
  have "lock_inv (s\<lparr>sy_ctl := ?c', sy_lock := (sy_lock s)(i := rest),
      sy_finally := (if oper = ORenew then i # sy_finally s else sy_finally s)\<rparr>)"
    using l i 1 2 by (simp add: lock_inv_def n)
  then show ?thesis using keep by (simp add: sys_inv_def)
qed

lemma find_session_Some:
  assumes "ctl_inv c" "find_session sid c = Some i"
  shows "i < next_ref c" "tracked c i" "en_sessionId (heap c i) = sid"
proof -
  have "i \<in> set (map snd (calls c))" and sid: "en_sessionId (heap c i) = sid"
    using assms(2) by (auto simp: find_session_def find_Some_iff)
  then obtain k where "jm_get (calls c) k = Some i"
    using jm_get_in [OF ctl_invD(4) [OF assms(1)]] by auto
  then show "i < next_ref c" "tracked c i" using ctl_invD(1) [OF assms(1)] by (auto simp: tracked_def)
  show "en_sessionId (heap c i) = sid" by (rule sid)
qed

lemma hd_lookup:
  assumes "ctl_inv c"
  shows "end_lookup b ev c = Inr i \<Longrightarrow> i < next_ref c"
    "media_failure_lookup sid why c = Inr (i, r) \<Longrightarrow> i < next_ref c"
    "hangup_lookup sid c = Inr i \<Longrightarrow> i < next_ref c"
  using ctl_invD(1) [OF assms] find_session_Some(1) [OF assms]
  by (auto simp: end_lookup_def media_failure_lookup_def hangup_lookup_def
      split: option.splits if_splits jsval.splits)

lemma sys_step_inv:
  assumes "sys_step d b s s'" "sys_inv b s"
  shows "sys_inv b s'"
  using assms
proof (induction rule: sys_step.induct)
  case (env s w)
  show ?case
    using sys_inv_ctl [OF env, of "(sy_ctl s)\<lparr>world := w\<rparr>" "sy_finally s" "sy_joins s"]
      quiet_keeps [of "(sy_ctl s)\<lparr>world := w\<rparr>" "sy_ctl s" "[]"] by simp
next
  case (rejected s r)
  show ?case
    using sys_inv_ctl [OF rejected, of "snd (decide r (sy_ctl s))" "sy_finally s" "sy_joins s"]
      quiet_keeps [of "snd (decide r (sy_ctl s))" "sy_ctl s" "[ADecision r]"]
    by (simp add: decide_def log_act_def)
next
  case (admitted s ev)
  then show ?case by (simp add: sys_inv_def lock_inv_def)
next
  case (not_claimed s xs ev ys r c)
  obtain t where t: "heap c = heap (sy_ctl s)" "calls c = calls (sy_ctl s)"
    "next_ref c = next_ref (sy_ctl s)" "trace c = t @ trace (sy_ctl s)" "\<forall>a \<in> set t. act_ref a = None"
    using claim_phase_Inl [OF not_claimed(2)] by blast
  show ?case
    using sys_inv_ctl [OF not_claimed(3), of c "sy_finally s" "xs @ ys"] quiet_keeps [OF t] t(1,3)
    by simp
next
  case (claimed s xs ev ys i c)
  then show ?case using claimed_keeps by blast
next
  case (ended ev s i)
  then show ?case using hd_lookup(1) by (intro sys_inv_enqueue) (auto simp: sys_inv_def)
next
  case (media_failed sid why s i r)
  then show ?case using hd_lookup(2) by (intro sys_inv_enqueue) (auto simp: sys_inv_def)
next
  case (hung_up sid s i why)
  then show ?case using hd_lookup(3) by (intro sys_inv_enqueue) (auto simp: sys_inv_def)
next
  case (timer i s)
  let ?c' = "clear_lease_renewal i (sy_ctl s)"
  have "sys_inv b (s\<lparr>sy_ctl := ?c'\<rparr>)"
    using sys_inv_ctl [OF timer(3), of ?c' "sy_finally s" "sy_joins s"]
      timer_keeps [of ?c' "sy_ctl s" i False] by (simp add: clear_lease_renewal_def upd_def)
  then show ?case using timer(1)
    by (intro sys_inv_enqueue) (simp_all add: clear_lease_renewal_def upd_def)
next
  case (again s xs i ys)
  let ?c' = "schedule_lease_renewal i (sy_ctl s)"
  have "set (xs @ ys) \<subseteq> set (sy_finally s)" using again(1) by auto
  then show ?case
    using sys_inv_ctl [OF again(2), of ?c' "xs @ ys" "sy_joins s"]
      timer_keeps [of ?c' "sy_ctl s" i "en_leaseTimer (heap ?c' i)"]
    by (auto simp: schedule_lease_renewal_def upd_def Let_def)
next
  case (stop s)
  show ?case
    using sys_inv_ctl [OF stop, of "(sy_ctl s)\<lparr>stopping := True\<rparr>" "sy_finally s" "sy_joins s"]
      quiet_keeps [of "(sy_ctl s)\<lparr>stopping := True\<rparr>" "sy_ctl s" "[]"] by simp
next
  case (drain s i)
  then show ?case by (intro sys_inv_enqueue) auto
next
  case (operate s i oper rest)
  then show ?case by (intro operate_keeps)
qed

theorem reach_inv: "reach d b w s \<Longrightarrow> sys_inv b s"
  by (induction rule: reach.induct) (auto intro: sys_inv_new sys_step_inv)

section \<open>What the invariant says\<close>

text \<open>C1. No call is lost: in every reachable state a call whose media bridge is attached or
whose agent is dispatched is still in \<open>calls\<close> under its PBX call id, so the end event, a media
failure, a hang-up or the shutdown can find it, and its recorded state is not terminal.\<close>

theorem live_call_is_tracked:
  assumes "reach d b w s" "i < next_ref (sy_ctl s)" "live (sy_ctl s) i"
  shows "jm_get (calls (sy_ctl s)) (en_callId (heap (sy_ctl s) i)) = Some i
    \<and> \<not> terminal (en_state (heap (sy_ctl s) i))"
  using reach_inv [OF assms(1)] assms(2,3) by (auto simp: sys_inv_def entry_inv_def tracked_def)

lemma reach_permits:
  assumes "reach d b w s" "trace (sy_ctl s) = newer @ a # older" "act_ref a = Some i"
  shows "\<exists>v e. mon b e i older = Some v \<and> acall_ok v \<and> permits b e v a
    \<and> e = ident (heap (sy_ctl s) i) \<and> i < next_ref (sy_ctl s)"
proof -
  have inv: "sys_inv b s" using assms(1) by (rule reach_inv)
  have i: "i < next_ref (sy_ctl s)"
    using inv assms(2,3) by (force simp: sys_inv_def ctl_inv_def not_less [symmetric])
  then obtain v where "mon b (ident (heap (sy_ctl s) i)) i (newer @ a # older) = Some v"
    using inv assms(2) by (auto simp: sys_inv_def entry_inv_def conf_def)
  then show ?thesis using mon_split assms(3) mon_ok i by metis
qed

text \<open>C2. The PBX is told to move or drop a caller only when the media bridge is closed and the
agent stopped as far as this worker knows, and only after the durable store acknowledged
\<open>ending\<close> as the call's latest state. There are two exceptions: a call still \<open>claimed\<close> at
shutdown, and an \<open>active\<close> call whose lease was lost.\<close>

theorem pbx_moved_only_after_ending:
  assumes "reach d b w s" "trace (sy_ctl s) = newer @ AFallback i req r # older"
  shows "\<not> held_media i older \<and> held_agent i older = None \<and> (last_ack i older = Ending
    \<or> last_ack i older = Claimed \<and> fq_reason req = JStr ''connector_shutdown''
    \<or> last_ack i older = Active \<and> fq_reason req = JStr ''call_claim_lease_lost'')"
proof -
  obtain v e where "mon b e i older = Some v" "permits b e v (AFallback i req r)"
    using reach_permits [OF assms] by auto
  then show ?thesis using mon_state mon_held by (auto simp: drop_allowed_def clean_def)
qed

text \<open>The state updates among the calls of the adapters: those of a tracked call, and the best-effort one for a call that was
claimed but whose claim names no token or no room to use; that one directly follows the claim it gives up.\<close>

fun update_of :: "act \<Rightarrow> transition_request option" where
  "update_of (ATransition _ req _) = Some req"
| "update_of (ABestEffort req _) = Some req"
| "update_of _ = None"

fun gives_up_claim :: "transition_request \<Rightarrow> act list \<Rightarrow> bool" where
  "gives_up_claim req (AClaim cq (Ret claim) # _) \<longleftrightarrow>
     (let row = js_or (get claim ''call'') (JObj []) in
      truthy (get claim ''claimed'') \<and> tq_pbxCallId req = cq_pbxCallId cq
      \<and> Some (tq_claimToken req) = bounded_string (get row ''claim_token'') 128
      \<and> (case bounded_string (get row ''livekit_room'') 128 of Some room \<Rightarrow> \<not> is_room_name room | None \<Rightarrow> True))"
| "gives_up_claim req _ \<longleftrightarrow> False"

fun best_effort_ok :: "act list \<Rightarrow> bool" where
  "best_effort_ok [] \<longleftrightarrow> True"
| "best_effort_ok (ABestEffort req _ # older) \<longleftrightarrow>
     tq_expectedState req = Claimed \<and> tq_newState req = Failed \<and> gives_up_claim req older \<and> best_effort_ok older"
| "best_effort_ok (_ # older) \<longleftrightarrow> best_effort_ok older"

definition is_best_effort :: "act \<Rightarrow> bool" where
  "is_best_effort a \<longleftrightarrow> (case a of ABestEffort _ _ \<Rightarrow> True | _ \<Rightarrow> False)"

lemma operate_trace:
  assumes "sys_inv b s" "sy_lock s i = oper # rest"
  shows "\<exists>t. trace (run_op d b oper i (sy_ctl s)) = t @ trace (sy_ctl s)
    \<and> (\<forall>a \<in> set t. (\<exists>r. a = ADecision r) \<or> act_ref a = Some i)"
proof -
  have i: "i < next_ref (sy_ctl s)" using assms
    unfolding sys_inv_def lock_inv_def by (metis linorder_not_less list.distinct(1))
  then obtain v where v: "conf b i (sy_ctl s) v" using assms(1) by (auto simp: sys_inv_def entry_inv_def)
  have "oper = OStart \<Longrightarrow> ac_state v = Claimed"
    using assms v unfolding sys_inv_def lock_inv_def conf_def agrees_def
    by (metis list.distinct(1) list.sel(1))
  then have "settles (oper = OStart) b i (sy_ctl s) (run_op d b oper i (sy_ctl s))"
    using run_op_settles [OF v] by blast
  then show ?thesis unfolding settles_def frame_def own_act_def by blast
qed

lemma best_effort_ok_other: "\<forall>a \<in> set t. \<not> is_best_effort a \<Longrightarrow> best_effort_ok (t @ u) = best_effort_ok u"
proof (induction t)
  case (Cons a t)
  then show ?case by (cases a) (simp_all add: is_best_effort_def)
qed simp

lemma best_effort_ok_at:
  "best_effort_ok (newer @ ABestEffort req r # older) \<Longrightarrow>
     tq_expectedState req = Claimed \<and> tq_newState req = Failed \<and> gives_up_claim req older"
proof (induction newer)
  case (Cons a newer)
  then show ?case by (cases a) simp_all
qed simp

lemma claim_phase_best_effort: "best_effort_ok (trace c) \<Longrightarrow> claim_phase d b ev c = (r, c') \<Longrightarrow> best_effort_ok (trace c')"
  by (auto simp: claim_phase_def decide_def log_act_def ext_call_def best_effort_failure_def claim_req_def Let_def
      split: sum.splits prod.splits ext.splits option.splits if_splits)

lemma sys_step_best_effort:
  assumes "sys_step d b s s'" "sys_inv b s" "best_effort_ok (trace (sy_ctl s))"
  shows "best_effort_ok (trace (sy_ctl s'))"
  using assms
proof (induction rule: sys_step.induct)
  case (not_claimed s xs ev ys r c)
  show ?case using claim_phase_best_effort [OF not_claimed(4,2)] by simp
next
  case (claimed s xs ev ys i c)
  show ?case using claim_phase_best_effort [OF claimed(5,2)] by (simp add: enqueue_def)
next
  case (operate s i oper rest)
  obtain t where t: "trace (run_op d b oper i (sy_ctl s)) = t @ trace (sy_ctl s)"
    "\<forall>a \<in> set t. (\<exists>r. a = ADecision r) \<or> act_ref a = Some i"
    using operate_trace [OF operate(2,1)] by blast
  have "\<forall>a \<in> set t. \<not> is_best_effort a"
  proof
    fix a assume "a \<in> set t"
    then have "(\<exists>r. a = ADecision r) \<or> act_ref a = Some i" using t(2) by blast
    then show "\<not> is_best_effort a" by (cases a) (simp_all add: is_best_effort_def)
  qed
  then show ?case using operate(3) t(1) by (simp add: best_effort_ok_other)
qed (simp_all add: decide_def log_act_def enqueue_def clear_lease_renewal_def schedule_lease_renewal_def upd_def Let_def)

lemma reach_best_effort: "reach d b w s \<Longrightarrow> best_effort_ok (trace (sy_ctl s))"
proof (induction rule: reach.induct)
  case start
  then show ?case by (simp add: new_sys_def new_ctl_def)
next
  case (step s s')
  then show ?case using sys_step_best_effort [OF step(2) reach_inv [OF step(1)]] by simp
qed

text \<open>C3. Every state update sent to the durable store is one of two kinds. An update of a tracked call starts from the state
the store last acknowledged for that call and follows the life cycle of \<open>call_edge\<close>; \<open>active\<close> is requested only after an agent
was dispatched and media attached, \<open>failed\<close> only after the PBX confirmed that it took the caller. The other kind is the
best-effort update from \<open>claimed\<close> to \<open>failed\<close>, for which nothing was started: it directly follows an answer that claimed the
call without naming a usable room, for the call id of that claim and with the token of that answer.\<close>

theorem state_updates_follow_life_cycle:
  assumes "reach d b w s" "trace (sy_ctl s) = newer @ a # older" "update_of a = Some req"
  shows "case act_ref a of
      Some i \<Rightarrow> tq_expectedState req = last_ack i older \<and> call_edge (last_ack i older) (tq_newState req)
        \<and> (tq_newState req = Active \<longrightarrow> (\<exists>a \<in> set older. act_ref a = Some i \<and> is_dispatch a)
             \<and> (\<exists>a \<in> set older. act_ref a = Some i \<and> is_attach a))
        \<and> (tq_newState req = Failed \<longrightarrow> (\<exists>a \<in> set older. act_ref a = Some i \<and> is_drop a))
    | None \<Rightarrow> tq_expectedState req = Claimed \<and> tq_newState req = Failed \<and> gives_up_claim req older"
proof (cases a)
  case (ATransition i req' r)
  then have a: "a = ATransition i req r" using assms(3) by simp
  obtain v e where v: "mon b e i older = Some v" "acall_ok v"
    "permits b e v (ATransition i req r)"
    using reach_permits [OF assms(1) assms(2) [unfolded a]] by auto
  have "req = transition_req b (e\<lparr>en_state := ac_state v\<rparr>) (tq_newState req)
      (if tq_newState req = Active then ac_agent v else None)"
    using v(3) by (simp add: Let_def)
  from arg_cong [OF this, of tq_expectedState] have "tq_expectedState req = ac_state v"
    by (simp add: transition_req_def)
  then show ?thesis
    using v mon_state [OF v(1)] mon_dispatched [OF v(1)] mon_attached [OF v(1)] mon_dropped [OF v(1)]
    by (auto simp: acall_ok_def Let_def a)
next
  case (ABestEffort req' r)
  then have a: "a = ABestEffort req r" using assms(3) by simp
  show ?thesis
    using best_effort_ok_at [of newer req r older] reach_best_effort [OF assms(1)] assms(2) by (simp add: a)
qed (use assms(3) in simp_all)

text \<open>C8. An agent is dispatched at most once for a claimed call.\<close>

theorem one_dispatch_per_call:
  assumes "reach d b w s" "trace (sy_ctl s) = newer @ ADispatch i req r # older"
  shows "ADispatch i req' r' \<notin> set older"
proof -
  obtain v e where v: "mon b e i older = Some v" "permits b e v (ADispatch i req r)"
    using reach_permits [OF assms] by auto
  then have "\<not> ac_dispatched v" by simp
  then show ?thesis using mon_dispatched [OF v(1)] by force
qed

subsection \<open>Tenant isolation\<close>

fun act_company :: "act \<Rightarrow> string option" where
  "act_company (AClaim req _) = Some (cq_companyId req)"
| "act_company (ABestEffort req _) = Some (tq_companyId req)"
| "act_company (ATransition _ req _) = Some (tq_companyId req)"
| "act_company (ARenew _ req _) = Some (rq_companyId req)"
| "act_company (ADispatch _ req _) = Some (dq_companyId req)"
| "act_company (AStopAgent _ req _) = Some (sq_companyId req)"
| "act_company (AFallback _ req _) = Some (fq_companyId req)"
| "act_company _ = None"

definition company_ok :: "binding \<Rightarrow> act \<Rightarrow> bool" where
  "company_ok b a \<longleftrightarrow> act_company a = None \<or> act_company a = Some (bd_companyId b)"

lemma permits_company:
  assumes "permits b e v a" "act_ref a \<noteq> None"
  shows "company_ok b a"
proof (cases a)
  case (ATransition i req r)
  then have "req = transition_req b (e\<lparr>en_state := ac_state v\<rparr>) (tq_newState req)
      (if tq_newState req = Active then ac_agent v else None)"
    using assms(1) by (simp add: Let_def)
  from arg_cong [OF this, of tq_companyId] show ?thesis
    using ATransition by (simp add: company_ok_def transition_req_def)
next
  case (AFallback i req r)
  then have "req = fallback_req b e (fq_reason req) \<or> req = hangup_req b e (fq_reason req)"
    using assms(1) by simp
  then have "fq_companyId req = fq_companyId (fallback_req b e (fq_reason req))
      \<or> fq_companyId req = fq_companyId (hangup_req b e (fq_reason req))" by metis
  then show ?thesis
    using AFallback by (simp add: company_ok_def fallback_req_def hangup_req_def)
qed (use assms in \<open>auto simp: company_ok_def dispatch_req_def renew_req_def\<close>)

lemma claim_phase_company:
  assumes "claim_phase d b ev c = (r, c')"
  shows "\<exists>t. trace c' = t @ trace c \<and> (\<forall>a \<in> set t. act_ref a = None \<and> company_ok b a)"
  using assms
  by (auto simp: claim_phase_def decide_def log_act_def ext_call_def best_effort_failure_def Let_def
      company_ok_def claim_req_def
      split: sum.splits prod.splits ext.splits option.splits if_splits)

lemma sys_step_unbound:
  assumes "sys_step d b s s'" "sys_inv b s" "a \<in> set (trace (sy_ctl s'))" "act_ref a = None"
    "a \<notin> set (trace (sy_ctl s))"
  shows "company_ok b a"
  using assms
proof (induction rule: sys_step.induct)
  case (not_claimed s xs ev ys r c)
  then show ?case using claim_phase_company [OF not_claimed(2)] by auto
next
  case (claimed s xs ev ys i c)
  then show ?case using claim_phase_company [OF claimed(2)] by (auto simp: enqueue_def)
next
  case (operate s i oper rest)
  obtain t where "trace (run_op d b oper i (sy_ctl s)) = t @ trace (sy_ctl s)"
    "\<forall>a \<in> set t. (\<exists>r. a = ADecision r) \<or> act_ref a = Some i"
    using operate_trace [OF operate(2,1)] by blast
  then have "\<exists>r. a = ADecision r" using operate(3-5) by force
  then show ?case by (auto simp: company_ok_def)
qed (auto simp: decide_def log_act_def company_ok_def enqueue_def clear_lease_renewal_def
    schedule_lease_renewal_def upd_def Let_def split: if_splits)

text \<open>C4. Tenant isolation: every request to an adapter that names a company names the one the
controller was bound to, whatever the events, the answers and the interleaving.\<close>

theorem requests_name_bound_company:
  assumes "reach d b w s" "a \<in> set (trace (sy_ctl s))"
  shows "act_company a \<in> {None, Some (bd_companyId b)}"
proof (cases "act_ref a")
  case (Some i)
  obtain newer older where "trace (sy_ctl s) = newer @ a # older"
    using assms(2) by (meson split_list)
  from reach_permits [OF assms(1) this Some] obtain e v where "permits b e v a" by blast
  from permits_company [OF this] show ?thesis using Some by (auto simp: company_ok_def)
next
  case None
  have "company_ok b a"
    using assms(1,2)
  proof (induction rule: reach.induct)
    case start
    then show ?case by (simp add: new_sys_def new_ctl_def)
  next
    case (step s s')
    then show ?case using sys_step_unbound [OF step(2) reach_inv [OF step(1)]] None by blast
  qed
  then show ?thesis by (simp add: company_ok_def)
qed

section \<open>Shutdown\<close>

definition ctl_ok :: "binding \<Rightarrow> 'w ctl \<Rightarrow> bool" where
  "ctl_ok b c \<longleftrightarrow> (\<forall>j < next_ref c. entry_inv b c j) \<and> ctl_inv c"

lemma reach_ctl_ok: "reach d b w s \<Longrightarrow> ctl_ok b (sy_ctl s)"
  using reach_inv [of d b w s] by (auto simp: ctl_ok_def sys_inv_def)

lemma shutdown_op_ok:
  assumes "ctl_ok b c" "i < next_ref c"
  shows "ctl_ok b (snd (shutdown_op d b i c)) \<and> next_ref (snd (shutdown_op d b i c)) = next_ref c"
proof -
  obtain v where v: "conf b i c v" using assms by (auto simp: ctl_ok_def entry_inv_def)
  have s: "settles False b i c (snd (shutdown_op d b i c))" by (rule shutdown_settles [OF v])
  show ?thesis using op_keeps [OF s] assms s by (auto simp: ctl_ok_def settles_def frame_def)
qed

lemma shutdown_loop_ok:
  "ctl_ok b c \<Longrightarrow> \<forall>i \<in> set is. i < next_ref c \<Longrightarrow> ctl_ok b (snd (shutdown_loop d b is c))"
proof (induction "is" arbitrary: c)
  case Nil
  then show ?case by simp
next
  case (Cons i "is")
  obtain r c1 where 1: "shutdown_op d b i c = (r, c1)" by (metis surj_pair)
  have c1: "ctl_ok b c1" "next_ref c1 = next_ref c" using shutdown_op_ok [of b c i d] Cons.prems 1 by auto
  then have "ctl_ok b (snd (shutdown_loop d b is c1))" using Cons by simp
  then show ?case using 1 c1 by (auto split: ext.splits prod.splits)
qed

lemma calls_bound: "ctl_ok b c \<Longrightarrow> i \<in> set (map snd (calls c)) \<Longrightarrow> i < next_ref c"
  using ctl_invD(1,4) jm_get_in by (fastforce simp: ctl_ok_def)

text \<open>C5. A shutdown that answers \<open>stopped\<close> has left nothing behind: no call the controller ever
claimed still has a media bridge or an agent.\<close>

theorem stopped_means_released:
  assumes "reach d b w s" "shutdown d b (sy_ctl s) = (Ret (True, rs), c')" "i < next_ref c'"
  shows "\<not> live c' i"
proof -
  let ?c0 = "(sy_ctl s)\<lparr>stopping := True\<rparr>"
  have ok0: "ctl_ok b ?c0"
    using reach_ctl_ok [OF assms(1)] quiet_keeps [of ?c0 "sy_ctl s" "[]"] by (simp add: ctl_ok_def)
  have c': "c' = snd (shutdown_loop d b (map snd (calls ?c0)) ?c0)" "calls c' = []"
    using assms(2) by (auto simp: shutdown_def Let_def split: prod.splits ext.splits)
  have "ctl_ok b c'"
    unfolding c'(1) by (rule shutdown_loop_ok [OF ok0]) (use calls_bound [OF ok0] in blast)
  then have "entry_inv b c' i" using assms(3) by (simp add: ctl_ok_def)
  then show ?thesis using c'(2) by (simp add: entry_inv_def tracked_def)
qed

end
