(* ===== verification/Call_Scenarios.thy ===== *)
theory Call_Scenarios
  imports Call_System
begin

text \<open>
  Concrete runs of the call controller: a binding, adapters that answer well or badly, and the
  witnesses of the properties of \<open>Call_System\<close> on them; then the properties of single
  operations: what a shutdown achieves when the adapters oblige, and where an operation does less
  than its comments promise.
\<close>

section \<open>A tenant and its adapters\<close>

definition demo_tenant :: jsval where
  "demo_tenant = JObj [(''companyId'', JStr ''0f1e2d3c-4b5a-4768-8970-a1b2c3d4e5f6''),
     (''authSubject'', JStr ''subject''), (''timezone'', JStr ''UTC''), (''profileVersion'', JNum 1),
     (''integrationId'', JStr ''integration''), (''routePointDn'', JStr ''800''),
     (''dids'', JArr [JStr '' +4930 '', JNum 5]), (''transferDestinations'', JArr [JStr ''100'']),
     (''failureAction'', JStr ''transfer''), (''failureDestination'', JStr ''100'')]"

definition demo_binding :: binding where
  "demo_binding = \<lparr>bd_companyId = ''0f1e2d3c-4b5a-4768-8970-a1b2c3d4e5f6'',
     bd_authSubject = ''subject'', bd_timezone = ''UTC'', bd_profileVersion = 1,
     bd_integrationId = ''integration'', bd_routePointDn = ''800'', bd_dids = [''+4930''],
     bd_transferDestinations = [''100''], bd_failureAction = Transfer, bd_failureDestination = Some ''100''\<rparr>"

lemma demo_tenant_binding: "new_binding (\<lambda>z. z = ''UTC'') demo_tenant = Inr demo_binding"
  by code_simp

definition demo_room :: string where
  "demo_room = ''threecx-0123456789abcdef0123456789abcdef''"

definition demo_claim :: jsval where
  "demo_claim = JObj [(''claimed'', JBool True), (''call'', JObj [
     (''claim_token'', JStr ''token''), (''livekit_room'', JStr demo_room)])]"

definition obliging :: "unit deps" where
  "obliging = \<lparr>claimCall = (\<lambda>_ w. (Ret demo_claim, w)), transitionCall = (\<lambda>_ w. (Ret True, w)),
     renewCallLease = (\<lambda>_ w. (Ret True, w)),
     dispatchAgent = (\<lambda>_ w. (Ret (JObj [(''dispatchId'', JStr ''dispatch'')]), w)),
     attachMedia = (\<lambda>_ w. (Ret True, w)), closeMedia = (\<lambda>_ w. (Ret (), w)),
     stopAgent = (\<lambda>_ w. (Ret (), w)), handlePbxFallback = (\<lambda>_ w. (Ret True, w)),
     randomUUID = (\<lambda>w. (''session'', w))\<rparr>"

lemma obliging_answers [simp]:
  "claimCall obliging q1 w = (Ret demo_claim, w)" "transitionCall obliging q2 w = (Ret True, w)"
  "renewCallLease obliging q3 w = (Ret True, w)"
  "dispatchAgent obliging q4 w = (Ret (JObj [(''dispatchId'', JStr ''dispatch'')]), w)"
  "attachMedia obliging q5 w = (Ret True, w)" "closeMedia obliging q6 w = (Ret (), w)"
  "stopAgent obliging q7 w = (Ret (), w)" "handlePbxFallback obliging q8 w = (Ret True, w)"
  "randomUUID obliging w = (''session'', w)"
  by (simp_all add: obliging_def)

definition demo_join :: jsval where
  "demo_join = JObj [(''type'', JStr ''routepoint_participant_connected''), (''callId'', JStr ''call''),
     (''eventId'', JStr ''event''), (''did'', JStr ''+4930''), (''participantId'', JNum 7),
     (''routePointDn'', JStr ''800''), (''direction'', JStr ''inbound'')]"

definition demo_entry :: entry where
  "demo_entry = new_entry ''call'' ''token'' demo_room 7 ''session''"

lemma demo_entry_fields [simp]:
  "en_callId demo_entry = ''call''" "en_sessionId demo_entry = ''session''"
  "en_state demo_entry = Claimed" "en_dispatchId demo_entry = None" "\<not> en_closeMedia demo_entry"
  "\<not> en_leaseTimer demo_entry" "\<not> en_leaseLost demo_entry" "en_renewFailures demo_entry = 0"
  by (simp_all add: demo_entry_def new_entry_def blank_entry_def)

section \<open>A run: a call starts, is active, and the connector shuts down\<close>

definition run_claimed :: "unit deps \<Rightarrow> unit sys" where
  "run_claimed d = (let s = new_sys (); c = snd (claim_phase d demo_binding demo_join (sy_ctl s))
     in enqueue 0 OStart (s\<lparr>sy_ctl := c, sy_joins := []\<rparr>))"

definition run_head :: "unit deps \<Rightarrow> unit sys \<Rightarrow> unit sys" where
  "run_head d s = (case sy_lock s 0 of [] \<Rightarrow> s | oper # rest \<Rightarrow>
     s\<lparr>sy_ctl := run_op d demo_binding oper 0 (sy_ctl s), sy_lock := (sy_lock s)(0 := rest),
       sy_finally := (if oper = ORenew then 0 # sy_finally s else sy_finally s)\<rparr>)"

lemma run_head_reach: "reach d demo_binding w s \<Longrightarrow> reach d demo_binding w (run_head d s)"
  unfolding run_head_def by (cases "sy_lock s 0") (simp, simp only: list.case, rule reach.step, assumption, erule sys_step.operate)

lemma run_claimed_reach:
  assumes "fst (claim_phase d demo_binding demo_join (new_ctl ())) = Inr 0"
  shows "reach d demo_binding () (run_claimed d)"
proof -
  let ?s0 = "new_sys () :: unit sys" and ?s1 = "(new_sys () :: unit sys)\<lparr>sy_joins := [demo_join]\<rparr>"
  obtain c where c: "claim_phase d demo_binding demo_join (new_ctl ()) = (Inr 0, c)"
    using assms by (cases "claim_phase d demo_binding demo_join (new_ctl ())") auto
  have "sys_step d demo_binding ?s0 ?s1"
    using sys_step.admitted [of ?s0 demo_join d demo_binding]
    by (simp add: new_sys_def new_ctl_def demo_join_def)
  then have 1: "reach d demo_binding () ?s1" by (rule reach.step [OF reach.start])
  have "sys_step d demo_binding ?s1 (enqueue 0 OStart (?s1\<lparr>sy_ctl := c, sy_joins := [] @ []\<rparr>))"
    by (rule sys_step.claimed [where ev = demo_join])
       (use c in \<open>simp_all add: new_sys_def call_id_new_def new_ctl_def\<close>)
  then have "reach d demo_binding () (enqueue 0 OStart (?s1\<lparr>sy_ctl := c, sy_joins := [] @ []\<rparr>))"
    by (rule reach.step [OF 1])
  moreover have "enqueue 0 OStart (?s1\<lparr>sy_ctl := c, sy_joins := [] @ []\<rparr>) = run_claimed d"
    using c by (simp add: run_claimed_def new_sys_def Let_def)
  ultimately show ?thesis by simp
qed

definition demo_active :: "unit sys" where
  "demo_active = run_head obliging (run_claimed obliging)"

lemma demo_active_reach: "reach obliging demo_binding () demo_active"
  unfolding demo_active_def by (intro run_head_reach run_claimed_reach) code_simp

lemmas primitive_defs = ext_call_def upd_def log_act_def decide_def ret_decide_def forget_def
  clear_lease_renewal_def schedule_lease_renewal_def transition_def pbx_fallback_def
  close_media_step_def stop_agent_step_def cleanup_def Let_def

lemmas operation_defs = start_failed_def start_activate_def start_media_def start_call_def
  ensure_ending_def media_failure_op_def hangup_op_def shutdown_op_def end_finish_def end_op_def
  lease_lost_def renew_lease_def renew_task_def

lemmas request_defs = transition_req_def fallback_req_def hangup_req_def dispatch_req_def media_req_def
  renew_req_def claim_req_def

lemma new_ctl_fields [simp]:
  "stopping (new_ctl w) = False" "calls (new_ctl w) = []" "heap (new_ctl w) = (\<lambda>_. blank_entry)"
  "next_ref (new_ctl w) = 0" "world (new_ctl w) = w" "trace (new_ctl w) = []"
  by (simp_all add: new_ctl_def)

lemma demo_claim_phase:
  "claim_phase obliging demo_binding demo_join (new_ctl ()) =
     (Inr 0, (new_ctl ())\<lparr>next_ref := 1,
       heap := (\<lambda>_. blank_entry)(0 := demo_entry),
       calls := [(''call'', 0)],
       trace := [AClaim (claim_req demo_binding ''call'' ''event'' ''+4930'') (Ret demo_claim)]\<rparr>)"
  by (simp add: claim_phase_def join_fields_def demo_join_def demo_binding_def bounded_string_def
      demo_claim_def ext_call_def js_or_def demo_room_def is_room_name_def
      lower_char_def claim_req_def jm_set_def Let_def demo_entry_def)

lemmas run_defs = run_claimed_def new_sys_def demo_claim_phase run_head_def enqueue_def
  operation_defs primitive_defs bounded_string_def

definition active_entry :: entry where
  "active_entry = demo_entry\<lparr>en_dispatchId := Some ''dispatch'', en_closeMedia := True,
     en_state := Active, en_leaseTimer := True\<rparr>"

definition active_trace :: "act list" where
  "active_trace = [ADecision Call_active,
     ATransition 0 (transition_req demo_binding (demo_entry\<lparr>en_state := Connecting,
       en_dispatchId := Some ''dispatch'', en_closeMedia := True\<rparr>) Active (Some ''dispatch'')) (Ret True),
     AAttach 0 (media_req (demo_entry\<lparr>en_state := Connecting, en_dispatchId := Some ''dispatch''\<rparr>))
       (Ret True),
     ADispatch 0 (dispatch_req demo_binding (demo_entry\<lparr>en_state := Connecting\<rparr>))
       (Ret (JObj [(''dispatchId'', JStr ''dispatch'')])),
     ATransition 0 (transition_req demo_binding demo_entry Connecting None) (Ret True),
     AClaim (claim_req demo_binding ''call'' ''event'' ''+4930'') (Ret demo_claim)]"

lemma demo_active_ctl [simp]:
  "stopping (sy_ctl demo_active) = False" "calls (sy_ctl demo_active) = [(''call'', 0)]"
  "next_ref (sy_ctl demo_active) = 1"
  "heap (sy_ctl demo_active) = (\<lambda>_. blank_entry)(0 := active_entry)"
  "trace (sy_ctl demo_active) = active_trace" "sy_lock demo_active 0 = []"
  by (simp_all add: demo_active_def run_defs active_entry_def active_trace_def)

lemma active_entry_fields [simp]:
  "en_callId active_entry = ''call''" "en_sessionId active_entry = ''session''"
  "en_state active_entry = Active" "en_dispatchId active_entry = Some ''dispatch''"
  "en_closeMedia active_entry" "en_leaseTimer active_entry" "\<not> en_leaseLost active_entry"
  by (simp_all add: active_entry_def)

text \<open>The media bridge fails and the caller is handed back to the PBX.\<close>

definition demo_failed :: "unit sys" where
  "demo_failed = run_head obliging (enqueue 0 (OMediaFail ''livekit_room_disconnected'') demo_active)"

lemma demo_failed_reach: "reach obliging demo_binding () demo_failed"
proof -
  have "media_failure_lookup (JStr ''session'') (JStr ''livekit_room_disconnected'') (sy_ctl demo_active)
      = Inr (0, ''livekit_room_disconnected'')"
    by (simp add: media_failure_lookup_def bounded_string_def media_failure_reasons_def find_session_def)
  from sys_step.media_failed [OF this] show ?thesis
    unfolding demo_failed_def by (intro run_head_reach reach.step [OF demo_active_reach])
qed

definition ending_entry :: entry where
  "ending_entry = active_entry\<lparr>en_state := Ending, en_leaseTimer := False, en_closeMedia := False,
     en_dispatchId := None\<rparr>"

definition before_fallback :: "act list" where
  "before_fallback =
     AStopAgent 0 \<lparr>sq_companyId = bd_companyId demo_binding,
       sq_integrationId = bd_integrationId demo_binding, sq_sessionId = ''session'',
       sq_roomName = en_roomName active_entry, sq_dispatchId = ''dispatch''\<rparr> (Ret ()) #
     ACloseMedia 0 ''session'' (Ret ()) #
     ATransition 0 (transition_req demo_binding (active_entry\<lparr>en_leaseTimer := False\<rparr>) Ending None)
       (Ret True) # active_trace"

definition demo_fallback :: act where
  "demo_fallback =
     AFallback 0 (fallback_req demo_binding ending_entry (JStr ''livekit_room_disconnected'')) (Ret True)"

lemma demo_failed_ctl:
  "trace (sy_ctl demo_failed) = [ADecision Call_failed_after_media_fallback,
     ATransition 0 (transition_req demo_binding ending_entry Failed None) (Ret True)]
     @ demo_fallback # before_fallback"
  "next_ref (sy_ctl demo_failed) = 1"
  by (simp_all add: demo_failed_def run_defs ending_entry_def before_fallback_def demo_fallback_def)

section \<open>Witnesses\<close>

theorem live_call_is_tracked_witness:
  "jm_get (calls (sy_ctl demo_active)) (en_callId (heap (sy_ctl demo_active) 0)) = Some 0
    \<and> \<not> terminal (en_state (heap (sy_ctl demo_active) 0))"
  by (rule live_call_is_tracked [OF demo_active_reach]) (simp_all add: live_def)

theorem pbx_moved_only_after_ending_witness:
  "\<not> held_media 0 before_fallback \<and> held_agent 0 before_fallback = None
     \<and> last_ack 0 before_fallback = Ending"
  using pbx_moved_only_after_ending [OF demo_failed_reach demo_failed_ctl(1) [unfolded demo_fallback_def]]
  by (simp add: fallback_req_def)

theorem state_updates_follow_life_cycle_witness:
  "call_edge (last_ack 0 (demo_fallback # before_fallback)) Failed
     \<and> (\<exists>a \<in> set (demo_fallback # before_fallback). act_ref a = Some 0 \<and> is_drop a)"
proof -
  have "trace (sy_ctl demo_failed) = [ADecision Call_failed_after_media_fallback]
    @ ATransition 0 (transition_req demo_binding ending_entry Failed None) (Ret True)
      # demo_fallback # before_fallback"
    by (simp add: demo_failed_ctl)
  from state_updates_follow_life_cycle [OF demo_failed_reach this] show ?thesis
    by (simp add: transition_req_def)
qed

text \<open>The other kind of update: a claim that names no room is given up with the token of its answer.\<close>

definition roomless :: "unit deps" where
  "roomless = obliging\<lparr>claimCall := (\<lambda>_ w. (Ret (JObj [(''claimed'', JBool True),
     (''call'', JObj [(''claim_token'', JStr ''token'')])]), w))\<rparr>"

lemma roomless_claim_is_given_up:
  "map_option tq_claimToken (update_of (trace (snd (claim_phase roomless demo_binding demo_join (new_ctl ()))) ! 1)) = Some ''token''"
  by code_simp

theorem one_dispatch_per_call_witness:
  "\<forall>req' r'. ADispatch 0 req' r' \<notin> set (drop 4 active_trace)"
proof (intro allI)
  fix req' r'
  have "trace (sy_ctl demo_active) = take 3 active_trace
    @ ADispatch 0 (dispatch_req demo_binding (demo_entry\<lparr>en_state := Connecting\<rparr>))
       (Ret (JObj [(''dispatchId'', JStr ''dispatch'')])) # drop 4 active_trace"
    by (simp add: active_trace_def)
  from one_dispatch_per_call [OF demo_active_reach this]
  show "ADispatch 0 req' r' \<notin> set (drop 4 active_trace)" .
qed

theorem requests_name_bound_company_witness:
  "act_company demo_fallback \<in> {None, Some ''0f1e2d3c-4b5a-4768-8970-a1b2c3d4e5f6''}"
  using requests_name_bound_company [OF demo_failed_reach, of demo_fallback]
  by (simp add: demo_failed_ctl demo_binding_def)

theorem stopped_means_released_witness:
  "\<exists>rs c'. shutdown obliging demo_binding (sy_ctl demo_active) = (Ret (True, rs), c') \<and> \<not> live c' 0"
proof -
  obtain rs c' where c': "shutdown obliging demo_binding (sy_ctl demo_active) = (Ret (True, rs), c')"
    "next_ref c' = 1"
    by (simp add: shutdown_def operation_defs primitive_defs jm_delete_def)
  then show ?thesis using stopped_means_released [OF demo_active_reach c'(1), of 0] by simp
qed

section \<open>A shutdown succeeds when the adapters do\<close>

definition releases :: "'w deps \<Rightarrow> bool" where
  "releases d \<longleftrightarrow> (\<forall>req w. fst (transitionCall d req w) = Ret True)
     \<and> (\<forall>s w. is_ret (fst (closeMedia d s w))) \<and> (\<forall>req w. is_ret (fst (stopAgent d req w)))
     \<and> (\<forall>req w. fst (handlePbxFallback d req w) = Ret True)"

text \<open>What the later steps of an operation read of the entry and of \<open>calls\<close>.\<close>

definition same_call :: "nat \<Rightarrow> 'w ctl \<Rightarrow> 'w ctl \<Rightarrow> bool" where
  "same_call i c c' \<longleftrightarrow> calls c' = calls c \<and> en_callId (heap c' i) = en_callId (heap c i)"

lemma releases_steps:
  assumes "releases d"
  shows "\<exists>c'. transition d b i new disp c = (Ret True, c') \<and> same_call i c c'"
    "\<exists>c'. cleanup d b i c = (True, c') \<and> same_call i c c'"
    "\<exists>c'. pbx_fallback d i req c = (True, c') \<and> same_call i c c'"
proof -
  have t: "\<exists>w'. transitionCall d r w = (Ret True, w')" for r w
    using assms by (metis releases_def prod.collapse)
  have f: "\<exists>w'. handlePbxFallback d r w = (Ret True, w')" for r w
    using assms by (metis releases_def prod.collapse)
  have m: "\<exists>w'. closeMedia d r w = (Ret (), w')" for r w
    using assms by (metis releases_def prod.collapse is_ret_iff old.unit.exhaust)
  have s: "\<exists>w'. stopAgent d r w = (Ret (), w')" for r w
    using assms by (metis releases_def prod.collapse is_ret_iff old.unit.exhaust)
  show "\<exists>c'. transition d b i new disp c = (Ret True, c') \<and> same_call i c c'"
    using t [of "transition_req b (heap c i) new disp" "world c"]
    by (auto simp: transition_def ext_call_def upd_def Let_def same_call_def)
  show "\<exists>c'. pbx_fallback d i req c = (True, c') \<and> same_call i c c'"
    using f [of req "world c"] by (auto simp: pbx_fallback_def ext_call_def same_call_def)
  have 1: "\<exists>c'. close_media_step d i c = (True, c') \<and> same_call i c c'" for c
    using m [of "en_sessionId (heap c i)" "world c"]
    by (auto simp: close_media_step_def ext_call_def upd_def Let_def same_call_def)
  have 2: "\<exists>c'. stop_agent_step d b i c = (True, c') \<and> same_call i c c'" for c
  proof (cases "en_dispatchId (heap c i)")
    case (Some disp)
    then show ?thesis
      using s [of "\<lparr>sq_companyId = bd_companyId b, sq_integrationId = bd_integrationId b,
          sq_sessionId = en_sessionId (heap c i), sq_roomName = en_roomName (heap c i),
          sq_dispatchId = disp\<rparr>" "world c"]
      by (auto simp: stop_agent_step_def ext_call_def upd_def Let_def same_call_def)
  qed (simp add: stop_agent_step_def same_call_def)
  obtain c1 where c1: "close_media_step d i (clear_lease_renewal i c) = (True, c1)"
    "same_call i (clear_lease_renewal i c) c1" using 1 by blast
  obtain c2 where c2: "stop_agent_step d b i c1 = (True, c2)" "same_call i c1 c2" using 2 by blast
  show "\<exists>c'. cleanup d b i c = (True, c') \<and> same_call i c c'"
    using c1 c2 by (auto simp: cleanup_def same_call_def clear_lease_renewal_def upd_def)
qed

lemma releases_shutdown_op:
  assumes "releases d"
  shows "\<exists>r c'. shutdown_op d b i c = (Ret r, c')
    \<and> calls c' = jm_delete (en_callId (heap c i)) (calls c)"
proof -
  let ?c = "clear_lease_renewal i c"
  note R = releases_steps(1,2) [OF assms, where b = b and i = i] releases_steps(3) [OF assms, where i = i]
  have 0: "same_call i c ?c" by (simp add: same_call_def clear_lease_renewal_def upd_def)
  show ?thesis
  proof (cases "terminal (en_state (heap ?c i))")
    case True
    then show ?thesis using 0
      by (simp add: shutdown_op_def Let_def ret_decide_def decide_def log_act_def forget_def same_call_def)
  next
    case False
    obtain c1 where 1: "(if en_state (heap ?c i) \<noteq> Claimed \<and> en_state (heap ?c i) \<noteq> Ending
        then transition d b i Ending None ?c else (Ret True, ?c)) = (Ret True, c1)" "same_call i ?c c1"
    proof (cases "en_state (heap ?c i) = Claimed \<or> en_state (heap ?c i) = Ending")
      case True
      then show thesis using that [of ?c] by (auto simp: same_call_def)
    next
      case False
      then show thesis using that R(1) [of Ending None ?c] by auto
    qed
    obtain c2 where 2: "cleanup d b i c1 = (True, c2)" "same_call i c1 c2" using R(2) by blast
    obtain c3 where 3: "pbx_fallback d i (fallback_req b (heap c2 i) (JStr ''connector_shutdown'')) c2
        = (True, c3)" "same_call i c2 c3"
      using R(3) by blast
    obtain c4 where 4: "transition d b i Ended None c3 = (Ret True, c4)" "same_call i c3 c4"
      using R(1) by blast
    show ?thesis
      using False 0 1(2) 2(2) 3(2) 4(2)
      by (simp add: shutdown_op_def Let_def 1(1) 2(1) 3(1) 4(1) ret_decide_def decide_def log_act_def
          forget_def same_call_def)
  qed
qed

lemma releases_shutdown_loop:
  assumes "releases d"
  shows "ctl_ok b c \<Longrightarrow> calls c = m \<Longrightarrow>
    \<exists>rs c'. shutdown_loop d b (map snd m) c = (Ret rs, c') \<and> calls c' = []"
proof (induction m arbitrary: c)
  case Nil
  then show ?case by simp
next
  case (Cons p m)
  obtain k i where p: "p = (k, i)" by (cases p)
  have k: "en_callId (heap c i) = k" and i: "i < next_ref c"
    using Cons.prems ctl_invD(1) [of c k i] p by (auto simp: ctl_ok_def jm_get_def)
  have d: "distinct (jm_keys (calls c))" using Cons.prems(1) ctl_invD(4) [of c] by (simp add: ctl_ok_def)
  obtain r c1 where 1: "shutdown_op d b i c = (Ret r, c1)" "calls c1 = jm_delete k (calls c)"
    using releases_shutdown_op [OF assms, of b i c] k by auto
  have "jm_delete k ((k, i) # m) = m"
    using d Cons.prems(2) p by (auto simp: jm_delete_def jm_keys_def intro!: delete_id)
  then have m: "calls c1 = m" using 1(2) Cons.prems(2) p by simp
  have "ctl_ok b c1" using shutdown_op_ok [of b c i d] Cons.prems(1) i 1(1) by simp
  from Cons.IH [OF this m] show ?case using 1(1) p by auto
qed

text \<open>C6. A shutdown is complete whenever the adapters do their part: from every reachable state,
if the durable store accepts the updates, the media bridge closes, the agent stops and the PBX
takes the callers, the shutdown returns and answers \<open>stopped\<close>.\<close>

theorem shutdown_completes:
  assumes "reach d b w s" "releases d"
  shows "\<exists>rs c'. shutdown d b (sy_ctl s) = (Ret (True, rs), c') \<and> calls c' = []"
proof -
  let ?c0 = "(sy_ctl s)\<lparr>stopping := True\<rparr>"
  have "ctl_ok b ?c0"
    using reach_ctl_ok [OF assms(1)] quiet_keeps [of ?c0 "sy_ctl s" "[]"] by (simp add: ctl_ok_def)
  from releases_shutdown_loop [OF assms(2) this refl]
  show ?thesis by (auto simp: shutdown_def Let_def)
qed

lemma obliging_releases: "releases obliging"
  by (simp add: releases_def)

theorem shutdown_completes_witness:
  "\<exists>rs c'. shutdown obliging demo_binding (sy_ctl demo_active) = (Ret (True, rs), c') \<and> calls c' = []"
  by (rule shutdown_completes [OF demo_active_reach obliging_releases])

section \<open>Answering a new call\<close>

lemma start_failed_not_active: "fst (start_failed d b i st msg c) \<noteq> Call_active"
proof -
  obtain ok c1 where 1: "cleanup d b i c = (ok, c1)" by (metis surj_pair)
  obtain r2 c2 where 2: "transition d b i Ending None c1 = (r2, c2)" by (metis surj_pair)
  obtain ok3 c3 where 3: "pbx_fallback d i (fallback_req b (heap c2 i)
      (JStr (failure_text (classify_failure st msg)))) c2 = (ok3, c3)" by (metis surj_pair)
  obtain r4 c4 where 4: "transition d b i Failed None c3 = (r4, c4)" by (metis surj_pair)
  have "classify_failure st msg \<noteq> Call_active" by (simp add: classify_failure_def)
  then show ?thesis
    by (cases ok; cases ok3) (simp_all add: start_failed_def Let_def 1 2 3 4 decide_def)
qed

lemma frame_read: "frame g i c c' \<Longrightarrow> next_ref c' = next_ref c"
  by (simp add: frame_def)

lemma start_activate_active:
  assumes "start_activate d b i c = (Call_active, c')" "en_closeMedia (heap c i)"
    "en_dispatchId (heap c i) \<noteq> None" "\<not> en_leaseLost (heap c i)"
  shows "en_state (heap c' i) = Active \<and> en_closeMedia (heap c' i) \<and> en_dispatchId (heap c' i) \<noteq> None
    \<and> en_leaseTimer (heap c' i) \<and> calls c' = calls c"
proof -
  obtain r c1 where 1: "transition d b i Active (en_dispatchId (heap c i)) c = (r, c1)"
    by (metis surj_pair)
  have "r = Ret True"
    using assms(1) start_failed_not_active [of d b i SActivation] 1
    by (auto simp: start_activate_def split: ext.splits bool.splits) (metis fst_conv)+
  then show ?thesis using assms 1
    by (auto simp: start_activate_def transition_def ext_call_def upd_def Let_def decide_def log_act_def
      schedule_lease_renewal_def split: prod.splits)
qed

lemma start_media_active:
  assumes "start_media d b i c = (Call_active, c')" "en_dispatchId (heap c i) \<noteq> None"
    "\<not> en_leaseLost (heap c i)"
  shows "en_state (heap c' i) = Active \<and> en_closeMedia (heap c' i) \<and> en_dispatchId (heap c' i) \<noteq> None
    \<and> en_leaseTimer (heap c' i) \<and> calls c' = calls c"
proof -
  let ?req = "media_req (heap c i)"
  obtain r c1 where 1: "ext_call (attachMedia d ?req) (AAttach i ?req) c = (r, c1)" by (metis surj_pair)
  have h: "heap c1 = heap c" "calls c1 = calls c" using 1 by (auto simp: ext_call_def split: prod.splits)
  have "r = Ret True"
    using assms(1) start_failed_not_active [of d b i SMedia] 1
    by (auto simp: start_media_def Let_def split: ext.splits bool.splits) (metis fst_conv)+
  then have "start_activate d b i (upd i (\<lambda>e. e\<lparr>en_closeMedia := True\<rparr>) c1) = (Call_active, c')"
    using assms(1) 1 by (simp add: start_media_def Let_def)
  from start_activate_active [OF this] show ?thesis using assms h by (simp add: upd_def)
qed

lemma start_call_active:
  assumes "start_call d b i c = (Call_active, c')" "\<not> en_leaseLost (heap c i)"
  shows "en_state (heap c' i) = Active \<and> en_closeMedia (heap c' i) \<and> en_dispatchId (heap c' i) \<noteq> None
    \<and> en_leaseTimer (heap c' i) \<and> calls c' = calls c"
proof -
  obtain r1 c1 where 1: "transition d b i Connecting None c = (r1, c1)" by (metis surj_pair)
  have r1: "r1 = Ret True"
    using assms(1) start_failed_not_active [of d b i SClaim] 1
    by (auto simp: start_call_def decide_def split: ext.splits bool.splits) (metis fst_conv)+
  have h1: "calls c1 = calls c" "\<not> en_leaseLost (heap c1 i)"
    using 1 assms(2) by (auto simp: transition_def ext_call_def upd_def Let_def split: prod.splits if_splits)
  let ?req = "dispatch_req b (heap c1 i)"
  obtain r2 c2 where 2: "ext_call (dispatchAgent d ?req) (ADispatch i ?req) c1 = (r2, c2)"
    by (metis surj_pair)
  have h2: "heap c2 = heap c1" "calls c2 = calls c1" using 2 by (auto simp: ext_call_def split: prod.splits)
  obtain x where x: "r2 = Ret x" "bounded_string (get x ''dispatchId'') 255 \<noteq> None"
    using assms(1) start_failed_not_active [of d b i SDispatch] 1 2 r1
    by (auto simp: start_call_def Let_def split: ext.splits if_splits) (metis fst_conv)+
  then have "start_media d b i (upd i (\<lambda>e. e\<lparr>en_dispatchId := bounded_string (get x ''dispatchId'') 255\<rparr>) c2)
      = (Call_active, c')"
    using assms(1) 1 2 r1 by (auto simp: start_call_def Let_def)
  from start_media_active [OF this] show ?thesis using x h1 h2 by (simp add: upd_def)
qed

lemma join_fields_Inr:
  "join_fields b ev = Inr (callId, eventId, did, p) \<Longrightarrow>
    get ev ''callId'' = JStr callId \<and> get ev ''did'' = JStr did \<and> did \<in> set (bd_dids b)
    \<and> get ev ''routePointDn'' = JStr (bd_routePointDn b) \<and> get ev ''direction'' = JStr ''inbound''
    \<and> get ev ''participantId'' = JNum p \<and> 1 \<le> p"
  by (auto simp: join_fields_def bounded_string_Some split: option.splits if_splits jsval.splits)

lemma claim_phase_fields:
  "claim_phase d b ev c = (Inr i, c') \<Longrightarrow>
     \<exists>eventId did p. join_fields b ev = Inr (en_callId (heap c' i), eventId, did, p)"
  by (auto simp: claim_phase_def decide_def ext_call_def Let_def new_entry_def
      split: sum.splits prod.splits ext.splits option.splits if_splits)

lemma claim_phase_not_active: "fst (claim_phase d b ev c) \<noteq> Inl Call_active"
  by (auto simp: claim_phase_def decide_def ext_call_def Let_def join_fields_def
      split: sum.splits prod.splits ext.splits option.splits if_splits jsval.splits)

lemma end_finish_not_active: "fst (end_finish d b i c) \<noteq> Call_active"
  by (auto simp: end_finish_def decide_def split: prod.splits ext.splits bool.splits)

lemma end_op_not_active: "fst (end_op d b i c) \<noteq> Call_active"
proof -
  let ?c = "clear_lease_renewal i c"
  obtain r c1 where 1: "ensure_ending d b i ?c = (r, c1)" by (metis surj_pair)
  obtain ok c2 where 2: "cleanup d b i c1 = (ok, c2)" by (metis surj_pair)
  show ?thesis
    by (cases r; cases ok)
       (auto simp: end_op_def Let_def 1 2 decide_def end_finish_not_active split: bool.splits)
qed

text \<open>C7. An event is answered \<open>accepted\<close> only for an inbound call to a DID of this tenant at its
route point, and then the call is in \<open>calls\<close>, recorded \<open>active\<close>, with an agent dispatched, its
media bridge attached and its lease timer running; and the controller was not stopping.\<close>

theorem accepted_call_is_set_up:
  assumes "handle_event d b ev c = (r, c')" "accepted r"
  shows "\<exists>callId did i. get ev ''callId'' = JStr callId \<and> get ev ''did'' = JStr did \<and> did \<in> set (bd_dids b)
    \<and> get ev ''routePointDn'' = JStr (bd_routePointDn b) \<and> get ev ''direction'' = JStr ''inbound''
    \<and> \<not> stopping c \<and> jm_get (calls c') callId = Some i \<and> en_state (heap c' i) = Active
    \<and> en_closeMedia (heap c' i) \<and> en_dispatchId (heap c' i) \<noteq> None \<and> en_leaseTimer (heap c' i)"
proof -
  have r: "r = Call_active" using assms(2) by (simp add: accepted_def)
  have "end_lookup b ev c \<noteq> Inl Call_active"
    by (auto simp: end_lookup_def split: option.splits)
  then have "end_call d b ev c \<noteq> (Call_active, c')"
    using end_op_not_active [of d b _ c] by (auto simp: end_call_def decide_def split: sum.splits) (metis fst_conv)
  then have j: "\<not> stopping c" "handle_join_event d b ev c = (Call_active, c')"
    using assms(1) r by (auto simp: handle_event_def decide_def split: if_splits)
  obtain i c1 where 1: "claim_phase d b ev c = (Inr i, c1)" "start_call d b i c1 = (Call_active, c')"
    using j(2) claim_phase_not_active [of d b ev c]
    by (auto simp: handle_join_event_def split: prod.splits sum.splits)
  note e = claim_phase_Inr [OF 1(1)]
  have "\<not> en_leaseLost (heap c1 i)" using arg_cong [OF e(5), of en_leaseLost] by (simp add: ident_def)
  from start_call_active [OF 1(2) this] claim_phase_fields [OF 1(1)] show ?thesis
    using join_fields_Inr [of b ev] j(1) e(4) by fastforce
qed

theorem accepted_call_is_set_up_witness:
  "\<exists>c'. handle_event obliging demo_binding demo_join (new_ctl ()) = (Call_active, c')
     \<and> (\<exists>i. jm_get (calls c') ''call'' = Some i \<and> en_state (heap c' i) = Active)"
proof -
  have join: "is_object demo_join" "get demo_join ''type'' \<noteq> JStr ''routepoint_call_ended''"
    by (simp_all add: demo_join_def)
  obtain c' where h: "handle_event obliging demo_binding demo_join (new_ctl ()) = (Call_active, c')"
    by (simp add: handle_event_def join handle_join_event_def demo_claim_phase operation_defs
        primitive_defs bounded_string_def)
  show ?thesis using accepted_call_is_set_up [OF h] h by (auto simp: accepted_def demo_join_def)
qed

section \<open>Where an operation does less than its comments say\<close>

text \<open>A hang-up is recorded as a normal end whatever the PBX answers: if the store accepts the
updates and the media and agent are released, the result is \<open>call_ended_normally\<close> and the call is
forgotten even when \<open>handlePbxFallback\<close> fails and the caller is still connected
(\<open>hangupComplete\<close> is computed and never read).\<close>

theorem hangup_ignores_pbx:
  assumes "releases (d\<lparr>handlePbxFallback := \<lambda>_ w. (Ret True, w)\<rparr>)" "\<not> terminal (en_state (heap c i))"
  shows "\<exists>c'. hangup_op d b why i c = (Ret Call_ended_normally, c')
    \<and> jm_get (calls c') (en_callId (heap c i)) = None"
proof -
  let ?d = "d\<lparr>handlePbxFallback := \<lambda>_ w. (Ret True, w)\<rparr>" and ?c = "clear_lease_renewal i c"
  have t: "transition d b i new disp x = transition ?d b i new disp x" for new disp x
    by (simp add: transition_def)
  have cl: "cleanup d b i x = cleanup ?d b i x" for x
    by (simp add: cleanup_def close_media_step_def stop_agent_step_def cong: option.case_cong)
  note R = releases_steps(1,2) [OF assms(1), where b = b and i = i]
  have 0: "same_call i c ?c" "en_state (heap ?c i) = en_state (heap c i)"
    by (simp_all add: same_call_def clear_lease_renewal_def upd_def)
  obtain c1 where 1: "ensure_ending d b i ?c = (Ret True, c1)" "same_call i ?c c1"
    using R(1) [of Ending None ?c] by (cases "en_state (heap ?c i) = Ending") (auto simp: ensure_ending_def t same_call_def)
  obtain c2 where 2: "cleanup d b i c1 = (True, c2)" "same_call i c1 c2" using R(2) by (auto simp: cl)
  obtain ok c3 where 3: "pbx_fallback d i (hangup_req b (heap c2 i) why) c2 = (ok, c3)" by (metis surj_pair)
  have s3: "same_call i c2 c3" using 3 by (auto simp: pbx_fallback_def ext_call_def same_call_def split: prod.splits)
  obtain c4 where 4: "transition d b i Ended None c3 = (Ret True, c4)" "same_call i c3 c4"
    using R(1) [of Ended None c3] by (auto simp: t)
  show ?thesis
    using assms(2) 0 1(2) 2(2) s3 4(2)
    by (simp add: hangup_op_def Let_def 1(1) 2(1) 3 4(1) ret_decide_def decide_def log_act_def forget_def
        same_call_def)
qed

definition stubborn_pbx :: "unit deps" where
  "stubborn_pbx = obliging\<lparr>handlePbxFallback := \<lambda>_ w. (Throw ''pbx unavailable'', w)\<rparr>"

theorem hangup_ignores_pbx_witness:
  "\<exists>c'. hangup_op stubborn_pbx demo_binding (JStr ''agent_completed'') 0 (sy_ctl demo_active)
     = (Ret Call_ended_normally, c') \<and> jm_get (calls c') ''call'' = None"
proof -
  have "releases (stubborn_pbx\<lparr>handlePbxFallback := \<lambda>_ w. (Ret True, w)\<rparr>)"
    by (simp add: releases_def stubborn_pbx_def)
  from hangup_ignores_pbx [OF this, of "sy_ctl demo_active" 0] show ?thesis by simp
qed

lemma cleanup_reads:
  assumes "cleanup d b i c = (ok, c')"
  shows "en_state (heap c' i) = en_state (heap c i)" "en_leaseLost (heap c' i) = en_leaseLost (heap c i)"
    "calls c' = calls c"
  using assms
  by (auto simp: cleanup_def close_media_step_def stop_agent_step_def clear_lease_renewal_def upd_def
      ext_call_def Let_def split: prod.splits if_splits option.splits ext.splits)

lemma cleanup_succeeds:
  assumes "\<And>x w. is_ret (fst (closeMedia d x w))" "\<And>req w. is_ret (fst (stopAgent d req w))"
  shows "fst (cleanup d b i c)"
proof -
  let ?d = "d\<lparr>handlePbxFallback := \<lambda>_ w. (Ret True, w), transitionCall := \<lambda>_ w. (Ret True, w)\<rparr>"
  have "cleanup d b i c = cleanup ?d b i c"
    by (simp add: cleanup_def close_media_step_def stop_agent_step_def cong: option.case_cong)
  moreover have "releases ?d" using assms by (simp add: releases_def)
  ultimately show ?thesis using releases_steps(2) by (metis fst_conv)
qed

text \<open>A refused renewal leads to \<open>lease_lost\<close>; the entry and \<open>calls\<close> are as before.\<close>

lemma renewal_refused:
  assumes "en_state (heap c i) = Active" "\<And>req w. fst (renewCallLease d req w) = Ret False"
  obtains c1 where "renew_lease d b i c = lease_lost d b i c1" "heap c1 = heap c" "calls c1 = calls c"
proof -
  let ?req = "renew_req b (heap c i)"
  obtain w where "renewCallLease d ?req (world c) = (Ret False, w)"
    using assms(2) [of ?req "world c"] by (metis prod.collapse)
  then show ?thesis
    using that [of "c\<lparr>world := w, trace := ARenew i ?req (Ret False) # trace c\<rparr>"] assms(1)
    by (simp add: renew_lease_def ext_call_def Let_def)
qed

text \<open>When a lease renewal is refused and the store also refuses the move to \<open>ending\<close> (the
worker has lost the call), the worker still tells the PBX to move or drop the caller; the comment
in \<open>#startCall\<close> (lines 326 to 328) says that it must not touch a call it no longer owns. The
call stays in \<open>calls\<close>, recorded \<open>active\<close>, and its lease timer is never set again.\<close>

theorem lost_lease_moves_unowned_call:
  assumes "en_state (heap c i) = Active" "\<And>req w. fst (renewCallLease d req w) = Ret False"
    "\<And>req w. fst (transitionCall d req w) = Ret False"
    "\<And>x w. is_ret (fst (closeMedia d x w))" "\<And>req w. is_ret (fst (stopAgent d req w))"
    "\<And>req w. fst (handlePbxFallback d req w) = Ret True"
  shows "\<exists>c' req. renew_task d b i c = (Ret Lease_lost_state_update_failed, c')
    \<and> AFallback i req (Ret True) \<in> set (trace c') \<and> en_state (heap c' i) = Active
    \<and> calls c' = calls c \<and> schedule_lease_renewal i c' = c'"
proof -
  obtain c1 where 1: "renew_lease d b i c = lease_lost d b i c1" "heap c1 = heap c" "calls c1 = calls c"
    using renewal_refused [OF assms(1,2)] by metis
  let ?c1 = "clear_lease_renewal i (upd i (\<lambda>e. e\<lparr>en_leaseLost := True\<rparr>) c1)"
  let ?treq = "transition_req b (heap ?c1 i) Ending None"
  obtain w where "transitionCall d ?treq (world ?c1) = (Ret False, w)"
    using assms(3) [of ?treq "world ?c1"] by (metis prod.collapse)
  then obtain c2 where 2: "transition d b i Ending None ?c1 = (Ret False, c2)" "heap c2 = heap ?c1"
    "calls c2 = calls c"
    using 1(3) by (simp add: transition_def ext_call_def Let_def clear_lease_renewal_def upd_def)
  obtain c3 where 3: "cleanup d b i c2 = (True, c3)"
    using cleanup_succeeds [of d b i c2, OF assms(4,5)] by (metis prod.collapse)
  let ?freq = "fallback_req b (heap c3 i) (JStr ''call_claim_lease_lost'')"
  obtain w3 where "handlePbxFallback d ?freq (world c3) = (Ret True, w3)"
    using assms(6) [of ?freq "world c3"] by (metis prod.collapse)
  then obtain c4 where 4: "pbx_fallback d i ?freq c3 = (True, c4)" "heap c4 = heap c3" "calls c4 = calls c3"
    "AFallback i ?freq (Ret True) \<in> set (trace c4)"
    by (simp add: pbx_fallback_def ext_call_def)
  note r = cleanup_reads [OF 3]
  have "renew_task d b i c = (Ret Lease_lost_state_update_failed, log_act (ADecision Lease_lost_state_update_failed) c4)"
    by (simp add: renew_task_def 1(1) lease_lost_def Let_def 2(1) 3 4(1) ret_decide_def decide_def)
  moreover have "en_state (heap c4 i) = Active" "en_leaseLost (heap c4 i)"
    using r 2(2) 1(2) assms(1) by (simp_all add: 4(2) clear_lease_renewal_def upd_def)
  ultimately show ?thesis using 4(3,4) r(3) 2(3)
    by (auto simp: log_act_def schedule_lease_renewal_def Let_def)
qed

definition lost_lease :: "unit deps" where
  "lost_lease = obliging\<lparr>renewCallLease := \<lambda>_ w. (Ret False, w), transitionCall := \<lambda>_ w. (Ret False, w)\<rparr>"

theorem lost_lease_moves_unowned_call_witness:
  "\<exists>c' req. renew_task lost_lease demo_binding 0 (sy_ctl demo_active)
     = (Ret Lease_lost_state_update_failed, c') \<and> AFallback 0 req (Ret True) \<in> set (trace c')"
  using lost_lease_moves_unowned_call [of "sy_ctl demo_active" 0 lost_lease demo_binding]
  by (auto simp: lost_lease_def)

text \<open>When a lease renewal is refused and the store's update to \<open>ending\<close> rejects (a database
error), the renewal ends as \<open>lease_renewal_failed\<close> and the call is left for good: its media
bridge and agent are not released, its state stays \<open>active\<close>, and no lease timer is set again,
so nothing but an event from outside ever ends it.\<close>

theorem failed_lease_update_leaves_call_live:
  assumes "en_state (heap c i) = Active" "\<And>req w. fst (renewCallLease d req w) = Ret False"
    "\<And>req w. \<not> is_ret (fst (transitionCall d req w))"
  shows "\<exists>c'. renew_task d b i c = (Ret Lease_renewal_failed, c') \<and> live c' i = live c i
    \<and> en_state (heap c' i) = Active \<and> calls c' = calls c \<and> \<not> en_leaseTimer (heap c' i)
    \<and> schedule_lease_renewal i c' = c'"
proof -
  obtain c1 where 1: "renew_lease d b i c = lease_lost d b i c1" "heap c1 = heap c" "calls c1 = calls c"
    using renewal_refused [OF assms(1,2)] by metis
  let ?c1 = "clear_lease_renewal i (upd i (\<lambda>e. e\<lparr>en_leaseLost := True\<rparr>) c1)"
  let ?treq = "transition_req b (heap ?c1 i) Ending None"
  obtain m w where "transitionCall d ?treq (world ?c1) = (Throw m, w)"
    using assms(3) [of ?treq "world ?c1"] by (metis ext.exhaust is_ret.simps(1) prod.collapse)
  then obtain c2 where 2: "transition d b i Ending None ?c1 = (Throw m, c2)" "heap c2 = heap ?c1"
    "calls c2 = calls c"
    using 1(3) by (simp add: transition_def ext_call_def Let_def clear_lease_renewal_def upd_def)
  have "renew_task d b i c = (Ret Lease_renewal_failed, log_act (ADecision Lease_renewal_failed) c2)"
    by (simp add: renew_task_def 1(1) lease_lost_def Let_def 2(1) ret_decide_def decide_def)
  then show ?thesis using 2(2,3) 1(2) assms(1)
    by (auto simp: log_act_def schedule_lease_renewal_def Let_def clear_lease_renewal_def upd_def live_def)
qed

definition broken_store :: "unit deps" where
  "broken_store = obliging\<lparr>renewCallLease := \<lambda>_ w. (Ret False, w),
     transitionCall := \<lambda>_ w. (Throw ''database'', w)\<rparr>"

theorem failed_lease_update_leaves_call_live_witness:
  "\<exists>c'. renew_task broken_store demo_binding 0 (sy_ctl demo_active) = (Ret Lease_renewal_failed, c')
     \<and> live c' 0"
  using failed_lease_update_leaves_call_live [of "sy_ctl demo_active" 0 broken_store demo_binding]
  by (auto simp: broken_store_def live_def)

section \<open>The tenant's policy\<close>

lemma new_binding_Inr:
  assumes "new_binding iana tb = Inr b"
  shows "is_uuid (bd_companyId b)" "1 \<le> bd_profileVersion b" "bd_dids b \<noteq> []" "iana (bd_timezone b)"
    "bd_failureAction b = Transfer \<Longrightarrow> \<exists>dst. bd_failureDestination b = Some dst \<and> dst \<in> set (bd_transferDestinations b)"
    "bd_failureAction b = Disconnect \<Longrightarrow> nullish (get tb ''failureDestination'')"
  using assms
  unfolding new_binding_def Let_def by (auto split: if_splits)

text \<open>A call is transferred only to a destination on the tenant's own allowlist: for a binding
the constructor accepted, every transfer request ever sent to the PBX names a destination of
\<open>transferDestinations\<close>.\<close>

theorem transfers_are_allowlisted:
  assumes "new_binding iana tb = Inr b" "reach d b w s" "AFallback i req r \<in> set (trace (sy_ctl s))"
    "fq_failureAction req = Transfer"
  shows "\<exists>dst. fq_failureDestination req = Some dst \<and> dst \<in> set (bd_transferDestinations b)"
proof -
  obtain newer older where "trace (sy_ctl s) = newer @ AFallback i req r # older"
    using assms(3) by (meson split_list)
  from reach_permits [OF assms(2) this] obtain e v where "permits b e v (AFallback i req r)" by auto
  then have "req = fallback_req b e (fq_reason req) \<or> req = hangup_req b e (fq_reason req)" by simp
  then have "req = fallback_req b e (fq_reason req)"
    using assms(4) by (metis failure_action.distinct(1) fallback_request.select_convs(6) hangup_req_def)
  then have "fq_failureAction req = bd_failureAction b"
    "fq_failureDestination req = (if bd_failureAction b = Transfer then bd_failureDestination b else None)"
    by (metis fallback_req_def fallback_request.select_convs(6), metis fallback_req_def fallback_request.select_convs(7))
  then show ?thesis using new_binding_Inr(5) [OF assms(1)] assms(4) by simp
qed

theorem transfers_are_allowlisted_witness:
  "\<exists>dst. fq_failureDestination (fallback_req demo_binding ending_entry (JStr ''livekit_room_disconnected''))
     = Some dst \<and> dst \<in> {''100''}"
  using transfers_are_allowlisted [OF demo_tenant_binding demo_failed_reach]
  by (force simp: demo_failed_ctl demo_fallback_def fallback_req_def demo_binding_def)

section \<open>The end event\<close>

text \<open>C9. The PBX's end event for a tracked call that is still running ends it, whenever the store
accepts the updates and the media and agent are released: the answer is \<open>call_ended\<close> and the call
is forgotten, whatever state it was in and whether or not the controller is stopping.\<close>

theorem end_event_ends_call:
  assumes "ctl_ok b c" "releases d" "get ev ''type'' = JStr ''routepoint_call_ended''"
    "end_lookup b ev c = Inr i" "get ev ''callId'' = JStr callId"
  shows "\<exists>c'. handle_event d b ev c = (Call_ended, c') \<and> jm_get (calls c') callId = None"
proof -
  have obj: "is_object ev" using assms(3) by (cases ev) auto
  have tr: "jm_get (calls c) callId = Some i"
    using assms(4,5) by (auto simp: end_lookup_def bounded_string_Some split: option.splits if_splits)
  then have k: "i < next_ref c" "en_callId (heap c i) = callId"
    using ctl_invD(1) assms(1) by (auto simp: ctl_ok_def)
  then have "tracked c i" using tr by (simp add: tracked_def)
  then have nt: "\<not> terminal (en_state (heap c i))"
    using assms(1) k(1) by (auto simp: ctl_ok_def entry_inv_def)
  note R = releases_steps(1,2) [OF assms(2), where b = b and i = i]
  let ?c = "clear_lease_renewal i c"
  have 0: "same_call i c ?c" "en_state (heap ?c i) = en_state (heap c i)"
    by (simp_all add: same_call_def clear_lease_renewal_def upd_def)
  have fin: "\<exists>c'. end_finish d b i x = (Call_ended, c') \<and> jm_get (calls c') callId = None"
    if "same_call i c x" for x
  proof -
    obtain y where "transition d b i Ended None x = (Ret True, y)" "same_call i x y" using R(1) by blast
    then show ?thesis using that k(2)
      by (simp add: end_finish_def decide_def log_act_def forget_def same_call_def)
  qed
  have "\<exists>c'. end_op d b i c = (Call_ended, c') \<and> jm_get (calls c') callId = None"
  proof (cases "en_state (heap c i) = Claimed")
    case True
    then show ?thesis using nt 0 fin [OF 0(1)] by (simp add: end_op_def Let_def)
  next
    case False
    obtain c1 where 1: "ensure_ending d b i ?c = (Ret True, c1)" "same_call i ?c c1"
      using R(1) [of Ending None ?c]
      by (cases "en_state (heap ?c i) = Ending") (auto simp: ensure_ending_def same_call_def)
    obtain c2 where 2: "cleanup d b i c1 = (True, c2)" "same_call i c1 c2" using R(2) by blast
    have "same_call i c c2" using 0(1) 1(2) 2(2) by (simp add: same_call_def)
    from fin [OF this] show ?thesis using nt 0(2) False by (simp add: end_op_def Let_def 1(1) 2(1))
  qed
  then show ?thesis using obj assms(3,4) by (simp add: handle_event_def end_call_def)
qed

definition demo_end :: jsval where
  "demo_end = JObj [(''type'', JStr ''routepoint_call_ended''), (''callId'', JStr ''call''),
     (''eventId'', JStr ''event2''), (''routePointDn'', JStr ''800'')]"

theorem end_event_ends_call_witness:
  "\<exists>c'. handle_event obliging demo_binding demo_end (sy_ctl demo_active) = (Call_ended, c')
     \<and> jm_get (calls c') ''call'' = None"
  by (rule end_event_ends_call [OF reach_ctl_ok [OF demo_active_reach] obliging_releases, where i = 0])
     (simp_all add: demo_end_def end_lookup_def bounded_string_def demo_binding_def jm_get_def)

section \<open>The durable store's state machine\<close>

text \<open>The transitions \<open>transition_threecx_call\<close> of \<open>db/threecx.py\<close> accepts between the states that
the controller uses; any other pair raises \<open>ValueError\<close>.\<close>

fun db_edge :: "call_state \<Rightarrow> call_state \<Rightarrow> bool" where
  "db_edge Claimed s = (s \<in> {Connecting, Failed, Ended})"
| "db_edge Connecting s = (s \<in> {Active, Failed, Ending})"
| "db_edge Active s = (s \<in> {Ending, Failed})"
| "db_edge Ending s = (s \<in> {Ended, Failed})"
| "db_edge _ _ = False"

text \<open>C10. Every state update the controller ever requests is one the durable store knows, with one
exception: from \<open>claimed\<close> the controller asks for \<open>ending\<close> (a failed start, a media failure or a
hang-up of a claimed call), which the store refuses with an error.\<close>

theorem store_knows_all_but_claimed_ending:
  assumes "reach d b w s" "ATransition i req r \<in> set (trace (sy_ctl s))"
  shows "db_edge (tq_expectedState req) (tq_newState req)
    \<noteq> (tq_expectedState req = Claimed \<and> tq_newState req = Ending)"
proof -
  obtain newer older where t: "trace (sy_ctl s) = newer @ ATransition i req r # older"
    using assms(2) by (meson split_list)
  obtain e v where v: "permits b e v (ATransition i req r)" using reach_permits [OF assms(1) t] by auto
  then have "req = transition_req b (e\<lparr>en_state := ac_state v\<rparr>) (tq_newState req)
      (if tq_newState req = Active then ac_agent v else None)" and edge: "call_edge (ac_state v) (tq_newState req)"
    by (simp_all add: Let_def)
  from arg_cong [OF this(1), of tq_expectedState] have "tq_expectedState req = ac_state v"
    by (simp add: transition_req_def)
  then show ?thesis using edge by (cases "ac_state v") auto
qed

theorem store_knows_all_but_claimed_ending_witness:
  "db_edge Ending Failed \<noteq> (Ending = Claimed \<and> Failed = Ending)"
  using store_knows_all_but_claimed_ending [OF demo_failed_reach,
      of 0 "transition_req demo_binding ending_entry Failed None" "Ret True"]
  by (simp add: demo_failed_ctl transition_req_def ending_entry_def)

definition store_refuses :: "'w deps \<Rightarrow> bool" where
  "store_refuses d \<longleftrightarrow> (\<forall>req w. \<not> db_edge (tq_expectedState req) (tq_newState req) \<longrightarrow>
     \<not> is_ret (fst (transitionCall d req w)))"

text \<open>A start whose first state update fails with an error is never closed: against a
store that refuses \<open>claimed\<close> to \<open>ending\<close> the start ends as \<open>state_update_failed\<close> with the call still
in \<open>calls\<close> as \<open>claimed\<close>, without a lease timer, and without the PBX having been told anything.\<close>

theorem failed_first_update_strands_call:
  assumes "store_refuses d" "en_state (heap c i) = Claimed" "\<not> live c i"
    "\<And>w. \<not> is_ret (fst (transitionCall d (transition_req b (heap c i) Connecting None) w))"
  shows "\<exists>c' t. start_call d b i c = (State_update_failed, c') \<and> calls c' = calls c
    \<and> en_state (heap c' i) = Claimed \<and> \<not> en_leaseTimer (heap c' i)
    \<and> trace c' = t @ trace c \<and> (\<forall>j req r. AFallback j req r \<notin> set t)"
proof -
  let ?r1 = "transition_req b (heap c i) Connecting None"
  obtain m w where "transitionCall d ?r1 (world c) = (Throw m, w)"
    using assms(4) [of "world c"] by (metis ext.exhaust is_ret.simps(1) prod.collapse)
  then have 1: "transition d b i Connecting None c
      = (Throw m, c\<lparr>world := w, trace := ATransition i ?r1 (Throw m) # trace c\<rparr>)"
    (is "_ = (_, ?c1)") by (simp add: transition_def ext_call_def Let_def)
  let ?c2 = "clear_lease_renewal i ?c1"
  have 2: "cleanup d b i ?c1 = (True, ?c2)"
    using assms(3) by (simp add: cleanup_def close_media_step_def stop_agent_step_def live_def
        clear_lease_renewal_def upd_def)
  let ?r2 = "transition_req b (heap ?c2 i) Ending None"
  have "\<not> is_ret (fst (transitionCall d ?r2 (world ?c2)))"
    using assms(1,2) by (simp add: store_refuses_def transition_req_def clear_lease_renewal_def upd_def)
  then obtain m' w' where "transitionCall d ?r2 (world ?c2) = (Throw m', w')"
    by (metis ext.exhaust is_ret.simps(1) prod.collapse)
  then have 3: "transition d b i Ending None ?c2
      = (Throw m', ?c2\<lparr>world := w', trace := ATransition i ?r2 (Throw m') # trace ?c2\<rparr>)"
    (is "_ = (_, ?c3)") by (simp add: transition_def ext_call_def Let_def)
  have "start_call d b i c = (State_update_failed, log_act (ADecision State_update_failed) ?c3)"
    by (simp only: start_call_def 1 prod.case ext.case start_failed_def Let_def 2 3 bool.case decide_def) simp
  moreover have "trace (log_act (ADecision State_update_failed) ?c3) =
      [ADecision State_update_failed, ATransition i ?r2 (Throw m'), ATransition i ?r1 (Throw m)] @ trace c"
    by (simp add: log_act_def clear_lease_renewal_def upd_def)
  moreover have "calls (log_act (ADecision State_update_failed) ?c3) = calls c"
    "en_state (heap (log_act (ADecision State_update_failed) ?c3) i) = Claimed"
    "\<not> en_leaseTimer (heap (log_act (ADecision State_update_failed) ?c3) i)"
    using assms(2) by (simp_all add: log_act_def clear_lease_renewal_def upd_def)
  ultimately show ?thesis
    by (intro exI [of _ "log_act (ADecision State_update_failed) ?c3"]
        exI [of _ "[ADecision State_update_failed, ATransition i ?r2 (Throw m'), ATransition i ?r1 (Throw m)]"])
       auto
qed

definition failing_store :: "unit deps" where
  "failing_store = obliging\<lparr>transitionCall := \<lambda>_ w. (Throw ''database'', w)\<rparr>"

theorem failed_first_update_strands_call_witness:
  "\<exists>c'. start_call failing_store demo_binding 0 (sy_ctl (run_claimed obliging)) = (State_update_failed, c')
     \<and> calls c' = [(''call'', 0)] \<and> en_state (heap c' 0) = Claimed"
proof -
  have c: "calls (sy_ctl (run_claimed obliging)) = [(''call'', 0)]"
    "heap (sy_ctl (run_claimed obliging)) 0 = demo_entry"
    by (simp_all add: run_defs)
  show ?thesis
    using failed_first_update_strands_call [of failing_store "sy_ctl (run_claimed obliging)" 0 demo_binding]
    by (auto simp: c failing_store_def store_refuses_def live_def)
qed

end
