(* ===== verification/Backend_Proxy.thy ===== *)
theory Backend_Proxy
  imports Call_Controller
begin

text \<open>
  The web app's server side: \<open>frontend/src/lib/backendProxy.ts\<close>, \<open>sessionContext.ts\<close>,
  \<open>safeLogging.ts\<close>, \<open>mockMode.ts\<close> and the route handlers under \<open>frontend/src/app\<close>.

  Parameters of the platform: the WHATWG URL parser (\<open>parse_url\<close>), \<open>Date.parse\<close>, the hash and
  HMAC of \<open>node:crypto\<close>, and the answers of the services the handlers call. Environment
  variables are the record \<open>env\<close>. Where a handler sends a request, the model records it.
\<close>

section \<open>Environment and platform\<close>

record env =
  ev_backendUrl :: string
  ev_appOrigin :: "string option"
  ev_authUrl :: "string option"
  ev_development :: bool
  ev_devLocalAuth :: bool
  ev_publicMockMode :: bool
  ev_mockMode :: bool
  ev_sessionSecret :: "string option"

record url =
  ur_protocol :: string
  ur_username :: string
  ur_password :: string
  ur_pathname :: string
  ur_search :: string
  ur_hash :: string
  ur_origin :: string

record platform =
  parse_url :: "string \<Rightarrow> url option"
  date_parse :: "string \<Rightarrow> int option"
  sha256_hex :: "string \<Rightarrow> string"
  hmac_hex :: "string \<Rightarrow> jsval \<Rightarrow> string"
  frac_string :: "rat \<Rightarrow> string"

definition is_mock_mode :: "env \<Rightarrow> bool" where
  "is_mock_mode en \<longleftrightarrow> ev_publicMockMode en \<or> ev_mockMode en"

fun header :: "string \<Rightarrow> http_request \<Rightarrow> string option" where
  "header h q = jm_get (hq_headers q) h"

section \<open>Same-origin check\<close>

definition normalize_origin :: "platform \<Rightarrow> string option \<Rightarrow> string option" where
  "normalize_origin pf v =
     (case v of
        None \<Rightarrow> None
      | Some s \<Rightarrow>
          if s = [] then None
          else (case parse_url pf s of
            None \<Rightarrow> None
          | Some u \<Rightarrow>
              if ur_protocol u \<notin> {''http:'', ''https:''} \<or> ur_username u \<noteq> [] \<or> ur_password u \<noteq> []
                 \<or> ur_pathname u \<noteq> ''/'' \<or> ur_search u \<noteq> [] \<or> ur_hash u \<noteq> [] \<or> s \<noteq> ur_origin u
              then None else Some (ur_origin u)))"

definition expected_origin :: "platform \<Rightarrow> env \<Rightarrow> http_request \<Rightarrow> string option" where
  "expected_origin pf en q =
     (case map_option trim (ev_appOrigin en) of
        None \<Rightarrow> Some (hq_urlOrigin q)
      | Some s \<Rightarrow> if s = [] then Some (hq_urlOrigin q) else normalize_origin pf (Some s))"

definition is_same_origin_mutation :: "platform \<Rightarrow> env \<Rightarrow> http_request \<Rightarrow> bool" where
  "is_same_origin_mutation pf en q \<longleftrightarrow>
     hq_method q \<in> {''GET'', ''HEAD'', ''OPTIONS''}
     \<or> (case (normalize_origin pf (header ''origin'' q), expected_origin pf en q) of
          (Some a, Some b) \<Rightarrow> a \<noteq> [] \<and> b \<noteq> [] \<and> a = b | _ \<Rightarrow> False)"

lemma normalize_origin_Some: "normalize_origin pf v = Some s \<Longrightarrow> v = Some s"
  by (auto simp: normalize_origin_def split: option.splits if_splits)

section \<open>The verified session context\<close>

record verified =
  cx_sessionId :: string
  cx_companyId :: string
  cx_authSubject :: string
  cx_issuedAt :: int
  cx_signature :: string
  cx_sessionCreatedAt :: "rat option"

record auth =
  au_userId :: string
  au_sessionId :: string
  au_createdAt :: "rat option"

definition hex_digit :: "nat \<Rightarrow> char" where
  "hex_digit n = ''0123456789abcdef'' ! n"

fun hex_value :: "char \<Rightarrow> nat" where
  "hex_value c = length (takeWhile (\<lambda>d. d \<noteq> c) ''0123456789abcdef'')"

definition slice :: "nat \<Rightarrow> nat \<Rightarrow> string \<Rightarrow> string" where
  "slice a b s = take (b - a) (drop a s)"

text \<open>\<open>stableCompanyId\<close>: the variant byte is \<open>(byte & 0x3f) | 0x80\<close>, printed with two digits.\<close>

definition stable_company_id :: "platform \<Rightarrow> string \<Rightarrow> string" where
  "stable_company_id pf user =
     (let hex = take 32 (sha256_hex pf (''company:'' @ user));
          byte = 16 * hex_value (hex ! 16) + hex_value (hex ! 17);
          v = byte mod 64 + 128;
          variant = [hex_digit (v div 16), hex_digit (v mod 16)]
      in slice 0 8 hex @ ''-'' @ slice 8 12 hex @ ''-4'' @ slice 13 16 hex @ ''-'' @ variant
         @ slice 18 20 hex @ ''-'' @ drop 20 hex)"

text \<open>
  \<open>readNeonSession\<close>, given the answer of \<open>get-session\<close> (\<open>Ret (ok, payload)\<close>). A numeric creation time
  below ten billion is in seconds.
\<close>

definition created_at :: "platform \<Rightarrow> jsval \<Rightarrow> rat option" where
  "created_at pf raw =
     (let parsed = (case raw of JNum n \<Rightarrow> Some (of_int n) | JFrac r \<Rightarrow> Some r
                     | JStr s \<Rightarrow> map_option of_int (date_parse pf s) | _ \<Rightarrow> None)
      in map_option (\<lambda>n. if n > 10000000000 then n else n * 1000) parsed)"

definition read_session :: "platform \<Rightarrow> bool \<times> jsval \<Rightarrow> auth option" where
  "read_session pf r =
     (case r of (ok, payload) \<Rightarrow>
        if \<not> ok then None
        else (case (js_or (get (get payload ''user'') ''id'') (get (get (get payload ''session'') ''user'') ''id''),
                    get (get payload ''session'') ''id'') of
          (JStr u, JStr s) \<Rightarrow>
            if u = [] \<or> s = [] then None
            else Some \<lparr>au_userId = u, au_sessionId = s,
                        au_createdAt = created_at pf (get (get payload ''session'') ''createdAt'')\<rparr>
        | _ \<Rightarrow> None))"

definition session_id_ok :: "string \<Rightarrow> bool" where
  "session_id_ok s \<longleftrightarrow> 8 \<le> length s \<and> length s \<le> 128
     \<and> list_all (\<lambda>c. c \<in> set ''ABCDEFGHIJKLMNOPQRSTUVWXYZabcdefghijklmnopqrstuvwxyz0123456789._:-'') s"

definition signing_secret :: "env \<Rightarrow> string option" where
  "signing_secret en =
     (case ev_sessionSecret en of
        Some s \<Rightarrow> if s \<noteq> [] then Some s
                  else if ev_development en \<or> ev_mockMode en then Some ''mock-dev-secret-12345678'' else None
      | None \<Rightarrow> if ev_development en \<or> ev_mockMode en then Some ''mock-dev-secret-12345678'' else None)"

definition query_get :: "string \<Rightarrow> http_request \<Rightarrow> string option" where
  "query_get k q = map_of (hq_query q) k"

text \<open>
  \<open>getVerifiedRequestContext\<close>. \<open>neon cookie\<close> is the request to Neon Auth, rejecting when it is not
  configured or unreachable; \<open>now\<close> is \<open>Date.now()\<close>.
\<close>

definition request_auth ::
    "platform \<Rightarrow> env \<Rightarrow> (string \<Rightarrow> (bool \<times> jsval) ext) \<Rightarrow> int \<Rightarrow> http_request \<Rightarrow> auth option" where
  "request_auth pf en neon now q =
     (let real = (case header ''cookie'' q of
                    None \<Rightarrow> None
                  | Some c \<Rightarrow> if c = [] then None
                      else (case neon c of Ret r \<Rightarrow> read_session pf r | Throw _ \<Rightarrow> None))
      in case real of
           Some a \<Rightarrow> Some a
         | None \<Rightarrow> if ev_development en \<or> ev_devLocalAuth en
                   then Some \<lparr>au_userId = ''local-dev-user'', au_sessionId = ''local-dev-session'',
                              au_createdAt = Some (of_int now)\<rparr>
                   else None)"

definition signed_message :: "string \<Rightarrow> string \<Rightarrow> int \<Rightarrow> string \<Rightarrow> jsval" where
  "signed_message subj company issued sid =
     JObj [(''auth_subject'', JStr subj), (''company_id'', JStr company), (''issued_at'', JNum issued),
           (''session_id'', JStr sid)]"

definition verified_context ::
    "platform \<Rightarrow> env \<Rightarrow> (string \<Rightarrow> (bool \<times> jsval) ext) \<Rightarrow> int \<Rightarrow> http_request \<Rightarrow> verified option" where
  "verified_context pf en neon now q =
     (case request_auth pf en neon now q of
        None \<Rightarrow> None
      | Some a \<Rightarrow>
          let sid = str_or (case query_get ''session_id'' q of Some s \<Rightarrow> s | None \<Rightarrow> []) (au_sessionId a) in
          if \<not> session_id_ok sid then None
          else (case signing_secret en of
            None \<Rightarrow> None
          | Some secret \<Rightarrow>
              let company = stable_company_id pf (au_userId a); issued = now div 1000 in
              Some \<lparr>cx_sessionId = sid, cx_companyId = company, cx_authSubject = au_userId a,
                     cx_issuedAt = issued,
                     cx_signature = hmac_hex pf secret (signed_message (au_userId a) company issued sid),
                     cx_sessionCreatedAt = au_createdAt a\<rparr>))"

text \<open>\<open>contextHeader\<close> drops the creation time.\<close>

definition context_header :: "verified \<Rightarrow> jsval" where
  "context_header c =
     JObj [(''session_id'', JStr (cx_sessionId c)), (''company_id'', JStr (cx_companyId c)),
           (''auth_subject'', JStr (cx_authSubject c)), (''issued_at'', JNum (cx_issuedAt c)),
           (''signature'', JStr (cx_signature c))]"

section \<open>Company ids\<close>

definition hex_string :: "string \<Rightarrow> bool" where
  "hex_string s \<longleftrightarrow> list_all (\<lambda>c. c \<in> set ''0123456789abcdef'') s"

lemma hex_digit_in: "n < 16 \<Longrightarrow> hex_digit n \<in> set ''0123456789abcdef''"
  unfolding hex_digit_def by (rule nth_mem) simp

lemma variant_digit: "hex_digit ((m mod 64 + 128) div 16) \<in> set ''89ab''"
proof -
  have "(m mod 64 + 128) div 16 < 12" "8 \<le> (m mod 64 + 128) div 16"
    using mod_less_divisor [of 64 m] by linarith+
  then have "(m mod 64 + 128) div 16 \<in> {8, 9, 10, 11}" by auto
  then show ?thesis by (auto simp: hex_digit_def)
qed

lemma hex_is_hex: "c \<in> set ''0123456789abcdef'' \<Longrightarrow> is_hex c"
  by auto

text \<open>The company id derived from a user is a UUID that the call connector accepts: whatever the
user id, it matches the \<open>UUID_RE\<close> of \<open>connector/call-controller.mjs\<close>, given that SHA-256 prints
64 lower-case hexadecimal digits.\<close>

theorem company_id_is_uuid:
  assumes "\<And>s. length (sha256_hex pf s) = 64 \<and> hex_string (sha256_hex pf s)"
  shows "is_uuid (stable_company_id pf user)"
proof -
  let ?h = "take 32 (sha256_hex pf (''company:'' @ user))"
  have len: "length ?h = 32" using assms by simp
  have hex: "is_hex (?h ! i)" if "i < 32" for i
    using assms that hex_is_hex by (simp add: hex_string_def list_all_length del: is_hex.simps set_simps)
  have u8: "[0..<8] = [0, 1, 2, 3, 4, 5, 6, 7 :: nat]"
    and u36: "[0..<36] = [0, 1, 2, 3, 4, 5, 6, 7, 8, 9, 10, 11, 12, 13, 14, 15, 16, 17, 18, 19, 20, 21,
      22, 23, 24, 25, 26, 27, 28, 29, 30, 31, 32, 33, 34, 35 :: nat]"
    by (simp_all add: upt_conv_Cons eval_nat_numeral)
  define b where "b = 16 * hex_value (?h ! 16) + hex_value (?h ! 17)"
  let ?d1 = "hex_digit ((b mod 64 + 128) div 16)" and ?d2 = "hex_digit ((b mod 64 + 128) mod 16)"
  have "?h = map ((!) ?h) [0..<32]" by (metis len map_nth)
  then obtain h where h: "?h = map h [0..<32]" "\<And>i. i < 32 \<Longrightarrow> is_hex (h i)"
    using hex by blast
  have d: "?d1 \<in> set ''89ab''" "is_hex ?d2"
    using variant_digit hex_is_hex [OF hex_digit_in, of "(b mod 64 + 128) mod 16"] by simp_all
  have "stable_company_id pf user = map h [0..<8] @ ''-'' @ map h [8..<12] @ ''-4'' @ map h [13..<16]
      @ ''-'' @ [?d1, ?d2] @ map h [18..<20] @ ''-'' @ map h [20..<32]"
    unfolding stable_company_id_def Let_def b_def [symmetric] slice_def
    unfolding h(1) by (simp add: take_map drop_map upt_rec_numeral)
  then have e: "stable_company_id pf user = [h 0, h 1, h 2, h 3, h 4, h 5, h 6, h 7, CHR ''-'', h 8, h 9,
      h 10, h 11, CHR ''-'', CHR ''4'', h 13, h 14, h 15, CHR ''-'', ?d1, ?d2, h 18, h 19, CHR ''-'',
      h 20, h 21, h 22, h 23, h 24, h 25, h 26, h 27, h 28, h 29, h 30, h 31]"
    by (simp add: upt_rec_numeral u8)
  have hx: "is_hex (CHR ''4'')" "is_hex ?d1" using d(1) by auto
  show ?thesis
    unfolding is_uuid_def e using d hx h(2)
    by (simp add: u36 del: is_hex.simps) blast
qed

definition demo_platform :: platform where
  "demo_platform = \<lparr>parse_url = (\<lambda>s. if s = ''https://app.example''
       then Some \<lparr>ur_protocol = ''https:'', ur_username = [], ur_password = [], ur_pathname = ''/'',
              ur_search = [], ur_hash = [], ur_origin = ''https://app.example''\<rparr> else None),
     date_parse = (\<lambda>_. None), sha256_hex = (\<lambda>_. replicate 64 (CHR ''a'')),
     hmac_hex = (\<lambda>_ _. ''signature''), frac_string = (\<lambda>_. ''0.5'')\<rparr>"

theorem company_id_is_uuid_witness: "is_uuid (stable_company_id demo_platform ''user'')"
  by (rule company_id_is_uuid) (simp add: demo_platform_def hex_string_def list_all_iff)

section \<open>The proxy\<close>

record proxy_options =
  po_timeoutMs :: int
  po_retries :: nat
  po_requireRecentAuth :: bool
  po_recentAuthWindowMs :: int

definition default_options :: proxy_options where
  "default_options = \<lparr>po_timeoutMs = 15000, po_retries = 0, po_requireRecentAuth = False,
     po_recentAuthWindowMs = 10 * 60 * 1000\<rparr>"

record backend_request =
  br_base :: string
  br_path :: string
  br_query :: "(string \<times> string) list"
  br_method :: string
  br_headers :: "(string, string) jsmap"
  br_context :: "jsval option"      \<comment> \<open>the header \<open>x-verified-session-context\<close>, parsed\<close>
  br_body :: "jsval ext option"
  br_timeoutMs :: int

definition safe_method :: "string \<Rightarrow> bool" where
  "safe_method m \<longleftrightarrow> m \<in> {''GET'', ''HEAD'', ''OPTIONS''}"

definition strip_headers :: "(string, string) jsmap \<Rightarrow> (string, string) jsmap" where
  "strip_headers hs = jm_delete ''x-verified-session-context'' (jm_delete ''cookie''
     (jm_delete ''content-length'' (jm_delete ''host'' hs)))"

definition recent_enough :: "proxy_options \<Rightarrow> int \<Rightarrow> verified \<Rightarrow> bool" where
  "recent_enough po now c \<longleftrightarrow>
     (case cx_sessionCreatedAt c of
        None \<Rightarrow> False
      | Some t \<Rightarrow> 0 \<le> of_int now - t \<and> of_int now - t \<le> of_int (po_recentAuthWindowMs po))"

definition relay_response :: "http_response \<Rightarrow> http_response" where
  "relay_response r =
     (let pick = (\<lambda>h m. case jm_get (hr_headers r) h of
                           Some v \<Rightarrow> if v = [] then m else jm_set h v m | None \<Rightarrow> m)
      in \<lparr>hr_status = hr_status r,
          hr_headers = jm_set ''cache-control'' ''no-store'' (pick ''location'' (pick ''content-type'' [])),
          hr_body = hr_body r\<rparr>)"

text \<open>
  The attempts: \<open>back n r\<close> is the backend's answer to the request \<open>r\<close> at attempt \<open>n\<close> (reading its body
  included). The result lists the requests sent, in order.
\<close>

fun proxy_attempts ::
    "(nat \<Rightarrow> backend_request \<Rightarrow> http_response ext) \<Rightarrow> backend_request \<Rightarrow> nat \<Rightarrow> nat \<Rightarrow> http_response \<times> backend_request list" where
  "proxy_attempts back r n 0 =
     (case back n r of
        Ret resp \<Rightarrow> (relay_response resp, [r])
      | Throw _ \<Rightarrow> (json_response 502 (error_json ''BACKEND_PROXY_ERROR''
          ''The backend service is unavailable. Confirm the FastAPI service is running on port 8000.''), [r]))"
| "proxy_attempts back r n (Suc left) =
     (case back n r of
        Ret resp \<Rightarrow> (relay_response resp, [r])
      | Throw _ \<Rightarrow> (case proxy_attempts back r (Suc n) left of (resp, rs) \<Rightarrow> (resp, r # rs)))"

definition backend_request_of :: "env \<Rightarrow> http_request \<Rightarrow> string \<Rightarrow> proxy_options \<Rightarrow> verified \<Rightarrow> backend_request" where
  "backend_request_of en q path po c =
     \<lparr>br_base = ev_backendUrl en, br_path = path,
      br_query = filter (\<lambda>(k, _). k \<noteq> ''user_id'') (hq_query q),
      br_method = hq_method q, br_headers = strip_headers (hq_headers q),
      br_context = Some (context_header c),
      br_body = (if hq_method q \<noteq> ''GET'' \<and> hq_method q \<noteq> ''HEAD'' then Some (hq_body q) else None),
      br_timeoutMs = po_timeoutMs po\<rparr>"

definition proxy_backend ::
    "platform \<Rightarrow> env \<Rightarrow> (string \<Rightarrow> (bool \<times> jsval) ext) \<Rightarrow> int \<Rightarrow> (nat \<Rightarrow> backend_request \<Rightarrow> http_response ext)
      \<Rightarrow> (http_request \<Rightarrow> string \<Rightarrow> http_response) \<Rightarrow> http_request \<Rightarrow> string \<Rightarrow> proxy_options
      \<Rightarrow> http_response \<times> backend_request list" where
  "proxy_backend pf en neon now back mock q path po =
     (if is_mock_mode en then (mock q path, [])
      else if \<not> is_same_origin_mutation pf en q
      then (json_response 403 (error_json ''CSRF_REJECTED'' ''Cross-origin mutation rejected.''), [])
      else (case verified_context pf en neon now q of
        None \<Rightarrow> (json_response 401 (error_json ''AUTHENTICATION_REQUIRED'' ''Sign in is required.''), [])
      | Some c \<Rightarrow>
          if po_requireRecentAuth po \<and> \<not> recent_enough po now c
          then (\<lparr>hr_status = 403, hr_headers = [(''cache-control'', ''no-store'')],
                  hr_body = Json (error_json ''RECENT_AUTHENTICATION_REQUIRED''
                    ''Sign in again before changing 3CX integration credentials.'')\<rparr>, [])
          else proxy_attempts back (backend_request_of en q path po c) 0 (po_retries po)))"

lemma proxy_attempts_sent: "set (snd (proxy_attempts back r n k)) = {r}"
  by (induction k arbitrary: n) (auto simp: split_beta split: ext.splits)

lemma proxy_attempts_length: "length (snd (proxy_attempts back r n k)) \<le> Suc k"
  by (induction k arbitrary: n) (auto simp: split_beta split: ext.splits)

lemma proxy_sent:
  assumes "r \<in> set (snd (proxy_backend pf en neon now back mock q path po))"
  shows "\<exists>c. verified_context pf en neon now q = Some c \<and> r = backend_request_of en q path po c
    \<and> is_same_origin_mutation pf en q \<and> (po_requireRecentAuth po \<longrightarrow> recent_enough po now c)"
  using assms
  by (auto simp: proxy_backend_def proxy_attempts_sent split: if_splits option.splits)

text \<open>C13. What the proxy sends to the backend never carries the browser's cookie, its \<open>Host\<close>, or a
\<open>user_id\<close> query parameter, and its session context is the one the server verified and signed: a
context header sent by the browser is dropped. There is no request at all without a verified
session.\<close>

theorem backend_requests_carry_only_verified_identity:
  assumes "r \<in> set (snd (proxy_backend pf en neon now back mock q path po))"
  shows "jm_get (br_headers r) ''cookie'' = None \<and> jm_get (br_headers r) ''host'' = None
    \<and> jm_get (br_headers r) ''x-verified-session-context'' = None \<and> map_of (br_query r) ''user_id'' = None
    \<and> (\<exists>c. verified_context pf en neon now q = Some c \<and> br_context r = Some (context_header c))"
proof -
  obtain c where "verified_context pf en neon now q = Some c" "r = backend_request_of en q path po c"
    using proxy_sent [OF assms] by blast
  moreover have "map_of (filter (\<lambda>(k, _). k \<noteq> ''user_id'') (hq_query q)) ''user_id'' = None"
    by (auto simp: map_of_eq_None_iff)
  ultimately show ?thesis by (simp add: backend_request_of_def strip_headers_def)
qed

text \<open>C14. A mutation reaches the backend only from the app's own origin: unless the method is \<open>GET\<close>,
\<open>HEAD\<close> or \<open>OPTIONS\<close>, the request's \<open>Origin\<close> header is present and is exactly the configured
\<open>APP_ORIGIN\<close>, or the origin of the request's URL when none is configured.\<close>

theorem mutations_are_same_origin:
  assumes "snd (proxy_backend pf en neon now back mock q path po) \<noteq> []" "\<not> safe_method (hq_method q)"
  shows "\<exists>s. header ''origin'' q = Some s \<and> s \<noteq> []
    \<and> s = (if ev_appOrigin en = None \<or> trim (the (ev_appOrigin en)) = [] then hq_urlOrigin q
            else trim (the (ev_appOrigin en)))"
proof -
  obtain r where "r \<in> set (snd (proxy_backend pf en neon now back mock q path po))"
    using assms(1) by (cases "snd (proxy_backend pf en neon now back mock q path po)") auto
  then have "is_same_origin_mutation pf en q" using proxy_sent by blast
  then obtain s where s: "normalize_origin pf (header ''origin'' q) = Some s" "s \<noteq> []"
    "expected_origin pf en q = Some s"
    using assms(2) by (auto simp: is_same_origin_mutation_def safe_method_def simp del: header.simps split: option.splits)
  have "header ''origin'' q = Some s" using normalize_origin_Some [OF s(1)] .
  moreover have "s = (if ev_appOrigin en = None \<or> trim (the (ev_appOrigin en)) = [] then hq_urlOrigin q
            else trim (the (ev_appOrigin en)))"
  proof (cases "ev_appOrigin en")
    case None
    then show ?thesis using s(3) by (simp add: expected_origin_def)
  next
    case (Some a)
    then show ?thesis using s(3) normalize_origin_Some [of pf "Some (trim a)" s]
      by (cases "trim a = []") (simp_all add: expected_origin_def)
  qed
  ultimately show ?thesis using s(2) by blast
qed

text \<open>Retries are bounded and stop at the first answer: a call sends at most \<open>retries + 1\<close>
requests, and the caller gets the first answer the backend gives, or a 502 when every attempt
failed.\<close>

theorem proxy_answers_first_response:
  "length (snd (proxy_attempts back r n k)) \<le> Suc k
   \<and> fst (proxy_attempts back r n k) =
       (case find (\<lambda>i. is_ret (back i r)) [n..<n + Suc k] of
          Some i \<Rightarrow> relay_response (case back i r of Ret resp \<Rightarrow> resp)
        | None \<Rightarrow> json_response 502 (error_json ''BACKEND_PROXY_ERROR''
          ''The backend service is unavailable. Confirm the FastAPI service is running on port 8000.''))"
proof (induction k arbitrary: n)
  case 0
  then show ?case by (auto split: ext.splits)
next
  case (Suc k)
  have u: "[n..<n + Suc (Suc k)] = n # [Suc n..<Suc n + Suc k]"
    by (simp add: upt_conv_Cons del: upt_Suc)
  show ?case using Suc.IH [of "Suc n"] unfolding u by (auto simp: split_beta split: ext.splits)
qed

section \<open>Routes\<close>

text \<open>
  The route handlers that only call the proxy: for a path (its segments, with the dynamic one last)
  and a method, the backend path and the options; \<open>Inl\<close> is an answer given without the proxy,
  \<open>None\<close> a method the route does not export.
\<close>

definition opts :: "int \<Rightarrow> nat \<Rightarrow> bool \<Rightarrow> proxy_options" where
  "opts t r ra = default_options\<lparr>po_timeoutMs := t, po_retries := r, po_requireRecentAuth := ra\<rparr>"

definition gone :: "jsval \<Rightarrow> http_response" where
  "gone v = \<lparr>hr_status = 410, hr_headers = [(''cache-control'', ''no-store'')], hr_body = Json v\<rparr>"

definition only :: "string \<Rightarrow> string \<Rightarrow> 'a \<Rightarrow> 'a option" where
  "only m m' x = (if m' = m then Some x else None)"

text \<open>\<open>encodeURIComponent\<close> is the parameter \<open>enc\<close>.\<close>

definition record_route ::
    "(string \<Rightarrow> string) \<Rightarrow> string \<Rightarrow> string \<Rightarrow> string \<Rightarrow> string \<Rightarrow> string \<Rightarrow> (http_response, string \<times> proxy_options) sum option" where
  "record_route enc base param suffix_get m x =
     (let missing = json_response 400 (JObj [(''error'', JStr (param @ '' parameter is required''))]) in
      if m = ''GET'' then Some (if x = [] then Inl missing
        else Inr (base @ enc x @ suffix_get, opts 10000 0 False))
      else if m = ''POST'' then Some (if x = [] then Inl missing
        else Inr (base @ enc x @ ''/cancel'', opts 10000 0 False))
      else None)"

definition static_routes :: "((string list \<times> string) \<times> (http_response, string \<times> proxy_options) sum) list" where
  "static_routes =
     [(([''api'', ''assistant-config''], ''GET''), Inr (''/assistant-config'', default_options)),
      (([''api'', ''assistant-config''], ''POST''), Inr (''/assistant-config'', default_options)),
      (([''api'', ''assistant-config'', ''publish''], ''POST''), Inr (''/assistant-config/publish'', default_options)),
      (([''api'', ''assistant-config'', ''rollback''], ''POST''), Inr (''/assistant-config/rollback'', default_options)),
      (([''api'', ''assistant-config'', ''runtime''], ''GET''), Inr (''/assistant-config/runtime'', default_options)),
      (([''api'', ''assistant-config'', ''validate''], ''POST''), Inr (''/assistant-config/validate'', default_options)),
      (([''api'', ''assistant-config'', ''versions''], ''GET''), Inr (''/assistant-config/versions'', default_options)),
      (([''api'', ''bookings''], ''GET''), Inr (''/bookings'', opts 10000 0 False)),
      (([''api'', ''company-profile''], ''GET''), Inr (''/company-profile'', default_options)),
      (([''api'', ''company-profile''], ''POST''), Inr (''/company-profile'', default_options)),
      (([''api'', ''dashboard'', ''summary''], ''GET''), Inr (''/api/dashboard/summary'', default_options)),
      (([''api'', ''gemini-token''], ''GET''), Inl (gone (JObj [
            (''error'', JStr ''Browser-direct Gemini voice is disabled. Use the LiveKit voice session.''),
            (''error_code'', JStr ''DIRECT_VOICE_DISABLED'')]))),
      (([''api'', ''integrations'', ''3cx'', ''calls''], ''GET''), Inr (''/api/integrations/3cx/calls'', default_options)),
      (([''api'', ''integrations'', ''3cx''], ''GET''), Inr (''/api/integrations/3cx'', default_options)),
      (([''api'', ''integrations'', ''3cx''], ''POST''), Inr (''/api/integrations/3cx/test'', opts 15000 0 True)),
      (([''api'', ''integrations'', ''3cx''], ''PUT''), Inr (''/api/integrations/3cx'', opts 15000 0 True)),
      (([''api'', ''integrations'', ''3cx''], ''DELETE''), Inr (''/api/integrations/3cx'', opts 15000 0 True)),
      (([''api'', ''integrations'', ''status''], ''GET''), Inr (''/api/integrations/status'', default_options)),
      (([''api'', ''livekit-token''], ''GET''), Inl (gone (error_json ''LEGACY_VOICE_PATH_DISABLED''
            ''Use the authenticated LiveKit session endpoint.''))),
      (([''api'', ''livekit'', ''token''], ''GET''), Inr (''/livekit/token'', opts 30000 1 False)),
      (([''api'', ''tasks''], ''GET''), Inr (''/tasks'', opts 10000 0 False)),
      (([''api'', ''user-preferences''], ''GET''), Inr (''/user-preferences'', default_options)),
      (([''api'', ''user-preferences''], ''PUT''), Inr (''/user-preferences'', default_options))]"

definition dynamic_route ::
    "(string \<Rightarrow> string) \<Rightarrow> string list \<Rightarrow> string \<Rightarrow> string \<Rightarrow> (http_response, string \<times> proxy_options) sum option" where
  "dynamic_route enc prefix x m =
     (if prefix = [''api'', ''bookings''] then record_route enc ''/bookings/'' ''requestId'' [] m x
      else if prefix = [''api'', ''tasks''] then record_route enc ''/tasks/'' ''taskId'' ''/status'' m x
      else if prefix = [''auth'', ''google''] \<and> m \<in> {''GET'', ''POST''}
      then Some (Inr (''/auth/google/'' @ x, opts 30000 1 False))
      else None)"

definition route :: "(string \<Rightarrow> string) \<Rightarrow> string list \<Rightarrow> string \<Rightarrow> (http_response, string \<times> proxy_options) sum option" where
  "route enc path m =
     (case map_of static_routes (path, m) of
        Some r \<Rightarrow> Some r
      | None \<Rightarrow> if path = [] then None else dynamic_route enc (butlast path) (last path) m)"

definition serve ::
    "platform \<Rightarrow> env \<Rightarrow> (string \<Rightarrow> (bool \<times> jsval) ext) \<Rightarrow> int \<Rightarrow> (nat \<Rightarrow> backend_request \<Rightarrow> http_response ext)
      \<Rightarrow> (http_request \<Rightarrow> string \<Rightarrow> http_response) \<Rightarrow> (string \<Rightarrow> string) \<Rightarrow> string list \<Rightarrow> http_request
      \<Rightarrow> http_response \<times> backend_request list" where
  "serve pf en neon now back mock enc path q =
     (case route enc path (hq_method q) of
        None \<Rightarrow> (\<lparr>hr_status = 405, hr_headers = [], hr_body = Raw []\<rparr>, [])
      | Some (Inl resp) \<Rightarrow> (resp, [])
      | Some (Inr (bp, po)) \<Rightarrow> proxy_backend pf en neon now back mock q bp po)"

lemma static_3cx_options:
  "list_all (\<lambda>((path, m), r). case r of Inl _ \<Rightarrow> True | Inr (bp, po) \<Rightarrow>
      path = [''api'', ''integrations'', ''3cx''] \<and> m \<noteq> ''GET'' \<longrightarrow>
        po_requireRecentAuth po \<and> po_recentAuthWindowMs po = 600000 \<and> po_retries po = 0) static_routes"
  by (simp add: static_routes_def opts_def default_options_def)

lemma static_retries:
  "list_all (\<lambda>((path, m), r). case r of Inl _ \<Rightarrow> True | Inr (bp, po) \<Rightarrow> po_retries po \<noteq> 0 \<longrightarrow> m = ''GET'') static_routes"
  by (simp add: static_routes_def opts_def default_options_def)

text \<open>C16. The 3CX credentials of a tenant are tested, changed or deleted only within ten minutes of a
sign-in: every request the 3CX settings route sends for a method other than \<open>GET\<close> comes from a
session created at most 600,000 ms ago, and it is sent once, never retried.\<close>

theorem threecx_settings_need_fresh_session:
  assumes "serve pf en neon now back mock enc [''api'', ''integrations'', ''3cx''] q = (resp, sent)"
    "hq_method q \<noteq> ''GET''" "sent \<noteq> []"
  shows "length sent = 1 \<and> (\<exists>c t. verified_context pf en neon now q = Some c
    \<and> cx_sessionCreatedAt c = Some t \<and> t \<le> of_int now \<and> of_int now \<le> t + 600000)"
proof -
  let ?p = "[''api'', ''integrations'', ''3cx'']"
  have dyn: "dynamic_route enc (butlast ?p) (last ?p) m = None" for m
    by (simp add: dynamic_route_def)
  obtain r where r: "map_of static_routes (?p, hq_method q) = Some r"
    using assms(1,3) dyn by (auto simp: serve_def route_def split: option.splits)
  then have mem: "((?p, hq_method q), r) \<in> set static_routes" by (rule map_of_SomeD)
  then have o: "case r of Inl _ \<Rightarrow> True | Inr (bp, po) \<Rightarrow>
      po_requireRecentAuth po \<and> po_recentAuthWindowMs po = 600000 \<and> po_retries po = 0"
    using bspec [OF static_3cx_options [unfolded list_all_iff] mem] assms(2) by (auto split: sum.splits)
  obtain bp po where rr: "r = Inr (bp, po)"
    using assms(1,3) r by (cases r) (auto simp: serve_def route_def)
  then have po: "po_requireRecentAuth po" "po_recentAuthWindowMs po = 600000" "po_retries po = 0"
    using o by simp_all
  have pr: "proxy_backend pf en neon now back mock q bp po = (resp, sent)"
    using assms(1) r rr by (simp add: serve_def route_def)
  obtain b where b: "b \<in> set sent" using assms(3) by (cases sent) auto
  have "length sent \<le> 1"
    using pr po(3) proxy_attempts_length [of "back" _ 0 0]
    by (auto simp: proxy_backend_def split: if_splits option.splits ext.splits)
  then have "length sent = 1" using assms(3) by (cases sent) auto
  moreover have "b \<in> set (snd (proxy_backend pf en neon now back mock q bp po))" using b pr by simp
  from proxy_sent [OF this] po obtain c where "verified_context pf en neon now q = Some c"
    "recent_enough po now c" by blast
  then have "\<exists>c t. verified_context pf en neon now q = Some c
    \<and> cx_sessionCreatedAt c = Some t \<and> t \<le> of_int now \<and> of_int now \<le> t + 600000"
    using po(2) by (auto simp: recent_enough_def algebra_simps split: option.splits)
  ultimately show ?thesis by blast
qed

section \<open>Tool execution\<close>

text \<open>
  \<open>api/tools/execute\<close>. \<open>back payload context\<close> answers with a status, whether it is \<open>ok\<close>, and the text
  parsed (\<open>None\<close> when \<open>JSON.parse\<close> rejects it). The result lists the payload and context sent.
\<close>

definition tool_payload :: "jsval \<Rightarrow> jsval" where
  "tool_payload body =
     (let keep = (\<lambda>k. if truthy (get body k) then get body k else JNull);
          ps = (if get body ''parameters'' = JUndef then JObj [] else get body ''parameters'')
      in JObj [(''tool_name'', get body ''tool_name''), (''parameters'', ps),
               (''session_id'', keep ''session_id''), (''idempotency_key'', keep ''idempotency_key'')])"

definition tool_denied :: "string \<Rightarrow> jsval" where
  "tool_denied t = error_json ''POLICY_TOOL_DENIED''
     (''Tool '' @ [CHR 0x27] @ t @ [CHR 0x27] @ '' is not enabled for the calendar-only assistant.'')"

definition proxy_failure :: http_response where
  "proxy_failure = json_response 502 (error_json ''BACKEND_PROXY_ERROR''
     ''The backend service is unavailable. Please try again.'')"

definition tools_execute ::
    "platform \<Rightarrow> env \<Rightarrow> (string \<Rightarrow> (bool \<times> jsval) ext) \<Rightarrow> int \<Rightarrow> (string \<Rightarrow> bool) \<Rightarrow> (jsval \<Rightarrow> jsval \<Rightarrow> jsval ext)
      \<Rightarrow> (jsval \<Rightarrow> jsval \<Rightarrow> (int \<times> bool \<times> jsval option) ext) \<Rightarrow> http_request
      \<Rightarrow> http_response \<times> (jsval \<times> jsval) list" where
  "tools_execute pf en neon now allowed mock back q =
     (if \<not> is_same_origin_mutation pf en q
      then (json_response 403 (error_json ''CSRF_REJECTED'' ''Cross-origin mutation rejected.''), [])
      else (case hq_body q of
        Throw _ \<Rightarrow> (proxy_failure, [])
      | Ret body \<Rightarrow>
          if nullish body then (proxy_failure, [])
          else if \<not> truthy (get body ''tool_name'')
          then (json_response 400 (JObj [(''error'', JStr ''tool_name is required'')]), [])
          else if is_mock_mode en
          then (case mock (get body ''tool_name'')
                  (if get body ''parameters'' = JUndef then JObj [] else get body ''parameters'') of
                Ret v \<Rightarrow> (json_response 200 v, [])
              | Throw _ \<Rightarrow> (proxy_failure, []))
          else (case get body ''tool_name'' of
            JStr t \<Rightarrow>
              if \<not> allowed t then (json_response 403 (tool_denied t), [])
              else (case verified_context pf en neon now q of
                None \<Rightarrow> (json_response 401 (error_json ''AUTHENTICATION_REQUIRED'' ''Sign in is required.''), [])
              | Some c \<Rightarrow>
                  let sent = [(tool_payload body, context_header c)] in
                  (case back (tool_payload body) (context_header c) of
                    Throw _ \<Rightarrow> (proxy_failure, sent)
                  | Ret (st, ok, parsed) \<Rightarrow>
                      (json_response st (case parsed of Some v \<Rightarrow> v | None \<Rightarrow> JObj [
                         (''status'', JStr (if ok then ''success'' else ''error'')),
                         (''error_code'', JStr ''INVALID_BACKEND_RESPONSE''),
                         (''error_message'', JStr ''The backend returned an unreadable response.'')]), sent)))
          | t \<Rightarrow> (json_response 403 (tool_denied (js_string (frac_string pf) t)), []))))"

section \<open>The authentication proxy\<close>

definition auth_request_headers :: "string list" where
  "auth_request_headers = [''accept'', ''content-type'', ''cookie'', ''user-agent'', ''origin'']"

definition copy_headers :: "string list \<Rightarrow> (string, string) jsmap \<Rightarrow> (string, string) jsmap" where
  "copy_headers names hs =
     fold (\<lambda>h m. case jm_get hs h of Some v \<Rightarrow> if v = [] then m else jm_set h v m | None \<Rightarrow> m) names []"

text \<open>
  \<open>forward\<close> of \<open>api/auth/[...path]\<close>: the answer of Neon Auth comes with its cookies (\<open>getSetCookie\<close>).
  The result: the response, its cookies, and what was sent (path, query, headers).
\<close>

definition auth_forward ::
    "platform \<Rightarrow> env \<Rightarrow> (http_request \<Rightarrow> string list \<Rightarrow> http_response)
      \<Rightarrow> (string list \<Rightarrow> (string, string) jsmap \<Rightarrow> (http_response \<times> string list) ext)
      \<Rightarrow> string list \<Rightarrow> http_request
      \<Rightarrow> http_response \<times> string list \<times> (string list \<times> (string \<times> string) list \<times> (string, string) jsmap) option" where
  "auth_forward pf en mock neon path q =
     (if is_mock_mode en then (mock q path, [], None)
      else (case ev_authUrl en of
        None \<Rightarrow> (json_response 503 (JObj [(''error'', JStr ''Neon Auth is not configured.'')]), [], None)
      | Some base \<Rightarrow>
          if base = [] then (json_response 503 (JObj [(''error'', JStr ''Neon Auth is not configured.'')]), [], None)
          else if \<not> is_same_origin_mutation pf en q
          then (json_response 403 (JObj [(''error'', JStr ''Cross-origin mutation rejected.'')]), [], None)
          else (let hs = copy_headers auth_request_headers (hq_headers q); sent = Some (path, hq_query q, hs) in
            case neon path hs of
              Ret (r, cookies) \<Rightarrow>
                (\<lparr>hr_status = hr_status r,
                   hr_headers = jm_set ''cache-control'' ''no-store''
                     (copy_headers [''content-type'', ''location'', ''cache-control''] (hr_headers r)),
                   hr_body = hr_body r\<rparr>, cookies, sent)
            | Throw _ \<Rightarrow> (json_response 502 (JObj [(''error'', JStr ''Neon Auth is unavailable.'')]), [], sent))))"

section \<open>Logging\<close>

text \<open>\<open>safeErrorType\<close>: \<open>Some name\<close> for an \<open>Error\<close>, \<open>None\<close> for any other thrown value.\<close>

definition name_char :: "bool \<Rightarrow> char \<Rightarrow> bool" where
  "name_char first c \<longleftrightarrow> c \<in> set ''ABCDEFGHIJKLMNOPQRSTUVWXYZabcdefghijklmnopqrstuvwxyz''
     \<or> \<not> first \<and> c \<in> set ''0123456789_''"

definition safe_error_type :: "string option \<Rightarrow> string" where
  "safe_error_type err =
     (let name = (case err of Some n \<Rightarrow> n | None \<Rightarrow> ''NonError'')
      in if name \<noteq> [] \<and> length name \<le> 64 \<and> name_char True (hd name) \<and> list_all (name_char False) (tl name)
         then name else ''Error'')"

lemma copy_headers_keys:
  "jm_get (copy_headers names hs) h = Some v \<Longrightarrow> h \<in> set names \<and> jm_get hs h = Some v"
proof -
  have "jm_get (fold (\<lambda>h m. case jm_get hs h of Some v \<Rightarrow> if v = [] then m else jm_set h v m | None \<Rightarrow> m) names m) h
      = Some v \<Longrightarrow> (h \<in> set names \<and> jm_get hs h = Some v) \<or> jm_get m h = Some v" for m
  proof (induction names arbitrary: m)
    case Nil
    then show ?case by simp
  next
    case (Cons n names)
    then show ?case
      by (cases "jm_get hs n") (fastforce split: if_splits)+
  qed
  then show "jm_get (copy_headers names hs) h = Some v \<Longrightarrow> h \<in> set names \<and> jm_get hs h = Some v"
    unfolding copy_headers_def by fastforce
qed

text \<open>C15. A tool call reaches the backend only for a tool the policy allows, only from the app's own
origin, and under the identity the server verified: nothing of the browser's body but the tool
name, its parameters, a session id and an idempotency key is forwarded.\<close>

theorem tool_calls_are_vetted:
  assumes "(payload, cx) \<in> set (snd (tools_execute pf en neon now allowed mock back q))"
  shows "\<exists>t c. get payload ''tool_name'' = JStr t \<and> allowed t \<and> is_same_origin_mutation pf en q
    \<and> verified_context pf en neon now q = Some c \<and> cx = context_header c
    \<and> map fst (obj_fields payload) = [''tool_name'', ''parameters'', ''session_id'', ''idempotency_key'']"
  using assms
  by (auto simp: tools_execute_def tool_payload_def Let_def
      split: if_splits ext.splits jsval.splits option.splits prod.splits)

section \<open>Witnesses\<close>

definition demo_env :: env where
  "demo_env = \<lparr>ev_backendUrl = ''http://127.0.0.1:8000'', ev_appOrigin = Some '' https://app.example '',
     ev_authUrl = Some ''https://auth.example'', ev_development = False, ev_devLocalAuth = False,
     ev_publicMockMode = False, ev_mockMode = False, ev_sessionSecret = Some ''secret''\<rparr>"

definition demo_session :: "string \<Rightarrow> (bool \<times> jsval) ext" where
  "demo_session c = Ret (True, JObj [(''user'', JObj [(''id'', JStr ''user'')]),
     (''session'', JObj [(''id'', JStr ''session-1''), (''createdAt'', JNum 1700000000)])])"

definition demo_request :: http_request where
  "demo_request = \<lparr>hq_method = ''PUT'', hq_urlOrigin = ''http://internal'', hq_query = [(''user_id'', ''other'')],
     hq_headers = [(''cookie'', ''c=1''), (''host'', ''app''), (''origin'', ''https://app.example'')],
     hq_body = Ret (JObj [(''tool_name'', JStr ''book_event''), (''user_id'', JStr ''other'')])\<rparr>"

definition demo_backend :: "nat \<Rightarrow> backend_request \<Rightarrow> http_response ext" where
  "demo_backend n r = Ret (json_response 200 JNull)"

definition demo_mock :: "http_request \<Rightarrow> string \<Rightarrow> http_response" where
  "demo_mock q p = json_response 200 JNull"

lemma demo_context:
  "\<exists>c. verified_context demo_platform demo_env demo_session 1700000300000 demo_request = Some c
     \<and> cx_sessionCreatedAt c = Some 1700000000000"
proof -
  have "request_auth demo_platform demo_env demo_session 1700000300000 demo_request
      = Some \<lparr>au_userId = ''user'', au_sessionId = ''session-1'', au_createdAt = Some 1700000000000\<rparr>"
    by (simp add: request_auth_def demo_request_def demo_session_def read_session_def js_or_def
        created_at_def jm_get_def)
  then show ?thesis
    by (simp add: verified_context_def query_get_def demo_request_def session_id_ok_def signing_secret_def
        demo_env_def Let_def)
qed

lemma demo_same_origin: "is_same_origin_mutation demo_platform demo_env demo_request"
proof -
  have "trim '' https://app.example '' = ''https://app.example''" by code_simp
  then show ?thesis
    by (simp add: is_same_origin_mutation_def normalize_origin_def expected_origin_def demo_request_def
        demo_env_def demo_platform_def jm_get_def)
qed

lemma demo_serve:
  "\<exists>resp r. serve demo_platform demo_env demo_session 1700000300000 demo_backend demo_mock id
     [''api'', ''integrations'', ''3cx''] demo_request = (resp, [r])
     \<and> snd (proxy_backend demo_platform demo_env demo_session 1700000300000 demo_backend demo_mock
         demo_request ''/api/integrations/3cx'' (opts 15000 0 True)) = [r]"
proof -
  obtain c where c: "verified_context demo_platform demo_env demo_session 1700000300000 demo_request = Some c"
    "cx_sessionCreatedAt c = Some 1700000000000" using demo_context by blast
  have r: "route id [''api'', ''integrations'', ''3cx''] ''PUT'' = Some (Inr (''/api/integrations/3cx'', opts 15000 0 True))"
    by (simp add: route_def static_routes_def)
  have m: "hq_method demo_request = ''PUT''" by (simp add: demo_request_def)
  have "\<not> is_mock_mode demo_env" by (simp add: is_mock_mode_def demo_env_def)
  then show ?thesis
    using c demo_same_origin
    by (simp add: serve_def r m proxy_backend_def recent_enough_def opts_def default_options_def demo_backend_def)
qed

theorem backend_requests_carry_only_verified_identity_witness:
  "\<exists>r. snd (proxy_backend demo_platform demo_env demo_session 1700000300000 demo_backend demo_mock
         demo_request ''/api/integrations/3cx'' (opts 15000 0 True)) = [r]
     \<and> jm_get (br_headers r) ''cookie'' = None \<and> map_of (br_query r) ''user_id'' = None"
proof -
  obtain r where r: "snd (proxy_backend demo_platform demo_env demo_session 1700000300000 demo_backend demo_mock
         demo_request ''/api/integrations/3cx'' (opts 15000 0 True)) = [r]"
    using demo_serve by blast
  then show ?thesis using backend_requests_carry_only_verified_identity [of r demo_platform demo_env
      demo_session 1700000300000 demo_backend demo_mock demo_request "''/api/integrations/3cx''" "opts 15000 0 True"]
    by simp
qed

theorem mutations_are_same_origin_witness:
  "header ''origin'' demo_request = Some ''https://app.example''"
proof -
  have "trim '' https://app.example '' = ''https://app.example''" by code_simp
  then show ?thesis
    using mutations_are_same_origin [of demo_platform demo_env demo_session 1700000300000 demo_backend
        demo_mock demo_request "''/api/integrations/3cx''" "opts 15000 0 True"] demo_serve
    by (auto simp: safe_method_def demo_request_def demo_env_def)
qed

theorem threecx_settings_need_fresh_session_witness:
  "\<exists>c t. verified_context demo_platform demo_env demo_session 1700000300000 demo_request = Some c
    \<and> cx_sessionCreatedAt c = Some t \<and> of_int 1700000300000 \<le> t + 600000"
proof -
  obtain resp r where "serve demo_platform demo_env demo_session 1700000300000 demo_backend demo_mock id
     [''api'', ''integrations'', ''3cx''] demo_request = (resp, [r])" using demo_serve by blast
  from threecx_settings_need_fresh_session [OF this] show ?thesis by (auto simp: demo_request_def)
qed

theorem tool_calls_are_vetted_witness:
  "\<exists>payload cx. snd (tools_execute demo_platform demo_env demo_session 1700000300000 (\<lambda>t. t = ''book_event'')
       (\<lambda>_ _. Ret JNull) (\<lambda>_ _. Ret (200, True, None)) demo_request) = [(payload, cx)]
     \<and> get payload ''tool_name'' = JStr ''book_event'' \<and> get payload ''user_id'' = JUndef"
proof -
  obtain c where c: "verified_context demo_platform demo_env demo_session 1700000300000 demo_request = Some c"
    using demo_context by blast
  have e: "\<not> is_mock_mode demo_env" by (simp add: is_mock_mode_def demo_env_def)
  have b: "hq_body demo_request = Ret (JObj [(''tool_name'', JStr ''book_event''), (''user_id'', JStr ''other'')])"
    by (simp add: demo_request_def)
  let ?p = "tool_payload (JObj [(''tool_name'', JStr ''book_event''), (''user_id'', JStr ''other'')])"
  have s: "snd (tools_execute demo_platform demo_env demo_session 1700000300000 (\<lambda>t. t = ''book_event'')
       (\<lambda>_ _. Ret JNull) (\<lambda>_ _. Ret (200, True, None)) demo_request) = [(?p, context_header c)]"
    using demo_same_origin c e by (simp add: tools_execute_def b Let_def)
  then have "(?p, context_header c) \<in> set (snd (tools_execute demo_platform demo_env demo_session 1700000300000
      (\<lambda>t. t = ''book_event'') (\<lambda>_ _. Ret JNull) (\<lambda>_ _. Ret (200, True, None)) demo_request))" by simp
  from tool_calls_are_vetted [OF this] have "get ?p ''tool_name'' = JStr ''book_event''" by auto
  then show ?thesis using s by (auto simp: tool_payload_def Let_def)
qed

end
