(* ===== verification/Workspace_Cache.thy ===== *)
theory Workspace_Cache
  imports Prelude
begin

text \<open>
  \<open>frontend/src/lib/workspaceCache.ts\<close>: the module-level cache of the company profile and of the
  session. A read answers from the cache for 30 seconds, otherwise it joins the request in flight
  or starts one. The state is the module's variables together with the requests whose \<open>fetch\<close> has
  not settled and those whose \<open>finally\<close> callback is still to run; every function of the module and
  every callback of a request is one step of \<open>wc_step\<close>, so runs contain all their interleavings.
\<close>

section \<open>State\<close>

type_synonym js_fields = "(string \<times> jsval) list"

record wc =
  wc_profile :: "js_fields option"
  wc_profileCachedAt :: int
  wc_profileRequest :: "nat option"
  wc_session :: jsval
  wc_sessionCachedAt :: int
  wc_sessionRequest :: "nat option"
  wc_nextId :: nat
  wc_profileFetching :: "nat list"
  wc_profileFinishing :: "nat list"
  wc_sessionFetching :: "nat list"
  wc_sessionFinishing :: "nat list"

definition wc_init :: wc where
  "wc_init = \<lparr>wc_profile = None, wc_profileCachedAt = 0, wc_profileRequest = None,
     wc_session = JNull, wc_sessionCachedAt = 0, wc_sessionRequest = None, wc_nextId = 0,
     wc_profileFetching = [], wc_profileFinishing = [],
     wc_sessionFetching = [], wc_sessionFinishing = []\<rparr>"

definition empty_profile :: js_fields where
  "empty_profile =
     [(''company_name'', JStr []), (''website_url'', JStr []), (''company_phone'', JStr []),
      (''support_email'', JStr []), (''timezone'', JStr ''Indian/Mauritius'')]"

definition cache_ttl_ms :: int where
  "cache_ttl_ms = 30000"

section \<open>Operations\<close>

text \<open>\<open>readJson\<close>: a settled fetch (\<open>ok\<close> and the parsed body) gives the body, or null.\<close>

definition read_json :: "(bool \<times> jsval) ext \<Rightarrow> jsval ext" where
  "read_json r = (case r of Throw m \<Rightarrow> Throw m | Ret (ok, body) \<Rightarrow> Ret (if ok then body else JNull))"

definition set_cached_company_profile :: "int \<Rightarrow> jsval \<Rightarrow> wc \<Rightarrow> wc" where
  "set_cached_company_profile now v s =
     (if \<not> truthy v then s\<lparr>wc_profile := None, wc_profileCachedAt := 0\<rparr>
      else s\<lparr>wc_profile := Some (js_merge (js_merge empty_profile
                (case wc_profile s of Some p \<Rightarrow> p | None \<Rightarrow> [])) (spread v)),
             wc_profileCachedAt := now\<rparr>)"

text \<open>What a caller of \<open>getCompanyProfile\<close> or \<open>getSession\<close> gets: a value at once, or the request it
now waits for.\<close>

datatype answer = Cached jsval | Waiting nat

definition start_profile_request :: "wc \<Rightarrow> answer \<times> wc" where
  "start_profile_request s =
     (Waiting (wc_nextId s),
      s\<lparr>wc_profileRequest := Some (wc_nextId s), wc_nextId := Suc (wc_nextId s),
        wc_profileFetching := wc_profileFetching s @ [wc_nextId s]\<rparr>)"

definition get_company_profile :: "int \<Rightarrow> bool \<Rightarrow> wc \<Rightarrow> answer \<times> wc" where
  "get_company_profile now force s =
     (if wc_profile s \<noteq> None \<and> \<not> force \<and> now - wc_profileCachedAt s < cache_ttl_ms
      then (Cached (JObj (the (wc_profile s))), s)
      else if wc_profileRequest s \<noteq> None \<and> \<not> force then (Waiting (the (wc_profileRequest s)), s)
      else start_profile_request s)"

text \<open>The callbacks of a profile request: \<open>then\<close> or \<open>catch\<close> when the fetch settles, \<open>finally\<close> in a
later microtask.\<close>

definition profile_settled :: "nat \<Rightarrow> (bool \<times> jsval) ext \<Rightarrow> int \<Rightarrow> wc \<Rightarrow> wc" where
  "profile_settled i r now s =
     (if i \<notin> set (wc_profileFetching s) then s
      else let s = s\<lparr>wc_profileFetching := remove1 i (wc_profileFetching s),
                     wc_profileFinishing := wc_profileFinishing s @ [i]\<rparr> in
           case read_json r of
             Throw _ \<Rightarrow> s
           | Ret payload \<Rightarrow> set_cached_company_profile now (js_or (get payload ''data'') JNull) s)"

definition profile_finally :: "nat \<Rightarrow> wc \<Rightarrow> wc" where
  "profile_finally i s =
     (if i \<notin> set (wc_profileFinishing s) then s
      else s\<lparr>wc_profileFinishing := remove1 i (wc_profileFinishing s), wc_profileRequest := None\<rparr>)"

definition start_session_request :: "wc \<Rightarrow> answer \<times> wc" where
  "start_session_request s =
     (Waiting (wc_nextId s),
      s\<lparr>wc_sessionRequest := Some (wc_nextId s), wc_nextId := Suc (wc_nextId s),
        wc_sessionFetching := wc_sessionFetching s @ [wc_nextId s]\<rparr>)"

definition get_session :: "int \<Rightarrow> bool \<Rightarrow> string \<Rightarrow> wc \<Rightarrow> answer \<times> wc" where
  "get_session now force query s =
     (if truthy (wc_session s) \<and> \<not> force \<and> query = [] \<and> now - wc_sessionCachedAt s < cache_ttl_ms
      then (Cached (wc_session s), s)
      else if wc_sessionRequest s \<noteq> None \<and> \<not> force \<and> query = [] then (Waiting (the (wc_sessionRequest s)), s)
      else start_session_request s)"

definition session_settled :: "nat \<Rightarrow> (bool \<times> jsval) ext \<Rightarrow> int \<Rightarrow> wc \<Rightarrow> wc" where
  "session_settled i r now s =
     (if i \<notin> set (wc_sessionFetching s) then s
      else let s = s\<lparr>wc_sessionFetching := remove1 i (wc_sessionFetching s),
                     wc_sessionFinishing := wc_sessionFinishing s @ [i]\<rparr> in
           case read_json r of
             Throw _ \<Rightarrow> s
           | Ret payload \<Rightarrow>
               s\<lparr>wc_session := payload, wc_sessionCachedAt := (if truthy payload then now else 0)\<rparr>)"

definition session_finally :: "nat \<Rightarrow> wc \<Rightarrow> wc" where
  "session_finally i s =
     (if i \<notin> set (wc_sessionFinishing s) then s
      else s\<lparr>wc_sessionFinishing := remove1 i (wc_sessionFinishing s), wc_sessionRequest := None\<rparr>)"

definition clear_workspace_cache :: "wc \<Rightarrow> wc" where
  "clear_workspace_cache s =
     s\<lparr>wc_profile := None, wc_profileCachedAt := 0, wc_session := JNull, wc_sessionCachedAt := 0\<rparr>"

datatype wc_event =
    Set_Profile int jsval
  | Get_Profile int bool
  | Profile_Settled nat "(bool \<times> jsval) ext" int
  | Profile_Finally nat
  | Get_Session int bool string
  | Session_Settled nat "(bool \<times> jsval) ext" int
  | Session_Finally nat
  | Clear_Cache

fun wc_step :: "wc \<Rightarrow> wc_event \<Rightarrow> wc" where
  "wc_step s (Set_Profile now v) = set_cached_company_profile now v s"
| "wc_step s (Get_Profile now force) = snd (get_company_profile now force s)"
| "wc_step s (Profile_Settled i r now) = profile_settled i r now s"
| "wc_step s (Profile_Finally i) = profile_finally i s"
| "wc_step s (Get_Session now force query) = snd (get_session now force query s)"
| "wc_step s (Session_Settled i r now) = session_settled i r now s"
| "wc_step s (Session_Finally i) = session_finally i s"
| "wc_step s Clear_Cache = clear_workspace_cache s"

section \<open>Invariants\<close>

text \<open>A cached profile has the five fields the pages read.\<close>

definition profile_complete :: "js_fields \<Rightarrow> bool" where
  "profile_complete p \<longleftrightarrow> list_all (\<lambda>(k, _). jm_get p k \<noteq> None) empty_profile"

definition wc_ok :: "wc \<Rightarrow> bool" where
  "wc_ok s \<longleftrightarrow> (case wc_profile s of None \<Rightarrow> True | Some p \<Rightarrow> profile_complete p)
     \<and> (wc_profile s = None \<longrightarrow> wc_profileCachedAt s = 0)
     \<and> (\<not> truthy (wc_session s) \<longrightarrow> wc_sessionCachedAt s = 0)"

lemmas wc_ops =
  set_cached_company_profile_def get_company_profile_def start_profile_request_def profile_settled_def
  profile_finally_def get_session_def start_session_request_def session_settled_def session_finally_def
  clear_workspace_cache_def

lemma empty_profile_complete: "profile_complete empty_profile"
  unfolding profile_complete_def by (simp add: empty_profile_def jm_get_def)

lemma merged_profile_complete: "profile_complete p \<Longrightarrow> profile_complete (js_merge p b)"
  unfolding profile_complete_def list_all_iff using jm_get_merge_mono [of p] by fastforce

interpretation workspace_cache: machine wc_step wc_ok
proof
  fix s e
  assume "wc_ok s"
  then show "wc_ok (wc_step s e)"
    by (cases e)
      (auto simp: wc_ok_def wc_ops Let_def empty_profile_complete merged_profile_complete split: option.splits ext.splits)
qed

text \<open>Requests of callers that neither force nor pass a query are shared: the request variable is the
one request that is not over.\<close>

definition unforced :: "wc_event \<Rightarrow> bool" where
  "unforced e = (case e of Get_Profile _ f \<Rightarrow> \<not> f | Get_Session _ f q \<Rightarrow> \<not> f \<and> q = [] | _ \<Rightarrow> True)"

definition shared :: "nat option \<Rightarrow> nat list \<Rightarrow> nat list \<Rightarrow> bool" where
  "shared request fetching finishing \<longleftrightarrow>
     (case request of None \<Rightarrow> fetching = [] \<and> finishing = []
      | Some i \<Rightarrow> fetching = [i] \<and> finishing = [] \<or> fetching = [] \<and> finishing = [i])"

definition wc_shared :: "wc \<Rightarrow> bool" where
  "wc_shared s \<longleftrightarrow> shared (wc_profileRequest s) (wc_profileFetching s) (wc_profileFinishing s)
     \<and> shared (wc_sessionRequest s) (wc_sessionFetching s) (wc_sessionFinishing s)"

lemma wc_shared_step: "wc_shared s \<Longrightarrow> unforced e \<Longrightarrow> wc_shared (wc_step s e)"
  by (cases e)
    (auto simp: wc_shared_def shared_def unforced_def wc_ops Let_def split: option.splits ext.splits if_splits)

interpretation workspace_sharing: machine "\<lambda>s e. if unforced e then wc_step s e else s" wc_shared
  by unfold_locales (simp add: wc_shared_step)

lemma run_unforced:
  "\<forall>e\<in>set es. unforced e \<Longrightarrow> run (\<lambda>s e. if unforced e then wc_step s e else s) s es = run wc_step s es"
  by (induction es arbitrary: s) auto

lemma wc_shared_init: "wc_shared wc_init"
  by (simp add: wc_shared_def shared_def wc_init_def)

text \<open>Pages that read the profile and the session without \<open>force\<close> and without a query share their
requests: whatever the order of reads, answers, callbacks, updates and clears, at most one profile
request and one session request are under way, the module's request variable is that request, and a
further read joins it or answers from the cache instead of calling the server.\<close>

theorem unforced_reads_share_one_request:
  assumes "\<forall>e\<in>set es. unforced e" and "s = run wc_step wc_init es"
  shows "length (wc_profileFetching s @ wc_profileFinishing s) \<le> 1
    \<and> length (wc_sessionFetching s @ wc_sessionFinishing s) \<le> 1
    \<and> (wc_profileFetching s \<noteq> [] \<longrightarrow>
         wc_profileRequest s = Some (hd (wc_profileFetching s))
         \<and> snd (get_company_profile now False s) = s)
    \<and> (wc_sessionFetching s \<noteq> [] \<longrightarrow> snd (get_session now False [] s) = s)"
proof -
  have "wc_shared s"
    using workspace_sharing.inv_run [OF wc_shared_init, of es] run_unforced [OF assms(1)] assms(2) by simp
  then show ?thesis
    by (auto simp: wc_shared_def shared_def get_company_profile_def get_session_def split: option.splits)
qed

theorem unforced_reads_share_one_request_witness:
  "let s = run wc_step wc_init [Get_Profile 5 False, Get_Session 5 False [], Clear_Cache, Get_Profile 6 False] in
     wc_profileRequest s = Some 0 \<and> wc_profileFetching s = [0] \<and> length (wc_sessionFetching s) \<le> 1"
proof -
  let ?es = "[Get_Profile 5 False, Get_Session 5 False [], Clear_Cache, Get_Profile 6 False]"
  have f: "wc_profileFetching (run wc_step wc_init ?es) = [0]"
    by (simp add: wc_ops wc_init_def)
  have "\<forall>e\<in>set ?es. unforced e" by (simp add: unforced_def)
  from unforced_reads_share_one_request [OF this refl, of 7] f show ?thesis
    unfolding Let_def by simp
qed

text \<open>Whatever is stored or answered, in every run a cached profile has all five fields the pages
render, the missing ones filled from the empty profile, and an empty cache carries no age.\<close>

theorem cached_profile_is_complete:
  "let s = run wc_step wc_init es in
     (case wc_profile s of
        None \<Rightarrow> wc_profileCachedAt s = 0
      | Some p \<Rightarrow> list_all (\<lambda>k. jm_get p k \<noteq> None)
          [''company_name'', ''website_url'', ''company_phone'', ''support_email'', ''timezone''])"
proof -
  have "wc_ok (run wc_step wc_init es)"
    by (rule workspace_cache.inv_run) (simp add: wc_ok_def wc_init_def)
  then show ?thesis
    by (auto simp: Let_def wc_ok_def profile_complete_def empty_profile_def split: option.splits)
qed

end
