(* ===== verification/Mock_Store.thy ===== *)
theory Mock_Store
  imports Workspace_Cache
begin

text \<open>
  \<open>frontend/src/mocks/mockStore.ts\<close> with the data of \<open>mockData.ts\<close>: the in-memory backend that
  answers instead of the real one when \<open>MOCK_MODE\<close> is on. The store is one state, an answered
  request one step; objects are lists of fields, so a spread is \<open>js_merge\<close>.
  \<open>ts\<close> is \<open>toISOString\<close> of a time, \<open>fr\<close> the decimal form of a fraction; \<open>t0\<close> is the time at
  which the data module is loaded.
\<close>

section \<open>Data\<close>

definition initial_mock_user :: js_fields where
  "initial_mock_user =
    [(''id'', JStr ''dev-user-001''),
     (''name'', JStr ''Frontend Developer''),
     (''email'', JStr ''developer@metabox.local''),
     (''role'', JStr ''admin''),
     (''image'', JNull)]"

definition initial_mock_company_profile :: "(int \<Rightarrow> string) \<Rightarrow> int \<Rightarrow> js_fields" where
  "initial_mock_company_profile ts t0 =
    [(''company_name'', JStr ''Apex Auto Care''),
     (''industry'', JStr ''Automotive Repair & Maintenance''),
     (''business_hours'', JStr (''Monday - Friday: 8:00 AM - 6:00 PM'' @ [CHR 0x0A] @ ''Saturday: 9:00 AM - 2:00 PM'' @ [CHR 0x0A] @ ''Sunday: Closed'')),
     (''primary_services'', JStr ''Oil Change ($49.99), Brake Inspection ($89.99), Tire Rotation ($35.00), Engine Diagnostics ($120.00), AC Recharge ($110.00)''),
     (''faq'', JStr (''Q: Do you accept walk-ins?'' @ [CHR 0x0A] @ ''A: Yes, walk-ins are welcome for quick services like oil changes and tire checks.'' @ [CHR 0x0A] @ [] @ [CHR 0x0A] @ ''Q: How long does a standard diagnostic take?'' @ [CHR 0x0A] @ ''A: Typically 45 to 60 minutes.'' @ [CHR 0x0A] @ [] @ [CHR 0x0A] @ ''Q: Do you provide loaner vehicles?'' @ [CHR 0x0A] @ ''A: Yes, for repairs exceeding 4 hours.'')),
     (''onboarding_completed'', JBool True),
     (''version'', JNum 1),
     (''updated_at'', JStr (ts t0))]"

definition mock_system_prompt :: string where
  "mock_system_prompt = ''You are the helpful and professional AI receptionist for Apex Auto Care. Your role is to assist callers with service inquiries, check appointment availability, schedule bookings, and answer common questions about shop hours and pricing.''"

definition mock_greeting :: string where
  "mock_greeting = ''Hello! Thank you for calling Apex Auto Care. My name is Alex, your virtual assistant. How can I help you today?''"

definition initial_mock_assistant_config :: "(int \<Rightarrow> string) \<Rightarrow> int \<Rightarrow> js_fields" where
  "initial_mock_assistant_config ts t0 =
    [(''version'', JNum 1),
     (''system_prompt'', JStr mock_system_prompt),
     (''greeting'', JStr mock_greeting),
     (''voice'', JStr ''Puck''),
     (''language'', JStr ''en-US''),
     (''model'', JStr ''gemini-2.0-flash''),
     (''capabilities'', JArr (map JStr [''calendar_scheduling'', ''service_pricing_lookup'', ''faq_answering'', ''emergency_transfer''])),
     (''is_deployed'', JBool True),
     (''updated_at'', JStr (ts t0))]"

definition initial_mock_assistant_versions :: "(int \<Rightarrow> string) \<Rightarrow> int \<Rightarrow> jsval list" where
  "initial_mock_assistant_versions ts t0 =
    [JObj [(''version'', JNum 1),
         (''created_at'', JStr (ts (t0 - 86400000 * 2))),
         (''system_prompt'', JStr mock_system_prompt),
         (''greeting'', JStr mock_greeting),
         (''voice'', JStr ''Puck''),
         (''capabilities'', JArr (map JStr [''calendar_scheduling'', ''service_pricing_lookup'', ''faq_answering''])),
         (''is_active'', JBool True),
         (''published_by'', JStr ''Frontend Developer'')],
     JObj [(''version'', JNum 2),
         (''created_at'', JStr (ts t0)),
         (''system_prompt'', JStr (mock_system_prompt @ '' Always confirm customer phone number before finishing.'')),
         (''greeting'', JStr ''Hi there! Welcome to Apex Auto Care. How may I assist you?''),
         (''voice'', JStr ''Aoede''),
         (''capabilities'', JArr (map JStr [''calendar_scheduling'', ''service_pricing_lookup'', ''faq_answering'', ''emergency_transfer''])),
         (''is_active'', JBool False),
         (''published_by'', JStr ''Frontend Developer'')]]"

definition initial_mock_calls :: "(int \<Rightarrow> string) \<Rightarrow> int \<Rightarrow> jsval list" where
  "initial_mock_calls ts t0 =
    [JObj [(''id'', JStr ''call-101''),
         (''call_id'', JStr ''3cx-call-88410''),
         (''caller_number'', JStr ''+1 (555) 234-5678''),
         (''caller_name'', JStr ''Sarah Jenkins''),
         (''start_time'', JStr (ts (t0 - 1000 * 60 * 15))),
         (''duration_seconds'', JNum 142),
         (''status'', JStr ''completed''),
         (''transcript_summary'', JStr ''Customer requested a brake inspection and oil change for a 2021 Toyota RAV4. Booked for tomorrow at 10:00 AM.''),
         (''action_taken'', JStr ''Appointment Scheduled'')],
     JObj [(''id'', JStr ''call-102''),
         (''call_id'', JStr ''3cx-call-88409''),
         (''caller_number'', JStr ''+1 (555) 987-6543''),
         (''caller_name'', JStr ''Michael Chen''),
         (''start_time'', JStr (ts (t0 - 1000 * 60 * 65))),
         (''duration_seconds'', JNum 88),
         (''status'', JStr ''completed''),
         (''transcript_summary'', JStr ''Customer inquired about Saturday opening hours and diagnostic pricing.''),
         (''action_taken'', JStr ''Inquiry Answered'')],
     JObj [(''id'', JStr ''call-103''),
         (''call_id'', JStr ''3cx-call-88408''),
         (''caller_number'', JStr ''+1 (555) 443-2211''),
         (''caller_name'', JStr ''David Miller''),
         (''start_time'', JStr (ts (t0 - 1000 * 60 * 180))),
         (''duration_seconds'', JNum 210),
         (''status'', JStr ''transferred''),
         (''transcript_summary'', JStr ''Customer reported an active check engine light and smoking radiator. Requested immediate human technician.''),
         (''action_taken'', JStr ''Transferred to Service Bay Ext 104'')],
     JObj [(''id'', JStr ''call-104''),
         (''call_id'', JStr ''3cx-call-88407''),
         (''caller_number'', JStr ''+1 (555) 321-7788''),
         (''caller_name'', JStr ''Emma Watson''),
         (''start_time'', JStr (ts (t0 - 1000 * 60 * 360))),
         (''duration_seconds'', JNum 45),
         (''status'', JStr ''completed''),
         (''transcript_summary'', JStr ''Confirmed appointment reschedule from 2:00 PM to 4:30 PM.''),
         (''action_taken'', JStr ''Booking Rescheduled'')]]"

definition initial_mock_3cx_config :: "(int \<Rightarrow> string) \<Rightarrow> int \<Rightarrow> js_fields" where
  "initial_mock_3cx_config ts t0 =
    [(''configured'', JBool True),
     (''status'', JStr ''connected''),
     (''server_url'', JStr ''https://apex-auto.3cx.cloud:5001''),
     (''route_point_dn'', JStr ''8000''),
     (''service_principal_id'', JStr ''sp-apex-dev-client''),
     (''last_sync'', JStr (ts t0))]"

definition initial_mock_google_calendar :: "(int \<Rightarrow> string) \<Rightarrow> int \<Rightarrow> js_fields" where
  "initial_mock_google_calendar ts t0 =
    [(''connected'', JBool True),
     (''email'', JStr ''developer@metabox.local''),
     (''calendar_id'', JStr ''primary''),
     (''last_synced'', JStr (ts t0))]"

definition initial_mock_tasks :: "(int \<Rightarrow> string) \<Rightarrow> int \<Rightarrow> jsval list" where
  "initial_mock_tasks ts t0 =
    [JObj [(''id'', JStr ''task-01''),
         (''type'', JStr ''booking_confirmation''),
         (''title'', JStr ''Confirm Brake Inspection for Sarah Jenkins''),
         (''description'', JStr ''Scheduled for Tomorrow at 10:00 AM (2021 Toyota RAV4)''),
         (''status'', JStr ''pending_dispatch''),
         (''customer_phone'', JStr ''+1 (555) 234-5678''),
         (''created_at'', JStr (ts (t0 - 1000 * 60 * 14)))],
     JObj [(''id'', JStr ''task-02''),
         (''type'', JStr ''reschedule_notification''),
         (''title'', JStr ''Send SMS Update to Emma Watson''),
         (''description'', JStr ''Rescheduled appointment to today at 4:30 PM''),
         (''status'', JStr ''completed''),
         (''customer_phone'', JStr ''+1 (555) 321-7788''),
         (''created_at'', JStr (ts (t0 - 1000 * 60 * 350)))]]"

section \<open>The store\<close>

record mock_store =
  ms_user :: js_fields
  ms_companyProfile :: js_fields
  ms_assistantConfig :: js_fields
  ms_assistantVersions :: "jsval list"
  ms_calls :: "jsval list"
  ms_threecxConfig :: js_fields
  ms_googleCalendar :: js_fields
  ms_tasks :: "jsval list"

definition new_mock_store :: "(int \<Rightarrow> string) \<Rightarrow> int \<Rightarrow> mock_store" where
  "new_mock_store ts t0 =
     \<lparr>ms_user = initial_mock_user, ms_companyProfile = initial_mock_company_profile ts t0,
      ms_assistantConfig = initial_mock_assistant_config ts t0,
      ms_assistantVersions = initial_mock_assistant_versions ts t0, ms_calls = initial_mock_calls ts t0,
      ms_threecxConfig = initial_mock_3cx_config ts t0,
      ms_googleCalendar = initial_mock_google_calendar ts t0, ms_tasks = initial_mock_tasks ts t0\<rparr>"

definition mock_session :: "mock_store \<Rightarrow> (string \<times> jsval) list \<Rightarrow> jsval" where
  "mock_session s created =
     JObj ([(''id'', JStr ''mock-session-dev-01''), (''userId'', get (JObj (ms_user s)) ''id'')] @ created
       @ [(''user'', JObj (ms_user s))])"

definition handle_mock_auth :: "int \<Rightarrow> mock_store \<Rightarrow> string list \<Rightarrow> http_response" where
  "handle_mock_auth now s parts =
     (let path = js_join ''/'' parts; created = [(''createdAt'', JNum now)] in
      json_response 200 (JObj
       (if path = ''get-session'' \<or> path = ''session''
        then [(''user'', JObj (ms_user s)), (''session'', mock_session s created)]
        else if starts_with ''sign-in'' path \<or> starts_with ''sign-up'' path
        then [(''success'', JBool True), (''user'', JObj (ms_user s)), (''session'', mock_session s created),
              (''url'', JStr ''/'')]
        else if path = ''sign-out'' then [(''success'', JBool True)]
        else [(''user'', JObj (ms_user s)), (''session'', mock_session s [])])))"

definition clean_path :: "string \<Rightarrow> string" where
  "clean_path p = rev (dropWhile (\<lambda>c. c = CHR ''/'') (rev (takeWhile (\<lambda>c. c \<noteq> CHR ''?'') p)))"

text \<open>\<open>v + 1\<close>\<close>

fun js_inc :: "(rat \<Rightarrow> string) \<Rightarrow> jsval \<Rightarrow> jsval" where
  "js_inc fr JUndef = JNaN"
| "js_inc fr JNull = JNum 1"
| "js_inc fr (JBool b) = JNum (if b then 2 else 1)"
| "js_inc fr (JNum n) = JNum (n + 1)"
| "js_inc fr (JFrac q) = JFrac (q + 1)"
| "js_inc fr JNaN = JNaN"
| "js_inc fr (JInf neg) = JInf neg"
| "js_inc fr v = JStr (js_string fr v @ ''1'')"

definition ok_data :: "jsval \<Rightarrow> http_response" where
  "ok_data v = json_response 200 (JObj [(''status'', JStr ''success''), (''data'', v)])"

definition saved :: "js_fields \<Rightarrow> jsval \<Rightarrow> (string \<times> jsval) list \<Rightarrow> js_fields" where
  "saved old body extra = js_merge (js_merge old (spread body)) extra"

text \<open>The second half of the handler: Google Calendar, tasks, bookings, tokens and the fallback.\<close>

definition handle_mock_proxy_rest :: "(int \<Rightarrow> string) \<Rightarrow> int \<Rightarrow> mock_store \<Rightarrow> string \<Rightarrow> http_response \<times> mock_store" where
  "handle_mock_proxy_rest ts now s p =
     (if p = ''/auth/google/status'' then
        (json_response 200 (JObj (map (\<lambda>k. (k, get (JObj (ms_googleCalendar s)) k))
           [''connected'', ''email'', ''calendar_id''])), s)
      else if p = ''/auth/google/url'' then
        (json_response 200 (JObj [(''auth_url'', JStr ''#mock-google-auth-success'')]), s)
      else if p = ''/auth/google/disconnect'' then
        (json_response 200 (JObj [(''status'', JStr ''success''), (''disconnected'', JBool True)]),
         s\<lparr>ms_googleCalendar := jm_set ''connected'' (JBool False) (ms_googleCalendar s)\<rparr>)
      else if starts_with ''/tasks'' p \<or> starts_with ''/api/tasks'' p then
        (json_response 200 (JObj [(''status'', JStr ''success''), (''tasks'', JArr (ms_tasks s)),
           (''data'', JArr (ms_tasks s))]), s)
      else if starts_with ''/bookings'' p \<or> starts_with ''/api/bookings'' p then
        (ok_data (JArr [JObj [(''id'', JStr ''bk-1''), (''customer_name'', JStr ''Sarah Jenkins''),
           (''service'', JStr ''Brake Inspection''), (''scheduled_at'', JStr (ts (now + 86400000))),
           (''status'', JStr ''confirmed'')]]), s)
      else if includes_str ''livekit'' p \<or> includes_str ''gemini-token'' p then
        (json_response 200 (JObj [(''status'', JStr ''success''), (''token'', JStr ''mock-sandbox-token-frontend-dev''),
           (''server_url'', JStr ''wss://mock.livekit.cloud''), (''room_name'', JStr ''mock-sandbox-room'')]), s)
      else
        (json_response 200 (JObj [(''status'', JStr ''success''), (''mock'', JBool True), (''path'', JStr p),
           (''message'', JStr (''Mock data provider responding for path: '' @ p))]), s))"

definition handle_mock_proxy ::
    "(int \<Rightarrow> string) \<Rightarrow> (rat \<Rightarrow> string) \<Rightarrow> int \<Rightarrow> mock_store \<Rightarrow> http_request \<Rightarrow> string \<Rightarrow> http_response \<times> mock_store" where
  "handle_mock_proxy ts fr now s q backend_path =
     (let m = to_upper (hq_method q); p = clean_path backend_path in
      if p = ''/company-profile'' \<and> m = ''GET'' then (ok_data (JObj (ms_companyProfile s)), s)
      else if p = ''/company-profile'' \<and> (m = ''POST'' \<or> m = ''PUT'') then
        (case hq_body q of
           Throw _ \<Rightarrow> (ok_data (JObj (ms_companyProfile s)), s)
         | Ret body \<Rightarrow>
             let f = saved (ms_companyProfile s) body
                   [(''version'', js_inc fr (js_or (get (JObj (ms_companyProfile s)) ''version'') (JNum 1))),
                    (''updated_at'', JStr (ts now))]
             in (ok_data (JObj f), s\<lparr>ms_companyProfile := f\<rparr>))
      else if p = ''/assistant-config'' \<and> m = ''GET'' then (ok_data (JObj (ms_assistantConfig s)), s)
      else if p = ''/assistant-config'' \<and> (m = ''POST'' \<or> m = ''PUT'') then
        (case hq_body q of
           Throw _ \<Rightarrow> (ok_data (JObj (ms_assistantConfig s)), s)
         | Ret body \<Rightarrow>
             let f = saved (ms_assistantConfig s) body
                   [(''version'', js_inc fr (get (JObj (ms_assistantConfig s)) ''version'')),
                    (''updated_at'', JStr (ts now))]
             in (ok_data (JObj f), s\<lparr>ms_assistantConfig := f\<rparr>))
      else if p = ''/assistant-config/validate'' then
        (json_response 200 (JObj [(''status'', JStr ''success''), (''valid'', JBool True), (''errors'', JArr [])]), s)
      else if p = ''/assistant-config/versions'' then (ok_data (JArr (ms_assistantVersions s)), s)
      else if p = ''/assistant-config/publish'' then
        (json_response 200 (JObj [(''status'', JStr ''success''),
           (''version'', get (JObj (ms_assistantConfig s)) ''version'')]),
         s\<lparr>ms_assistantConfig := jm_set ''is_deployed'' (JBool True) (ms_assistantConfig s)\<rparr>)
      else if p = ''/assistant-config/rollback'' then
        (json_response 200 (JObj [(''status'', JStr ''success''),
           (''message'', JStr ''Rolled back assistant configuration.'')]), s)
      else if p = ''/assistant-config/runtime'' then (ok_data (JObj (ms_assistantConfig s)), s)
      else if (p = ''/integrations/3cx'' \<or> p = ''/api/integrations/3cx'') \<and> m = ''GET'' then
        (ok_data (JObj (ms_threecxConfig s)), s)
      else if (p = ''/integrations/3cx'' \<or> p = ''/api/integrations/3cx'') \<and> (m = ''PUT'' \<or> m = ''POST'') then
        (case hq_body q of
           Throw _ \<Rightarrow> (ok_data (JObj (ms_threecxConfig s)), s)
         | Ret body \<Rightarrow>
             let f = saved (ms_threecxConfig s) body
                   [(''configured'', JBool True), (''status'', JStr ''connected'')]
             in (ok_data (JObj f), s\<lparr>ms_threecxConfig := f\<rparr>))
      else if (p = ''/integrations/3cx'' \<or> p = ''/api/integrations/3cx'') \<and> m = ''DELETE'' then
        (json_response 200 (JObj [(''status'', JStr ''success''), (''disconnected'', JBool True)]),
         s\<lparr>ms_threecxConfig := jm_set ''status'' (JStr ''disconnected'')
              (jm_set ''configured'' (JBool False) (ms_threecxConfig s))\<rparr>)
      else if p = ''/integrations/3cx/calls'' \<or> p = ''/api/integrations/3cx/calls'' then
        (json_response 200 (JObj [(''status'', JStr ''success''), (''calls'', JArr (ms_calls s))]), s)
      else handle_mock_proxy_rest ts now s p)"

definition handle_mock_tool_execution :: "(rat \<Rightarrow> string) \<Rightarrow> jsval \<Rightarrow> jsval \<Rightarrow> jsval ext" where
  "handle_mock_tool_execution fr tool parameters =
     (if tool = JStr ''check_availability'' then
        Ret (JObj [(''status'', JStr ''success''), (''result'', JObj [(''available_slots'', JArr (map JStr
          [''Tomorrow at 9:00 AM'', ''Tomorrow at 11:30 AM'', ''Tomorrow at 2:00 PM'', ''Friday at 10:00 AM'']))])])
      else if tool = JStr ''book_appointment'' then
        (if nullish parameters then Throw ''TypeError''
         else Ret (JObj [(''status'', JStr ''success''), (''result'', JObj
          [(''confirmation_code'', JStr ''APX-88219''),
           (''service'', js_or (get parameters ''service'') (JStr ''Standard Inspection'')),
           (''slot'', js_or (get parameters ''slot'') (JStr ''Tomorrow at 10:00 AM'')),
           (''status'', JStr ''confirmed'')])]))
      else Ret (JObj [(''status'', JStr ''success''), (''result'', JObj
          [(''message'', JStr (''Executed tool '' @ [CHR 0x27] @ js_string fr tool @ [CHR 0x27]
              @ '' successfully in mock mode.'')),
           (''parameters'', parameters)])]))"

section \<open>Runs of the mock backend\<close>

text \<open>A request as one step: the time, the request and the backend path it is proxied to. \<open>Inr\<close> is a
call of \<open>reset\<close>.\<close>

definition ms_step ::
    "(int \<Rightarrow> string) \<Rightarrow> (rat \<Rightarrow> string) \<Rightarrow> int \<Rightarrow> mock_store \<Rightarrow> (int \<times> http_request \<times> string) + unit \<Rightarrow> mock_store" where
  "ms_step ts fr t0 s e =
     (case e of Inl (now, q, p) \<Rightarrow> snd (handle_mock_proxy ts fr now s q p) | Inr _ \<Rightarrow> new_mock_store ts t0)"

text \<open>A save: a \<open>POST\<close> or \<open>PUT\<close> to the given path whose body parses.\<close>

definition is_save :: "string \<Rightarrow> int \<times> http_request \<times> string \<Rightarrow> bool" where
  "is_save path e = (case e of (_, q, p) \<Rightarrow>
     clean_path p = path \<and> to_upper (hq_method q) \<in> {''POST'', ''PUT''} \<and> is_ret (hq_body q))"

lemma jm_get_iff: "get (JObj kvs) k = (case jm_get kvs k of Some v \<Rightarrow> v | None \<Rightarrow> JUndef)"
  by (simp add: jm_get_def)

lemma get_saved:
  "get (JObj (saved old body [(''version'', v), (k, u)])) ''version'' = (if k = ''version'' then u else v)"
  by (simp add: jm_get_iff saved_def js_merge_def del: get.simps)

lemma get_jm_set: "get (JObj (jm_set k v kvs)) k' = (if k' = k then v else get (JObj kvs) k')"
  by (simp add: jm_get_iff del: get.simps)

definition config_version :: "mock_store \<Rightarrow> jsval" where
  "config_version s = get (JObj (ms_assistantConfig s)) ''version''"

definition profile_version :: "mock_store \<Rightarrow> jsval" where
  "profile_version s = get (JObj (ms_companyProfile s)) ''version''"

definition versions_ok :: "mock_store \<Rightarrow> bool" where
  "versions_ok s \<longleftrightarrow> (\<exists>n \<ge> 1. config_version s = JNum n) \<and> (\<exists>n \<ge> 1. profile_version s = JNum n)"

lemmas branchwise =
  if_distrib [where f = fst] if_distrib [where f = snd] if_distrib [where f = hr_status]
  if_distrib [where f = config_version] if_distrib [where f = profile_version]
  ext.case_distrib [where h = fst] ext.case_distrib [where h = snd] ext.case_distrib [where h = hr_status]
  ext.case_distrib [where h = config_version] ext.case_distrib [where h = profile_version]

lemma config_version_update [simp]:
  "config_version (s\<lparr>ms_companyProfile := f\<rparr>) = config_version s"
  "config_version (s\<lparr>ms_threecxConfig := f\<rparr>) = config_version s"
  "config_version (s\<lparr>ms_googleCalendar := f\<rparr>) = config_version s"
  "config_version (s\<lparr>ms_assistantConfig := jm_set ''is_deployed'' v (ms_assistantConfig s)\<rparr>) = config_version s"
  "config_version (s\<lparr>ms_assistantConfig := saved old body [(''version'', v), (''updated_at'', u)]\<rparr>) = v"
  by (simp_all add: config_version_def get_saved get_jm_set del: get.simps)

lemma profile_version_update [simp]:
  "profile_version (s\<lparr>ms_assistantConfig := f\<rparr>) = profile_version s"
  "profile_version (s\<lparr>ms_threecxConfig := f\<rparr>) = profile_version s"
  "profile_version (s\<lparr>ms_googleCalendar := f\<rparr>) = profile_version s"
  "profile_version (s\<lparr>ms_companyProfile := saved old body [(''version'', v), (''updated_at'', u)]\<rparr>) = v"
  by (simp_all add: profile_version_def get_saved get_jm_set del: get.simps)

lemma case_ext_same [simp]: "(case r of Ret a \<Rightarrow> x | Throw m \<Rightarrow> x) = x"
  by (cases r) simp_all

lemma is_save_iff:
  "is_save path (now, q, p) \<longleftrightarrow>
     clean_path p = path \<and> (to_upper (hq_method q) = ''POST'' \<or> to_upper (hq_method q) = ''PUT'') \<and> is_ret (hq_body q)"
  by (auto simp: is_save_def)

lemma config_version_step:
  "config_version (snd (handle_mock_proxy ts fr now s q p)) =
     (if is_save ''/assistant-config'' (now, q, p) then js_inc fr (config_version s) else config_version s)"
  unfolding handle_mock_proxy_def handle_mock_proxy_rest_def is_save_iff Let_def branchwise snd_conv config_version_update if_cancel
    case_ext_same config_version_def [symmetric]
  by (cases "hq_body q"; cases "clean_path p = ''/assistant-config''") simp_all

lemma profile_version_step:
  "profile_version (snd (handle_mock_proxy ts fr now s q p)) =
     (if is_save ''/company-profile'' (now, q, p)
      then js_inc fr (js_or (profile_version s) (JNum 1)) else profile_version s)"
  unfolding handle_mock_proxy_def handle_mock_proxy_rest_def is_save_iff Let_def branchwise snd_conv profile_version_update if_cancel
    case_ext_same profile_version_def [symmetric]
  by (cases "hq_body q"; cases "clean_path p = ''/company-profile''") simp_all

lemma always_200: "hr_status (fst (handle_mock_proxy ts fr now s q p)) = 200"
  unfolding handle_mock_proxy_def handle_mock_proxy_rest_def Let_def branchwise fst_conv ok_data_def json_response_def
    http_response.select_convs if_cancel case_ext_same by (rule refl)

lemma initial_versions:
  "config_version (new_mock_store ts t0) = JNum 1" "profile_version (new_mock_store ts t0) = JNum 1"
  by (simp_all add: config_version_def profile_version_def new_mock_store_def initial_mock_assistant_config_def initial_mock_company_profile_def)

interpretation mock_backend: machine "ms_step ts fr t0" versions_ok
proof
  fix s e
  assume ok: "versions_ok s"
  show "versions_ok (ms_step ts fr t0 s e)"
  proof (cases e)
    case (Inl r)
    obtain now q p where "r = (now, q, p)" by (cases r)
    then show ?thesis using ok Inl
      by (auto simp: versions_ok_def ms_step_def config_version_step profile_version_step js_or_def
          simp del: get.simps)
  next
    case (Inr u)
    then show ?thesis by (simp add: ms_step_def versions_ok_def initial_versions)
  qed
qed

lemma versions_from:
  assumes "config_version s = JNum m" "profile_version s = JNum n" "1 \<le> n"
  shows "config_version (run (ms_step ts fr t0) s (map Inl rs))
           = JNum (m + int (length (filter (is_save ''/assistant-config'') rs)))
       \<and> profile_version (run (ms_step ts fr t0) s (map Inl rs))
           = JNum (n + int (length (filter (is_save ''/company-profile'') rs)))"
  using assms
proof (induction rs arbitrary: s m n)
  case Nil
  then show ?case by simp
next
  case (Cons r rs)
  obtain now q p where r: "r = (now, q, p)" by (cases r)
  let ?s = "snd (handle_mock_proxy ts fr now s q p)"
  have a: "config_version ?s = JNum (m + (if is_save ''/assistant-config'' r then 1 else 0))"
    using Cons.prems by (simp add: r config_version_step)
  have b: "profile_version ?s = JNum (n + (if is_save ''/company-profile'' r then 1 else 0))"
    using Cons.prems by (simp add: r profile_version_step js_or_def)
  have c: "1 \<le> n + (if is_save ''/company-profile'' r then 1 else 0)" using Cons.prems by simp
  show ?case using Cons.IH [OF a b c] by (simp add: r ms_step_def algebra_simps)
qed

text \<open>The mock backend counts revisions like the real one: after any sequence of proxied requests the
version of the assistant configuration is one plus the number of saves whose body parsed, and so is
the version of the company profile, whatever \<open>version\<close> the bodies themselves claim; reads, publishes,
rollbacks and unreadable bodies leave it alone. Every answer is a 200.\<close>

theorem mock_versions_count_saves:
  "config_version (run (ms_step ts fr t0) (new_mock_store ts t0) (map Inl rs))
       = JNum (1 + int (length (filter (is_save ''/assistant-config'') rs)))
   \<and> profile_version (run (ms_step ts fr t0) (new_mock_store ts t0) (map Inl rs))
       = JNum (1 + int (length (filter (is_save ''/company-profile'') rs)))
   \<and> hr_status (fst (handle_mock_proxy ts fr now s q p)) = 200"
  by (intro conjI versions_from [OF initial_versions order_refl, THEN conjunct1]
      versions_from [OF initial_versions order_refl, THEN conjunct2] always_200)

end
