(* ===== verification/Livekit_Runtime.thy ===== *)
theory Livekit_Runtime
  imports Prelude
begin

text \<open>
  \<open>frontend/src/lib/livekitSessionRuntime.ts\<close>: the pure part of the LiveKit voice session: the
  status shown for each room and agent event, the validation of agent messages, the playback
  activation protocol and the room name.
\<close>

datatype conn_status =
    Disconnected | Connecting | Waiting_For_Agent | Waiting_For_Audio | Connected | Reconnecting | Recovering | Error

datatype lifecycle_event =
    Room_Connected | Audio_Ready | Audio_Blocked | Room_Reconnecting | Room_Reconnected | Agent_Recovering
  | Agent_Ready | Agent_Failed | Agent_Unavailable | Room_Disconnected | Connection_Error

fun get_live_kit_connection_status :: "lifecycle_event \<Rightarrow> bool \<Rightarrow> bool \<Rightarrow> conn_status" where
  "get_live_kit_connection_status Room_Connected has_audio blocked = Waiting_For_Agent"
| "get_live_kit_connection_status Agent_Unavailable has_audio blocked = Waiting_For_Agent"
| "get_live_kit_connection_status Audio_Ready has_audio blocked = Connected"
| "get_live_kit_connection_status Audio_Blocked has_audio blocked = Waiting_For_Audio"
| "get_live_kit_connection_status Room_Reconnecting has_audio blocked = Reconnecting"
| "get_live_kit_connection_status Agent_Recovering has_audio blocked = Recovering"
| "get_live_kit_connection_status Agent_Ready has_audio blocked = (if blocked then Waiting_For_Audio else Connected)"
| "get_live_kit_connection_status Agent_Failed has_audio blocked = Error"
| "get_live_kit_connection_status Room_Reconnected has_audio blocked =
     (if blocked then Waiting_For_Audio else if has_audio then Connected else Waiting_For_Agent)"
| "get_live_kit_connection_status Room_Disconnected has_audio blocked = Disconnected"
| "get_live_kit_connection_status Connection_Error has_audio blocked = Error"

definition agent_heartbeat_timeout_ms :: int where
  "agent_heartbeat_timeout_ms = 15000"

datatype agent_state = Starting | Ready | Agent_Is_Recovering | Recovered | Failed | Ended

definition agent_lifecycle_states :: "(string \<times> agent_state) list" where
  "agent_lifecycle_states =
     [(''starting'', Starting), (''ready'', Ready), (''recovering'', Agent_Is_Recovering),
      (''recovered'', Recovered), (''failed'', Failed), (''ended'', Ended)]"

record agent_message =
  am_heartbeat :: bool
  am_state :: agent_state
  am_sessionId :: string
  am_sequence :: jsval
  am_timestamp :: jsval

definition parse_agent_lifecycle_message :: "jsval \<Rightarrow> agent_message option" where
  "parse_agent_lifecycle_message v =
     (if \<not> is_object v then None
      else if get v ''type'' \<noteq> JStr ''agent_lifecycle'' \<and> get v ''type'' \<noteq> JStr ''agent_heartbeat'' then None
      else (case (get v ''state'', get v ''session_id'') of
          (JStr st, JStr sid) \<Rightarrow>
            (case map_of agent_lifecycle_states st of
               Some a \<Rightarrow>
                 if is_number (get v ''sequence'') \<and> is_number (get v ''timestamp'')
                 then Some \<lparr>am_heartbeat = (get v ''type'' = JStr ''agent_heartbeat''), am_state = a,
                        am_sessionId = sid, am_sequence = get v ''sequence'',
                        am_timestamp = get v ''timestamp''\<rparr>
                 else None
             | None \<Rightarrow> None)
        | _ \<Rightarrow> None))"

fun get_agent_lifecycle_status :: "agent_state \<Rightarrow> bool \<Rightarrow> bool \<Rightarrow> conn_status" where
  "get_agent_lifecycle_status Starting has_audio blocked = Waiting_For_Agent"
| "get_agent_lifecycle_status Agent_Is_Recovering has_audio blocked = Recovering"
| "get_agent_lifecycle_status Ready has_audio blocked =
     (if blocked then Waiting_For_Audio else if has_audio then Connected else Waiting_For_Agent)"
| "get_agent_lifecycle_status Recovered has_audio blocked =
     (if blocked then Waiting_For_Audio else if has_audio then Connected else Waiting_For_Agent)"
| "get_agent_lifecycle_status Failed has_audio blocked = Error"
| "get_agent_lifecycle_status Ended has_audio blocked = Disconnected"

text \<open>
  \<open>activateAudioPlayback\<close>: what the browser does (the context's state, whether \<open>resume\<close> and \<open>play\<close>
  resolve, the state after \<open>resume\<close>) is given; the result is the promise's value.
\<close>

datatype context_state = Ctx_Suspended | Ctx_Running | Ctx_Closed | Ctx_Other

record playback =
  pb_state :: context_state
  pb_resumes :: bool
  pb_stateAfter :: context_state
  pb_plays :: bool

definition activate_audio_playback :: "playback \<Rightarrow> bool" where
  "activate_audio_playback p =
     (if pb_state p = Ctx_Closed then False
      else if pb_state p = Ctx_Suspended \<and> \<not> pb_resumes p then False
      else if (if pb_state p = Ctx_Suspended then pb_stateAfter p else pb_state p) \<noteq> Ctx_Running then False
      else pb_plays p)"

definition create_live_kit_room_name :: "string \<Rightarrow> string ext" where
  "create_live_kit_room_name sid =
     (let ok = (\<lambda>c. c \<in> set ''abcdefghijklmnopqrstuvwxyz0123456789-'');
          n = take 64 (filter ok (to_lower sid)) in
      if n = [] then Throw ''A non-empty session ID is required to create a LiveKit room name.''
      else Ret (''executive-voice-'' @ n))"

definition is_voice_session_active :: "conn_status \<Rightarrow> bool" where
  "is_voice_session_active st \<longleftrightarrow> st \<noteq> Disconnected \<and> st \<noteq> Error"

definition is_current_session_generation :: "nat \<Rightarrow> nat \<Rightarrow> bool" where
  "is_current_session_generation expected current \<longleftrightarrow> expected = current"

text \<open>Outside the two terminal agent states and the terminal room events, a status is a live one.\<close>

lemma agent_status_active:
  "a \<noteq> Failed \<Longrightarrow> a \<noteq> Ended \<Longrightarrow> is_voice_session_active (get_agent_lifecycle_status a h b)"
  by (cases a) (simp_all add: is_voice_session_active_def)

lemma connection_status_active:
  "e \<notin> {Agent_Failed, Room_Disconnected, Connection_Error} \<Longrightarrow>
     is_voice_session_active (get_live_kit_connection_status e h b)"
  by (cases e) (simp_all add: is_voice_session_active_def)

end
