(* ===== verification/Livekit_Session.thy ===== *)
theory Livekit_Session
  imports Livekit_Runtime
begin

text \<open>
  \<open>frontend/src/hooks/useLiveKitSession.ts\<close>. The state is the hook's React state and refs (a state
  kept in step with a ref by its setter is one field) and the continuations of its suspended
  \<open>async\<close> functions; a callback of the page, an event of the room, of the audio element or of the
  watchdog timer, and the settling of an awaited promise are one step each, so a run is any
  interleaving of them. A connect run makes at most one \<open>Room\<close>, which is named by the generation of
  that run: a handler registered by the run tests \<open>isCurrentSession(room)\<close> as \<open>is_current\<close>.
  Web Audio nodes, media elements and tracks are numbers. What the program does to the SDK is
  appended to \<open>lk_effects\<close>; \<open>lk_gone\<close> records the rooms whose \<open>Disconnected\<close> event was delivered.
\<close>

section \<open>State\<close>

record transcript_message =
  tm_id :: jsval
  tm_speaker :: jsval
  tm_text :: jsval
  tm_isInterrupted :: jsval
  tm_timestamp :: string

record task_item =
  ti_id :: jsval
  ti_title :: jsval
  ti_toolName :: jsval
  ti_status :: jsval
  ti_output :: jsval
  ti_errorMessage :: jsval
  ti_executionTimeMs :: jsval
  ti_idempotencyKey :: jsval
  ti_updatedAt :: string

datatype lk_cont =
    K_Token nat              \<comment> \<open>awaits the token response\<close>
  | K_Connect nat            \<comment> \<open>awaits \<open>room.connect\<close>\<close>
  | K_Microphone nat         \<comment> \<open>awaits \<open>setMicrophoneEnabled(true)\<close>\<close>
  | K_Activate nat nat nat   \<comment> \<open>generation, gain node, element: awaits \<open>activateAudioPlayback\<close>\<close>
  | K_Resume nat nat nat     \<comment> \<open>generation, track, element: awaits \<open>audioCtx.resume\<close>\<close>

datatype lk_effect =
    Fetch_Token string
  | Room_Connect nat jsval jsval
  | Room_Disconnect nat
  | Set_Microphone nat bool
  | Publish_Data nat jsval
  | Unmute nat
  | Pause_Element nat
  | Close_Context nat

record lk =
  lk_status :: conn_status
  lk_isMuted :: bool
  lk_isHandsFree :: bool
  lk_isBotSpeaking :: bool
  lk_isUserSpeaking :: bool
  lk_latencyMs :: int
  lk_messages :: "transcript_message list"
  lk_tasks :: "task_item list"
  lk_gainNode :: "nat option"
  lk_analyser :: "nat option"
  lk_room :: "nat option"
  lk_generation :: nat
  lk_connectInFlight :: "nat option"
  lk_sessionId :: "string option"
  lk_intentional :: bool
  lk_micStream :: "nat option"
  lk_audioCtx :: "nat option"
  lk_audioElement :: "nat option"
  lk_sourceNode :: "nat option"
  lk_track :: "nat option"
  lk_hasAudio :: bool
  lk_retryPending :: bool
  lk_timer :: "nat option"
  lk_timerLive :: bool
  lk_fresh :: nat
  lk_created :: "nat list"
  lk_pending :: "lk_cont list"
  lk_effects :: "lk_effect list"
  lk_gone :: "nat list"

definition lk_init :: lk where
  "lk_init = \<lparr>lk_status = Disconnected, lk_isMuted = False, lk_isHandsFree = True, lk_isBotSpeaking = False,
     lk_isUserSpeaking = False, lk_latencyMs = 380, lk_messages = [], lk_tasks = [], lk_gainNode = None,
     lk_analyser = None, lk_room = None, lk_generation = 0, lk_connectInFlight = None, lk_sessionId = None,
     lk_intentional = False, lk_micStream = None, lk_audioCtx = None, lk_audioElement = None,
     lk_sourceNode = None, lk_track = None, lk_hasAudio = False, lk_retryPending = False, lk_timer = None,
     lk_timerLive = False, lk_fresh = 0, lk_created = [], lk_pending = [], lk_effects = [], lk_gone = []\<rparr>"

definition emit :: "lk_effect \<Rightarrow> lk \<Rightarrow> lk" where
  "emit e s = s\<lparr>lk_effects := lk_effects s @ [e]\<rparr>"

definition suspend :: "lk_cont \<Rightarrow> lk \<Rightarrow> lk" where
  "suspend k s = s\<lparr>lk_pending := k # lk_pending s\<rparr>"

definition resume :: "lk_cont \<Rightarrow> lk \<Rightarrow> lk" where
  "resume k s = s\<lparr>lk_pending := remove1 k (lk_pending s)\<rparr>"

definition set_status :: "conn_status \<Rightarrow> lk \<Rightarrow> lk" where
  "set_status st s = s\<lparr>lk_status := st\<rparr>"

definition is_current :: "nat \<Rightarrow> lk \<Rightarrow> bool" where
  "is_current g s \<longleftrightarrow> is_current_session_generation g (lk_generation s) \<and> lk_room s = Some g"

section \<open>Audio\<close>

definition send_data_message :: "bool \<Rightarrow> jsval \<Rightarrow> lk \<Rightarrow> lk" where
  "send_data_message conn v s =
     (case lk_room s of Some r \<Rightarrow> if conn then emit (Publish_Data r v) s else s | None \<Rightarrow> s)"

text \<open>\<open>activateAssistantAudio\<close>, up to the await and after it.\<close>

definition start_activation :: "lk \<Rightarrow> lk" where
  "start_activation s =
     (case (lk_gainNode s, lk_audioElement s, lk_audioCtx s) of
        (Some gain, Some el, Some ctx) \<Rightarrow>
          if lk_isUserSpeaking s then s else suspend (K_Activate (lk_generation s) gain el) s
      | _ \<Rightarrow> s)"

definition activation_settled :: "nat \<Rightarrow> nat \<Rightarrow> nat \<Rightarrow> playback \<Rightarrow> lk \<Rightarrow> lk" where
  "activation_settled g gain el p s =
     (if K_Activate g gain el \<notin> set (lk_pending s) then s
      else let s = resume (K_Activate g gain el) s; activated = activate_audio_playback p in
        if \<not> is_current_session_generation g (lk_generation s) \<or> lk_audioElement s \<noteq> Some el then s
        else let s = s\<lparr>lk_retryPending := \<not> activated\<rparr> in
          if activated
          then set_status (get_live_kit_connection_status Audio_Ready True False) (emit (Unmute gain) s)
          else if lk_hasAudio s
          then set_status (get_live_kit_connection_status Audio_Blocked True False) s
          else s)"

definition unmute_assistant :: "lk \<Rightarrow> lk" where
  "unmute_assistant s =
     (if lk_isUserSpeaking s then s
      else let s = (case lk_gainNode s of Some gain \<Rightarrow> emit (Unmute gain) s | None \<Rightarrow> s) in
        if lk_audioElement s \<noteq> None then start_activation s else s)"

definition handle_speech_start :: "lk \<Rightarrow> lk" where
  "handle_speech_start s = s\<lparr>lk_isUserSpeaking := True\<rparr>"

definition handle_speech_end :: "bool \<Rightarrow> lk \<Rightarrow> lk" where
  "handle_speech_end agent_speaking s =
     (let s = unmute_assistant (s\<lparr>lk_isUserSpeaking := False\<rparr>) in
      if lk_room s \<noteq> None \<and> agent_speaking then s\<lparr>lk_isBotSpeaking := True\<rparr> else s)"

definition mark_interrupted :: "transcript_message list \<Rightarrow> transcript_message list" where
  "mark_interrupted ms =
     (if ms \<noteq> [] \<and> tm_speaker (last ms) = JStr ''assistant'' \<and> \<not> truthy (tm_isInterrupted (last ms))
      then butlast ms @ [(last ms)\<lparr>tm_isInterrupted := JBool True\<rparr>] else ms)"

definition handle_interruption :: "bool \<Rightarrow> lk \<Rightarrow> lk" where
  "handle_interruption conn s =
     (if \<not> lk_isBotSpeaking s then s
      else let s = send_data_message conn (JObj [(''type'', JStr ''response.cancel'')]) s in
        s\<lparr>lk_messages := mark_interrupted (lk_messages s), lk_isBotSpeaking := False\<rparr>)"

definition retry_playback :: "lk \<Rightarrow> lk" where
  "retry_playback s = (if lk_retryPending s \<and> \<not> lk_isUserSpeaking s then start_activation s else s)"

section \<open>Session life cycle\<close>

definition pause_element :: "lk \<Rightarrow> lk" where
  "pause_element s = (case lk_audioElement s of Some el \<Rightarrow> emit (Pause_Element el) s | None \<Rightarrow> s)"

definition reset_media_state :: "lk \<Rightarrow> lk" where
  "reset_media_state s =
     (let s = pause_element s;
          s = (case lk_audioCtx s of Some c \<Rightarrow> emit (Close_Context c) s | None \<Rightarrow> s) in
      s\<lparr>lk_audioElement := None, lk_sourceNode := None, lk_track := None, lk_hasAudio := False,
        lk_retryPending := False, lk_micStream := None, lk_audioCtx := None, lk_gainNode := None,
        lk_analyser := None, lk_isBotSpeaking := False, lk_isUserSpeaking := False, lk_isMuted := False\<rparr>)"

definition clear_heartbeat_timeout :: "lk \<Rightarrow> lk" where
  "clear_heartbeat_timeout s =
     (if lk_timer s = None then s else s\<lparr>lk_timer := None, lk_timerLive := False\<rparr>)"

definition arm_heartbeat_timeout :: "nat \<Rightarrow> lk \<Rightarrow> lk" where
  "arm_heartbeat_timeout r s = (clear_heartbeat_timeout s)\<lparr>lk_timer := Some r, lk_timerLive := True\<rparr>"

definition fail_current_session :: "nat \<Rightarrow> lk \<Rightarrow> lk" where
  "fail_current_session r s =
     (if lk_room s \<noteq> Some r then s
      else let s = clear_heartbeat_timeout s;
               s = s\<lparr>lk_generation := Suc (lk_generation s), lk_connectInFlight := None, lk_room := None,
                     lk_intentional := True, lk_sessionId := None\<rparr>;
               s = emit (Room_Disconnect r) (reset_media_state s) in
           set_status (get_live_kit_connection_status Agent_Failed False False) s)"

definition timer_fired :: "bool \<Rightarrow> lk \<Rightarrow> lk" where
  "timer_fired conn s =
     (if \<not> lk_timerLive s then s
      else let s' = s\<lparr>lk_timerLive := False\<rparr> in
        case lk_timer s of
          Some r \<Rightarrow> if lk_room s' = Some r \<and> conn then fail_current_session r s' else s'
        | None \<Rightarrow> s')"

definition connect :: "string \<Rightarrow> lk \<Rightarrow> lk" where
  "connect sid s =
     (if lk_connectInFlight s \<noteq> None \<or> lk_room s \<noteq> None then s
      else let g = Suc (lk_generation s);
               s = s\<lparr>lk_generation := g, lk_connectInFlight := Some g, lk_intentional := False,
                     lk_status := Connecting, lk_sessionId := Some sid\<rparr> in
           suspend (K_Token g) (emit (Fetch_Token sid) s))"

definition connect_finally :: "nat \<Rightarrow> lk \<Rightarrow> lk" where
  "connect_finally g s = (if lk_connectInFlight s = Some g then s\<lparr>lk_connectInFlight := None\<rparr> else s)"

definition connect_failed :: "nat \<Rightarrow> lk \<Rightarrow> lk" where
  "connect_failed g s =
     (if \<not> is_current_session_generation g (lk_generation s) then s
      else let failed = lk_room s;
               s = s\<lparr>lk_room := None, lk_intentional := True, lk_connectInFlight := None,
                     lk_generation := Suc (lk_generation s)\<rparr>;
               s = clear_heartbeat_timeout (reset_media_state s);
               s = (case failed of Some r \<Rightarrow> emit (Room_Disconnect r) s | None \<Rightarrow> s) in
           set_status (get_live_kit_connection_status Connection_Error False False) s)"

text \<open>The token response: the fetch rejects, or answers \<open>ok\<close> and a body that parses or not.\<close>

definition token_of :: "(bool \<times> jsval ext) ext \<Rightarrow> (jsval \<times> jsval) option" where
  "token_of r =
     (case r of Ret (True, Ret body) \<Rightarrow>
        if nullish body then None else Some (get body ''token'', get body ''ws_url'')
      | _ \<Rightarrow> None)"

definition token_settled :: "nat \<Rightarrow> (bool \<times> jsval ext) ext \<Rightarrow> lk \<Rightarrow> lk" where
  "token_settled g r s =
     (if K_Token g \<notin> set (lk_pending s) then s
      else let s = resume (K_Token g) s in
        case token_of r of
          None \<Rightarrow> connect_finally g (connect_failed g s)
        | Some (token, ws_url) \<Rightarrow>
            if \<not> is_current_session_generation g (lk_generation s) then connect_finally g s
            else suspend (K_Connect g) (emit (Room_Connect g ws_url token)
                   (s\<lparr>lk_room := Some g, lk_created := lk_created s @ [g]\<rparr>)))"

definition room_connect_settled :: "nat \<Rightarrow> bool \<Rightarrow> lk \<Rightarrow> lk" where
  "room_connect_settled g ok s =
     (if K_Connect g \<notin> set (lk_pending s) then s
      else let s = resume (K_Connect g) s in
        if \<not> ok then connect_finally g (connect_failed g s)
        else if \<not> is_current g s then connect_finally g (emit (Room_Disconnect g) s)
        else let s = (if \<not> lk_hasAudio s
                      then set_status (get_live_kit_connection_status Room_Connected False False) s else s) in
          suspend (K_Microphone g) (emit (Set_Microphone g True) (arm_heartbeat_timeout g s)))"

definition microphone_settled :: "nat \<Rightarrow> nat option ext \<Rightarrow> lk \<Rightarrow> lk" where
  "microphone_settled g r s =
     (if K_Microphone g \<notin> set (lk_pending s) then s
      else let s = resume (K_Microphone g) s in
        case r of
          Throw _ \<Rightarrow> connect_finally g (connect_failed g s)
        | Ret tr \<Rightarrow>
            if \<not> is_current g s then connect_finally g (emit (Room_Disconnect g) s)
            else (case tr of
                None \<Rightarrow> connect_finally g (connect_failed g s)
              | Some t \<Rightarrow> connect_finally g (s\<lparr>lk_micStream := Some t\<rparr>)))"

definition disconnect :: "lk \<Rightarrow> lk" where
  "disconnect s =
     (let room = lk_room s;
          s = s\<lparr>lk_intentional := True, lk_sessionId := None, lk_generation := Suc (lk_generation s),
                lk_connectInFlight := None, lk_room := None\<rparr>;
          s = clear_heartbeat_timeout s;
          s = (case room of Some r \<Rightarrow> emit (Room_Disconnect r) s | None \<Rightarrow> s) in
      set_status (get_live_kit_connection_status Room_Disconnected False False) (reset_media_state s))"

definition toggle_mute :: "lk \<Rightarrow> lk" where
  "toggle_mute s =
     (case lk_room s of
        Some r \<Rightarrow> (emit (Set_Microphone r (lk_isMuted s)) s)\<lparr>lk_isMuted := \<not> lk_isMuted s\<rparr>
      | None \<Rightarrow> s)"

section \<open>Room events\<close>

definition room_reconnected :: "lk \<Rightarrow> lk" where
  "room_reconnected s =
     (let s = set_status (get_live_kit_connection_status Room_Reconnected (lk_hasAudio s) (lk_retryPending s)) s in
      if lk_retryPending s then start_activation s else s)"

definition room_disconnected :: "nat \<Rightarrow> lk \<Rightarrow> lk" where
  "room_disconnected g s =
     (let s = clear_heartbeat_timeout s;
          s = s\<lparr>lk_generation := Suc (lk_generation s), lk_connectInFlight := None, lk_room := None,
                lk_gone := g # lk_gone s\<rparr>;
          s = reset_media_state s in
      set_status (get_live_kit_connection_status
        (if lk_intentional s then Room_Disconnected else Connection_Error) False False) s)"

definition add_transcript :: "jsval \<Rightarrow> string \<Rightarrow> string \<Rightarrow> lk \<Rightarrow> lk" where
  "add_transcript ev new_id clock s =
     s\<lparr>lk_messages := lk_messages s @
        [\<lparr>tm_id = js_or (get ev ''id'') (JStr new_id), tm_speaker = js_or (get ev ''speaker'') (JStr ''assistant''),
          tm_text = js_or (get ev ''text'') (JStr []),
          tm_isInterrupted = js_or (get ev ''isInterrupted'') (JBool False), tm_timestamp = clock\<rparr>]\<rparr>"

definition normalize_task :: "jsval \<Rightarrow> string \<Rightarrow> string \<Rightarrow> task_item" where
  "normalize_task raw new_id clock =
     \<lparr>ti_id = js_or (get raw ''id'') (JStr new_id), ti_title = js_or (get raw ''title'') (JStr ''Voice Action''),
      ti_toolName = js_or (get raw ''tool_name'') (js_or (get raw ''toolName'') (JStr ''tool'')),
      ti_status = js_or (get raw ''status'') (JStr ''completed''), ti_output = js_or (get raw ''output'') JNull,
      ti_errorMessage = js_or (get raw ''errorMessage'') (js_or (get raw ''error_message'') JNull),
      ti_executionTimeMs = js_or (get raw ''executionTimeMs'') (js_or (get raw ''execution_time_ms'') (JNum 0)),
      ti_idempotencyKey = js_or (get raw ''idempotencyKey'') (js_or (get raw ''idempotency_key'') JNull),
      ti_updatedAt = clock\<rparr>"

fun upsert_task :: "task_item \<Rightarrow> task_item list \<Rightarrow> task_item list option" where
  "upsert_task t [] = None"
| "upsert_task t (u # us) =
     (if ti_id u = ti_id t then Some (t # us) else map_option (Cons u) (upsert_task t us))"

definition put_task :: "task_item \<Rightarrow> task_item list \<Rightarrow> task_item list" where
  "put_task t ts = (case upsert_task t ts of Some ts' \<Rightarrow> ts' | None \<Rightarrow> t # ts)"

text \<open>A data packet: its parsed body (or a parse error), the id made up for an entry without one, and
the clock text. The sequence number of an agent message is not read.\<close>

definition data_received :: "nat \<Rightarrow> jsval ext \<Rightarrow> string \<Rightarrow> string \<Rightarrow> lk \<Rightarrow> lk" where
  "data_received g packet new_id clock s =
     (case packet of
        Throw _ \<Rightarrow> s
      | Ret ev \<Rightarrow> (case parse_agent_lifecycle_message ev of
            Some m \<Rightarrow>
              if lk_sessionId s \<noteq> Some (am_sessionId m) then s
              else if am_state m = Failed then fail_current_session g s
              else if am_state m = Ended
              then emit (Room_Disconnect g) (clear_heartbeat_timeout (s\<lparr>lk_intentional := True\<rparr>))
              else let s = (arm_heartbeat_timeout g s)\<lparr>lk_isBotSpeaking := False\<rparr> in
                set_status (get_agent_lifecycle_status (am_state m) (lk_hasAudio s) (lk_retryPending s)) s
          | None \<Rightarrow>
              if nullish ev then s
              else if get ev ''type'' = JStr ''transcript'' then add_transcript ev new_id clock s
              else if get ev ''type'' = JStr ''task_update'' \<and> truthy (get ev ''task'')
              then s\<lparr>lk_tasks := put_task (normalize_task (get ev ''task'') new_id clock) (lk_tasks s)\<rparr>
              else s))"

text \<open>The rest of the \<open>TrackSubscribed\<close> handler after the context is resumed: a fresh source, gain and
analyser node; the new gain node starts at 1.\<close>

definition finish_subscription :: "nat \<Rightarrow> nat \<Rightarrow> nat \<Rightarrow> lk \<Rightarrow> lk" where
  "finish_subscription g t el s =
     (if \<not> is_current g s \<or> lk_track s \<noteq> Some t then emit (Pause_Element el) s
      else let n = lk_fresh s;
               s = s\<lparr>lk_sourceNode := Some n, lk_gainNode := Some (n + 1), lk_analyser := Some (n + 2),
                     lk_fresh := n + 3\<rparr> in
           start_activation (emit (Unmute (n + 1)) s))"

definition track_subscribed :: "nat \<Rightarrow> nat \<Rightarrow> bool \<Rightarrow> bool \<Rightarrow> bool \<Rightarrow> lk \<Rightarrow> lk" where
  "track_subscribed g t audio ctx_closed ctx_suspended s =
     (if \<not> audio then s
      else let el = lk_fresh s;
               s = pause_element (s\<lparr>lk_fresh := el + 1\<rparr>);
               s = s\<lparr>lk_audioElement := Some el, lk_track := Some t, lk_hasAudio := True\<rparr>;
               s = (if lk_audioCtx s = None \<or> ctx_closed
                    then s\<lparr>lk_audioCtx := Some (lk_fresh s), lk_fresh := lk_fresh s + 1\<rparr> else s) in
           if ctx_suspended then suspend (K_Resume g t el) s else finish_subscription g t el s)"

definition resume_settled :: "nat \<Rightarrow> nat \<Rightarrow> nat \<Rightarrow> lk \<Rightarrow> lk" where
  "resume_settled g t el s =
     (if K_Resume g t el \<notin> set (lk_pending s) then s
      else finish_subscription g t el (resume (K_Resume g t el) s))"

definition track_unsubscribed :: "nat \<Rightarrow> bool \<Rightarrow> bool \<Rightarrow> lk \<Rightarrow> lk" where
  "track_unsubscribed t audio conn s =
     (if \<not> audio \<or> lk_track s \<noteq> Some t then s
      else let s = pause_element s;
               s = s\<lparr>lk_audioElement := None, lk_sourceNode := None, lk_track := None, lk_hasAudio := False,
                     lk_retryPending := False, lk_isBotSpeaking := False, lk_gainNode := None,
                     lk_analyser := None\<rparr> in
           if lk_room s \<noteq> None \<and> conn
           then set_status (get_live_kit_connection_status Agent_Unavailable False False) s else s)"

definition active_speakers_changed :: "bool \<Rightarrow> lk \<Rightarrow> lk" where
  "active_speakers_changed agent_speaking s =
     (if lk_isUserSpeaking s then s
      else let s = s\<lparr>lk_isBotSpeaking := agent_speaking\<rparr>;
               s = (case lk_gainNode s of
                      Some gain \<Rightarrow> if agent_speaking then emit (Unmute gain) s else s
                    | None \<Rightarrow> s) in
           if agent_speaking \<and> lk_retryPending s then start_activation s else s)"

datatype room_event =
    Ev_Reconnecting
  | Ev_Reconnected
  | Ev_Disconnected
  | Ev_Data "jsval ext" string string
  | Ev_Track_Subscribed nat bool bool bool
  | Ev_Track_Unsubscribed nat bool bool
  | Ev_Active_Speakers bool

definition handle_room_event :: "nat \<Rightarrow> room_event \<Rightarrow> lk \<Rightarrow> lk" where
  "handle_room_event g ev s =
     (if \<not> is_current g s then s
      else case ev of
        Ev_Reconnecting \<Rightarrow> set_status (get_live_kit_connection_status Room_Reconnecting False False) s
      | Ev_Reconnected \<Rightarrow> room_reconnected s
      | Ev_Disconnected \<Rightarrow> room_disconnected g s
      | Ev_Data packet new_id clock \<Rightarrow> data_received g packet new_id clock s
      | Ev_Track_Subscribed t audio ctx_closed ctx_suspended \<Rightarrow> track_subscribed g t audio ctx_closed ctx_suspended s
      | Ev_Track_Unsubscribed t audio conn \<Rightarrow> track_unsubscribed t audio conn s
      | Ev_Active_Speakers agent_speaking \<Rightarrow> active_speakers_changed agent_speaking s)"

text \<open>The handlers of an audio element: \<open>onplay\<close>, and \<open>onpause\<close> or \<open>onended\<close>.\<close>

definition element_played :: "nat \<Rightarrow> nat \<Rightarrow> nat \<Rightarrow> lk \<Rightarrow> lk" where
  "element_played g t gain s =
     (if \<not> is_current g s \<or> lk_track s \<noteq> Some t \<or> lk_isUserSpeaking s then s else emit (Unmute gain) s)"

definition element_stopped :: "nat \<Rightarrow> nat \<Rightarrow> lk \<Rightarrow> lk" where
  "element_stopped g t s =
     (if \<not> is_current g s \<or> lk_track s \<noteq> Some t then s else s\<lparr>lk_isBotSpeaking := False\<rparr>)"

section \<open>Steps\<close>

datatype lk_event =
    Connect string
  | Disconnect
  | Toggle_Mute
  | Toggle_Hands_Free
  | Speech_Start
  | Speech_End bool
  | Interruption bool
  | Unmute_Assistant
  | User_Gesture
  | Token_Settled nat "(bool \<times> jsval ext) ext"
  | Room_Connect_Settled nat bool
  | Microphone_Settled nat "nat option ext"
  | Activation_Settled nat nat nat playback
  | Resume_Settled nat nat nat
  | Timer_Fired bool
  | From_Room nat room_event
  | Element_Played nat nat nat
  | Element_Stopped nat nat

fun lk_step :: "lk \<Rightarrow> lk_event \<Rightarrow> lk" where
  "lk_step s (Connect sid) = connect sid s"
| "lk_step s Disconnect = disconnect s"
| "lk_step s Toggle_Mute = toggle_mute s"
| "lk_step s Toggle_Hands_Free = s\<lparr>lk_isHandsFree := \<not> lk_isHandsFree s\<rparr>"
| "lk_step s Speech_Start = handle_speech_start s"
| "lk_step s (Speech_End sp) = handle_speech_end sp s"
| "lk_step s (Interruption conn) = handle_interruption conn s"
| "lk_step s Unmute_Assistant = unmute_assistant s"
| "lk_step s User_Gesture = retry_playback s"
| "lk_step s (Token_Settled g r) = token_settled g r s"
| "lk_step s (Room_Connect_Settled g ok) = room_connect_settled g ok s"
| "lk_step s (Microphone_Settled g r) = microphone_settled g r s"
| "lk_step s (Activation_Settled g gain el p) = activation_settled g gain el p s"
| "lk_step s (Resume_Settled g t el) = resume_settled g t el s"
| "lk_step s (Timer_Fired conn) = timer_fired conn s"
| "lk_step s (From_Room g ev) = handle_room_event g ev s"
| "lk_step s (Element_Played g t gain) = element_played g t gain s"
| "lk_step s (Element_Stopped g t) = element_stopped g t s"

section \<open>Invariant\<close>

text \<open>The helpers as plain record updates, so that the fields of a composed operation are computed by
simplification alone.\<close>

definition activation_conts :: "lk \<Rightarrow> lk_cont list" where
  "activation_conts s =
     (case (lk_gainNode s, lk_audioElement s, lk_audioCtx s) of
        (Some gain, Some el, Some ctx) \<Rightarrow>
          if lk_isUserSpeaking s then [] else [K_Activate (lk_generation s) gain el]
      | _ \<Rightarrow> [])"

definition pause_effects :: "lk \<Rightarrow> lk_effect list" where
  "pause_effects s = (case lk_audioElement s of Some el \<Rightarrow> [Pause_Element el] | None \<Rightarrow> [])"

definition reset_effects :: "lk \<Rightarrow> lk_effect list" where
  "reset_effects s = pause_effects s @ (case lk_audioCtx s of Some c \<Rightarrow> [Close_Context c] | None \<Rightarrow> [])"

lemma start_activation_eq: "start_activation s = s\<lparr>lk_pending := activation_conts s @ lk_pending s\<rparr>"
  by (auto simp: start_activation_def activation_conts_def suspend_def split: option.splits)

lemma pause_element_eq: "pause_element s = s\<lparr>lk_effects := lk_effects s @ pause_effects s\<rparr>"
  by (simp add: pause_element_def pause_effects_def emit_def split: option.splits)

lemma clear_heartbeat_timeout_eq:
  "clear_heartbeat_timeout s = s\<lparr>lk_timer := None, lk_timerLive := (lk_timer s = None \<and> lk_timerLive s)\<rparr>"
  by (cases s) (simp add: clear_heartbeat_timeout_def)

lemma reset_media_state_eq:
  "reset_media_state s =
     s\<lparr>lk_effects := lk_effects s @ reset_effects s,
       lk_audioElement := None, lk_sourceNode := None, lk_track := None, lk_hasAudio := False,
       lk_retryPending := False, lk_micStream := None, lk_audioCtx := None, lk_gainNode := None,
       lk_analyser := None, lk_isBotSpeaking := False, lk_isUserSpeaking := False, lk_isMuted := False\<rparr>"
  by (simp add: reset_media_state_def pause_element_eq reset_effects_def emit_def Let_def split: option.splits)

lemmas lk_plain =
  start_activation_eq pause_element_eq clear_heartbeat_timeout_eq reset_media_state_eq arm_heartbeat_timeout_def
  emit_def suspend_def resume_def set_status_def Let_def is_current_session_generation_def

fun conn_gen :: "lk_cont \<Rightarrow> nat option" where
  "conn_gen (K_Token g) = Some g"
| "conn_gen (K_Connect g) = Some g"
| "conn_gen (K_Microphone g) = Some g"
| "conn_gen _ = None"

definition conn_count :: "nat \<Rightarrow> lk_cont list \<Rightarrow> nat" where
  "conn_count n ks = length (filter (\<lambda>k. conn_gen k = Some n) ks)"

lemma conn_count_simps [simp]:
  "conn_count n [] = 0"
  "conn_count n (k # ks) = (if conn_gen k = Some n then Suc (conn_count n ks) else conn_count n ks)"
  by (simp_all add: conn_count_def)

lemma conn_count_activation [simp]: "conn_count n (activation_conts s @ ks) = conn_count n ks"
  by (simp add: conn_count_def activation_conts_def split: option.splits)

lemma conn_count_remove:
  "k \<in> set ks \<Longrightarrow> conn_count n ks = (if conn_gen k = Some n then 1 else 0) + conn_count n (remove1 k ks)"
  by (induction ks) auto

lemma conn_count_0: "conn_count n ks = 0 \<longleftrightarrow> (\<forall>k\<in>set ks. conn_gen k \<noteq> Some n)"
  by (simp add: conn_count_def filter_empty_conv)

lemma no_conn:
  assumes "conn_count g ks = 0"
  shows "K_Token g \<notin> set ks" "K_Connect g \<notin> set ks" "K_Microphone g \<notin> set ks"
  using assms by (auto simp: conn_count_0)

lemma activation_conts_kind: "k \<in> set (activation_conts s) \<Longrightarrow> \<exists>g gain el. k = K_Activate g gain el"
  by (auto simp: activation_conts_def split: option.splits if_splits)

definition lk_flow_ok :: "lk \<Rightarrow> bool" where
  "lk_flow_ok s \<longleftrightarrow>
     conn_count (lk_generation s) (lk_pending s) = (if lk_connectInFlight s = None then 0 else 1)
     \<and> (\<forall>k\<in>set (lk_pending s). \<forall>g. conn_gen k = Some g \<longrightarrow> g \<le> lk_generation s)
     \<and> (lk_connectInFlight s = None \<or> lk_connectInFlight s = Some (lk_generation s))
     \<and> (lk_room s = None \<or> lk_room s = Some (lk_generation s))
     \<and> (K_Token (lk_generation s) \<in> set (lk_pending s) \<longrightarrow> lk_room s = None)
     \<and> (K_Connect (lk_generation s) \<in> set (lk_pending s) \<or> K_Microphone (lk_generation s) \<in> set (lk_pending s)
         \<longrightarrow> lk_room s = Some (lk_generation s))"

definition lk_media_ok :: "lk \<Rightarrow> bool" where
  "lk_media_ok s \<longleftrightarrow>
     (lk_room s = None \<longrightarrow> lk_audioElement s = None \<and> lk_track s = None \<and> lk_gainNode s = None
        \<and> lk_audioCtx s = None \<and> lk_micStream s = None \<and> \<not> lk_hasAudio s \<and> \<not> lk_retryPending s
        \<and> \<not> lk_isBotSpeaking s \<and> \<not> lk_isMuted s)
     \<and> (lk_timer s = None \<or> lk_timer s = lk_room s) \<and> (lk_timer s = None \<longrightarrow> \<not> lk_timerLive s)"

definition lk_status_ok :: "lk \<Rightarrow> bool" where
  "lk_status_ok s \<longleftrightarrow>
     is_voice_session_active (lk_status s) = (lk_room s \<noteq> None \<or> lk_connectInFlight s \<noteq> None)"

definition lk_rooms_ok :: "lk \<Rightarrow> bool" where
  "lk_rooms_ok s \<longleftrightarrow> (\<forall>r\<in>set (lk_created s). r \<le> lk_generation s \<and>
     (lk_room s = Some r \<or> Room_Disconnect r \<in> set (lk_effects s) \<or> r \<in> set (lk_gone s)))"

definition lk_ok :: "lk \<Rightarrow> bool" where
  "lk_ok s \<longleftrightarrow> lk_flow_ok s \<and> lk_media_ok s \<and> lk_status_ok s \<and> lk_rooms_ok s"

lemmas lk_oks = lk_ok_def lk_flow_ok_def lk_media_ok_def lk_status_ok_def lk_rooms_ok_def

lemma active_simps [simp]:
  "is_voice_session_active Connecting" "is_voice_session_active Waiting_For_Agent"
  "is_voice_session_active Waiting_For_Audio" "is_voice_session_active Connected"
  "is_voice_session_active Reconnecting" "is_voice_session_active Recovering"
  "\<not> is_voice_session_active Disconnected" "\<not> is_voice_session_active Error"
  by (simp_all add: is_voice_session_active_def)

lemma lk_ok_init: "lk_ok lk_init"
  by (simp add: lk_oks lk_init_def)

text \<open>The four ways a session ends leave the same kind of state behind.\<close>

definition torn_down :: "lk \<Rightarrow> lk \<Rightarrow> bool" where
  "torn_down s s' \<longleftrightarrow>
     lk_room s' = None \<and> lk_connectInFlight s' = None \<and> lk_generation s' = Suc (lk_generation s)
     \<and> lk_pending s' = lk_pending s \<and> lk_created s' = lk_created s
     \<and> set (lk_effects s) \<subseteq> set (lk_effects s') \<and> set (lk_gone s) \<subseteq> set (lk_gone s')
     \<and> (\<forall>r. lk_room s = Some r \<longrightarrow> Room_Disconnect r \<in> set (lk_effects s') \<or> r \<in> set (lk_gone s'))
     \<and> lk_timer s' = None \<and> \<not> lk_timerLive s' \<and> \<not> is_voice_session_active (lk_status s')
     \<and> lk_audioElement s' = None \<and> lk_track s' = None \<and> lk_gainNode s' = None \<and> lk_audioCtx s' = None
     \<and> lk_micStream s' = None \<and> \<not> lk_hasAudio s' \<and> \<not> lk_retryPending s' \<and> \<not> lk_isBotSpeaking s'
     \<and> \<not> lk_isMuted s'"

definition conn_past :: "lk \<Rightarrow> bool" where
  "conn_past s \<longleftrightarrow> (\<forall>k\<in>set (lk_pending s). \<forall>g. conn_gen k = Some g \<longrightarrow> g \<le> lk_generation s)"

lemma conn_past_Suc:
  assumes "conn_past s" "k \<in> set (lk_pending s)"
  shows "conn_gen k \<noteq> Some (Suc (lk_generation s))"
  using assms by (fastforce simp: conn_past_def)

lemma conn_past_notin:
  assumes "conn_past s"
  shows "K_Token (Suc (lk_generation s)) \<notin> set (lk_pending s)"
    "K_Connect (Suc (lk_generation s)) \<notin> set (lk_pending s)"
    "K_Microphone (Suc (lk_generation s)) \<notin> set (lk_pending s)"
    "conn_count (Suc (lk_generation s)) (lk_pending s) = 0"
  using conn_past_Suc [OF assms] by (force simp: conn_count_0)+

lemma flow_conn_past: "lk_flow_ok s \<Longrightarrow> conn_past s"
  unfolding lk_flow_ok_def conn_past_def by blast

lemma torn_down_flow: "conn_past s \<Longrightarrow> torn_down s s' \<Longrightarrow> lk_flow_ok s'"
  using conn_past_notin [of s]
  by (auto simp: lk_flow_ok_def torn_down_def conn_past_def intro: le_SucI)

lemma torn_down_media: "torn_down s s' \<Longrightarrow> lk_media_ok s'"
  by (simp add: lk_media_ok_def torn_down_def)

lemma torn_down_status: "torn_down s s' \<Longrightarrow> lk_status_ok s'"
  by (simp add: lk_status_ok_def torn_down_def)

lemma torn_down_rooms: "lk_rooms_ok s \<Longrightarrow> torn_down s s' \<Longrightarrow> lk_rooms_ok s'"
  unfolding lk_rooms_ok_def torn_down_def by (auto intro: le_SucI)

lemma torn_down_ok: "conn_past s \<Longrightarrow> lk_rooms_ok s \<Longrightarrow> torn_down s s' \<Longrightarrow> lk_ok s'"
  unfolding lk_ok_def using torn_down_flow torn_down_media torn_down_status torn_down_rooms by blast

lemma lk_ok_torn_down: "lk_ok s \<Longrightarrow> torn_down s s' \<Longrightarrow> lk_ok s'"
  by (rule torn_down_ok) (auto simp: lk_ok_def intro: flow_conn_past)

lemma torn_down_disconnect:
  "lk_timer s = None \<longrightarrow> \<not> lk_timerLive s \<Longrightarrow> torn_down s (disconnect s)"
  unfolding torn_down_def disconnect_def lk_plain by (auto split: option.splits)

lemma torn_down_fail:
  "lk_timer s = None \<longrightarrow> \<not> lk_timerLive s \<Longrightarrow> lk_room s = Some r \<Longrightarrow> torn_down s (fail_current_session r s)"
  unfolding torn_down_def fail_current_session_def lk_plain by auto

lemma torn_down_lost:
  "lk_timer s = None \<longrightarrow> \<not> lk_timerLive s \<Longrightarrow> lk_room s = Some g \<Longrightarrow> torn_down s (room_disconnected g s)"
  unfolding torn_down_def room_disconnected_def lk_plain by auto

lemma torn_down_connect_failed:
  "lk_timer s = None \<longrightarrow> \<not> lk_timerLive s \<Longrightarrow> g = lk_generation s \<Longrightarrow> torn_down s (connect_failed g s)"
  unfolding torn_down_def connect_failed_def lk_plain by (auto split: option.splits)

text \<open>Steps that leave the session alone: they may append effects, add audio continuations, change
the transcript, the speaking flags and, while the session is live, its media and status.\<close>

definition same_session :: "lk \<Rightarrow> lk \<Rightarrow> bool" where
  "same_session s s' \<longleftrightarrow>
     lk_room s' = lk_room s \<and> lk_connectInFlight s' = lk_connectInFlight s
     \<and> lk_generation s' = lk_generation s \<and> lk_created s' = lk_created s
     \<and> set (lk_effects s) \<subseteq> set (lk_effects s') \<and> lk_gone s' = lk_gone s
     \<and> filter (\<lambda>k. conn_gen k \<noteq> None) (lk_pending s') = filter (\<lambda>k. conn_gen k \<noteq> None) (lk_pending s)
     \<and> is_voice_session_active (lk_status s') = is_voice_session_active (lk_status s)
     \<and> lk_media_ok s'"

lemma conn_count_filter: "conn_count n (filter (\<lambda>k. conn_gen k \<noteq> None) ks) = conn_count n ks"
  by (induction ks) auto

lemma same_session_flow:
  assumes "lk_flow_ok s" "same_session s s'"
  shows "lk_flow_ok s'"
proof -
  let ?f = "filter (\<lambda>k. conn_gen k \<noteq> None)"
  have f: "?f (lk_pending s') = ?f (lk_pending s)" using assms(2) by (simp add: same_session_def)
  have c: "conn_count n (lk_pending s') = conn_count n (lk_pending s)" for n
    by (metis conn_count_filter f)
  have m: "conn_gen k \<noteq> None \<Longrightarrow> k \<in> set (lk_pending s') \<longleftrightarrow> k \<in> set (lk_pending s)" for k
    using arg_cong [where f = set, OF f] by auto
  have le: "\<forall>k\<in>set (lk_pending s'). \<forall>g. conn_gen k = Some g \<longrightarrow> g \<le> lk_generation s"
    using assms(1) m unfolding lk_flow_ok_def by fastforce
  note t = m [of "K_Token (lk_generation s)", simplified]
  note t' = m [of "K_Connect (lk_generation s)", simplified]
  note t'' = m [of "K_Microphone (lk_generation s)", simplified]
  have eqs: "lk_room s' = lk_room s" "lk_connectInFlight s' = lk_connectInFlight s"
    "lk_generation s' = lk_generation s" using assms(2) by (simp_all add: same_session_def)
  show ?thesis
    using assms(1) le unfolding lk_flow_ok_def c eqs t t' t'' by blast
qed

lemma same_session_ok: "lk_ok s \<Longrightarrow> same_session s s' \<Longrightarrow> lk_ok s'"
  unfolding lk_ok_def using same_session_flow [of s s']
  by (auto simp: same_session_def lk_status_ok_def lk_rooms_ok_def)

lemma filter_activation_conts [simp]: "filter (\<lambda>k. \<exists>g. conn_gen k = Some g) (activation_conts s) = []"
  by (auto simp: activation_conts_def split: option.splits)

lemma filter_remove_audio [simp]:
  "filter (\<lambda>k. \<exists>g. conn_gen k = Some g) (remove1 (K_Activate g' gain el) ks) = filter (\<lambda>k. \<exists>g. conn_gen k = Some g) ks"
  "filter (\<lambda>k. \<exists>g. conn_gen k = Some g) (remove1 (K_Resume g' t el) ks) = filter (\<lambda>k. \<exists>g. conn_gen k = Some g) ks"
  by (induction ks) auto

lemma live_status: "lk_ok s \<Longrightarrow> lk_room s \<noteq> None \<Longrightarrow> is_voice_session_active (lk_status s)"
  by (simp add: lk_ok_def lk_status_ok_def)

lemma lk_ok_media: "lk_ok s \<Longrightarrow> lk_media_ok s"
  by (simp add: lk_ok_def)

lemma media_needs_room:
  "lk_ok s \<Longrightarrow> lk_audioElement s \<noteq> None \<or> lk_retryPending s \<or> lk_isBotSpeaking s \<Longrightarrow> lk_room s \<noteq> None"
  by (auto simp: lk_ok_def lk_media_ok_def)

lemma same_session_refl [simp]: "lk_ok s \<Longrightarrow> same_session s s"
  by (simp add: same_session_def lk_ok_def)

lemma same_start_activation: "lk_ok s \<Longrightarrow> same_session s (start_activation s)"
  using lk_ok_media [of s] by (simp add: same_session_def start_activation_eq lk_media_ok_def)

lemma same_activation_settled:
  assumes ok: "lk_ok s"
  shows "same_session s (activation_settled g gain el p s)"
proof (cases "g = lk_generation s \<and> lk_audioElement s = Some el")
  case False
  then show ?thesis
    using lk_ok_media [OF ok]
    by (simp add: same_session_def lk_media_ok_def activation_settled_def lk_plain)
next
  case True
  then obtain r where r: "lk_room s = Some r" using media_needs_room [OF ok] by auto
  then have "is_voice_session_active (lk_status s)" using live_status [OF ok] by simp
  with True r show ?thesis
    using lk_ok_media [OF ok]
    by (simp add: same_session_def lk_media_ok_def activation_settled_def lk_plain subset_insertI)
qed

lemma same_unmute: "lk_ok s \<Longrightarrow> same_session s (unmute_assistant s)"
  unfolding unmute_assistant_def lk_plain
  using lk_ok_media [of s] by (auto simp: same_session_def lk_media_ok_def split: option.splits)

lemma same_speech_start: "lk_ok s \<Longrightarrow> same_session s (handle_speech_start s)"
  using lk_ok_media [of s] by (auto simp: same_session_def lk_media_ok_def handle_speech_start_def)

lemma same_speech_end: "lk_ok s \<Longrightarrow> same_session s (handle_speech_end sp s)"
  unfolding handle_speech_end_def unmute_assistant_def lk_plain
  using lk_ok_media [of s] by (auto simp: same_session_def lk_media_ok_def split: option.splits)

lemma same_interruption: "lk_ok s \<Longrightarrow> same_session s (handle_interruption conn s)"
  unfolding handle_interruption_def send_data_message_def lk_plain
  using lk_ok_media [of s] by (auto simp: same_session_def lk_media_ok_def split: option.splits)

lemma same_retry: "lk_ok s \<Longrightarrow> same_session s (retry_playback s)"
  by (simp add: retry_playback_def same_start_activation)

lemma same_toggle_mute: "lk_ok s \<Longrightarrow> same_session s (toggle_mute s)"
  unfolding toggle_mute_def lk_plain
  using lk_ok_media [of s] by (auto simp: same_session_def lk_media_ok_def split: option.splits)

lemma same_hands_free: "lk_ok s \<Longrightarrow> same_session s (s\<lparr>lk_isHandsFree := b\<rparr>)"
  using lk_ok_media [of s] by (auto simp: same_session_def lk_media_ok_def)

lemma same_finish_subscription: "lk_ok s \<Longrightarrow> same_session s (finish_subscription g t el s)"
  unfolding finish_subscription_def lk_plain
  using lk_ok_media [of s] by (auto simp: same_session_def lk_media_ok_def is_current_def)

lemma same_resume_settled: "lk_ok s \<Longrightarrow> same_session s (resume_settled g t el s)"
  unfolding resume_settled_def finish_subscription_def lk_plain
  using lk_ok_media [of s] by (auto simp: same_session_def lk_media_ok_def is_current_def)

lemma same_track_subscribed:
  "lk_ok s \<Longrightarrow> lk_room s \<noteq> None \<Longrightarrow> same_session s (track_subscribed g t audio ctx_closed ctx_suspended s)"
  unfolding track_subscribed_def finish_subscription_def lk_plain
  using lk_ok_media [of s] by (auto simp: same_session_def lk_media_ok_def is_current_def)

lemma same_track_unsubscribed: "lk_ok s \<Longrightarrow> same_session s (track_unsubscribed t audio conn s)"
  unfolding track_unsubscribed_def lk_plain
  using lk_ok_media [of s] live_status [of s] by (auto simp: same_session_def lk_media_ok_def)

lemma same_active_speakers:
  "lk_ok s \<Longrightarrow> lk_room s \<noteq> None \<Longrightarrow> same_session s (active_speakers_changed sp s)"
  unfolding active_speakers_changed_def lk_plain
  using lk_ok_media [of s] by (auto simp: same_session_def lk_media_ok_def split: option.splits)

lemma same_reconnected: "lk_ok s \<Longrightarrow> lk_room s \<noteq> None \<Longrightarrow> same_session s (room_reconnected s)"
  unfolding room_reconnected_def lk_plain
  using lk_ok_media [of s] live_status [of s] by (auto simp: same_session_def lk_media_ok_def)

lemma same_reconnecting: "lk_ok s \<Longrightarrow> lk_room s \<noteq> None \<Longrightarrow> same_session s (set_status Reconnecting s)"
  using lk_ok_media [of s] live_status [of s] by (auto simp: same_session_def lk_media_ok_def set_status_def)

lemma same_element_played: "lk_ok s \<Longrightarrow> same_session s (element_played g t gain s)"
  unfolding element_played_def lk_plain
  using lk_ok_media [of s] by (auto simp: same_session_def lk_media_ok_def)

lemma same_element_stopped: "lk_ok s \<Longrightarrow> same_session s (element_stopped g t s)"
  unfolding element_stopped_def
  using lk_ok_media [of s] by (auto simp: same_session_def lk_media_ok_def)

lemma timer_live: "lk_ok s \<Longrightarrow> lk_timer s = None \<longrightarrow> \<not> lk_timerLive s"
  by (simp add: lk_ok_def lk_media_ok_def)

lemma lk_ok_fail: "lk_ok s \<Longrightarrow> lk_ok (fail_current_session r s)"
  using lk_ok_torn_down [OF _ torn_down_fail] timer_live [of s]
  by (cases "lk_room s = Some r") (simp_all add: fail_current_session_def)

lemma lk_ok_timer_fired: "lk_ok s \<Longrightarrow> lk_ok (timer_fired conn s)"
proof -
  assume ok: "lk_ok s"
  have "lk_ok (s\<lparr>lk_timerLive := False\<rparr>)"
    using ok lk_ok_media [OF ok] by (intro same_session_ok [OF ok]) (auto simp: same_session_def lk_media_ok_def)
  then show ?thesis using ok by (auto simp: timer_fired_def Let_def lk_ok_fail split: option.split)
qed

lemma lk_ok_data_received:
  assumes ok: "lk_ok s" and cur: "lk_room s = Some g"
  shows "lk_ok (data_received g packet new_id clock s)"
proof -
  have act: "is_voice_session_active (lk_status s)" using live_status [OF ok] cur by simp
  have a: "lk_ok (emit (Room_Disconnect g) (clear_heartbeat_timeout (s\<lparr>lk_intentional := True\<rparr>)))"
    using lk_ok_media [OF ok] cur act
    by (intro same_session_ok [OF ok]) (auto simp: same_session_def lk_media_ok_def lk_plain)
  have b: "lk_ok (set_status (get_agent_lifecycle_status st h b) ((arm_heartbeat_timeout g s)\<lparr>lk_isBotSpeaking := False\<rparr>))"
    if "st \<noteq> Failed" "st \<noteq> Ended" for st h b
    using lk_ok_media [OF ok] cur act agent_status_active [OF that]
    by (intro same_session_ok [OF ok]) (auto simp: same_session_def lk_media_ok_def lk_plain)
  have c: "lk_ok (add_transcript ev new_id clock s)" for ev
    using lk_ok_media [OF ok]
    by (intro same_session_ok [OF ok]) (auto simp: same_session_def lk_media_ok_def add_transcript_def)
  have d: "lk_ok (s\<lparr>lk_tasks := ts\<rparr>)" for ts
    using lk_ok_media [OF ok] by (intro same_session_ok [OF ok]) (auto simp: same_session_def lk_media_ok_def)
  show ?thesis
    unfolding data_received_def
    using ok a c d lk_ok_fail [OF ok] b by (auto simp: Let_def split: ext.splits option.splits)
qed

lemma lk_ok_room_event:
  assumes ok: "lk_ok s"
  shows "lk_ok (handle_room_event g ev s)"
proof (cases "is_current g s")
  case False
  then show ?thesis using ok by (simp add: handle_room_event_def)
next
  case True
  then have r: "lk_room s = Some g" by (simp add: is_current_def)
  then have r': "lk_room s \<noteq> None" by simp
  note same = same_session_ok [OF ok]
  show ?thesis
    using True same [OF same_reconnecting [OF ok r']] same [OF same_reconnected [OF ok r']]
      same [OF same_track_subscribed [OF ok r']] same [OF same_track_unsubscribed [OF ok]]
      same [OF same_active_speakers [OF ok r']] lk_ok_data_received [OF ok r]
      lk_ok_torn_down [OF ok torn_down_lost [OF timer_live [OF ok] r]]
    by (cases ev) (simp_all add: handle_room_event_def)
qed

lemma lk_ok_connect: "lk_ok s \<Longrightarrow> lk_ok (connect sid s)"
proof (cases "lk_connectInFlight s \<noteq> None \<or> lk_room s \<noteq> None")
  case True
  then show "lk_ok s \<Longrightarrow> ?thesis" by (simp add: connect_def)
next
  case False
  assume ok: "lk_ok s"
  then have past: "conn_past s" using flow_conn_past by (simp add: lk_ok_def)
  have "lk_flow_ok (connect sid s)"
    using False conn_past_notin [OF past] past
    by (auto simp: connect_def lk_plain lk_flow_ok_def conn_past_def intro: le_SucI)
  moreover have "lk_media_ok (connect sid s)"
    using False lk_ok_media [OF ok] by (auto simp: connect_def lk_plain lk_media_ok_def)
  moreover have "lk_status_ok (connect sid s)"
    using False by (auto simp: connect_def lk_plain lk_status_ok_def)
  moreover have "lk_rooms_ok (connect sid s)"
    using False ok by (auto simp: connect_def lk_plain lk_rooms_ok_def lk_ok_def intro: le_SucI)
  ultimately show ?thesis by (simp add: lk_ok_def)
qed

text \<open>The continuations of \<open>connect\<close>. A continuation of an older run is only dropped; the one of the
current run is unique, so what remains pending belongs to older runs.\<close>

lemma resume_past: "conn_past s \<Longrightarrow> conn_past (resume k s)"
  using set_remove1_subset [of k "lk_pending s"] unfolding conn_past_def resume_def by auto

lemma resume_rooms: "lk_rooms_ok s \<Longrightarrow> lk_rooms_ok (resume k s)"
  by (simp add: lk_rooms_ok_def resume_def)

lemma lk_ok_resume_old:
  assumes ok: "lk_ok s" and k: "k \<in> set (lk_pending s)" "conn_gen k = Some g" "g \<noteq> lk_generation s"
  shows "lk_ok (resume k s)"
proof -
  have c: "conn_count (lk_generation s) (remove1 k (lk_pending s)) = conn_count (lk_generation s) (lk_pending s)"
    using conn_count_remove [OF k(1), of "lk_generation s"] k by simp
  have sub: "x \<in> set (remove1 k (lk_pending s)) \<Longrightarrow> x \<in> set (lk_pending s)" for x
    using set_remove1_subset by fast
  have "lk_flow_ok (resume k s)"
    using ok sub unfolding lk_ok_def lk_flow_ok_def resume_def by (simp add: c) blast
  moreover have "lk_media_ok (resume k s) \<and> lk_status_ok (resume k s) \<and> lk_rooms_ok (resume k s)"
    using ok by (simp add: lk_ok_def lk_media_ok_def lk_status_ok_def lk_rooms_ok_def resume_def)
  ultimately show ?thesis by (simp add: lk_ok_def)
qed

lemma current_flow:
  assumes ok: "lk_flow_ok s" and k: "k \<in> set (lk_pending s)" "conn_gen k = Some (lk_generation s)"
  shows "lk_connectInFlight s = Some (lk_generation s)"
    and "conn_count (lk_generation s) (remove1 k (lk_pending s)) = 0"
proof -
  have "conn_count (lk_generation s) (lk_pending s) \<noteq> 0"
    using k conn_count_0 by blast
  then show *: "lk_connectInFlight s = Some (lk_generation s)"
    using ok by (auto simp: lk_flow_ok_def split: if_splits)
  show "conn_count (lk_generation s) (remove1 k (lk_pending s)) = 0"
    using ok conn_count_remove [OF k(1), of "lk_generation s"] k(2) * by (simp add: lk_flow_ok_def)
qed

lemma lk_ok_failed:
  assumes ok: "lk_ok s" and k: "k \<in> set (lk_pending s)" "conn_gen k = Some g"
  shows "lk_ok (connect_finally g (connect_failed g (resume k s)))"
proof (cases "g = lk_generation s")
  case True
  have td: "torn_down (resume k s) (connect_failed g (resume k s))"
    using timer_live [OF ok] True by (intro torn_down_connect_failed) (simp_all add: resume_def)
  have "conn_past (resume k s)" "lk_rooms_ok (resume k s)"
    using ok by (simp_all add: lk_ok_def flow_conn_past resume_past resume_rooms)
  from torn_down_ok [OF this td] td show ?thesis by (simp add: connect_finally_def torn_down_def)
next
  case False
  have "lk_connectInFlight s \<noteq> Some g" using ok False by (auto simp: lk_ok_def lk_flow_ok_def)
  then show ?thesis using lk_ok_resume_old [OF ok k False] False
    by (simp add: connect_failed_def connect_finally_def is_current_session_generation_def resume_def)
qed

lemma lk_ok_token_settled:
  assumes ok: "lk_ok s"
  shows "lk_ok (token_settled g r s)"
proof (cases "K_Token g \<in> set (lk_pending s)")
  case False
  then show ?thesis using ok by (simp add: token_settled_def)
next
  case k: True
  show ?thesis
  proof (cases "token_of r")
    case None
    then show ?thesis using lk_ok_failed [OF ok k] k by (simp add: token_settled_def Let_def)
  next
    case (Some tw)
    obtain token ws where tw: "tw = (token, ws)" by (cases tw)
    show ?thesis
    proof (cases "g = lk_generation s")
      case False
      then have "lk_connectInFlight s \<noteq> Some g" using ok by (auto simp: lk_ok_def lk_flow_ok_def)
      then show ?thesis using lk_ok_resume_old [OF ok k _ False] Some tw k False
        by (simp add: token_settled_def Let_def connect_finally_def is_current_session_generation_def resume_def)
    next
      case True
      let ?p = "remove1 (K_Token g) (lk_pending s)"
      let ?s = "token_settled g r s"
      have fl: "lk_flow_ok s" using ok by (simp add: lk_ok_def)
      have cf: "lk_connectInFlight s = Some g" "conn_count g ?p = 0"
        using current_flow [OF fl k] True by simp_all
      have room: "lk_room s = None" using fl k True by (simp add: lk_flow_ok_def)
      note none = no_conn [OF cf(2)]
      have past: "conn_past (resume (K_Token g) s)" by (rule resume_past [OF flow_conn_past [OF fl]])
      note plain = token_settled_def Some tw k True lk_plain
      have "lk_flow_ok ?s"
        using cf none past True k by (auto simp: lk_flow_ok_def plain conn_past_def)
      moreover have "lk_media_ok ?s" using lk_ok_media [OF ok] room k by (auto simp: lk_media_ok_def plain)
      moreover have "lk_status_ok ?s"
        using ok room cf k True by (simp add: lk_ok_def lk_status_ok_def plain)
      moreover have "lk_rooms_ok ?s" using ok room k by (auto simp: lk_ok_def lk_rooms_ok_def plain)
      ultimately show ?thesis by (simp add: lk_ok_def)
    qed
  qed
qed

lemma lk_ok_stale_room:
  assumes ok: "lk_ok s" and k: "k \<in> set (lk_pending s)" "conn_gen k = Some g"
    and room: "g = lk_generation s \<longrightarrow> lk_room s = Some g" and stale: "\<not> is_current g (resume k s)"
  shows "lk_ok (connect_finally g (emit (Room_Disconnect g) (resume k s)))"
proof -
  have ne: "g \<noteq> lk_generation s"
    using room stale by (auto simp: is_current_def is_current_session_generation_def resume_def)
  then have "lk_connectInFlight s \<noteq> Some g" using ok by (auto simp: lk_ok_def lk_flow_ok_def)
  moreover have "lk_ok (emit (Room_Disconnect g) (resume k s))"
    using lk_ok_media [OF lk_ok_resume_old [OF ok k ne]]
    by (intro same_session_ok [OF lk_ok_resume_old [OF ok k ne]]) (simp add: same_session_def emit_def lk_media_ok_def subset_insertI)
  ultimately show ?thesis by (simp add: connect_finally_def emit_def resume_def)
qed

lemma lk_ok_room_connect_settled:
  assumes ok: "lk_ok s"
  shows "lk_ok (room_connect_settled g success s)"
proof (cases "K_Connect g \<in> set (lk_pending s)")
  case False
  then show ?thesis using ok by (simp add: room_connect_settled_def)
next
  case k: True
  have fl: "lk_flow_ok s" using ok by (simp add: lk_ok_def)
  then have room: "g = lk_generation s \<longrightarrow> lk_room s = Some g" using k by (auto simp: lk_flow_ok_def)
  show ?thesis
  proof (cases "success \<and> is_current g (resume (K_Connect g) s)")
    case False
    then show ?thesis
      using k lk_ok_failed [OF ok k] lk_ok_stale_room [OF ok k _ room]
      by (cases success) (simp_all add: room_connect_settled_def Let_def)
  next
    case True
    then have g: "g = lk_generation s" "lk_room s = Some g"
      by (simp_all add: is_current_def is_current_session_generation_def resume_def)
    let ?s = "room_connect_settled g success s"
    have cf: "lk_connectInFlight s = Some g" "conn_count g (remove1 (K_Connect g) (lk_pending s)) = 0"
      using current_flow [OF fl k] g by simp_all
    note none = no_conn [OF cf(2)]
    have past: "conn_past (resume (K_Connect g) s)" by (rule resume_past [OF flow_conn_past [OF fl]])
    note plain = room_connect_settled_def lk_plain is_current_def
    have "lk_flow_ok ?s"
      using cf none past True k g by (auto simp: lk_flow_ok_def plain conn_past_def)
    moreover have "lk_media_ok ?s" using lk_ok_media [OF ok] g k True by (auto simp: lk_media_ok_def plain)
    moreover have "lk_status_ok ?s"
      using ok g cf k True by (simp add: lk_ok_def lk_status_ok_def plain)
    moreover have "lk_rooms_ok ?s" using ok g k True by (simp add: lk_ok_def lk_rooms_ok_def plain)
    ultimately show ?thesis by (simp add: lk_ok_def)
  qed
qed

lemma lk_ok_microphone_settled:
  assumes ok: "lk_ok s"
  shows "lk_ok (microphone_settled g r s)"
proof (cases "K_Microphone g \<in> set (lk_pending s)")
  case False
  then show ?thesis using ok by (simp add: microphone_settled_def)
next
  case k: True
  have fl: "lk_flow_ok s" using ok by (simp add: lk_ok_def)
  then have room: "g = lk_generation s \<longrightarrow> lk_room s = Some g" using k by (auto simp: lk_flow_ok_def)
  show ?thesis
  proof (cases "\<exists>t. r = Ret (Some t) \<and> is_current g (resume (K_Microphone g) s)")
    case False
    then show ?thesis
      using k lk_ok_failed [OF ok k] lk_ok_stale_room [OF ok k _ room]
      by (auto simp: microphone_settled_def Let_def split: ext.splits option.splits)
  next
    case True
    then obtain t where t: "r = Ret (Some t)" and cur: "is_current g (resume (K_Microphone g) s)" by blast
    then have g: "g = lk_generation s" "lk_room s = Some g"
      by (simp_all add: is_current_def is_current_session_generation_def resume_def)
    let ?s = "microphone_settled g r s"
    have cf: "lk_connectInFlight s = Some g" "conn_count g (remove1 (K_Microphone g) (lk_pending s)) = 0"
      using current_flow [OF fl k] g by simp_all
    note none = no_conn [OF cf(2)]
    have past: "conn_past (resume (K_Microphone g) s)" by (rule resume_past [OF flow_conn_past [OF fl]])
    note plain = microphone_settled_def connect_finally_def lk_plain is_current_def
    have "lk_flow_ok ?s"
      using cf none past k g t by (auto simp: lk_flow_ok_def plain conn_past_def)
    moreover have "lk_media_ok ?s" using lk_ok_media [OF ok] g k t by (auto simp: lk_media_ok_def plain)
    moreover have "lk_status_ok ?s"
      using ok g cf k t by (simp add: lk_ok_def lk_status_ok_def plain)
    moreover have "lk_rooms_ok ?s" using ok g k t by (simp add: lk_ok_def lk_rooms_ok_def plain)
    ultimately show ?thesis by (simp add: lk_ok_def)
  qed
qed

interpretation livekit_session: machine lk_step lk_ok
proof
  fix s e
  assume ok: "lk_ok s"
  note same = same_session_ok [OF ok]
  show "lk_ok (lk_step s e)"
    using lk_ok_connect [OF ok] lk_ok_torn_down [OF ok torn_down_disconnect [OF timer_live [OF ok]]]
      same [OF same_toggle_mute [OF ok]] same [OF same_hands_free [OF ok]] same [OF same_speech_start [OF ok]]
      same [OF same_speech_end [OF ok]] same [OF same_interruption [OF ok]] same [OF same_unmute [OF ok]]
      same [OF same_retry [OF ok]] lk_ok_token_settled [OF ok] lk_ok_room_connect_settled [OF ok]
      lk_ok_microphone_settled [OF ok] same [OF same_activation_settled [OF ok]]
      same [OF same_resume_settled [OF ok]] lk_ok_timer_fired [OF ok] lk_ok_room_event [OF ok]
      same [OF same_element_played [OF ok]] same [OF same_element_stopped [OF ok]]
    by (cases e) simp_all
qed

lemma lk_run_ok: "lk_ok (run lk_step lk_init es)"
  by (rule livekit_session.inv_run [OF lk_ok_init])

end
