(* ===== verification/Livekit_Claims.thy ===== *)
theory Livekit_Claims
  imports Livekit_Session
begin

text \<open>
  What the LiveKit session hook guarantees in every run (any interleaving of page callbacks, room
  events, audio events, timers and settled promises), and three places where it does not do what its
  own comments promise.
\<close>

section \<open>Guarantees\<close>

text \<open>C17. In every run the status shown is truthful: it is a live one exactly when a connect run is under
way or a room is held. The held room is always the one of the current generation, with no room there
is no audio element, no microphone stream, no audio context and no watchdog, and every room ever
created is the held one, was told to disconnect, or reported that it is gone: no room leaks.\<close>

theorem session_status_is_truthful:
  "let s = run lk_step lk_init es in
     is_voice_session_active (lk_status s) = (\<not> (lk_room s = None \<and> lk_connectInFlight s = None))
     \<and> (case lk_room s of
          None \<Rightarrow> lk_audioElement s = None \<and> lk_micStream s = None \<and> lk_audioCtx s = None \<and> lk_timer s = None
        | Some r \<Rightarrow> r = lk_generation s)
     \<and> list_all (\<lambda>r. lk_room s = Some r \<or> Room_Disconnect r \<in> set (lk_effects s) \<or> r \<in> set (lk_gone s))
         (lk_created s)"
proof -
  define s where "s = run lk_step lk_init es"
  have ok: "lk_ok s" unfolding s_def by (rule lk_run_ok)
  have "is_voice_session_active (lk_status s) = (\<not> (lk_room s = None \<and> lk_connectInFlight s = None))"
    using ok by (simp add: lk_ok_def lk_status_ok_def)
  moreover have "case lk_room s of
      None \<Rightarrow> lk_audioElement s = None \<and> lk_micStream s = None \<and> lk_audioCtx s = None \<and> lk_timer s = None
    | Some r \<Rightarrow> r = lk_generation s"
    using ok unfolding lk_ok_def lk_flow_ok_def lk_media_ok_def by (cases "lk_room s") auto
  moreover have "list_all (\<lambda>r. lk_room s = Some r \<or> Room_Disconnect r \<in> set (lk_effects s) \<or> r \<in> set (lk_gone s))
      (lk_created s)"
    using ok unfolding lk_ok_def lk_rooms_ok_def list_all_iff by blast
  ultimately show ?thesis unfolding s_def Let_def by blast
qed

section \<open>The elements of suspended subscriptions\<close>

text \<open>A subscription that awaits its audio context owns an element of its own; only one of the current session can own the
element that is shown.\<close>

definition elements_ok :: "lk \<Rightarrow> bool" where
  "elements_ok s \<longleftrightarrow> (\<forall>el. lk_audioElement s = Some el \<longrightarrow> el < lk_fresh s)
     \<and> (\<forall>g t el. K_Resume g t el \<in> set (lk_pending s) \<longrightarrow>
          el < lk_fresh s \<and> (lk_audioElement s = Some el \<longrightarrow> g = lk_generation s))"

definition keeps_elements :: "lk \<Rightarrow> lk \<Rightarrow> bool" where
  "keeps_elements s s' \<longleftrightarrow> lk_fresh s \<le> lk_fresh s'
     \<and> (\<forall>g t el. K_Resume g t el \<in> set (lk_pending s') \<longrightarrow> K_Resume g t el \<in> set (lk_pending s))
     \<and> (lk_audioElement s' = None \<or> lk_audioElement s' = lk_audioElement s \<and> lk_generation s' = lk_generation s)"

lemma keeps_elements_ok: "elements_ok s \<Longrightarrow> keeps_elements s s' \<Longrightarrow> elements_ok s'"
  unfolding elements_ok_def keeps_elements_def by (metis le_trans less_le_trans option.distinct(1))

lemma activation_conts_Resume [simp]: "K_Resume g t el \<notin> set (activation_conts s)"
  using activation_conts_kind by blast

lemma remove1_Resume: "K_Resume g t el \<in> set (remove1 k ks) \<Longrightarrow> K_Resume g t el \<in> set ks"
  using set_remove1_subset by fastforce

lemmas keep_simps = keeps_elements_def lk_plain

lemma keeps_torn: "torn_down s s' \<Longrightarrow> lk_fresh s \<le> lk_fresh s' \<Longrightarrow> keeps_elements s s'"
  by (simp add: torn_down_def keeps_elements_def)

lemma keeps_finish: "keeps_elements s (finish_subscription g t el s)"
  by (auto simp: keep_simps finish_subscription_def)

lemma keeps_connect: "lk_ok s \<Longrightarrow> keeps_elements s (connect sid s)"
  by (auto simp: keep_simps connect_def lk_oks)

lemma keeps_failed: "keeps_elements s (connect_failed g s)" "keeps_elements s (connect_finally g s)"
  "keeps_elements s (fail_current_session r s)" "keeps_elements s (disconnect s)" "keeps_elements s (room_disconnected g s)"
  by (auto simp: keep_simps connect_failed_def connect_finally_def fail_current_session_def disconnect_def room_disconnected_def
      split: option.split)

lemma keeps_trans: "keeps_elements s t \<Longrightarrow> keeps_elements t u \<Longrightarrow> keeps_elements s u"
  unfolding keeps_elements_def by (metis le_trans)

lemma keeps_resume: "keeps_elements s (resume k s)"
  by (auto simp: keep_simps dest: remove1_Resume)

lemma keeps_audio: "keeps_elements s (activation_settled g gain el p s)" "keeps_elements s (resume_settled g t el s)"
  by (auto simp: keep_simps activation_settled_def resume_settled_def finish_subscription_def dest: remove1_Resume)

lemma keeps_token: "keeps_elements s (token_settled g tok s)"
  by (auto simp: keep_simps token_settled_def connect_failed_def connect_finally_def dest: remove1_Resume split: option.split)

lemma keeps_room: "keeps_elements s (room_connect_settled g success s)"
  by (auto simp: keep_simps room_connect_settled_def connect_failed_def connect_finally_def dest: remove1_Resume split: option.split)

lemma keeps_mic: "keeps_elements s (microphone_settled g mic s)"
  by (auto simp: keep_simps microphone_settled_def connect_failed_def connect_finally_def dest: remove1_Resume
      split: option.split ext.split)

lemma keeps_plain: "keeps_elements s (toggle_mute s)" "keeps_elements s (s\<lparr>lk_isHandsFree := b\<rparr>)"
  "keeps_elements s (handle_speech_start s)" "keeps_elements s (handle_speech_end sp s)"
  "keeps_elements s (handle_interruption conn s)" "keeps_elements s (unmute_assistant s)" "keeps_elements s (retry_playback s)"
  "keeps_elements s (element_played g t gain s)" "keeps_elements s (element_stopped g t s)" "keeps_elements s (timer_fired conn s)"
  by (auto simp: keep_simps toggle_mute_def handle_speech_start_def handle_speech_end_def handle_interruption_def
      send_data_message_def unmute_assistant_def retry_playback_def element_played_def element_stopped_def timer_fired_def
      fail_current_session_def split: option.split)

lemma keeps_data: "keeps_elements s (data_received g packet new_id clock s)"
  by (auto simp: keep_simps data_received_def fail_current_session_def add_transcript_def split: ext.split option.split)

lemma keeps_other_events: "keeps_elements s (set_status st s)" "keeps_elements s (room_reconnected s)"
  "keeps_elements s (room_disconnected g s)" "keeps_elements s (track_unsubscribed t audio conn s)"
  "keeps_elements s (active_speakers_changed sp s)"
  by (auto simp: keep_simps room_reconnected_def room_disconnected_def track_unsubscribed_def active_speakers_changed_def
      split: option.split)

lemma elements_ok_subscribed: "elements_ok s \<Longrightarrow> g = lk_generation s \<Longrightarrow> elements_ok (track_subscribed g t audio c u s)"
  by (auto simp: elements_ok_def track_subscribed_def finish_subscription_def lk_plain less_Suc_eq intro!: trans_less_add2)

lemma keeps_refl: "keeps_elements s s"
  by (simp add: keeps_elements_def)

lemma elements_ok_event: "elements_ok s \<Longrightarrow> elements_ok (handle_room_event g ev s)"
  using elements_ok_subscribed [of s g] keeps_other_events [of s] keeps_data [of s]
  by (auto simp: handle_room_event_def is_current_def is_current_session_generation_def intro: keeps_elements_ok
      split: room_event.split)

interpretation livekit_elements: machine lk_step "\<lambda>s. lk_ok s \<and> elements_ok s"
proof
  fix s e
  assume ok: "lk_ok s \<and> elements_ok s"
  have "elements_ok (lk_step s e)"
  proof (cases e)
    case (From_Room g ev)
    then show ?thesis using ok elements_ok_event by simp
  qed (use ok keeps_elements_ok [of s "lk_step s e"] keeps_connect keeps_failed(4) keeps_plain keeps_audio keeps_token keeps_room
      keeps_mic in simp_all)
  then show "lk_ok (lk_step s e) \<and> elements_ok (lk_step s e)" using ok livekit_session.inv_step by blast
qed

lemma elements_run_ok: "elements_ok (run lk_step lk_init es)"
  using livekit_elements.inv_run [of lk_init es] lk_ok_init by (simp add: elements_ok_def lk_init_def)

section \<open>Replaced sessions\<close>

lemma stale_not_current: "g \<noteq> lk_generation s \<Longrightarrow> \<not> is_current g s"
  by (simp add: is_current_def is_current_session_generation_def)

text \<open>C18. A replaced session is inert: once the generation has moved on, nothing that an older run still
receives - events of its room, of its audio element, the answers it awaits, the end of its playback
activation, the resumption of the audio context a subscription waits for - changes the session shown now. At most the
awaited answer is used up, the old room is told to disconnect, and the old subscription pauses the element it made, which is
not the one in use.\<close>

theorem stale_sessions_are_inert:
  assumes "s = run lk_step lk_init es" and "g \<noteq> lk_generation s"
  shows "lk_step s (From_Room g ev) = s \<and> lk_step s (Element_Played g t gain) = s
    \<and> lk_step s (Element_Stopped g t) = s
    \<and> (\<exists>ks. lk_step s (Token_Settled g tok) = s\<lparr>lk_pending := ks\<rparr>)
    \<and> (\<exists>ks fx. lk_step s (Room_Connect_Settled g success) = s\<lparr>lk_pending := ks, lk_effects := lk_effects s @ fx\<rparr>
         \<and> set fx \<subseteq> {Room_Disconnect g})
    \<and> (\<exists>ks fx. lk_step s (Microphone_Settled g mic) = s\<lparr>lk_pending := ks, lk_effects := lk_effects s @ fx\<rparr>
         \<and> set fx \<subseteq> {Room_Disconnect g})
    \<and> (\<exists>ks. lk_step s (Activation_Settled g gain el p) = s\<lparr>lk_pending := ks\<rparr>)
    \<and> (\<exists>ks fx. lk_step s (Resume_Settled g t el) = s\<lparr>lk_pending := ks, lk_effects := lk_effects s @ fx\<rparr>
         \<and> (fx = [] \<or> fx = [Pause_Element el] \<and> lk_audioElement s \<noteq> Some el))"
proof -
  have "lk_flow_ok s" using lk_run_ok [of es] assms(1) by (simp add: lk_ok_def)
  then have inf: "lk_connectInFlight s \<noteq> Some g" using assms(2) by (auto simp: lk_flow_ok_def)
  have cur: "\<not> is_current g s" by (rule stale_not_current [OF assms(2)])
  have cur': "\<not> is_current g (s\<lparr>lk_pending := ks\<rparr>)" for ks
    using cur by (simp add: is_current_def)
  have id: "s = s\<lparr>lk_pending := lk_pending s\<rparr>" "s = s\<lparr>lk_pending := lk_pending s, lk_effects := lk_effects s @ []\<rparr>"
    by simp_all
  have fin: "connect_finally g (s\<lparr>lk_pending := ks\<rparr>) = s\<lparr>lk_pending := ks\<rparr>"
    "connect_finally g (s\<lparr>lk_pending := ks, lk_effects := fx\<rparr>) = s\<lparr>lk_pending := ks, lk_effects := fx\<rparr>" for ks fx
    using inf by (simp_all add: connect_finally_def)
  have failed: "connect_failed g (s\<lparr>lk_pending := ks\<rparr>) = s\<lparr>lk_pending := ks\<rparr>" for ks
    using assms(2) by (simp add: connect_failed_def is_current_session_generation_def)
  have a: "\<exists>ks. lk_step s (Token_Settled g tok) = s\<lparr>lk_pending := ks\<rparr>"
  proof (cases "K_Token g \<in> set (lk_pending s)")
    case False
    then show ?thesis using id(1) by (intro exI [of _ "lk_pending s"]) (simp add: token_settled_def)
  next
    case True
    then show ?thesis using assms(2)
      by (intro exI [of _ "remove1 (K_Token g) (lk_pending s)"])
        (simp add: token_settled_def resume_def failed fin is_current_session_generation_def Let_def split: option.split)
  qed
  have b: "\<exists>ks fx. lk_step s (Room_Connect_Settled g success) = s\<lparr>lk_pending := ks, lk_effects := lk_effects s @ fx\<rparr>
         \<and> set fx \<subseteq> {Room_Disconnect g}"
  proof (cases "K_Connect g \<in> set (lk_pending s)")
    case False
    then show ?thesis using id(2) by (intro exI [of _ "lk_pending s"] exI [of _ "[]"]) (simp add: room_connect_settled_def)
  next
    case True
    then show ?thesis
      by (intro exI [of _ "remove1 (K_Connect g) (lk_pending s)"]
          exI [of _ "if success then [Room_Disconnect g] else []"])
        (simp add: room_connect_settled_def resume_def emit_def failed fin cur' Let_def subset_iff)
  qed
  have c: "\<exists>ks fx. lk_step s (Microphone_Settled g mic) = s\<lparr>lk_pending := ks, lk_effects := lk_effects s @ fx\<rparr>
         \<and> set fx \<subseteq> {Room_Disconnect g}"
  proof (cases "K_Microphone g \<in> set (lk_pending s)")
    case False
    then show ?thesis using id(2) by (intro exI [of _ "lk_pending s"] exI [of _ "[]"]) (simp add: microphone_settled_def)
  next
    case True
    then show ?thesis
      by (intro exI [of _ "remove1 (K_Microphone g) (lk_pending s)"]
          exI [of _ "if is_ret mic then [Room_Disconnect g] else []"])
        (cases mic; simp add: microphone_settled_def resume_def emit_def failed fin cur' Let_def)
  qed
  have d: "\<exists>ks. lk_step s (Activation_Settled g gain el p) = s\<lparr>lk_pending := ks\<rparr>"
  proof (cases "K_Activate g gain el \<in> set (lk_pending s)")
    case False
    then show ?thesis using id(1) by (intro exI [of _ "lk_pending s"]) (simp add: activation_settled_def)
  next
    case True
    then show ?thesis using assms(2)
      by (intro exI [of _ "remove1 (K_Activate g gain el) (lk_pending s)"])
        (simp add: activation_settled_def resume_def is_current_session_generation_def Let_def)
  qed
  have e: "\<exists>ks fx. lk_step s (Resume_Settled g t el) = s\<lparr>lk_pending := ks, lk_effects := lk_effects s @ fx\<rparr>
         \<and> (fx = [] \<or> fx = [Pause_Element el] \<and> lk_audioElement s \<noteq> Some el)"
  proof (cases "K_Resume g t el \<in> set (lk_pending s)")
    case False
    then show ?thesis using id(2) by (intro exI [of _ "lk_pending s"] exI [of _ "[]"]) (simp add: resume_settled_def)
  next
    case True
    then have "lk_audioElement s \<noteq> Some el"
      using elements_run_ok [of es] assms by (auto simp: elements_ok_def)
    with True show ?thesis
      by (intro exI [of _ "remove1 (K_Resume g t el) (lk_pending s)"] exI [of _ "[Pause_Element el]"])
        (simp add: resume_settled_def finish_subscription_def resume_def emit_def cur')
  qed
  show ?thesis
    using a b c d e cur by (simp add: handle_room_event_def element_played_def element_stopped_def)
qed

definition demo_start :: "lk_event list" where
  "demo_start = [Connect ''session-1'', Token_Settled 1 (Ret (True, Ret (JObj [(''token'', JStr ''t''), (''ws_url'', JStr ''w'')])))]"

definition demo_live :: "lk_event list" where
  "demo_live = demo_start @ [Room_Connect_Settled 1 True, From_Room 1 (Ev_Track_Subscribed 7 True False False)]"

theorem stale_sessions_are_inert_witness:
  "let s = run lk_step lk_init (demo_start @ [Disconnect, Connect ''session-2'']) in
     lk_generation s = 3 \<and> lk_step s (From_Room 1 Ev_Disconnected) = s"
proof -
  let ?es = "demo_start @ [Disconnect, Connect ''session-2'']"
  have g: "lk_generation (run lk_step lk_init ?es) = 3"
    by (simp add: run_append demo_start_def lk_init_def connect_def token_settled_def token_of_def disconnect_def lk_plain
        split: option.split)
  then have "1 \<noteq> lk_generation (run lk_step lk_init ?es)" by simp
  from stale_sessions_are_inert [OF refl this, of Ev_Disconnected] g show ?thesis unfolding Let_def by blast
qed

section \<open>Where the hook falls short\<close>

text \<open>The periodic heartbeat of a healthy agent.\<close>

definition heartbeat :: "string \<Rightarrow> int \<Rightarrow> int \<Rightarrow> jsval" where
  "heartbeat sid n time =
     JObj [(''type'', JStr ''agent_heartbeat''), (''state'', JStr ''ready''), (''session_id'', JStr sid),
           (''sequence'', JNum n), (''timestamp'', JNum time)]"

lemma parse_heartbeat:
  "parse_agent_lifecycle_message (heartbeat sid n time) =
     Some \<lparr>am_heartbeat = True, am_state = Ready, am_sessionId = sid, am_sequence = JNum n, am_timestamp = JNum time\<rparr>"
  by (simp add: parse_agent_lifecycle_message_def heartbeat_def agent_lifecycle_states_def)

text \<open>A heartbeat swallows the next barge-in. While the assistant speaks, an interruption tells the
agent to stop (\<open>response.cancel\<close>) and marks the message; but a heartbeat that arrives first clears
the speaking flag although the assistant is still speaking, and the same interruption then does
nothing at all.\<close>

theorem heartbeat_swallows_interruption:
  assumes "is_current g s" "lk_isBotSpeaking s" "lk_sessionId s = Some sid"
  shows "Publish_Data g (JObj [(''type'', JStr ''response.cancel'')]) \<in> set (lk_effects (lk_step s (Interruption True)))
    \<and> lk_step (lk_step s (From_Room g (Ev_Data (Ret (heartbeat sid n time)) i c))) (Interruption True)
        = lk_step s (From_Room g (Ev_Data (Ret (heartbeat sid n time)) i c))"
  using assms
  by (simp add: handle_room_event_def data_received_def parse_heartbeat handle_interruption_def
      send_data_message_def is_current_def emit_def set_status_def Let_def)

text \<open>Playback activation unmutes the assistant over a speaking user. The guard "never unmute while the
user is speaking" is tested before the activation awaits the browser and not after it: when speech
starts in between and the activation succeeds, the gain is set to 1 while the user speaks.\<close>

theorem activation_unmutes_speaking_user:
  assumes "K_Activate (lk_generation s) gain el \<in> set (lk_pending s)" "lk_audioElement s = Some el"
    and "activate_audio_playback p"
  shows "let s' = lk_step (lk_step s Speech_Start) (Activation_Settled (lk_generation s) gain el p) in
    lk_isUserSpeaking s' \<and> lk_effects s' = lk_effects s @ [Unmute gain]"
  using assms
  by (simp add: handle_speech_start_def activation_settled_def lk_plain)

text \<open>The heartbeat watchdog is lost across a reconnect. When it fires while the room is reconnecting
it neither fails the session nor is set again, also not by \<open>Reconnected\<close>: until some agent message
arrives no timer is running, so a session whose agent died is held for good.\<close>

theorem watchdog_lost_in_reconnect:
  assumes "is_current r s" "lk_timer s = Some r" "lk_timerLive s"
  shows "let s' = lk_step (lk_step s (Timer_Fired False)) (From_Room r Ev_Reconnected) in
    lk_room s' = Some r \<and> \<not> lk_timerLive s' \<and> lk_step s' (Timer_Fired conn) = s'"
  using assms
  by (simp add: timer_fired_def handle_room_event_def is_current_def room_reconnected_def lk_plain)

definition demo_state :: lk where
  "demo_state = run lk_step lk_init demo_live"

definition playing :: playback where
  "playing = \<lparr>pb_state = Ctx_Running, pb_resumes = True, pb_stateAfter = Ctx_Running, pb_plays = True\<rparr>"

lemma demo_state_facts:
  "is_current 1 demo_state" "lk_sessionId demo_state = Some ''session-1''" "lk_timer demo_state = Some 1"
  "lk_timerLive demo_state" "lk_generation demo_state = 1" "lk_audioElement demo_state = Some 0"
  "K_Activate 1 3 0 \<in> set (lk_pending demo_state)"
  by (simp_all add: demo_state_def demo_live_def demo_start_def lk_init_def connect_def token_settled_def token_of_def
      room_connect_settled_def handle_room_event_def track_subscribed_def finish_subscription_def is_current_def
      activation_conts_def lk_plain)

theorem heartbeat_swallows_interruption_witness:
  "let s = demo_state\<lparr>lk_isBotSpeaking := True\<rparr> in
     lk_step (lk_step s (From_Room 1 (Ev_Data (Ret (heartbeat ''session-1'' 5 6)) [] []))) (Interruption True)
        = lk_step s (From_Room 1 (Ev_Data (Ret (heartbeat ''session-1'' 5 6)) [] []))"
proof -
  let ?s = "demo_state\<lparr>lk_isBotSpeaking := True\<rparr>"
  have "is_current 1 ?s" "lk_isBotSpeaking ?s" "lk_sessionId ?s = Some ''session-1''"
    using demo_state_facts by (simp_all add: is_current_def)
  from heartbeat_swallows_interruption [OF this] show ?thesis unfolding Let_def by blast
qed

theorem activation_unmutes_speaking_user_witness:
  "lk_effects (lk_step (lk_step demo_state Speech_Start) (Activation_Settled 1 3 0 playing))
     = lk_effects demo_state @ [Unmute 3]"
  using activation_unmutes_speaking_user [of demo_state 3 0 playing] demo_state_facts
  by (simp add: Let_def playing_def activate_audio_playback_def del: lk_step.simps)

theorem watchdog_lost_in_reconnect_witness:
  "\<not> lk_timerLive (lk_step (lk_step demo_state (Timer_Fired False)) (From_Room 1 Ev_Reconnected))"
  using watchdog_lost_in_reconnect [of 1 demo_state True] demo_state_facts by (simp add: Let_def del: lk_step.simps)

end
