(* ===== verification/Pcm_Audio.thy ===== *)
theory Pcm_Audio
  imports Prelude "HOL-Library.Word"
begin

text \<open>
  \<open>connector/pcm16-frame-assembler.mjs\<close>, \<open>connector/pcm16-livekit-resampler.mjs\<close> and the sample
  conversion of \<open>connector/threecx-livekit-media-bridge.mjs\<close>: the audio path of the connector. Bytes
  are 8-bit words, samples 16-bit words. Numbers of the constructors are exact (their products stay
  far below \<open>2 ^ 53\<close> for any real sample rate). The native Sox resampler is a parameter: the frames it
  returns are given to the operation that consumes them.
\<close>

unbundle bit_operations_syntax

type_synonym byte = "8 word"
type_synonym sample = "16 word"

named_theorems audio_simps \<open>unfolding of the audio operations\<close>

section \<open>Frame assembler\<close>

record assembler =
  pa_sampleRate :: int
  pa_channels :: int
  pa_frameDurationMs :: int
  pa_frameBytes :: nat
  pa_maxBufferedBytes :: nat
  pa_pending :: "byte list"

fun positive_int :: "jsval \<Rightarrow> bool" where
  "positive_int (JNum n) = (n > 0)"
| "positive_int _ = False"

lemma positive_int_iff: "positive_int v \<longleftrightarrow> (\<exists>n>0. v = JNum n)"
  by (cases v) auto

fun int_of :: "jsval \<Rightarrow> int" where
  "int_of (JNum n) = n"
| "int_of _ = 0"

definition default_to :: "int \<Rightarrow> jsval \<Rightarrow> jsval" where
  "default_to d v = (if v = JUndef then JNum d else v)"

definition new_assembler :: "jsval \<Rightarrow> jsval \<Rightarrow> jsval \<Rightarrow> jsval \<Rightarrow> assembler ext" where
  "new_assembler sample_rate chans frame_ms max_ms =
     (let c = default_to 1 chans; f = default_to 20 frame_ms; m = default_to 200 max_ms in
      if \<not> positive_int sample_rate then Throw ''sampleRate must be a positive integer''
      else if \<not> positive_int c then Throw ''channels must be a positive integer''
      else if \<not> positive_int f then Throw ''frameDurationMs must be a positive integer''
      else if the_int m = None \<or> int_of m < int_of f then Throw ''maxBufferedMs must be at least one frame''
      else if (int_of sample_rate * int_of f) mod 1000 \<noteq> 0
      then Throw ''frame duration must contain an integer number of samples''
      else Ret \<lparr>pa_sampleRate = int_of sample_rate, pa_channels = int_of c, pa_frameDurationMs = int_of f,
             pa_frameBytes = nat (int_of sample_rate * int_of f div 1000 * int_of c * 2),
             pa_maxBufferedBytes = nat (int_of sample_rate * int_of c * 2 * int_of m div 1000),
             pa_pending = []\<rparr>)"

text \<open>The loop over complete frames, and what is left.\<close>

function frames :: "nat \<Rightarrow> 'a list \<Rightarrow> 'a list list" where
  "frames n xs = (if n = 0 \<or> length xs < n then [] else take n xs # frames n (drop n xs))"
  by pat_completeness auto
termination by (relation "measure (\<lambda>(n, xs). length xs)") auto

declare frames.simps [simp del]

definition cut :: "nat \<Rightarrow> 'a list \<Rightarrow> 'a list list \<times> 'a list" where
  "cut n xs = (let c = length xs - length xs mod n in (frames n (take c xs), drop c xs))"

text \<open>\<open>push\<close>; \<open>None\<close> is a chunk that is neither a \<open>Buffer\<close> nor a \<open>Uint8Array\<close>.\<close>

definition push :: "byte list option \<Rightarrow> assembler \<Rightarrow> byte list list ext \<times> assembler" where
  "push chunk a =
     (case chunk of
        None \<Rightarrow> (Throw ''PCM chunk must be a Buffer or Uint8Array'', a)
      | Some bs \<Rightarrow>
          if bs = [] then (Ret [], a)
          else if length (pa_pending a) + length bs > pa_maxBufferedBytes a
          then (Throw ''PCM input exceeded the configured buffering limit'', a)
          else (case cut (pa_frameBytes a) (pa_pending a @ bs) of
              (fs, rest) \<Rightarrow> (Ret fs, a\<lparr>pa_pending := rest\<rparr>)))"

definition reset_assembler :: "assembler \<Rightarrow> nat \<times> assembler" where
  "reset_assembler a = (length (pa_pending a), a\<lparr>pa_pending := []\<rparr>)"

text \<open>A whole stream: the frames put out and the chunks taken in (a rejected chunk is neither).\<close>

fun feed :: "byte list list \<Rightarrow> assembler \<Rightarrow> byte list list \<times> byte list list \<times> assembler" where
  "feed [] a = ([], [], a)"
| "feed (c # cs) a =
     (case push (Some c) a of
        (Ret fs, a') \<Rightarrow> (case feed cs a' of (out, used, a'') \<Rightarrow> (fs @ out, c # used, a''))
      | (Throw _, a') \<Rightarrow> feed cs a')"

lemma concat_frames: "n \<noteq> 0 \<Longrightarrow> length xs mod n = 0 \<Longrightarrow> concat (frames n xs) = xs"
proof (induction n xs rule: frames.induct)
  case (1 n xs)
  show ?case
  proof (cases "length xs < n")
    case True
    then have "xs = []" using 1 by simp
    then show ?thesis by (simp add: frames.simps)
  next
    case False
    then have "length (drop n xs) mod n = 0" using 1 by (simp add: mod_if [of "length xs"])
    then show ?thesis using 1 False by (subst frames.simps) simp
  qed
qed

lemma frames_length: "x \<in> set (frames n xs) \<Longrightarrow> length x = n"
proof (induction n xs rule: frames.induct)
  case (1 n xs)
  then show ?case by (subst (asm) (2) frames.simps) (auto split: if_splits)
qed

definition assembler_ok :: "assembler \<Rightarrow> bool" where
  "assembler_ok a \<longleftrightarrow> 0 < pa_frameBytes a \<and> length (pa_pending a) < pa_frameBytes a
     \<and> pa_frameBytes a \<le> pa_maxBufferedBytes a"

lemma cut_props:
  assumes "0 < n" "cut n xs = (fs, rest)"
  shows "concat fs @ rest = xs" "list_all (\<lambda>f. length f = n) fs" "length rest < n"
proof -
  let ?c = "length xs - length xs mod n"
  have c: "?c mod n = 0" "?c \<le> length xs" by simp_all
  have fs: "fs = frames n (take ?c xs)" and rest: "rest = drop ?c xs"
    using assms(2) by (simp_all add: cut_def Let_def)
  have "concat fs = take ?c xs"
    unfolding fs using assms(1) c by (intro concat_frames) (simp_all add: min_absorb2)
  then show "concat fs @ rest = xs" using rest by simp
  show "list_all (\<lambda>f. length f = n) fs" using frames_length fs by (auto simp: list_all_iff)
  show "length rest < n" using assms(1) rest by simp
qed

lemma push_cases:
  assumes "assembler_ok a"
  obtains (throws) m where "push c a = (Throw m, a)"
  | (accepts) bs fs rest where "c = Some bs" "push c a = (Ret fs, a\<lparr>pa_pending := rest\<rparr>)"
      "concat fs @ rest = pa_pending a @ bs" "list_all (\<lambda>f. length f = pa_frameBytes a) fs"
      "length rest < pa_frameBytes a" "length (pa_pending a) + length bs \<le> max (pa_maxBufferedBytes a) (length (pa_pending a))"
proof (cases c)
  case None
  then show ?thesis by (intro throws) (simp add: push_def)
next
  case (Some bs)
  have n: "0 < pa_frameBytes a" and p: "length (pa_pending a) < pa_frameBytes a"
    using assms by (simp_all add: assembler_ok_def)
  obtain fs rest where ct: "cut (pa_frameBytes a) (pa_pending a @ bs) = (fs, rest)" by fastforce
  consider "bs = []" | "bs \<noteq> []" "length (pa_pending a) + length bs > pa_maxBufferedBytes a"
    | "bs \<noteq> []" "length (pa_pending a) + length bs \<le> pa_maxBufferedBytes a" by fastforce
  then show ?thesis
  proof cases
    case 1
    then show ?thesis using p Some by (intro accepts [of bs "[]" "pa_pending a"]) (simp_all add: push_def)
  next
    case 2
    then show ?thesis using Some by (intro throws) (simp add: push_def)
  next
    case 3
    then show ?thesis using cut_props [OF n ct] Some ct
      by (intro accepts [of bs fs rest]) (simp_all add: push_def)
  qed
qed

lemma push_ok: "assembler_ok a \<Longrightarrow> assembler_ok (snd (push c a))"
  using push_cases [of a c "assembler_ok (snd (push c a))"] by (auto simp: assembler_ok_def)

interpretation assembler_machine: machine "\<lambda>a c. snd (push c a)" assembler_ok
  by unfold_locales (rule push_ok)

lemma feed_stream:
  assumes "assembler_ok a" "feed cs a = (out, used, a')"
  shows "concat out @ pa_pending a' = pa_pending a @ concat used \<and> assembler_ok a'
    \<and> list_all (\<lambda>f. length f = pa_frameBytes a) out \<and> pa_frameBytes a' = pa_frameBytes a"
  using assms
proof (induction cs arbitrary: a out used)
  case Nil
  then show ?case by simp
next
  case (Cons c cs)
  show ?case
  proof (rule push_cases [OF Cons.prems(1), of "Some c"])
    fix m
    assume "push (Some c) a = (Throw m, a)"
    then show ?thesis using Cons by simp
  next
    fix bs fs rest
    assume h: "Some c = Some bs" "push (Some c) a = (Ret fs, a\<lparr>pa_pending := rest\<rparr>)"
      "concat fs @ rest = pa_pending a @ bs" "list_all (\<lambda>f. length f = pa_frameBytes a) fs"
      "length rest < pa_frameBytes a"
    have ok: "assembler_ok (a\<lparr>pa_pending := rest\<rparr>)" using h(5) Cons.prems(1) by (simp add: assembler_ok_def)
    obtain out' used' where f: "feed cs (a\<lparr>pa_pending := rest\<rparr>) = (out', used', a')"
      and o: "out = fs @ out'" "used = bs # used'"
      using Cons.prems(2) h(1,2) by (auto split: prod.splits)
    note ih = Cons.IH [OF ok f]
    have "concat fs @ rest @ concat used' = pa_pending a @ bs @ concat used'"
      using h(3) by (metis append_assoc)
    then show ?thesis using ih o h(4) by simp
  qed
qed

lemma whole_ms: "(x :: int) mod 1000 = 0 \<Longrightarrow> 0 < x \<Longrightarrow> 0 < x div 1000"
  by (simp add: pos_imp_zdiv_pos_iff mod_0_imp_dvd zdvd_imp_le)

lemma new_assembler_ok:
  assumes "new_assembler sr ch fm mm = Ret a"
  shows "assembler_ok a \<and> pa_pending a = []"
proof -
  obtain r c f m where v: "sr = JNum r" "default_to 1 ch = JNum c" "default_to 20 fm = JNum f"
      "default_to 200 mm = JNum m" "0 < r" "0 < c" "0 < f" "f \<le> m" "r * f mod 1000 = 0"
    and a: "pa_frameBytes a = nat (r * f div 1000 * c * 2)" "pa_maxBufferedBytes a = nat (r * c * 2 * m div 1000)"
      "pa_pending a = []"
  proof -
    have g: "positive_int sr" "positive_int (default_to 1 ch)" "positive_int (default_to 20 fm)"
      "\<exists>m. default_to 200 mm = JNum m"
      using assms by (simp_all add: new_assembler_def Let_def split: if_splits)
    then obtain r c f m where v: "sr = JNum r" "default_to 1 ch = JNum c" "default_to 20 fm = JNum f"
      "default_to 200 mm = JNum m" "0 < r" "0 < c" "0 < f" by (auto simp: positive_int_iff)
    then show thesis using assms by (intro that [of r c f m]) (auto simp: new_assembler_def Let_def split: if_splits)
  qed
  have "0 < r * f" using v by simp
  then have q: "0 < r * f div 1000" by (rule whole_ms [OF v(9)])
  then have "0 < r * f div 1000 * c * 2" using v(6) by simp
  moreover have "r * f div 1000 * c * 2 = r * c * 2 * f div 1000"
  proof -
    obtain k where k: "r * f = 1000 * k" using v(9) by (auto simp: mod_eq_0_iff_dvd)
    have "r * c * 2 * f = 2 * c * (r * f)" by (simp add: algebra_simps)
    then have "r * c * 2 * f = 1000 * (k * c * 2)" using k by simp
    note e = this
    show ?thesis unfolding e k by simp
  qed
  moreover have "r * c * 2 * f div 1000 \<le> r * c * 2 * m div 1000"
    using v by (intro zdiv_mono1) simp_all
  ultimately have "0 < nat (r * f div 1000 * c * 2)"
      "nat (r * f div 1000 * c * 2) \<le> nat (r * c * 2 * m div 1000)"
    by (simp_all only: nat_mono zero_less_nat_eq)
  then show ?thesis using a by (simp add: assembler_ok_def)
qed

section \<open>Samples and bytes\<close>

text \<open>\<open>int16ToPcm16le\<close> (\<open>writeInt16LE\<close> per sample) and the \<open>readInt16LE\<close> loop of the resampler.\<close>

definition sample_bytes :: "sample \<Rightarrow> byte list" where
  "sample_bytes w = [ucast w, ucast (drop_bit 8 w)]"

definition int16_to_pcm16le :: "sample list \<Rightarrow> byte list" where
  "int16_to_pcm16le ss = concat (map sample_bytes ss)"

definition sample_of :: "byte \<Rightarrow> byte \<Rightarrow> sample" where
  "sample_of lo hi = ucast lo OR push_bit 8 (ucast hi)"

fun read_samples :: "byte list \<Rightarrow> sample list" where
  "read_samples (lo # hi # bs) = sample_of lo hi # read_samples bs"
| "read_samples _ = []"

lemma sample_of_bytes: "sample_of (ucast w) (ucast (drop_bit 8 w)) = w"
  unfolding sample_of_def
  by (rule bit_word_eqI) (auto simp: bit_simps)

lemma high_bit: "\<not> bit (lo :: byte) (8 + n)"
  using bit_imp_le_length [of lo "8 + n"] by auto

lemma bytes_of_sample: "sample_bytes (sample_of lo hi) = [lo, hi]"
  unfolding sample_bytes_def sample_of_def
  by (auto intro!: bit_word_eqI simp: bit_simps high_bit)

lemma read_written: "read_samples (int16_to_pcm16le ss) = ss"
  by (induction ss) (simp_all add: int16_to_pcm16le_def sample_bytes_def sample_of_bytes)

lemma written_read: "even (length bs) \<Longrightarrow> int16_to_pcm16le (read_samples bs) = bs"
  by (induction bs rule: read_samples.induct) (simp_all add: int16_to_pcm16le_def bytes_of_sample)

lemma length_written: "length (int16_to_pcm16le ss) = 2 * length ss"
  by (induction ss) (simp_all add: int16_to_pcm16le_def sample_bytes_def)

section \<open>Resampler\<close>

record native_frame =
  nf_sampleRate :: int
  nf_channels :: int
  nf_data :: "sample list"

record out_frame =
  of_data :: "sample list"
  of_samplesPerChannel :: rat

record resampler =
  rs_inputRate :: int
  rs_outputRate :: int
  rs_channels :: int
  rs_frameDurationMs :: int
  rs_inputFrameSamples :: nat
  rs_outputFrameSamples :: nat
  rs_maxBufferedSamples :: nat
  rs_pending :: "sample list"
  rs_closed :: bool

definition new_resampler :: "jsval \<Rightarrow> jsval \<Rightarrow> jsval \<Rightarrow> jsval \<Rightarrow> jsval \<Rightarrow> resampler ext" where
  "new_resampler input_rate output_rate chans frame_ms max_ms =
     (let c = default_to 1 chans; f = default_to 20 frame_ms; m = default_to 200 max_ms in
      case find (\<lambda>(name, v). \<not> positive_int v)
        [(''inputRate'', input_rate), (''outputRate'', output_rate), (''channels'', c), (''frameDurationMs'', f),
         (''maxBufferedMs'', m)] of
        Some (name, v) \<Rightarrow> Throw (name @ '' must be a positive integer'')
      | None \<Rightarrow>
          if int_of m < int_of f then Throw ''maxBufferedMs must be at least one frame''
          else if (int_of input_rate * int_of f) mod 1000 \<noteq> 0 \<or> (int_of output_rate * int_of f) mod 1000 \<noteq> 0
          then Throw ''frame duration must contain an integer number of samples at both rates''
          else Ret \<lparr>rs_inputRate = int_of input_rate, rs_outputRate = int_of output_rate, rs_channels = int_of c,
                 rs_frameDurationMs = int_of f,
                 rs_inputFrameSamples = nat (int_of input_rate * int_of f div 1000),
                 rs_outputFrameSamples = nat (int_of output_rate * int_of f div 1000),
                 rs_maxBufferedSamples = nat (int_of output_rate * int_of c * int_of m div 1000),
                 rs_pending = [], rs_closed = False\<rparr>)"

definition samples_per_frame :: "resampler \<Rightarrow> nat" where
  "samples_per_frame r = rs_outputFrameSamples r * nat (rs_channels r)"

definition expected_bytes :: "resampler \<Rightarrow> nat" where
  "expected_bytes r = rs_inputFrameSamples r * nat (rs_channels r) * 2"

text \<open>\<open>#consume\<close>: an exception in the middle loses the frames cut so far but keeps \<open>pending\<close>.\<close>

fun consume_loop :: "native_frame list \<Rightarrow> out_frame list \<Rightarrow> resampler \<Rightarrow> out_frame list ext \<times> resampler" where
  "consume_loop [] result r = (Ret result, r)"
| "consume_loop (fr # frs) result r =
     (if nf_sampleRate fr \<noteq> rs_outputRate r \<or> nf_channels fr \<noteq> rs_channels r
      then (Throw ''LiveKit resampler returned an unexpected audio format'', r)
      else if length (rs_pending r) + length (nf_data fr) > rs_maxBufferedSamples r
      then (Throw ''Resampler output exceeded the configured buffering limit'', r)
      else (case cut (samples_per_frame r) (rs_pending r @ nf_data fr) of
          (fs, rest) \<Rightarrow> consume_loop frs
            (result @ map (\<lambda>d. \<lparr>of_data = d, of_samplesPerChannel = of_nat (rs_outputFrameSamples r)\<rparr>) fs)
            (r\<lparr>rs_pending := rest\<rparr>)))"

definition consume :: "bool \<Rightarrow> native_frame list \<Rightarrow> resampler \<Rightarrow> out_frame list ext \<times> resampler" where
  "consume include_partial frs r =
     (case consume_loop frs [] r of
        (Throw m, r') \<Rightarrow> (Throw m, r')
      | (Ret result, r') \<Rightarrow>
          if include_partial \<and> rs_pending r' \<noteq> []
          then (Ret (result @ [\<lparr>of_data = rs_pending r',
                  of_samplesPerChannel = of_nat (length (rs_pending r')) / of_int (rs_channels r')\<rparr>]),
                r'\<lparr>rs_pending := []\<rparr>)
          else (Ret result, r'))"

text \<open>\<open>push\<close>, \<open>flush\<close> and \<open>close\<close>: \<open>native\<close> gives the frames of the native resampler, or its exception.\<close>

definition resample_push ::
    "byte list option \<Rightarrow> (sample list \<Rightarrow> native_frame list ext) \<Rightarrow> resampler \<Rightarrow> out_frame list ext \<times> resampler" where
  "resample_push buf native r =
     (if rs_closed r then (Throw ''PCM resampler is closed'', r)
      else case buf of
        None \<Rightarrow> (Throw ''PCM input must be a Buffer or Uint8Array'', r)
      | Some bs \<Rightarrow>
          if length bs \<noteq> expected_bytes r
          then (Throw (''PCM input frame must contain exactly '' @ decimal (expected_bytes r) @ '' bytes''), r)
          else (case native (read_samples bs) of
              Throw m \<Rightarrow> (Throw m, r)
            | Ret frs \<Rightarrow> consume False frs r))"

definition resample_flush :: "native_frame list ext \<Rightarrow> resampler \<Rightarrow> out_frame list ext \<times> resampler" where
  "resample_flush native r =
     (if rs_closed r then (Throw ''PCM resampler is closed'', r)
      else case native of Throw m \<Rightarrow> (Throw m, r) | Ret frs \<Rightarrow> consume True frs r)"

definition resample_close :: "native_frame list ext \<Rightarrow> resampler \<Rightarrow> out_frame list ext \<times> resampler" where
  "resample_close native r =
     (if rs_closed r then (Ret [], r)
      else case native of
        Throw m \<Rightarrow> (Throw m, r\<lparr>rs_closed := True, rs_pending := []\<rparr>)
      | Ret frs \<Rightarrow> (case consume True frs r of (res, r') \<Rightarrow> (res, r'\<lparr>rs_closed := True, rs_pending := []\<rparr>)))"

definition resampler_ok :: "resampler \<Rightarrow> bool" where
  "resampler_ok r \<longleftrightarrow> 0 < samples_per_frame r \<and> (rs_closed r \<longrightarrow> rs_pending r = [])
     \<and> length (rs_pending r) < samples_per_frame r"

text \<open>A complete output frame.\<close>

definition full_frame :: "resampler \<Rightarrow> out_frame \<Rightarrow> bool" where
  "full_frame r f \<longleftrightarrow> length (of_data f) = samples_per_frame r \<and> of_samplesPerChannel f = of_nat (rs_outputFrameSamples r)"

lemma resampler_pending [simp]:
  "samples_per_frame (r\<lparr>rs_pending := q\<rparr>) = samples_per_frame r" "full_frame (r\<lparr>rs_pending := q\<rparr>) = full_frame r"
  by (simp_all add: samples_per_frame_def full_frame_def fun_eq_iff)

lemma resampler_closed [simp]:
  "samples_per_frame (r\<lparr>rs_closed := b\<rparr>) = samples_per_frame r" "full_frame (r\<lparr>rs_closed := b\<rparr>) = full_frame r"
  by (simp_all add: samples_per_frame_def full_frame_def fun_eq_iff)

lemma consume_loop_stream:
  assumes "0 < samples_per_frame r" "consume_loop frs acc r = (res, r')"
  shows "(\<exists>q. r' = r\<lparr>rs_pending := q\<rparr> \<and> (length (rs_pending r) < samples_per_frame r \<longrightarrow> length q < samples_per_frame r))
    \<and> (\<forall>out. res = Ret out \<longrightarrow>
         concat (map of_data out) @ rs_pending r' = concat (map of_data acc) @ rs_pending r @ concat (map nf_data frs)
         \<and> (list_all (full_frame r) acc \<longrightarrow>
              list_all (full_frame r) out))"
  using assms
proof (induction frs arbitrary: acc r)
  case Nil
  then show ?case by (auto intro: exI [of _ "rs_pending r"])
next
  case (Cons fr frs)
  obtain fs rest where ct: "cut (samples_per_frame r) (rs_pending r @ nf_data fr) = (fs, rest)" by fastforce
  note cp = cut_props [OF Cons.prems(1) ct]
  show ?case
  proof (cases "nf_sampleRate fr \<noteq> rs_outputRate r \<or> nf_channels fr \<noteq> rs_channels r
      \<or> length (rs_pending r) + length (nf_data fr) > rs_maxBufferedSamples r")
    case True
    then show ?thesis using Cons.prems(2)
      by (auto intro: exI [of _ "rs_pending r"] split: if_splits)
  next
    case False
    let ?r = "r\<lparr>rs_pending := rest\<rparr>"
    let ?fs = "map (\<lambda>d. \<lparr>of_data = d, of_samplesPerChannel = of_nat (rs_outputFrameSamples r)\<rparr>) fs"
    have spf: "samples_per_frame ?r = samples_per_frame r" by (simp add: samples_per_frame_def)
    have step: "consume_loop frs (acc @ ?fs) ?r = (res, r')" using Cons.prems(2) False ct by simp
    have c: "concat (map of_data ?fs) = concat fs" by (simp add: comp_def)
    have l: "list_all (full_frame r) ?fs" using cp(2) by (simp add: list_all_iff full_frame_def)
    from Cons.IH [OF _ step] Cons.prems(1)
    have ih: "(\<exists>q. r' = ?r\<lparr>rs_pending := q\<rparr> \<and> (length rest < samples_per_frame r \<longrightarrow> length q < samples_per_frame r))
      \<and> (\<forall>out. res = Ret out \<longrightarrow>
         concat (map of_data out) @ rs_pending r' = concat (map of_data (acc @ ?fs)) @ rest @ concat (map nf_data frs)
         \<and> (list_all (full_frame r) (acc @ ?fs) \<longrightarrow>
              list_all (full_frame r) out))"
      by (simp add: spf)
    have "concat (map of_data (acc @ ?fs)) @ rest @ concat (map nf_data frs)
        = concat (map of_data acc) @ (concat fs @ rest) @ concat (map nf_data frs)"
      using c by simp
    also have "\<dots> = concat (map of_data acc) @ rs_pending r @ concat (map nf_data (fr # frs))"
      unfolding cp(1) by simp
    finally have ct': "concat (map of_data (acc @ ?fs)) @ rest @ concat (map nf_data frs)
        = concat (map of_data acc) @ rs_pending r @ concat (map nf_data (fr # frs))" .
    have "\<exists>q. r' = r\<lparr>rs_pending := q\<rparr> \<and> (length (rs_pending r) < samples_per_frame r \<longrightarrow> length q < samples_per_frame r)"
      using ih cp(3) by fastforce
    moreover have "\<forall>out. res = Ret out \<longrightarrow>
         concat (map of_data out) @ rs_pending r' = concat (map of_data acc) @ rs_pending r @ concat (map nf_data (fr # frs))
         \<and> (list_all (full_frame r) acc \<longrightarrow>
              list_all (full_frame r) out)"
      using ih l unfolding ct' by simp
    ultimately show ?thesis by blast
  qed
qed

lemma new_resampler_ok:
  assumes "new_resampler ir outr ch fm mm = Ret r"
  shows "resampler_ok r \<and> \<not> rs_closed r"
proof -
  have g: "positive_int ir" "positive_int outr" "positive_int (default_to 1 ch)" "positive_int (default_to 20 fm)"
    using assms by (auto simp: new_resampler_def Let_def split: option.splits if_splits)
  then obtain i n c f where v: "outr = JNum n" "default_to 1 ch = JNum c" "default_to 20 fm = JNum f"
      "0 < n" "0 < c" "0 < f" by (auto simp: positive_int_iff)
  have m: "n * f mod 1000 = 0" and r: "rs_outputFrameSamples r = nat (n * f div 1000)" "rs_channels r = c"
      "rs_pending r = []" "\<not> rs_closed r"
    using assms v by (auto simp: new_resampler_def Let_def split: option.splits if_splits)
  have "0 < n * f" using v by simp
  from whole_ms [OF m this] show ?thesis using r v by (simp add: resampler_ok_def samples_per_frame_def)
qed

text \<open>A use of the resampler: frames pushed, flushed and the close, each with the answer of the native resampler. A run ends
at the first operation that throws; otherwise it yields what the native resampler put out and what was emitted.\<close>

datatype resampler_op =
    Rs_Push "byte list option" "sample list \<Rightarrow> native_frame list ext"
  | Rs_Flush "native_frame list ext"
  | Rs_Close "native_frame list ext"

fun resample_op :: "resampler_op \<Rightarrow> resampler \<Rightarrow> out_frame list ext \<times> resampler" where
  "resample_op (Rs_Push buf native) r = resample_push buf native r"
| "resample_op (Rs_Flush native) r = resample_flush native r"
| "resample_op (Rs_Close native) r = resample_close native r"

fun native_output :: "resampler_op \<Rightarrow> native_frame list" where
  "native_output (Rs_Push (Some bs) native) = (case native (read_samples bs) of Ret frs \<Rightarrow> frs | Throw _ \<Rightarrow> [])"
| "native_output (Rs_Push None native) = []"
| "native_output (Rs_Flush native) = (case native of Ret frs \<Rightarrow> frs | Throw _ \<Rightarrow> [])"
| "native_output (Rs_Close native) = (case native of Ret frs \<Rightarrow> frs | Throw _ \<Rightarrow> [])"

fun resample_all :: "resampler_op list \<Rightarrow> resampler \<Rightarrow> (native_frame list \<times> out_frame list) ext \<times> resampler" where
  "resample_all [] r = (Ret ([], []), r)"
| "resample_all (oper # ops) r =
     (case resample_op oper r of
        (Throw m, r') \<Rightarrow> (Throw m, r')
      | (Ret out, r') \<Rightarrow>
          (case resample_all ops r' of
             (Throw m, r'') \<Rightarrow> (Throw m, r'')
           | (Ret (ins, outs), r'') \<Rightarrow> (Ret ((if rs_closed r then [] else native_output oper) @ ins, out @ outs), r'')))"

definition is_rs_push :: "resampler_op \<Rightarrow> bool" where
  "is_rs_push oper \<longleftrightarrow> (case oper of Rs_Push _ _ \<Rightarrow> True | _ \<Rightarrow> False)"

text \<open>A frame that holds at least one sample and at most a complete frame, and names its length.\<close>

definition part_frame :: "resampler \<Rightarrow> out_frame \<Rightarrow> bool" where
  "part_frame r f \<longleftrightarrow> of_data f \<noteq> [] \<and> length (of_data f) \<le> samples_per_frame r
     \<and> of_samplesPerChannel f * of_int (rs_channels r) = of_nat (length (of_data f))"

lemma part_frame_keep [simp]:
  "part_frame (r\<lparr>rs_pending := q\<rparr>) = part_frame r" "part_frame (r\<lparr>rs_closed := b\<rparr>) = part_frame r"
  by (simp_all add: part_frame_def fun_eq_iff samples_per_frame_def)

lemma full_frame_part: "0 < samples_per_frame r \<Longrightarrow> full_frame r f \<Longrightarrow> part_frame r f"
  by (cases "of_data f") (auto simp: full_frame_def part_frame_def samples_per_frame_def of_nat_diff)

lemma consume_stream:
  assumes "resampler_ok r" "consume b frs r = (Ret out, r')"
  shows "concat (map of_data out) @ rs_pending r' = rs_pending r @ concat (map nf_data frs)
    \<and> (\<exists>q. r' = r\<lparr>rs_pending := q\<rparr> \<and> length q < samples_per_frame r) \<and> (b \<longrightarrow> rs_pending r' = [])
    \<and> list_all (part_frame r) out \<and> (\<not> b \<longrightarrow> list_all (full_frame r) out)"
proof -
  have pos: "0 < samples_per_frame r" "length (rs_pending r) < samples_per_frame r" using assms(1) by (simp_all add: resampler_ok_def)
  then have c: "0 < rs_channels r" by (simp add: samples_per_frame_def)
  obtain res r1 where l: "consume_loop frs [] r = (Ret res, r1)"
    using assms(2) by (auto simp: consume_def split: prod.splits ext.splits)
  then obtain q where q: "r1 = r\<lparr>rs_pending := q\<rparr>" "length q < samples_per_frame r"
    and st: "concat (map of_data res) @ rs_pending r1 = rs_pending r @ concat (map nf_data frs)" "list_all (full_frame r) res"
    using consume_loop_stream [OF pos(1) l] pos(2) by auto
  have "list_all (part_frame r) res" using st(2) full_frame_part [OF pos(1)] by (auto simp: list_all_iff)
  then show ?thesis
    using assms(2) l q st pos c by (auto simp: consume_def part_frame_def split: if_splits)
qed

text \<open>Frames that the adapter takes whatever it holds.\<close>

definition fits :: "resampler \<Rightarrow> native_frame \<Rightarrow> bool" where
  "fits r f \<longleftrightarrow> nf_sampleRate f = rs_outputRate r \<and> nf_channels f = rs_channels r
     \<and> samples_per_frame r + length (nf_data f) \<le> rs_maxBufferedSamples r + 1"

lemma fits_pending [simp]: "fits (r\<lparr>rs_pending := q\<rparr>) = fits r"
  by (simp add: fits_def fun_eq_iff)

lemma consume_loop_returns:
  "0 < samples_per_frame r \<Longrightarrow> length (rs_pending r) < samples_per_frame r \<Longrightarrow> list_all (fits r) frs \<Longrightarrow>
     is_ret (fst (consume_loop frs acc r))"
proof (induction frs arbitrary: acc r)
  case (Cons f frs)
  obtain fs rest where ct: "cut (samples_per_frame r) (rs_pending r @ nf_data f) = (fs, rest)" by fastforce
  have "length rest < samples_per_frame r" using cut_props(3) [OF Cons.prems(1) ct] .
  then show ?case using Cons.IH [of "r\<lparr>rs_pending := rest\<rparr>"] Cons.prems ct by (auto simp: fits_def)
qed simp

lemma consume_returns: "resampler_ok r \<Longrightarrow> list_all (fits r) frs \<Longrightarrow> is_ret (fst (consume b frs r))"
  using consume_loop_returns [of r frs "[]"]
  by (cases "consume_loop frs [] r") (auto simp: consume_def resampler_ok_def split: ext.split)

lemma resample_op_stream:
  assumes "resampler_ok r" "resample_op oper r = (Ret out, r')"
  shows "concat (map of_data out) @ rs_pending r' = rs_pending r @ concat (map nf_data (if rs_closed r then [] else native_output oper))
    \<and> r' = r\<lparr>rs_closed := rs_closed r', rs_pending := rs_pending r'\<rparr> \<and> resampler_ok r'
    \<and> list_all (part_frame r) out \<and> (if is_rs_push oper then list_all (full_frame r) out else rs_pending r' = [])"
proof -
  note ok = assms(1) [unfolded resampler_ok_def]
  show ?thesis
  proof (cases oper)
    case (Rs_Push buf native)
    then obtain bs frs where p: "\<not> rs_closed r" "buf = Some bs" "native (read_samples bs) = Ret frs" "consume False frs r = (Ret out, r')"
      using assms(2) by (auto simp: resample_push_def split: if_splits option.splits ext.splits)
    then obtain q where "r' = r\<lparr>rs_pending := q\<rparr>" "length q < samples_per_frame r"
      using consume_stream [OF assms(1) p(4)] by blast
    then show ?thesis using consume_stream [OF assms(1) p(4)] ok Rs_Push p
      by (simp add: is_rs_push_def resampler_ok_def)
  next
    case (Rs_Flush native)
    then obtain frs where p: "\<not> rs_closed r" "native = Ret frs" "consume True frs r = (Ret out, r')"
      using assms(2) by (auto simp: resample_flush_def split: if_splits ext.splits)
    then obtain q where "r' = r\<lparr>rs_pending := q\<rparr>" using consume_stream [OF assms(1) p(3)] by blast
    then show ?thesis using consume_stream [OF assms(1) p(3)] ok Rs_Flush p
      by (auto simp: is_rs_push_def resampler_ok_def)
  next
    case (Rs_Close native)
    show ?thesis
    proof (cases "rs_closed r")
      case True
      then show ?thesis using assms ok Rs_Close by (auto simp: resample_close_def is_rs_push_def )
    next
      case False
      then obtain frs r1 where p: "native = Ret frs" "consume True frs r = (Ret out, r1)" "r' = r1\<lparr>rs_closed := True, rs_pending := []\<rparr>"
        using assms(2) Rs_Close by (auto simp: resample_close_def split: ext.splits prod.splits)
      then obtain q where "r1 = r\<lparr>rs_pending := q\<rparr>" using consume_stream [OF assms(1) p(2)] by blast
      then show ?thesis using consume_stream [OF assms(1) p(2)] ok Rs_Close False p
        by (auto simp: is_rs_push_def resampler_ok_def)
    qed
  qed
qed

lemma resample_all_stream:
  assumes "resampler_ok r" "resample_all ops r = (Ret (ins, outs), r')"
  shows "concat (map of_data outs) @ rs_pending r' = rs_pending r @ concat (map nf_data ins)
    \<and> r' = r\<lparr>rs_closed := rs_closed r', rs_pending := rs_pending r'\<rparr> \<and> resampler_ok r' \<and> list_all (part_frame r) outs
    \<and> (list_all is_rs_push ops \<longrightarrow> list_all (full_frame r) outs)
    \<and> (ops \<noteq> [] \<and> \<not> is_rs_push (last ops) \<longrightarrow> rs_pending r' = [])"
  using assms
proof (induction ops arbitrary: r ins outs)
  case Nil
  then show ?case by simp
next
  case (Cons oper ops)
  obtain out r1 ins' outs' where o: "resample_op oper r = (Ret out, r1)" "resample_all ops r1 = (Ret (ins', outs'), r')"
    and eq: "ins = (if rs_closed r then [] else native_output oper) @ ins'" "outs = out @ outs'"
    using Cons.prems(2) by (auto split: prod.splits ext.splits)
  note first = resample_op_stream [OF Cons.prems(1) o(1)]
  then obtain q c where r1: "r1 = r\<lparr>rs_closed := c, rs_pending := q\<rparr>" "resampler_ok r1" by metis
  note rest = Cons.IH [OF r1(2) o(2)]
  have "concat (map of_data outs) @ rs_pending r' = concat (map of_data out) @ rs_pending r1 @ concat (map nf_data ins')"
    using rest eq by simp
  also have "\<dots> = rs_pending r @ concat (map nf_data ins)" using first eq by (metis append_assoc concat_append map_append)
  finally show ?case using first rest eq r1 o(2) by (auto split: if_splits)
qed

lemma new_resampler_empty: "new_resampler ir outr ch fm mm = Ret r \<Longrightarrow> rs_pending r = []"
  by (auto simp: new_resampler_def Let_def split: option.splits if_splits)

lemma resampler_takes_assembled:
  assumes "new_resampler in_rate out_rate chans frame_ms max_ms = Ret r" "new_assembler in_rate chans frame_ms max_ms' = Ret a"
  shows "expected_bytes r = pa_frameBytes a"
proof -
  have g: "positive_int in_rate" "positive_int (default_to 1 chans)" "positive_int (default_to 20 frame_ms)"
    using assms(2) by (simp_all add: new_assembler_def Let_def split: if_splits)
  then obtain i c f where v: "in_rate = JNum i" "default_to 1 chans = JNum c" "default_to 20 frame_ms = JNum f"
      "0 < i" "0 < c" "0 < f" by (auto simp: positive_int_iff)
  have "pa_frameBytes a = nat (i * f div 1000 * c * 2)"
    using assms(2) v by (auto simp: new_assembler_def Let_def split: if_splits)
  moreover have "expected_bytes r = nat (i * f div 1000) * nat c * 2"
    using assms(1) v by (auto simp: expected_bytes_def new_resampler_def Let_def split: option.splits if_splits)
  moreover have "0 \<le> i * f div 1000" using v by (simp add: pos_imp_zdiv_nonneg_iff)
  ultimately show ?thesis using v(5) by (simp add: nat_mult_distrib)
qed

section \<open>Claims\<close>

text \<open>C19. The frame assembler neither loses, adds nor reorders audio: for any assembler the constructor
accepts and any sequence of chunks, the frames put out followed by the buffered tail are exactly the
bytes of the accepted chunks, every frame has the configured size, the tail is shorter than a frame,
and a chunk is rejected only when it does not fit the buffer: any chunk of at most
\<open>maxBufferedBytes - frameBytes + 1\<close> bytes is accepted.\<close>

theorem assembler_preserves_stream:
  assumes "new_assembler rate chans frame_ms max_ms = Ret a" and "feed cs a = (out, used, a')"
  shows "concat out @ pa_pending a' = concat used
    \<and> list_all (\<lambda>f. length f = pa_frameBytes a) out \<and> length (pa_pending a') < pa_frameBytes a
    \<and> (length c \<le> pa_maxBufferedBytes a' - pa_frameBytes a' + 1 \<longrightarrow> is_ret (fst (push (Some c) a')))"
proof -
  have ok: "assembler_ok a" "pa_pending a = []" using new_assembler_ok [OF assms(1)] by simp_all
  have fs: "concat out @ pa_pending a' = concat used" "assembler_ok a'"
    "list_all (\<lambda>f. length f = pa_frameBytes a) out" "pa_frameBytes a' = pa_frameBytes a"
    using feed_stream [OF ok(1) assms(2)] ok(2) by simp_all
  have "is_ret (fst (push (Some c) a'))" if "length c \<le> pa_maxBufferedBytes a' - pa_frameBytes a' + 1"
    using fs(2) that by (auto simp: push_def assembler_ok_def split: prod.split)
  then show ?thesis using fs by (auto simp: assembler_ok_def)
qed

theorem assembler_preserves_stream_witness:
  "\<exists>a out used a'. new_assembler (JNum 1000) JUndef (JNum 1) (JNum 2) = Ret a
     \<and> feed [[1, 2, 3], [4], [5, 6, 7, 8, 9]] a = (out, used, a')
     \<and> concat out @ pa_pending a' = concat used \<and> out = [[1, 2], [3, 4]]"
proof -
  let ?a = "\<lparr>pa_sampleRate = 1000, pa_channels = 1, pa_frameDurationMs = 1, pa_frameBytes = 2,
    pa_maxBufferedBytes = 4, pa_pending = []\<rparr>"
  have a: "new_assembler (JNum 1000) JUndef (JNum 1) (JNum 2) = Ret ?a"
    by (simp add: new_assembler_def default_to_def)
  have f: "feed [[1, 2, 3], [4], [5, 6, 7, 8, 9]] ?a = ([[1, 2], [3, 4]], [[1, 2, 3], [4]], ?a)"
    by (simp add: push_def cut_def frames.simps)
  from assembler_preserves_stream [OF a f] show ?thesis using a f by blast
qed

text \<open>The conversion of samples to little-endian PCM bytes and back is lossless in both directions, for
every 16-bit sample including the most negative one: reading what was written gives the samples, and
writing what was read from an even number of bytes gives the bytes.\<close>

theorem pcm_conversion_round_trips:
  "read_samples (int16_to_pcm16le ss) = ss \<and> length (int16_to_pcm16le ss) = 2 * length ss
   \<and> int16_to_pcm16le (read_samples (int16_to_pcm16le ss @ concat (map (\<lambda>(lo, hi). [lo, hi]) ps)))
       = int16_to_pcm16le ss @ concat (map (\<lambda>(lo, hi). [lo, hi]) ps)"
proof -
  have "even (length (concat (map (\<lambda>(lo, hi). [lo, hi]) ps)))" by (induction ps) auto
  then have "even (length (int16_to_pcm16le ss @ concat (map (\<lambda>(lo, hi). [lo, hi]) ps)))"
    by (simp add: length_written)
  from written_read [OF this] show ?thesis by (simp only: read_written length_written simp_thms)
qed

text \<open>C20. The resampler adapter is lossless: for any resampler the constructor accepts and any sequence of pushes, flushes and
closes that return, the samples it emits followed by those it holds are exactly the samples the native resampler put out, in
order. Pushes emit complete frames only, every frame holds at least one sample, at most a complete frame, and names its
length, and after a flush or a close nothing is held. While it is open it takes each frame of an assembler with the same rate,
channels and duration, as long as the frames of the native resampler have the output format and leave room for what is held.\<close>

theorem resampler_preserves_stream:
  assumes "new_resampler in_rate out_rate chans frame_ms max_ms = Ret r" "resample_all ops r = (Ret (ins, outs), r')"
    and "new_assembler in_rate chans frame_ms max_ms' = Ret a"
  shows "concat (map of_data outs) @ rs_pending r' = concat (map nf_data ins)
    \<and> (list_all is_rs_push ops \<longrightarrow> list_all (full_frame r) outs) \<and> list_all (part_frame r) outs
    \<and> (ops \<noteq> [] \<and> \<not> is_rs_push (last ops) \<longrightarrow> rs_pending r' = [])
    \<and> (\<not> rs_closed r' \<and> length bs = pa_frameBytes a \<and> native (read_samples bs) = Ret frs \<and> list_all (fits r') frs \<longrightarrow>
         is_ret (fst (resample_push (Some bs) native r')))"
proof -
  have ok: "resampler_ok r" "rs_pending r = []" using new_resampler_ok [OF assms(1)] new_resampler_empty [OF assms(1)] by simp_all
  note st = resample_all_stream [OF ok(1) assms(2)]
  then have r': "r' = r\<lparr>rs_closed := rs_closed r', rs_pending := rs_pending r'\<rparr>" by blast
  have "expected_bytes r' = pa_frameBytes a"
    by (subst r') (use resampler_takes_assembled [OF assms(1,3)] in \<open>simp add: expected_bytes_def\<close>)
  then have "is_ret (fst (resample_push (Some bs) native r'))"
    if "\<not> rs_closed r'" "length bs = pa_frameBytes a" "native (read_samples bs) = Ret frs" "list_all (fits r') frs"
    using consume_returns [of r' frs False] st that by (simp add: resample_push_def)
  then show ?thesis using st ok(2) by simp
qed

text \<open>Frames of one sample at 1000 Hz, of two at 2000 Hz.\<close>

definition demo_resampler :: resampler where
  "demo_resampler = \<lparr>rs_inputRate = 1000, rs_outputRate = 2000, rs_channels = 1, rs_frameDurationMs = 1,
    rs_inputFrameSamples = 1, rs_outputFrameSamples = 2, rs_maxBufferedSamples = 400, rs_pending = [],
    rs_closed = False\<rparr>"

definition demo_use :: "resampler_op list" where
  "demo_use = [Rs_Push (Some [1, 0]) (\<lambda>xs. Ret [\<lparr>nf_sampleRate = 2000, nf_channels = 1, nf_data = xs @ [8, 9]\<rparr>]), Rs_Close (Ret [])]"

theorem resampler_preserves_stream_witness:
  "\<exists>r a outs ins r'. new_resampler (JNum 1000) (JNum 2000) JUndef (JNum 1) JUndef = Ret r
     \<and> new_assembler (JNum 1000) JUndef (JNum 1) JUndef = Ret a \<and> resample_all demo_use r = (Ret (ins, outs), r')
     \<and> map of_data outs = [[1, 8], [9]] \<and> concat (map of_data outs) @ rs_pending r' = concat (map nf_data ins) \<and> rs_pending r' = []"
proof -
  have r: "new_resampler (JNum 1000) (JNum 2000) JUndef (JNum 1) JUndef = Ret demo_resampler"
    by (simp add: new_resampler_def default_to_def demo_resampler_def)
  obtain a where a: "new_assembler (JNum 1000) JUndef (JNum 1) JUndef = Ret a"
    by (simp add: new_assembler_def default_to_def)
  obtain ins outs r' where u: "resample_all demo_use demo_resampler = (Ret (ins, outs), r')" and o: "map of_data outs = [[1, 8], [9]]"
    by (simp add: demo_use_def demo_resampler_def resample_push_def resample_close_def consume_def cut_def frames.simps
        samples_per_frame_def expected_bytes_def sample_of_def)
  have "\<not> is_rs_push (last demo_use)" "demo_use \<noteq> []" by (simp_all add: demo_use_def is_rs_push_def)
  then have "concat (map of_data outs) @ rs_pending r' = concat (map nf_data ins) \<and> rs_pending r' = []"
    using resampler_preserves_stream [OF r u a] by blast
  then show ?thesis using r a u o by (intro exI conjI) auto
qed

end
