(* ===== verification/Media_Bridge.thy ===== *)
theory Media_Bridge
  imports Pcm_Audio
begin

text \<open>
  \<open>connector/threecx-livekit-media-bridge.mjs\<close>: one route point participant of the PBX and one LiveKit room.
  The caller's audio is pumped into the room, the audio of the verified agent is written to the PBX. The
  verifier, the SDKs and the native resamplers are parameters or the environment of the steps. A chunk of
  the caller, with the frames it is cut into, is one step (its \<open>captureFrame\<close> awaits are answered in it), and
  so is one read of an agent's track. Two exceptions of the SDK are left out: a constructor of \<open>AudioStream\<close> that
  throws (the track is then not read), and a \<open>setSubscribed\<close> that throws while the publications present at the
  start are subscribed (the start then fails).
\<close>

section \<open>State\<close>

text \<open>What is handed to the PBX writer: PCM bytes have a length, a frame of the LiveKit SDK has none.\<close>

datatype chunk = Pcm "byte list" | Frame out_frame

record writer =
  wr_cancelled :: bool
  wr_bufferedBytes :: int

record reader =
  rd_participant :: jsval
  rd_assembler :: assembler
  rd_resampler :: resampler

datatype mb_effect =
    Mb_Signal string
  | Subscribed jsval
  | Captured out_frame
  | Wrote jsval int chunk   \<comment> \<open>whose audio, the bytes buffered before, the chunk\<close>
  | Writer_Cleared
  | Writer_Cancelled
  | Reader_Cancelled nat
  | Failure_Reported string
  | Hangup_Requested jsval
  | Torn_Down

datatype mb_start = Publishing | Opening_Stream

record mb =
  mb_dispatchId :: string
  mb_maxBufferedMs :: int
  mb_writer :: "writer option"
  mb_input :: "(assembler \<times> resampler) option"
  mb_pump :: bool                       \<comment> \<open>\<open>inboundTask\<close> is running\<close>
  mb_readers :: "(nat, reader) jsmap"   \<comment> \<open>\<open>activeReaders\<close>, whose tasks are running\<close>
  mb_startPhase :: "mb_start option"
  mb_started :: bool
  mb_closed :: bool
  mb_closing :: bool                    \<comment> \<open>\<open>close\<close> awaits the tasks\<close>
  mb_failed :: bool
  mb_hangingUp :: bool
  mb_failures :: "string list"          \<comment> \<open>failures to be reported (\<open>setImmediate\<close>)\<close>
  mb_effects :: "mb_effect list"

type_synonym verifier = "jsval \<Rightarrow> string \<Rightarrow> jsval ext"
type_synonym native = "sample list \<Rightarrow> native_frame list ext"

definition new_bridge :: "string \<Rightarrow> jsval \<Rightarrow> mb ext" where
  "new_bridge dispatchId maxMs =
     (let m = default_to 200 maxMs in
      if dispatchId = [] \<or> length dispatchId > 255 then Throw ''A verified LiveKit dispatch ID is required''
      else case m of
        JNum n \<Rightarrow> if n < 20 \<or> n > 2000 then Throw ''maxBufferedMs must be between 20 and 2000 ms''
          else Ret \<lparr>mb_dispatchId = dispatchId, mb_maxBufferedMs = n, mb_writer = None, mb_input = None, mb_pump = False,
            mb_readers = [], mb_startPhase = None, mb_started = False, mb_closed = False, mb_closing = False,
            mb_failed = False, mb_hangingUp = False, mb_failures = [], mb_effects = []\<rparr>
      | _ \<Rightarrow> Throw ''maxBufferedMs must be between 20 and 2000 ms'')"

definition add_effect :: "mb_effect \<Rightarrow> mb \<Rightarrow> mb" where
  "add_effect e s = s\<lparr>mb_effects := mb_effects s @ [e]\<rparr>"

abbreviation mb_signal :: "string \<Rightarrow> mb \<Rightarrow> mb" where
  "mb_signal r \<equiv> add_effect (Mb_Signal r)"

definition is_authorized :: "verifier \<Rightarrow> string \<Rightarrow> jsval \<Rightarrow> bool" where
  "is_authorized v did p \<longleftrightarrow> truthy p \<and> v p did = Ret (JBool True)"

definition fail_bridge :: "string \<Rightarrow> mb \<Rightarrow> mb" where
  "fail_bridge reason s =
     (if mb_failed s \<or> mb_closed s then s
      else mb_signal reason (s\<lparr>mb_failed := True, mb_failures := mb_failures s @ [reason]\<rparr>))"

definition failure_delivered :: "unit ext \<Rightarrow> mb \<Rightarrow> mb" where
  "failure_delivered outcome s =
     (case mb_failures s of
        [] \<Rightarrow> s
      | r # rs \<Rightarrow>
          let s = add_effect (Failure_Reported r) (s\<lparr>mb_failures := rs\<rparr>) in
          (case outcome of Ret _ \<Rightarrow> s | Throw _ \<Rightarrow> mb_signal ''pbx_failure_handler_failed'' s))"

section \<open>Writing to the PBX\<close>

text \<open>\<open>buffer.length\<close> is undefined for a frame, so that the sum is not a number and the comparison is false.\<close>

definition over_limit :: "int \<Rightarrow> chunk \<Rightarrow> int \<Rightarrow> bool" where
  "over_limit buffered c limit = (case c of Pcm bs \<Rightarrow> buffered + int (length bs) > limit | Frame _ \<Rightarrow> False)"

definition write_pbx_frame :: "jsval \<Rightarrow> chunk \<Rightarrow> mb \<Rightarrow> unit ext \<times> mb" where
  "write_pbx_frame p c s =
     (case mb_writer s of
        None \<Rightarrow> (Throw ''pbx_audio_writer_unavailable'', s)
      | Some w \<Rightarrow>
          if wr_cancelled w then (Throw ''pbx_audio_writer_unavailable'', s)
          else if over_limit (wr_bufferedBytes w) c (8000 * 1 * 2 * mb_maxBufferedMs s div 1000)
          then (Throw ''pbx_audio_queue_overflow'', fail_bridge ''pbx_audio_queue_overflow'' (add_effect Writer_Cleared s))
          else (Ret (), add_effect (Wrote p (wr_bufferedBytes w) c) s))"

fun write_all :: "jsval \<Rightarrow> out_frame list \<Rightarrow> mb \<Rightarrow> unit ext \<times> mb" where
  "write_all p [] s = (Ret (), s)"
| "write_all p (fr # frs) s =
     (case write_pbx_frame p (Frame fr) s of
        (Throw m, s) \<Rightarrow> (Throw m, s)
      | (Ret _, s) \<Rightarrow> write_all p frs s)"

definition clear_outbound :: "mb \<Rightarrow> mb" where
  "clear_outbound s =
     (case mb_writer s of
        Some w \<Rightarrow> if mb_closed s \<or> wr_cancelled w then s
                  else mb_signal ''outbound_audio_cleared'' (add_effect Writer_Cleared s)
      | None \<Rightarrow> s)"

section \<open>Tracks of the room\<close>

definition track_published :: "verifier \<Rightarrow> jsval \<Rightarrow> jsval \<Rightarrow> unit ext \<Rightarrow> mb \<Rightarrow> mb" where
  "track_published v kind p outcome s =
     (if \<not> is_authorized v (mb_dispatchId s) p \<or> kind \<noteq> JStr ''audio'' then s
      else case outcome of
        Ret _ \<Rightarrow> add_effect (Subscribed p) s
      | Throw _ \<Rightarrow> mb_signal ''agent_audio_subscribe_failed'' s)"

text \<open>\<open>finally\<close> of a reader's task.\<close>

definition reader_finished :: "nat \<Rightarrow> native_frame list ext \<Rightarrow> resampler \<Rightarrow> mb \<Rightarrow> mb" where
  "reader_finished t tail r s0 =
     (let s = add_effect (Reader_Cancelled t) (s0\<lparr>mb_readers := jm_delete t (mb_readers s0)\<rparr>) in
      case fst (resample_close tail r) of
        Ret _ \<Rightarrow> s | Throw _ \<Rightarrow> fail_bridge ''agent_audio_stream_failed'' s)"

definition agent_track_subscribed :: "verifier \<Rightarrow> nat option \<Rightarrow> jsval \<Rightarrow> jsval \<Rightarrow> mb \<Rightarrow> mb" where
  "agent_track_subscribed v track kind p s =
     (case track of
        None \<Rightarrow> s
      | Some t \<Rightarrow>
          if mb_closed s \<or> kind \<noteq> JStr ''audio'' \<or> jm_get (mb_readers s) t \<noteq> None
             \<or> \<not> is_authorized v (mb_dispatchId s) p then s
          else let s' = mb_signal ''agent_audio_subscribed'' s in
            (case (new_assembler (JNum 24000) (JNum 1) (JNum 20) (JNum (mb_maxBufferedMs s)),
                   new_resampler (JNum 24000) (JNum 8000) (JNum 1) (JNum 20) (JNum (mb_maxBufferedMs s))) of
               (Ret a, Ret r) \<Rightarrow>
                 s'\<lparr>mb_readers := jm_set t \<lparr>rd_participant = p, rd_assembler = a, rd_resampler = r\<rparr> (mb_readers s)\<rparr>
             | _ \<Rightarrow> fail_bridge ''agent_audio_stream_failed'' s'))"

text \<open>The frames of one read: each is resampled and its output written.\<close>

fun forward_frames :: "jsval \<Rightarrow> native \<Rightarrow> byte list list \<Rightarrow> resampler \<Rightarrow> mb \<Rightarrow> unit ext \<times> resampler \<times> mb" where
  "forward_frames p nat_res [] r s = (Ret (), r, s)"
| "forward_frames p nat_res (fr # frs) r s =
     (case resample_push (Some fr) nat_res r of
        (Throw m, r) \<Rightarrow> (Throw m, r, s)
      | (Ret outs, r) \<Rightarrow> (case write_all p outs s of
          (Throw m, s) \<Rightarrow> (Throw m, r, s)
        | (Ret _, s) \<Rightarrow> forward_frames p nat_res frs r s))"

definition reader_throws :: "nat \<Rightarrow> native_frame list ext \<Rightarrow> resampler \<Rightarrow> mb \<Rightarrow> mb" where
  "reader_throws t tail r s =
     reader_finished t tail r (if mb_closed s then s else fail_bridge ''agent_audio_stream_failed'' s)"

text \<open>A value read from the track of reader \<open>t\<close>; \<open>tail\<close> is what the native resampler flushes if the task ends.\<close>

definition reader_value :: "nat \<Rightarrow> native_frame \<Rightarrow> native \<Rightarrow> native_frame list ext \<Rightarrow> mb \<Rightarrow> mb" where
  "reader_value t fr nat_res tail s =
     (case jm_get (mb_readers s) t of
        None \<Rightarrow> s
      | Some rd \<Rightarrow>
          if nf_sampleRate fr \<noteq> 24000 \<or> nf_channels fr \<noteq> 1 then reader_throws t tail (rd_resampler rd) s
          else (case push (Some (int16_to_pcm16le (nf_data fr))) (rd_assembler rd) of
              (Throw _, _) \<Rightarrow> reader_throws t tail (rd_resampler rd) s
            | (Ret frs, a) \<Rightarrow>
                (case forward_frames (rd_participant rd) nat_res frs (rd_resampler rd) s of
                   (Throw _, r, s) \<Rightarrow> reader_throws t tail r s
                 | (Ret _, r, s) \<Rightarrow>
                     if mb_closed s then reader_finished t tail r s
                     else s\<lparr>mb_readers := jm_set t (rd\<lparr>rd_assembler := a, rd_resampler := r\<rparr>) (mb_readers s)\<rparr>)))"

definition reader_done :: "nat \<Rightarrow> native_frame list ext \<Rightarrow> native_frame list ext \<Rightarrow> mb \<Rightarrow> mb" where
  "reader_done t flushed tail s =
     (case jm_get (mb_readers s) t of
        None \<Rightarrow> s
      | Some rd \<Rightarrow>
          if mb_closed s then reader_finished t tail (rd_resampler rd) s
          else (case resample_flush flushed (rd_resampler rd) of
              (Throw _, r) \<Rightarrow> reader_throws t tail r s
            | (Ret outs, r) \<Rightarrow> (case write_all (rd_participant rd) outs s of
                (Throw _, s) \<Rightarrow> reader_throws t tail r s
              | (Ret _, s) \<Rightarrow> reader_finished t tail r (mb_signal ''agent_audio_stream_ended'' s))))"

definition reader_error :: "nat \<Rightarrow> native_frame list ext \<Rightarrow> mb \<Rightarrow> mb" where
  "reader_error t tail s =
     (case jm_get (mb_readers s) t of None \<Rightarrow> s | Some rd \<Rightarrow> reader_throws t tail (rd_resampler rd) s)"

definition track_unsubscribed :: "verifier \<Rightarrow> nat \<Rightarrow> jsval \<Rightarrow> mb \<Rightarrow> mb" where
  "track_unsubscribed v t p s0 =
     (let s = (if is_authorized v (mb_dispatchId s0) p \<and> \<not> mb_hangingUp s0
               then fail_bridge ''agent_audio_unsubscribed'' s0 else s0)
      in if jm_get (mb_readers s) t = None then s else add_effect (Reader_Cancelled t) s)"

definition participant_gone :: "verifier \<Rightarrow> jsval \<Rightarrow> mb \<Rightarrow> mb" where
  "participant_gone v p s =
     (if is_authorized v (mb_dispatchId s) p \<and> \<not> mb_hangingUp s then fail_bridge ''verified_agent_disconnected'' s else s)"

text \<open>A data packet, parsed (\<open>None\<close> when it is not JSON). Its sender is not looked at.\<close>

definition data_packet :: "jsval option \<Rightarrow> mb \<Rightarrow> mb" where
  "data_packet data s =
     (case data of
        None \<Rightarrow> s
      | Some d \<Rightarrow>
          if get d ''type'' \<noteq> JStr ''call_hangup'' then s
          else add_effect (Hangup_Requested (js_or (get d ''reason'') (JStr ''agent_completed'')))
                 (mb_signal ''agent_hangup_signaled'' (s\<lparr>mb_hangingUp := True\<rparr>)))"

definition room_gone :: "mb \<Rightarrow> mb" where
  "room_gone s = (if mb_closed s \<or> mb_hangingUp s then s else fail_bridge ''livekit_room_disconnected'' s)"

section \<open>The caller's audio\<close>

text \<open>\<open>captures\<close> are the outcomes of \<open>captureFrame\<close>; a closed bridge captures nothing more.\<close>

fun capture_all :: "unit ext \<Rightarrow> out_frame list \<Rightarrow> mb \<Rightarrow> unit ext \<times> mb" where
  "capture_all outcome [] s = (Ret (), s)"
| "capture_all outcome (fr # frs) s =
     (if mb_closed s then (Ret (), s)
      else case outcome of
        Throw m \<Rightarrow> (Throw m, s)
      | Ret _ \<Rightarrow> capture_all outcome frs (add_effect (Captured fr) s))"

fun pump_frames :: "native \<Rightarrow> unit ext \<Rightarrow> byte list list \<Rightarrow> resampler \<Rightarrow> mb \<Rightarrow> unit ext \<times> resampler \<times> mb" where
  "pump_frames nat_res outcome [] r s = (Ret (), r, s)"
| "pump_frames nat_res outcome (fr # frs) r s =
     (case resample_push (Some fr) nat_res r of
        (Throw m, r) \<Rightarrow> (Throw m, r, s)
      | (Ret outs, r) \<Rightarrow> (case capture_all outcome outs s of
          (Throw m, s) \<Rightarrow> (Throw m, r, s)
        | (Ret _, s) \<Rightarrow> pump_frames nat_res outcome frs r s))"

definition pump_throws :: "mb \<Rightarrow> mb" where
  "pump_throws s0 =
     (let s = s0\<lparr>mb_pump := False\<rparr> in if mb_closed s then s else fail_bridge ''pbx_audio_stream_failed'' s)"

definition pump_chunk :: "byte list option \<Rightarrow> native \<Rightarrow> unit ext \<Rightarrow> mb \<Rightarrow> mb" where
  "pump_chunk c nat_res outcome s =
     (case mb_input s of
        None \<Rightarrow> s
      | Some (a, r) \<Rightarrow>
          if \<not> mb_pump s then s
          else if mb_closed s then s\<lparr>mb_pump := False\<rparr>
          else (case push c a of
              (Throw _, a) \<Rightarrow> pump_throws (s\<lparr>mb_input := Some (a, r)\<rparr>)
            | (Ret frs, a) \<Rightarrow> (case pump_frames nat_res outcome frs r s of
                (Throw _, r, s) \<Rightarrow> pump_throws (s\<lparr>mb_input := Some (a, r)\<rparr>)
              | (Ret _, r, s) \<Rightarrow> s\<lparr>mb_input := Some (a, r)\<rparr>)))"

definition pump_end :: "native_frame list ext \<Rightarrow> unit ext \<Rightarrow> mb \<Rightarrow> mb" where
  "pump_end flushed outcome s =
     (case mb_input s of
        None \<Rightarrow> s
      | Some (a, r) \<Rightarrow>
          if \<not> mb_pump s then s
          else if mb_closed s then s\<lparr>mb_pump := False\<rparr>
          else (case resample_flush flushed r of
              (Throw _, r) \<Rightarrow> pump_throws (s\<lparr>mb_input := Some (a, r)\<rparr>)
            | (Ret outs, r) \<Rightarrow> (case capture_all outcome outs s of
                (Throw _, s) \<Rightarrow> pump_throws (s\<lparr>mb_input := Some (a, r)\<rparr>)
              | (Ret _, s) \<Rightarrow> fail_bridge ''pbx_audio_stream_ended''
                  (s\<lparr>mb_input := Some (snd (reset_assembler a), r), mb_pump := False\<rparr>))))"

section \<open>Start and close\<close>

text \<open>\<open>close\<close> up to its first await, and after the tasks have ended.\<close>

definition close_bridge :: "mb \<Rightarrow> mb" where
  "close_bridge s =
     (if mb_closed s then s
      else s\<lparr>mb_closed := True, mb_closing := True,
             mb_effects := mb_effects s @ map Reader_Cancelled (jm_keys (mb_readers s))\<rparr>)"

definition close_settled :: "native_frame list ext \<Rightarrow> mb \<Rightarrow> mb" where
  "close_settled tail s =
     (if \<not> mb_closing s \<or> mb_pump s \<or> mb_readers s \<noteq> [] then s
      else mb_signal ''media_bridge_closed''
        (add_effect Torn_Down
          ((case mb_writer s of None \<Rightarrow> s | Some w \<Rightarrow> add_effect Writer_Cancelled s)
             \<lparr>mb_closing := False, mb_writer := map_option (\<lambda>w. w\<lparr>wr_cancelled := True\<rparr>) (mb_writer s),
              mb_input := map_option (\<lambda>(a, r). (a, snd (resample_close tail r))) (mb_input s)\<rparr>)))"

definition start_bridge :: "unit ext \<Rightarrow> mb \<Rightarrow> mb ext" where
  "start_bridge source s =
     (if mb_closed s then Throw ''Media bridge is closed''
      else if mb_started s then Ret s
      else case source of
        Ret _ \<Rightarrow> Ret (s\<lparr>mb_started := True, mb_startPhase := Some Publishing\<rparr>)
      | Throw _ \<Rightarrow> Ret (close_bridge (mb_signal ''media_bridge_start_failed'' (s\<lparr>mb_started := True\<rparr>))))"

definition bridge_start_failed :: "mb \<Rightarrow> mb" where
  "bridge_start_failed s = close_bridge (mb_signal ''media_bridge_start_failed'' (s\<lparr>mb_startPhase := None\<rparr>))"

definition track_published_ok :: "unit ext \<Rightarrow> writer ext \<Rightarrow> mb \<Rightarrow> mb" where
  "track_published_ok outcome w s =
     (if mb_startPhase s \<noteq> Some Publishing then s
      else case (outcome, w) of
        (Ret _, Ret w) \<Rightarrow>
          (case (new_assembler (JNum 8000) (JNum 1) (JNum 20) (JNum (mb_maxBufferedMs s)),
                 new_resampler (JNum 8000) (JNum 24000) (JNum 1) (JNum 20) (JNum (mb_maxBufferedMs s))) of
             (Ret a, Ret r) \<Rightarrow> s\<lparr>mb_writer := Some w, mb_input := Some (a, r), mb_startPhase := Some Opening_Stream\<rparr>
           | _ \<Rightarrow> bridge_start_failed (s\<lparr>mb_writer := Some w\<rparr>))
      | _ \<Rightarrow> bridge_start_failed s)"

text \<open>The readable of the PBX arrives; the participants that are already in the room follow with the kinds of their
publications.\<close>

definition stream_opened :: "verifier \<Rightarrow> bool ext \<Rightarrow> (jsval \<times> jsval list) list \<Rightarrow> mb \<Rightarrow> mb" where
  "stream_opened v readable remotes s =
     (if mb_startPhase s \<noteq> Some Opening_Stream then s
      else if readable \<noteq> Ret True then bridge_start_failed s
      else let present = filter (\<lambda>(p, kinds). is_authorized v (mb_dispatchId s) p) remotes;
               subs = concat (map (\<lambda>(p, kinds). map (\<lambda>_. Subscribed p) (filter (\<lambda>k. k = JStr ''audio'') kinds)) present)
           in mb_signal ''media_bridge_started''
                (s\<lparr>mb_startPhase := None, mb_pump := True, mb_effects := mb_effects s @ subs\<rparr>))"

section \<open>Steps\<close>

datatype mb_event =
    Start_Bridge "unit ext"
  | Track_Published_Ok "unit ext" "writer ext"
  | Stream_Opened "bool ext" "(jsval \<times> jsval list) list"
  | Pump_Chunk "byte list option" native "unit ext"
  | Pump_End "native_frame list ext" "unit ext"
  | Pump_Error
  | Track_Published jsval jsval "unit ext"
  | Track_Subscribed "nat option" jsval jsval
  | Track_Unsubscribed nat jsval
  | Participant_Gone jsval
  | Data_Packet "jsval option"
  | Room_Gone
  | Reader_Value nat native_frame native "native_frame list ext"
  | Reader_Done nat "native_frame list ext" "native_frame list ext"
  | Reader_Error nat "native_frame list ext"
  | Writer_Moves writer
  | Failure_Delivered "unit ext"
  | Clear_Outbound
  | Close_Bridge
  | Close_Settled "native_frame list ext"

text \<open>The listeners of the room are registered from \<open>start\<close> to \<open>close\<close>.\<close>

definition listening :: "mb \<Rightarrow> bool" where
  "listening s \<longleftrightarrow> mb_started s \<and> \<not> mb_closed s"

fun mb_step :: "verifier \<Rightarrow> mb \<Rightarrow> mb_event \<Rightarrow> mb" where
  "mb_step v s (Start_Bridge src) = (case start_bridge src s of Ret s' \<Rightarrow> s' | Throw _ \<Rightarrow> s)"
| "mb_step v s (Track_Published_Ok r w) = track_published_ok r w s"
| "mb_step v s (Stream_Opened r remotes) = stream_opened v r remotes s"
| "mb_step v s (Pump_Chunk c n r) = pump_chunk c n r s"
| "mb_step v s (Pump_End fl r) = pump_end fl r s"
| "mb_step v s Pump_Error = (if mb_pump s then pump_throws s else s)"
| "mb_step v s (Track_Published k p r) = (if listening s then track_published v k p r s else s)"
| "mb_step v s (Track_Subscribed t k p) = (if listening s then agent_track_subscribed v t k p s else s)"
| "mb_step v s (Track_Unsubscribed t p) = (if listening s then track_unsubscribed v t p s else s)"
| "mb_step v s (Participant_Gone p) = (if listening s then participant_gone v p s else s)"
| "mb_step v s (Data_Packet d) = (if listening s then data_packet d s else s)"
| "mb_step v s Room_Gone = (if listening s then room_gone s else s)"
| "mb_step v s (Reader_Value t fr n fin) = reader_value t fr n fin s"
| "mb_step v s (Reader_Done t fl fin) = reader_done t fl fin s"
| "mb_step v s (Reader_Error t fin) = reader_error t fin s"
| "mb_step v s (Writer_Moves w) = s\<lparr>mb_writer := map_option (\<lambda>_. w) (mb_writer s)\<rparr>"
| "mb_step v s (Failure_Delivered r) = failure_delivered r s"
| "mb_step v s Clear_Outbound = clear_outbound s"
| "mb_step v s Close_Bridge = close_bridge s"
| "mb_step v s (Close_Settled fin) = close_settled fin s"

section \<open>Invariant\<close>

fun effect_ok :: "verifier \<Rightarrow> string \<Rightarrow> mb_effect \<Rightarrow> bool" where
  "effect_ok v did (Subscribed p) = is_authorized v did p"
| "effect_ok v did (Wrote p b c) = (is_authorized v did p \<and> (case c of Frame _ \<Rightarrow> True | Pcm _ \<Rightarrow> False))"
| "effect_ok v did (Mb_Signal r) = (r \<noteq> ''pbx_audio_queue_overflow'')"
| "effect_ok v did _ = True"

fun is_reported :: "mb_effect \<Rightarrow> bool" where
  "is_reported (Failure_Reported _) = True"
| "is_reported _ = False"

definition reports_ok :: "mb_effect list \<Rightarrow> string list \<Rightarrow> bool \<Rightarrow> bool" where
  "reports_ok es fs failed \<longleftrightarrow> length (filter is_reported es) + length fs \<le> (if failed then 1 else 0)"

definition readers_ok :: "verifier \<Rightarrow> string \<Rightarrow> (nat, reader) jsmap \<Rightarrow> bool" where
  "readers_ok v did m \<longleftrightarrow> (\<forall>t rd. jm_get m t = Some rd \<longrightarrow> is_authorized v did (rd_participant rd))"

definition mb_ok :: "verifier \<Rightarrow> mb \<Rightarrow> bool" where
  "mb_ok v s \<longleftrightarrow> list_all (effect_ok v (mb_dispatchId s)) (mb_effects s)
     \<and> readers_ok v (mb_dispatchId s) (mb_readers s) \<and> reports_ok (mb_effects s) (mb_failures s) (mb_failed s)"

lemma reports_append: "\<not> is_reported e \<Longrightarrow> reports_ok (es @ [e]) fs b = reports_ok es fs b"
  by (simp add: reports_ok_def)

lemma readers_delete: "readers_ok v did m \<Longrightarrow> readers_ok v did (jm_delete t m)"
  by (auto simp: readers_ok_def)

lemma readers_set: "readers_ok v did m \<Longrightarrow> is_authorized v did (rd_participant rd) \<Longrightarrow> readers_ok v did (jm_set t rd m)"
  by (auto simp: readers_ok_def)

lemma mb_ok_effect:
  "mb_ok v s \<Longrightarrow> effect_ok v (mb_dispatchId s) e \<Longrightarrow> \<not> is_reported e \<Longrightarrow> mb_ok v (add_effect e s)"
  by (simp add: mb_ok_def add_effect_def reports_append)

lemma add_effect_simps [simp]:
  "mb_dispatchId (add_effect e s) = mb_dispatchId s" "mb_readers (add_effect e s) = mb_readers s"
  "mb_closed (add_effect e s) = mb_closed s" "mb_writer (add_effect e s) = mb_writer s"
  "mb_failed (add_effect e s) = mb_failed s" "mb_input (add_effect e s) = mb_input s"
  by (simp_all add: add_effect_def)

lemma fail_bridge_simps [simp]:
  "mb_dispatchId (fail_bridge r s) = mb_dispatchId s" "mb_readers (fail_bridge r s) = mb_readers s"
  "mb_closed (fail_bridge r s) = mb_closed s"
  by (simp_all add: fail_bridge_def)

lemma mb_ok_fail: "mb_ok v s \<Longrightarrow> r \<noteq> ''pbx_audio_queue_overflow'' \<Longrightarrow> mb_ok v (fail_bridge r s)"
  by (auto simp: fail_bridge_def mb_ok_def add_effect_def reports_ok_def split: if_splits)

lemma mb_ok_plain:
  assumes "mb_ok v s"
  shows "mb_ok v (s\<lparr>mb_writer := w\<rparr>)" "mb_ok v (s\<lparr>mb_input := x\<rparr>)" "mb_ok v (s\<lparr>mb_pump := b\<rparr>)"
    "mb_ok v (s\<lparr>mb_startPhase := p\<rparr>)" "mb_ok v (s\<lparr>mb_started := b\<rparr>)" "mb_ok v (s\<lparr>mb_closing := b\<rparr>)"
    "mb_ok v (s\<lparr>mb_hangingUp := b\<rparr>)" "mb_ok v (s\<lparr>mb_closed := b\<rparr>)"
    "mb_ok v (s\<lparr>mb_readers := jm_delete t (mb_readers s)\<rparr>)"
  using assms by (simp_all add: mb_ok_def readers_delete)

lemma write_ok:
  assumes "mb_ok v s" "is_authorized v (mb_dispatchId s) p" "write_pbx_frame p (Frame fr) s = (r, s')"
  shows "mb_ok v s' \<and> mb_dispatchId s' = mb_dispatchId s \<and> mb_readers s' = mb_readers s"
  using assms
  by (auto simp: write_pbx_frame_def over_limit_def intro!: mb_ok_effect split: option.splits if_splits)

lemma write_all_ok:
  "mb_ok v s \<Longrightarrow> is_authorized v (mb_dispatchId s) p \<Longrightarrow> write_all p frs s = (r, s') \<Longrightarrow>
     mb_ok v s' \<and> mb_dispatchId s' = mb_dispatchId s \<and> mb_readers s' = mb_readers s"
proof (induction frs arbitrary: s)
  case Nil
  then show ?case by simp
next
  case (Cons fr frs)
  obtain r1 s1 where 1: "write_pbx_frame p (Frame fr) s = (r1, s1)" by fastforce
  have s1: "mb_ok v s1" "mb_dispatchId s1 = mb_dispatchId s" "mb_readers s1 = mb_readers s"
    using write_ok [OF Cons.prems(1,2) 1] by simp_all
  show ?case using Cons.IH [OF s1(1)] Cons.prems(2,3) 1 s1 by (cases r1) auto
qed

lemma forward_ok:
  "mb_ok v s \<Longrightarrow> is_authorized v (mb_dispatchId s) p \<Longrightarrow> forward_frames p n frs r s = (q, r', s') \<Longrightarrow>
     mb_ok v s' \<and> mb_dispatchId s' = mb_dispatchId s \<and> mb_readers s' = mb_readers s"
proof (induction frs arbitrary: r s)
  case Nil
  then show ?case by simp
next
  case (Cons fr frs)
  obtain o1 r1 where 1: "resample_push (Some fr) n r = (o1, r1)" by fastforce
  show ?case
  proof (cases o1)
    case (Ret outs)
    obtain q1 s1 where 2: "write_all p outs s = (q1, s1)" by fastforce
    have s1: "mb_ok v s1" "mb_dispatchId s1 = mb_dispatchId s" "mb_readers s1 = mb_readers s"
      using write_all_ok [OF Cons.prems(1,2) 2] by simp_all
    show ?thesis using Cons.IH [OF s1(1)] Cons.prems(2,3) 1 2 s1 Ret by (cases q1) auto
  next
    case (Throw m)
    then show ?thesis using Cons.prems 1 by auto
  qed
qed

lemma reader_finished_ok: "mb_ok v s \<Longrightarrow> mb_ok v (reader_finished t tail r s)"
  by (auto simp: reader_finished_def Let_def intro!: mb_ok_fail mb_ok_effect mb_ok_plain split: ext.split)

lemma reader_throws_ok: "mb_ok v s \<Longrightarrow> mb_ok v (reader_throws t tail r s)"
  by (auto simp: reader_throws_def intro!: reader_finished_ok mb_ok_fail)

lemma readers_okD: "mb_ok v s \<Longrightarrow> jm_get (mb_readers s) t = Some rd \<Longrightarrow> is_authorized v (mb_dispatchId s) (rd_participant rd)"
  by (auto simp: mb_ok_def readers_ok_def)

lemma reader_value_ok:
  assumes ok: "mb_ok v s"
  shows "mb_ok v (reader_value t fr n tail s)"
proof (cases "jm_get (mb_readers s) t")
  case None
  then show ?thesis using ok by (simp add: reader_value_def)
next
  case (Some rd)
  note au = readers_okD [OF ok Some]
  obtain res a where p: "push (Some (int16_to_pcm16le (nf_data fr))) (rd_assembler rd) = (res, a)" by fastforce
  show ?thesis
  proof (cases res)
    case (Throw m)
    then show ?thesis using Some p reader_throws_ok [OF ok] by (simp add: reader_value_def)
  next
    case (Ret frs)
    obtain q r s' where f: "forward_frames (rd_participant rd) n frs (rd_resampler rd) s = (q, r, s')"
      by (metis prod_cases3)
    have s': "mb_ok v s'" "mb_dispatchId s' = mb_dispatchId s" using forward_ok [OF ok au f] by simp_all
    have "mb_ok v (s'\<lparr>mb_readers := jm_set t (rd\<lparr>rd_assembler := a, rd_resampler := r\<rparr>) (mb_readers s')\<rparr>)"
      using s' au by (simp add: mb_ok_def readers_set)
    then show ?thesis using Some p Ret f s' reader_throws_ok [OF ok] reader_throws_ok [OF s'(1)] reader_finished_ok [OF s'(1)]
      by (simp add: reader_value_def split: ext.split)
  qed
qed

lemma reader_done_ok:
  assumes ok: "mb_ok v s"
  shows "mb_ok v (reader_done t fl tail s)"
proof (cases "jm_get (mb_readers s) t")
  case None
  then show ?thesis using ok by (simp add: reader_done_def)
next
  case (Some rd)
  note au = readers_okD [OF ok Some]
  obtain res r where p: "resample_flush fl (rd_resampler rd) = (res, r)" by fastforce
  show ?thesis
  proof (cases res)
    case (Throw m)
    then show ?thesis using Some p reader_throws_ok [OF ok] reader_finished_ok [OF ok] by (simp add: reader_done_def)
  next
    case (Ret outs)
    obtain q s' where f: "write_all (rd_participant rd) outs s = (q, s')" by fastforce
    have s': "mb_ok v s'" using write_all_ok [OF ok au f] by simp
    have "mb_ok v (mb_signal ''agent_audio_stream_ended'' s')" using s' by (rule mb_ok_effect) simp_all
    then show ?thesis using Some p Ret f s' reader_throws_ok [OF s'] reader_finished_ok [OF ok] reader_finished_ok
      by (simp add: reader_done_def split: ext.split)
  qed
qed

lemma capture_ok: "mb_ok v s \<Longrightarrow> capture_all out frs s = (r, s') \<Longrightarrow> mb_ok v s'"
proof (induction frs arbitrary: s)
  case (Cons fr frs)
  have "mb_ok v (add_effect (Captured fr) s)" using Cons.prems(1) by (rule mb_ok_effect) simp_all
  then show ?case using Cons.IH Cons.prems by (cases out) (auto split: if_splits)
qed simp

lemma pump_frames_ok: "mb_ok v s \<Longrightarrow> pump_frames n out frs r s = (q, r', s') \<Longrightarrow> mb_ok v s'"
proof (induction frs arbitrary: r s)
  case (Cons fr frs)
  then show ?case by (auto split: prod.splits ext.splits dest: capture_ok)
qed simp

lemma pump_throws_ok: "mb_ok v s \<Longrightarrow> mb_ok v (pump_throws s)"
  by (auto simp: pump_throws_def Let_def intro!: mb_ok_fail mb_ok_plain)

lemma close_ok: "mb_ok v s \<Longrightarrow> mb_ok v (close_bridge s)"
proof -
  assume ok: "mb_ok v s"
  have "list_all (effect_ok v did) (map Reader_Cancelled ks)" "filter is_reported (map Reader_Cancelled ks) = []" for did ks
    by (induction ks) simp_all
  then show ?thesis using ok by (auto simp: close_bridge_def mb_ok_def reports_ok_def split: if_splits)
qed

lemma bridge_start_failed_ok: "mb_ok v s \<Longrightarrow> mb_ok v (bridge_start_failed s)"
  by (auto simp: bridge_start_failed_def intro!: close_ok mb_ok_effect mb_ok_plain)

lemma track_published_ok_ok: "mb_ok v s \<Longrightarrow> mb_ok v (track_published_ok r w s)"
  by (auto simp: track_published_ok_def intro!: bridge_start_failed_ok mb_ok_plain split: ext.split)

lemma start_bridge_ok: "mb_ok v s \<Longrightarrow> start_bridge src s = Ret s' \<Longrightarrow> mb_ok v s'"
  by (auto simp: start_bridge_def intro!: close_ok mb_ok_effect mb_ok_plain split: if_splits ext.splits)

lemma stream_opened_ok:
  assumes ok: "mb_ok v s"
  shows "mb_ok v (stream_opened v rd remotes s)"
proof -
  let ?subs = "concat (map (\<lambda>(p, kinds). map (\<lambda>_. Subscribed p) (filter (\<lambda>k. k = JStr ''audio'') kinds))
    (filter (\<lambda>(p, kinds). is_authorized v (mb_dispatchId s) p) remotes))"
  have 1: "list_all (effect_ok v (mb_dispatchId s)) ?subs" by (auto simp: list_all_iff)
  have 2: "filter is_reported ?subs = []" by (auto simp: filter_empty_conv)
  have "mb_ok v (s\<lparr>mb_startPhase := None, mb_pump := True, mb_effects := mb_effects s @ ?subs\<rparr>)"
    using ok 1 2 by (simp add: mb_ok_def reports_ok_def)
  then show ?thesis using ok bridge_start_failed_ok [OF ok]
    by (auto simp: stream_opened_def Let_def intro!: mb_ok_effect)
qed

lemma close_settled_ok:
  assumes ok: "mb_ok v s"
  shows "mb_ok v (close_settled fin s)"
proof -
  have "mb_ok v (case mb_writer s of None \<Rightarrow> s | Some w \<Rightarrow> add_effect Writer_Cancelled s)"
    using ok by (auto intro!: mb_ok_effect split: option.split)
  then show ?thesis using ok
    by (auto simp: close_settled_def intro!: mb_ok_effect mb_ok_plain)
qed

lemma pump_chunk_ok: "mb_ok v s \<Longrightarrow> mb_ok v (pump_chunk c n r s)"
  by (auto simp: pump_chunk_def intro!: pump_throws_ok mb_ok_plain dest: pump_frames_ok
      split: option.split prod.split ext.split)

lemma pump_end_ok: "mb_ok v s \<Longrightarrow> mb_ok v (pump_end fl r s)"
  by (auto simp: pump_end_def intro!: pump_throws_ok mb_ok_fail mb_ok_plain dest: capture_ok
      split: option.split prod.split ext.split)

lemma track_published_keeps: "mb_ok v s \<Longrightarrow> mb_ok v (track_published v k p r s)"
  by (auto simp: track_published_def intro!: mb_ok_effect split: ext.split)

lemma agent_track_subscribed_keeps:
  assumes ok: "mb_ok v s"
  shows "mb_ok v (agent_track_subscribed v t k p s)"
proof -
  have sig: "mb_ok v (mb_signal ''agent_audio_subscribed'' s)" using ok by (rule mb_ok_effect) simp_all
  have "mb_ok v ((mb_signal ''agent_audio_subscribed'' s)\<lparr>mb_readers :=
      jm_set x \<lparr>rd_participant = p, rd_assembler = a, rd_resampler = r\<rparr> (mb_readers s)\<rparr>)"
    if "is_authorized v (mb_dispatchId s) p" for x a r
    using sig that by (simp add: mb_ok_def readers_set)
  then show ?thesis using ok mb_ok_fail [OF sig, of "''agent_audio_stream_failed''"]
    by (auto simp: agent_track_subscribed_def Let_def split: option.split ext.split)
qed

lemma track_unsubscribed_keeps: "mb_ok v s \<Longrightarrow> mb_ok v (track_unsubscribed v t p s)"
  by (auto simp: track_unsubscribed_def Let_def intro!: mb_ok_effect mb_ok_fail)

lemma failure_delivered_keeps:
  assumes ok: "mb_ok v s"
  shows "mb_ok v (failure_delivered r s)"
proof (cases "mb_failures s")
  case Nil
  then show ?thesis using ok by (simp add: failure_delivered_def)
next
  case (Cons f fs)
  have "mb_ok v (add_effect (Failure_Reported f) (s\<lparr>mb_failures := fs\<rparr>))"
    using ok Cons by (auto simp: mb_ok_def add_effect_def reports_ok_def split: if_splits)
  then show ?thesis using Cons
    by (cases r) (auto simp: failure_delivered_def intro: mb_ok_effect)
qed

lemma mb_ok_step: "mb_ok v s \<Longrightarrow> mb_ok v (mb_step v s e)"
proof (cases e)
  case (Start_Bridge src)
  assume "mb_ok v s"
  then show ?thesis using Start_Bridge start_bridge_ok [of v s src] by (auto split: ext.split)
qed (auto simp: participant_gone_def room_gone_def data_packet_def clear_outbound_def reader_error_def
      intro!: track_published_ok_ok stream_opened_ok pump_chunk_ok pump_end_ok pump_throws_ok track_published_keeps
        agent_track_subscribed_keeps track_unsubscribed_keeps reader_value_ok reader_done_ok reader_throws_ok
        failure_delivered_keeps close_ok close_settled_ok mb_ok_fail mb_ok_effect mb_ok_plain split: option.split)

interpretation media_bridge: machine "mb_step v" "mb_ok v" for v
  by unfold_locales (rule mb_ok_step)

lemma mb_ok_new: "new_bridge did m = Ret s \<Longrightarrow> mb_ok v s \<and> mb_dispatchId s = did"
  by (auto simp: new_bridge_def Let_def mb_ok_def readers_ok_def reports_ok_def split: if_splits jsval.splits)

section \<open>What the bridge does\<close>

text \<open>C27. Only the verified agent is bridged: in every run, a track is subscribed, and audio is written to the PBX, only for a
participant that the dispatch-bound verifier accepts; and at most one failure is reported to the call controller.\<close>

theorem only_verified_agent_is_bridged:
  assumes "new_bridge did maxMs = Ret s0" and "s = run (mb_step v) s0 es"
  shows "list_all (\<lambda>e. case e of
        Subscribed p \<Rightarrow> is_authorized v (mb_dispatchId s) p
      | Wrote p _ _ \<Rightarrow> is_authorized v (mb_dispatchId s) p
      | _ \<Rightarrow> True) (mb_effects s)
    \<and> length (filter is_reported (mb_effects s)) + length (mb_failures s) \<le> 1"
proof -
  have ok: "mb_ok v s" unfolding assms(2) by (rule media_bridge.inv_run) (simp add: mb_ok_new [OF assms(1)])
  have "effect_ok v did e \<Longrightarrow> case e of Subscribed p \<Rightarrow> is_authorized v did p
      | Wrote p _ _ \<Rightarrow> is_authorized v did p | _ \<Rightarrow> True" for did e
    by (cases e) simp_all
  then show ?thesis using ok by (auto simp: mb_ok_def reports_ok_def list_all_iff split: if_splits)
qed

text \<open>What the bridge hands to the PBX writer is never PCM: with the resampler of this repository every chunk is a frame
object of the LiveKit SDK, whose missing length also switches off the limit on the writer's queue, so that an overflow is
never reported, however much the writer has buffered.\<close>

theorem agent_audio_is_never_pcm:
  assumes "new_bridge did maxMs = Ret s0"
  shows "list_all (\<lambda>e. case e of
        Wrote _ _ c \<Rightarrow> (case c of Pcm _ \<Rightarrow> False | Frame _ \<Rightarrow> True)
      | Mb_Signal r \<Rightarrow> r \<noteq> ''pbx_audio_queue_overflow''
      | _ \<Rightarrow> True) (mb_effects (run (mb_step v) s0 es))"
proof -
  have ok: "mb_ok v (run (mb_step v) s0 es)" by (rule media_bridge.inv_run) (simp add: mb_ok_new [OF assms])
  have "effect_ok v did e \<Longrightarrow> case e of Wrote _ _ c \<Rightarrow> (case c of Pcm _ \<Rightarrow> False | Frame _ \<Rightarrow> True)
      | Mb_Signal r \<Rightarrow> r \<noteq> ''pbx_audio_queue_overflow'' | _ \<Rightarrow> True" for did e
    by (cases e) simp_all
  then show ?thesis using ok unfolding mb_ok_def list_all_iff by blast
qed

definition demo_verifier :: verifier where
  "demo_verifier p did = Ret (JBool (p = JStr ''agent'' \<and> did = ''dispatch''))"

definition demo_bridge :: mb where
  "demo_bridge = \<lparr>mb_dispatchId = ''dispatch'', mb_maxBufferedMs = 200, mb_writer = None, mb_input = None, mb_pump = False,
     mb_readers = [], mb_startPhase = None, mb_started = False, mb_closed = False, mb_closing = False,
     mb_failed = False, mb_hangingUp = False, mb_failures = [], mb_effects = []\<rparr>"

definition demo_setup :: "mb_event list" where
  "demo_setup = [Start_Bridge (Ret ()), Track_Published_Ok (Ret ()) (Ret \<lparr>wr_cancelled = False, wr_bufferedBytes = 9000\<rparr>),
     Stream_Opened (Ret True) [(JStr ''stranger'', [JStr ''audio'']), (JStr ''agent'', [JStr ''video'', JStr ''audio''])],
     Track_Published (JStr ''audio'') (JStr ''stranger'') (Ret ()), Participant_Gone (JStr ''agent''), Room_Gone]"

lemma demo_new: "new_bridge ''dispatch'' JUndef = Ret demo_bridge"
  by (simp add: new_bridge_def default_to_def demo_bridge_def)

theorem only_verified_agent_is_bridged_witness:
  "filter (\<lambda>e. e = Subscribed (JStr ''agent'') \<or> e = Subscribed (JStr ''stranger''))
      (mb_effects (run (mb_step demo_verifier) demo_bridge demo_setup)) = [Subscribed (JStr ''agent'')]
   \<and> mb_failures (run (mb_step demo_verifier) demo_bridge demo_setup) = [''verified_agent_disconnected'']
   \<and> length (filter is_reported (mb_effects (run (mb_step demo_verifier) demo_bridge demo_setup))) = 0"
proof -
  have 1: "filter (\<lambda>e. e = Subscribed (JStr ''agent'') \<or> e = Subscribed (JStr ''stranger''))
      (mb_effects (run (mb_step demo_verifier) demo_bridge demo_setup)) = [Subscribed (JStr ''agent'')]"
    "mb_failures (run (mb_step demo_verifier) demo_bridge demo_setup) = [''verified_agent_disconnected'']"
    by code_simp+
  from only_verified_agent_is_bridged [OF demo_new refl, of demo_verifier demo_setup] show ?thesis using 1 by simp
qed

text \<open>An agent's track of one frame, on a writer that already holds more than the limit of 3200 bytes.\<close>

definition demo_talk :: "mb_event list" where
  "demo_talk = [Start_Bridge (Ret ()), Track_Published_Ok (Ret ()) (Ret \<lparr>wr_cancelled = False, wr_bufferedBytes = 9000\<rparr>),
     Track_Subscribed (Some 1) (JStr ''audio'') (JStr ''agent''),
     Reader_Done 1 (Ret [\<lparr>nf_sampleRate = 8000, nf_channels = 1, nf_data = [5]\<rparr>]) (Ret [])]"

theorem agent_audio_is_never_pcm_witness:
  "filter (\<lambda>e. case e of Wrote _ b _ \<Rightarrow> True | _ \<Rightarrow> False) (mb_effects (run (mb_step demo_verifier) demo_bridge demo_talk))
     = [Wrote (JStr ''agent'') 9000 (Frame \<lparr>of_data = [5], of_samplesPerChannel = 1\<rparr>)]
   \<and> Mb_Signal ''pbx_audio_queue_overflow'' \<notin> set (mb_effects (run (mb_step demo_verifier) demo_bridge demo_talk))"
proof -
  have 1: "filter (\<lambda>e. case e of Wrote _ b _ \<Rightarrow> True | _ \<Rightarrow> False)
      (mb_effects (run (mb_step demo_verifier) demo_bridge demo_talk))
     = [Wrote (JStr ''agent'') 9000 (Frame \<lparr>of_data = [5], of_samplesPerChannel = 1\<rparr>)]"
    by code_simp
  from agent_audio_is_never_pcm [OF demo_new, of demo_verifier demo_talk] show ?thesis using 1
    by (force simp: list_all_iff)
qed

text \<open>The limit works for bytes.\<close>

lemma pcm_over_limit_is_refused:
  assumes "mb_writer s = Some w" "\<not> wr_cancelled w" "\<not> mb_failed s" "\<not> mb_closed s"
    "wr_bufferedBytes w + int (length bs) > 16 * mb_maxBufferedMs s"
  shows "fst (write_pbx_frame p (Pcm bs) s) = Throw ''pbx_audio_queue_overflow''
    \<and> mb_failures (snd (write_pbx_frame p (Pcm bs) s)) = mb_failures s @ [''pbx_audio_queue_overflow'']"
proof -
  have "(8000 * 1 * 2 * mb_maxBufferedMs s) div 1000 = 16 * mb_maxBufferedMs s" by simp
  then show ?thesis using assms by (simp add: write_pbx_frame_def over_limit_def fail_bridge_def add_effect_def)
qed

text \<open>A hang-up is taken from any participant of the room: the packet alone decides.\<close>

lemma any_packet_hangs_up:
  "listening s \<Longrightarrow> last (mb_effects (mb_step v s (Data_Packet (Some (JObj [(''type'', JStr ''call_hangup'')])))))
     = Hangup_Requested (JStr ''agent_completed'')"
  by (simp add: data_packet_def add_effect_def js_or_def)

end
