(* ===== verification/Dispatch_Verifier.thy ===== *)
theory Dispatch_Verifier
  imports Prelude
begin

text \<open>
  \<open>connector/livekit-dispatch-verifier.mjs\<close> and \<open>connector/verified-threecx-livekit-media.mjs\<close>: which
  LiveKit participant may speak for a call. The dispatch service's answers, the readings of the clock
  and the job status codes of \<open>@livekit/protocol\<close> are parameters: the \<open>k\<close>-th poll sees
  \<open>answer k\<close>, and reads the clock as \<open>before k\<close> (the deadline test), \<open>sleeping k\<close> (the length of the
  pause) and \<open>after k\<close> (the loop condition). The loop may run for ever when the clock stands still, so it
  is a \<open>partial_function\<close> and \<open>None\<close> is not returning.
\<close>

section \<open>One poll\<close>

record job_status =
  js_running :: int
  js_success :: int
  js_failed :: int

datatype poll = Found string | Refused string | Again

definition non_empty :: "jsval \<Rightarrow> nat \<Rightarrow> bool" where
  "non_empty v n = (bounded_string v n \<noteq> None)"

definition first_job :: "jsval \<Rightarrow> jsval" where
  "first_job jobs = (case jobs of JArr (j # _) \<Rightarrow> j | _ \<Rightarrow> JUndef)"

definition check_dispatch :: "job_status \<Rightarrow> string \<Rightarrow> string \<Rightarrow> string \<Rightarrow> jsval ext \<Rightarrow> poll" where
  "check_dispatch js dispatch_id room agent r =
     (case r of
        Throw _ \<Rightarrow> Refused ''livekit_dispatch_verification_unavailable''
      | Ret d \<Rightarrow>
          if \<not> truthy d then Again
          else if get d ''id'' \<noteq> JStr dispatch_id \<or> get d ''room'' \<noteq> JStr room \<or> get d ''agentName'' \<noteq> JStr agent
          then Refused ''livekit_dispatch_binding_mismatch''
          else let jobs = get (get d ''state'') ''jobs''; job = first_job jobs in
            if (case jobs of JArr js \<Rightarrow> length js > 1 | _ \<Rightarrow> False) then Refused ''livekit_dispatch_job_ambiguous''
            else if \<not> truthy job then Again
            else if truthy (get job ''dispatchId'') \<and> get job ''dispatchId'' \<noteq> JStr dispatch_id
            then Refused ''livekit_dispatch_job_mismatch''
            else if truthy (get job ''agentName'') \<and> get job ''agentName'' \<noteq> JStr agent
            then Refused ''livekit_dispatch_agent_mismatch''
            else if get (get job ''state'') ''status'' \<in> {JNum (js_failed js), JNum (js_success js)}
            then Refused ''livekit_dispatch_job_not_running''
            else (case bounded_string (get (get job ''state'') ''participantIdentity'') 255 of
                Some identity \<Rightarrow>
                  if get (get job ''state'') ''status'' = JNum (js_running js) then Found identity else Again
              | None \<Rightarrow> Again))"

section \<open>The polling loop\<close>

record dispatch_world =
  dw_answer :: "nat \<Rightarrow> jsval ext"
  dw_start :: int
  dw_before :: "nat \<Rightarrow> int"
  dw_sleeping :: "nat \<Rightarrow> int"
  dw_after :: "nat \<Rightarrow> int"

text \<open>The pause of poll \<open>k\<close>.\<close>

definition pause_ms :: "int \<Rightarrow> int \<Rightarrow> dispatch_world \<Rightarrow> nat \<Rightarrow> int" where
  "pause_ms interval deadline w k = min interval (max 1 (deadline - dw_sleeping w k))"

definition not_ready :: "string ext" where
  "not_ready = Throw ''livekit_dispatch_agent_not_ready''"

partial_function (option) poll_from ::
    "job_status \<Rightarrow> string \<Rightarrow> string \<Rightarrow> string \<Rightarrow> int \<Rightarrow> dispatch_world \<Rightarrow> nat \<Rightarrow> string ext option" where
  "poll_from js dispatch_id room agent deadline w k =
     (case check_dispatch js dispatch_id room agent (dw_answer w k) of
        Found identity \<Rightarrow> Some (Ret identity)
      | Refused m \<Rightarrow> Some (Throw m)
      | Again \<Rightarrow>
          if dw_before w k \<ge> deadline then Some not_ready
          else if dw_after w k \<le> deadline then poll_from js dispatch_id room agent deadline w (Suc k)
          else Some not_ready)"

record dispatch_args =
  da_clientOk :: bool
  da_dispatchId :: jsval
  da_roomName :: jsval
  da_expectedAgentName :: jsval
  da_timeoutMs :: jsval
  da_pollIntervalMs :: jsval

definition or_default :: "jsval \<Rightarrow> jsval \<Rightarrow> jsval" where
  "or_default d v = (if v = JUndef then d else v)"

definition in_range :: "jsval \<Rightarrow> int \<Rightarrow> int \<Rightarrow> bool" where
  "in_range v lo hi = (case v of JNum n \<Rightarrow> lo \<le> n \<and> n \<le> hi | _ \<Rightarrow> False)"

definition num :: "jsval \<Rightarrow> int" where
  "num v = (case v of JNum n \<Rightarrow> n | _ \<Rightarrow> 0)"

definition str :: "jsval \<Rightarrow> string" where
  "str v = (case v of JStr s \<Rightarrow> s | _ \<Rightarrow> [])"

definition resolve_dispatched_agent_identity ::
    "job_status \<Rightarrow> dispatch_args \<Rightarrow> dispatch_world \<Rightarrow> string ext option" where
  "resolve_dispatched_agent_identity js a w =
     (let agent = or_default (JStr ''calendar-assistant'') (da_expectedAgentName a);
          timeout = or_default (JNum 10000) (da_timeoutMs a);
          interval = or_default (JNum 250) (da_pollIntervalMs a) in
      if \<not> da_clientOk a then Some (Throw ''A LiveKit agent-dispatch client is required'')
      else if \<not> non_empty (da_dispatchId a) 255 \<or> \<not> non_empty (da_roomName a) 255 \<or> \<not> non_empty agent 128
      then Some (Throw ''A dispatch ID, room, and expected agent name are required'')
      else if \<not> in_range timeout 1 60000 then Some (Throw ''timeoutMs must be between 1 and 60000'')
      else if \<not> in_range interval 1 (num timeout)
      then Some (Throw ''pollIntervalMs must be positive and no greater than timeoutMs'')
      else poll_from js (str (da_dispatchId a)) (str (da_roomName a)) (str agent)
             (dw_start w + num timeout) w 0)"

text \<open>\<open>createDispatchAgentVerifier\<close>: the identity and the kind of the participant, both as found.\<close>

definition create_dispatch_agent_verifier :: "jsval \<Rightarrow> jsval \<Rightarrow> jsval \<Rightarrow> (jsval \<Rightarrow> jsval \<Rightarrow> bool) ext" where
  "create_dispatch_agent_verifier dispatch_id identity agent_kind =
     (if \<not> non_empty dispatch_id 255 \<or> \<not> non_empty identity 255
      then Throw ''A verified dispatch ID and participant identity are required''
      else Ret (\<lambda>participant candidate. candidate = dispatch_id \<and> get participant ''identity'' = identity
             \<and> get participant ''kind'' = agent_kind))"

section \<open>Verified media\<close>

text \<open>The failure handler given to the bridge: whatever the observer does, the fallback counts as done
only when the controller says that the call failed after it.\<close>

definition on_media_failure :: "jsval ext \<Rightarrow> unit ext" where
  "on_media_failure outcome =
     (case outcome of
        Throw m \<Rightarrow> Throw m
      | Ret v \<Rightarrow> if get v ''reason'' = JStr ''call_failed_after_media_fallback'' then Ret ()
                else Throw ''tenant_call_fallback_incomplete'')"

record bridge_start =
  bs_dispatchId :: jsval
  bs_identity :: string
  bs_sessionId :: string

text \<open>\<open>startVerifiedThreeCxLiveKitMediaBridge\<close> up to the construction of the bridge: its arguments, or the
error. Falsy optional arguments are left to the defaults.\<close>

definition given :: "jsval \<Rightarrow> jsval" where
  "given v = (if truthy v then v else JUndef)"

definition start_verified_bridge ::
    "job_status \<Rightarrow> bool \<Rightarrow> jsval \<Rightarrow> bool \<Rightarrow> dispatch_args \<Rightarrow> dispatch_world \<Rightarrow> bridge_start ext option" where
  "start_verified_bridge js controller_ok session_id observer_ok a w =
     (if \<not> controller_ok then Some (Throw ''A tenant-bound call controller is required'')
      else if \<not> non_empty session_id 255 then Some (Throw ''A bounded call session ID is required'')
      else if \<not> observer_ok then Some (Throw ''onFailureObserver must be a function'')
      else map_option (\<lambda>r. case r of
             Throw m \<Rightarrow> Throw m
           | Ret identity \<Rightarrow> Ret \<lparr>bs_dispatchId = da_dispatchId a, bs_identity = identity, bs_sessionId = str session_id\<rparr>)
           (resolve_dispatched_agent_identity js
             (a\<lparr>da_expectedAgentName := given (da_expectedAgentName a), da_timeoutMs := given (da_timeoutMs a),
                da_pollIntervalMs := given (da_pollIntervalMs a)\<rparr>) w))"

section \<open>Claims\<close>

lemma check_found:
  assumes "check_dispatch js dispatch_id room agent r = Found identity"
  shows "\<exists>d job. r = Ret d \<and> get d ''id'' = JStr dispatch_id \<and> get d ''room'' = JStr room
    \<and> get d ''agentName'' = JStr agent \<and> get (get d ''state'') ''jobs'' = JArr [job]
    \<and> get (get job ''state'') ''participantIdentity'' = JStr identity
    \<and> get (get job ''state'') ''status'' = JNum (js_running js) \<and> identity \<noteq> []"
proof (cases r)
  case (Throw m)
  then show ?thesis using assms by (simp add: check_dispatch_def)
next
  case (Ret d)
  let ?jobs = "get (get d ''state'') ''jobs''"
  have f: "truthy (first_job ?jobs)" "\<not> (case ?jobs of JArr js \<Rightarrow> length js > 1 | _ \<Rightarrow> False)"
    using assms Ret by (auto simp: check_dispatch_def Let_def simp del: get.simps split: if_splits)
  then obtain job where job: "?jobs = JArr [job]"
    by (auto simp: first_job_def simp del: get.simps split: jsval.splits list.splits)
  then show ?thesis
    using assms Ret
    by (auto simp: check_dispatch_def Let_def first_job_def bounded_string_Some
        simp del: get.simps split: if_splits option.splits)
qed

lemma again_is_ret: "check_dispatch js dispatch_id room agent r = Again \<Longrightarrow> is_ret r"
  by (cases r) (simp_all add: check_dispatch_def)

lemma poll_from_result:
  "poll_from js dispatch_id room agent deadline w k = Some r \<Longrightarrow>
     r = Ret identity \<longrightarrow>
     (\<exists>n \<ge> k. check_dispatch js dispatch_id room agent (dw_answer w n) = Found identity
       \<and> (\<forall>i. k \<le> i \<and> i < n \<longrightarrow> check_dispatch js dispatch_id room agent (dw_answer w i) = Again))"
proof (induction rule: poll_from.raw_induct [rotated 1, consumes 1, case_names step])
  case (step f js dispatch_id room agent deadline w k r)
  show ?case
  proof
    assume r: "r = Ret identity"
    show "\<exists>n \<ge> k. check_dispatch js dispatch_id room agent (dw_answer w n) = Found identity
       \<and> (\<forall>i. k \<le> i \<and> i < n \<longrightarrow> check_dispatch js dispatch_id room agent (dw_answer w i) = Again)"
    proof (cases "check_dispatch js dispatch_id room agent (dw_answer w k)")
      case (Found x)
      then show ?thesis using step(2) r by (intro exI [of _ k]) auto
    next
      case (Refused m)
      then show ?thesis using step(2) r by simp
    next
      case Again
      then have "f js dispatch_id room agent deadline w (Suc k) = Some r"
        using step(2) r by (simp add: not_ready_def split: if_splits)
      from step(1) [OF this] r obtain n where n: "n \<ge> Suc k"
        "check_dispatch js dispatch_id room agent (dw_answer w n) = Found identity"
        "\<forall>i. Suc k \<le> i \<and> i < n \<longrightarrow> check_dispatch js dispatch_id room agent (dw_answer w i) = Again"
        by blast
      have "\<forall>i. k \<le> i \<and> i < n \<longrightarrow> check_dispatch js dispatch_id room agent (dw_answer w i) = Again"
        using n(3) Again by (metis le_antisym not_less_eq_eq)
      then show ?thesis using n by (intro exI [of _ n]) simp
    qed
  qed
qed

lemma resolve_args:
  assumes "resolve_dispatched_agent_identity js a w = Some (Ret identity)"
  shows "\<exists>did room agent t. da_dispatchId a = JStr did \<and> da_roomName a = JStr room
    \<and> or_default (JStr ''calendar-assistant'') (da_expectedAgentName a) = JStr agent
    \<and> poll_from js did room agent (dw_start w + t) w 0 = Some (Ret identity)"
  using assms
  by (auto simp: resolve_dispatched_agent_identity_def Let_def non_empty_def bounded_string_Some str_def
      split: if_splits)

text \<open>C21. Only the agent that LiveKit itself reports for this call's dispatch is ever resolved: the identity
returned is non-empty and is the participant of the one job of the dispatch, that job is running, and
the dispatch has the requested id, room and agent name; every answer polled before it was
inconclusive, so an error or a mismatch is never retried away.\<close>

theorem resolved_agent_owns_dispatch:
  assumes "resolve_dispatched_agent_identity js a w = Some (Ret identity)"
  shows "\<exists>n d job. dw_answer w n = Ret d \<and> get d ''id'' = da_dispatchId a \<and> get d ''room'' = da_roomName a
    \<and> get d ''agentName'' = or_default (JStr ''calendar-assistant'') (da_expectedAgentName a)
    \<and> get (get d ''state'') ''jobs'' = JArr [job]
    \<and> get (get job ''state'') ''participantIdentity'' = JStr identity
    \<and> get (get job ''state'') ''status'' = JNum (js_running js) \<and> identity \<noteq> []
    \<and> (\<forall>i<n. is_ret (dw_answer w i))"
proof -
  obtain did room agent t where a: "da_dispatchId a = JStr did" "da_roomName a = JStr room"
    "or_default (JStr ''calendar-assistant'') (da_expectedAgentName a) = JStr agent"
    and p: "poll_from js did room agent (dw_start w + t) w 0 = Some (Ret identity)"
    using resolve_args [OF assms] by blast
  obtain n where n: "check_dispatch js did room agent (dw_answer w n) = Found identity"
    "\<forall>i. 0 \<le> i \<and> i < n \<longrightarrow> check_dispatch js did room agent (dw_answer w i) = Again"
    using poll_from_result [OF p] by blast
  have "\<forall>i<n. is_ret (dw_answer w i)" using n(2) again_is_ret by blast
  with check_found [OF n(1)] a show ?thesis by (intro exI [of _ n]) auto
qed

text \<open>What \<open>Date.now\<close> and \<open>setTimeout\<close> document: the clock does not run backwards, and a pause of
\<open>ms\<close> milliseconds ends no earlier than \<open>ms\<close> milliseconds later.\<close>

definition clock_advances :: "int \<Rightarrow> int \<Rightarrow> dispatch_world \<Rightarrow> bool" where
  "clock_advances interval deadline w \<longleftrightarrow>
     dw_start w \<le> dw_before w 0
     \<and> (\<forall>k. dw_before w k \<le> dw_sleeping w k \<and> dw_sleeping w k + pause_ms interval deadline w k \<le> dw_after w k
          \<and> dw_after w k \<le> dw_before w (Suc k))"

lemma poll_from_returns:
  assumes "clock_advances interval deadline w" "1 \<le> interval"
  shows "deadline - int m \<le> dw_before w k \<Longrightarrow> (\<And>i. k \<le> i \<Longrightarrow> i \<le> k + m \<Longrightarrow> ans i = dw_answer w i) \<Longrightarrow>
    (\<exists>r. poll_from js did room agent deadline w k = Some r)
    \<and> poll_from js did room agent deadline (w\<lparr>dw_answer := ans\<rparr>) k = poll_from js did room agent deadline w k"
proof (induction m arbitrary: k)
  case 0
  then have "ans k = dw_answer w k" "deadline \<le> dw_before w k" by simp_all
  then show ?case
    by (simp add: poll_from.simps [of _ _ _ _ _ _ k] split: poll.split)
next
  case (Suc m)
  have k: "ans k = dw_answer w k" using Suc.prems(2) by simp
  have "dw_before w k + 1 \<le> dw_before w (Suc k)"
  proof -
    have "1 \<le> pause_ms interval deadline w k" using assms(2) by (simp add: pause_ms_def)
    moreover have "dw_before w k \<le> dw_sleeping w k \<and> dw_sleeping w k + pause_ms interval deadline w k \<le> dw_after w k
      \<and> dw_after w k \<le> dw_before w (Suc k)"
      using assms(1) by (simp add: clock_advances_def)
    ultimately show ?thesis by linarith
  qed
  then have "deadline - int m \<le> dw_before w (Suc k)" using Suc.prems(1) by simp
  from Suc.IH [OF this] Suc.prems(2)
  have ih: "\<exists>r. poll_from js did room agent deadline w (Suc k) = Some r"
    "poll_from js did room agent deadline (w\<lparr>dw_answer := ans\<rparr>) (Suc k) = poll_from js did room agent deadline w (Suc k)"
    by simp_all
  show ?case using k ih by (simp add: poll_from.simps [of _ _ _ _ _ _ k] split: poll.split)
qed

text \<open>C22. The resolution of the agent always comes back, and after a bounded number of polls: when the clock
advances as documented it returns an identity or an error for every behaviour of the dispatch service,
and it looks at no more than \<open>timeoutMs + 1\<close> answers.\<close>

theorem resolution_terminates:
  assumes "num (or_default (JNum 10000) (da_timeoutMs a)) = t" "0 \<le> t"
    and "clock_advances (num (or_default (JNum 250) (da_pollIntervalMs a))) (dw_start w + t) w"
    and "\<forall>k. k \<le> nat t \<longrightarrow> ans k = dw_answer w k"
  shows "(\<exists>r. resolve_dispatched_agent_identity js a w = Some r)
    \<and> resolve_dispatched_agent_identity js a (w\<lparr>dw_answer := ans\<rparr>) = resolve_dispatched_agent_identity js a w"
proof (cases "in_range (or_default (JNum 250) (da_pollIntervalMs a)) 1 t")
  case False
  then show ?thesis using assms(1) by (simp add: resolve_dispatched_agent_identity_def Let_def)
next
  case True
  then have i: "1 \<le> num (or_default (JNum 250) (da_pollIntervalMs a))"
    by (auto simp: in_range_def num_def split: jsval.splits)
  have "dw_start w \<le> dw_before w 0" using assms(3) by (simp add: clock_advances_def)
  then have "dw_start w + t - int (nat t) \<le> dw_before w 0" using assms(2) by simp
  from poll_from_returns [OF assms(3) i this, of ans] assms(4)
  show ?thesis using assms(1) by (simp add: resolve_dispatched_agent_identity_def Let_def)
qed

section \<open>Witnesses\<close>

definition demo_js :: job_status where
  "demo_js = \<lparr>js_running = 1, js_success = 2, js_failed = 3\<rparr>"

definition demo_args :: dispatch_args where
  "demo_args = \<lparr>da_clientOk = True, da_dispatchId = JStr ''d'', da_roomName = JStr ''r'',
     da_expectedAgentName = JUndef, da_timeoutMs = JNum 2, da_pollIntervalMs = JNum 1\<rparr>"

definition demo_job :: jsval where
  "demo_job = JObj [(''state'', JObj [(''status'', JNum 1), (''participantIdentity'', JStr ''agent-1'')])]"

definition demo_world :: dispatch_world where
  "demo_world = \<lparr>dw_answer = (\<lambda>k. if k = 0 then Ret JNull else Ret (JObj
       [(''id'', JStr ''d''), (''room'', JStr ''r''), (''agentName'', JStr ''calendar-assistant''),
        (''state'', JObj [(''jobs'', JArr [demo_job])])])),
     dw_start = 0, dw_before = int, dw_sleeping = int, dw_after = (\<lambda>k. int k + 1)\<rparr>"

lemma demo_resolves: "resolve_dispatched_agent_identity demo_js demo_args demo_world = Some (Ret ''agent-1'')"
proof -
  have "poll_from demo_js ''d'' ''r'' ''calendar-assistant'' 2 demo_world 0 = Some (Ret ''agent-1'')"
    by (subst poll_from.simps, simp add: check_dispatch_def demo_world_def,
        subst poll_from.simps, simp add: check_dispatch_def demo_js_def first_job_def demo_job_def bounded_string_def)
  then show ?thesis
    by (simp add: resolve_dispatched_agent_identity_def demo_args_def Let_def non_empty_def bounded_string_def
        or_default_def in_range_def num_def str_def, simp add: demo_world_def)
qed

theorem resolved_agent_owns_dispatch_witness:
  "\<exists>n d. dw_answer demo_world n = Ret d \<and> get d ''id'' = JStr ''d'' \<and> (\<forall>i<n. is_ret (dw_answer demo_world i))"
  using resolved_agent_owns_dispatch [OF demo_resolves] unfolding demo_args_def by auto

theorem resolution_terminates_witness:
  "\<exists>r. resolve_dispatched_agent_identity demo_js demo_args demo_world = Some r"
proof -
  have n: "num (or_default (JNum 10000) (da_timeoutMs demo_args)) = 2"
    and i: "num (or_default (JNum 250) (da_pollIntervalMs demo_args)) = 1"
    by (simp_all add: demo_args_def or_default_def num_def)
  have "clock_advances (num (or_default (JNum 250) (da_pollIntervalMs demo_args))) (dw_start demo_world + 2) demo_world"
    unfolding i by (simp add: clock_advances_def pause_ms_def demo_world_def)
  from resolution_terminates [OF n _ this, of "dw_answer demo_world" demo_js] show ?thesis by simp
qed

end
