(* ===== verification/Sdk_Adapter.thy ===== *)
theory Sdk_Adapter
  imports Call_Controller
begin

text \<open>
  \<open>connector/threecx-sdk-event-adapter.mjs\<close>: turns the participant events of the 3CX SDK into the join
  and end events of the call controller. Events of the client enqueue operations, which run one after
  the other; an operation that awaits (the DID resolver, the PBX snapshot) is suspended, and client
  events and changes of the controller may happen meanwhile. SHA-256 and the controller are parameters.
  The await of \<open>handleEvent\<close> is the last thing an operation reads shared state for, so it is answered
  in the step that issues it; the admission of a reconciled snapshot is one step.
\<close>

section \<open>Shutting down\<close>

text \<open>The contract every layer of the connector relies on when it shuts down the layer below: an answer
\<open>stopped: true\<close> means that the layer is quiet (no call is left in it), in every state that satisfies the invariant \<open>ok\<close> of the layer.\<close>

locale drainable =
  fixes drain :: "'s \<Rightarrow> (bool \<times> 'r) ext \<times> 's"
    and quiet :: "'s \<Rightarrow> bool"
    and ok :: "'s \<Rightarrow> bool"
  assumes drained_quiet: "ok s \<Longrightarrow> drain s = (Ret (True, rs), s') \<Longrightarrow> quiet s'"
begin

lemma not_quiet_not_drained: "ok s \<Longrightarrow> \<not> quiet (snd (drain s)) \<Longrightarrow> fst (drain s) \<noteq> Ret (True, rs)"
  using drained_quiet [of s rs "snd (drain s)"] by (cases "drain s") auto

end

lemma shutdown_quiet: "shutdown d b c = (Ret (True, rs), c') \<Longrightarrow> calls c' = []"
  by (auto simp: shutdown_def Let_def split: prod.splits ext.splits)

interpretation controller_drain: drainable "shutdown d b" "\<lambda>c. calls c = []" "\<lambda>_. True" for d :: "'w deps" and b
  by unfold_locales (rule shutdown_quiet)

section \<open>State\<close>

datatype sdk_op =
    Op_Connected nat bool
  | Op_Join jsval
  | Op_Left jsval

datatype sdk_await =
    Await_Snapshot
  | Await_Resolution int string string   \<comment> \<open>participant id, call id, opaque key\<close>

datatype sdk_act =
    Sent jsval
  | Signal string
  | Controller_Said reason
  | Client_Disconnected

record 'c sdk =
  sd_ctl :: 'c
  sd_accepting :: bool
  sd_participantByCallId :: "(string, int) jsmap"
  sd_callIdByParticipantId :: "(int, string) jsmap"
  sd_started :: bool
  sd_everConnected :: bool
  sd_epoch :: nat
  sd_queue :: "sdk_op list"
  sd_running :: "sdk_await option"
  sd_log :: "sdk_act list"

record 'c sdk_deps =
  ad_routePointDn :: string
  ad_sha256 :: "string \<Rightarrow> string"
  ad_handleEvent :: "jsval \<Rightarrow> 'c \<Rightarrow> reason ext \<times> 'c"
  ad_shutdown :: "'c \<Rightarrow> (bool \<times> reason list) ext \<times> 'c"

definition new_sdk :: "'c \<Rightarrow> 'c sdk" where
  "new_sdk c = \<lparr>sd_ctl = c, sd_accepting = False, sd_participantByCallId = [], sd_callIdByParticipantId = [],
     sd_started = False, sd_everConnected = False, sd_epoch = 0, sd_queue = [], sd_running = None, sd_log = []\<rparr>"

definition note_act :: "sdk_act \<Rightarrow> 'c sdk \<Rightarrow> 'c sdk" where
  "note_act a s = s\<lparr>sd_log := sd_log s @ [a]\<rparr>"

abbreviation signal :: "string \<Rightarrow> 'c sdk \<Rightarrow> 'c sdk" where
  "signal r \<equiv> note_act (Signal r)"

definition bounded :: "jsval \<Rightarrow> nat \<Rightarrow> jsval" where
  "bounded v n = (case bounded_string v n of Some s \<Rightarrow> JStr s | None \<Rightarrow> JNull)"

text \<open>\<open>Number(v)\<close> when it is an integer; numeric strings are decimal ones (identifiers of the SDK).\<close>

fun digits_value :: "nat \<Rightarrow> string \<Rightarrow> nat option" where
  "digits_value acc [] = Some acc"
| "digits_value acc (c # cs) =
     (let n = of_char c :: nat in if 48 \<le> n \<and> n \<le> 57 then digits_value (acc * 10 + (n - 48)) cs else None)"

fun number_of :: "jsval \<Rightarrow> int option" where
  "number_of (JNum n) = Some n"
| "number_of (JBool b) = Some (if b then 1 else 0)"
| "number_of JNull = Some 0"
| "number_of (JStr s) = map_option int (digits_value 0 (trim s))"
| "number_of _ = None"

section \<open>Operations\<close>

definition handle_connected :: "'c sdk \<Rightarrow> 'c sdk" where
  "handle_connected s =
     s\<lparr>sd_epoch := Suc (sd_epoch s), sd_everConnected := True,
       sd_queue := sd_queue s @ [Op_Connected (Suc (sd_epoch s)) (\<not> sd_everConnected s)]\<rparr>"

definition handle_client_disconnected :: "'c sdk \<Rightarrow> 'c sdk" where
  "handle_client_disconnected s =
     signal ''pbx_disconnected'' (s\<lparr>sd_epoch := Suc (sd_epoch s), sd_accepting := False\<rparr>)"

definition start_adapter :: "'c sdk \<Rightarrow> 'c sdk" where
  "start_adapter s = (if sd_started s then s else s\<lparr>sd_started := True\<rparr>)"

definition stop_adapter :: "'c sdk \<Rightarrow> 'c sdk" where
  "stop_adapter s = (if \<not> sd_started s then s else s\<lparr>sd_started := False, sd_accepting := False\<rparr>)"

text \<open>The result of \<open>shutdown\<close>; \<open>disc\<close> is the outcome of \<open>client.disconnect\<close>.\<close>

definition shutdown_adapter ::
    "'c sdk_deps \<Rightarrow> unit ext \<Rightarrow> 'c sdk \<Rightarrow> (bool \<times> reason list) ext \<times> 'c sdk" where
  "shutdown_adapter d disc s =
     (case ad_shutdown d (sd_ctl s) of
        (Throw m, c) \<Rightarrow> (Throw m, s\<lparr>sd_ctl := c\<rparr>)
      | (Ret (stopped, results), c) \<Rightarrow>
          let s = s\<lparr>sd_ctl := c\<rparr> in
          if \<not> stopped then (Ret (False, results), signal ''connector_shutdown_incomplete'' s)
          else let s = note_act Client_Disconnected (stop_adapter s) in
            (case disc of
               Ret _ \<Rightarrow> (Ret (True, results), signal ''connector_shutdown_complete'' s)
             | Throw _ \<Rightarrow> (Ret (False, results), signal ''pbx_disconnect_failed'' s)))"

definition get_participant_handle :: "(int \<Rightarrow> jsval) \<Rightarrow> jsval \<Rightarrow> jsval" where
  "get_participant_handle client pid =
     (case number_of pid of
        Some n \<Rightarrow> if n < 1 then JUndef
          else let p = client n in if truthy p \<and> \<not> truthy (get p ''destroyed'') then p else JUndef
      | None \<Rightarrow> JUndef)"

definition send :: "'c sdk_deps \<Rightarrow> jsval \<Rightarrow> 'c sdk \<Rightarrow> reason ext \<times> 'c sdk" where
  "send d ev s = (case ad_handleEvent d ev (sd_ctl s) of (r, c) \<Rightarrow> (r, note_act (Sent ev) (s\<lparr>sd_ctl := c\<rparr>)))"

definition call_id_of :: "'c sdk_deps \<Rightarrow> string \<Rightarrow> string" where
  "call_id_of d uid = ''pbx-'' @ ad_sha256 d uid"

definition join_event :: "'c sdk_deps \<Rightarrow> int \<Rightarrow> string \<Rightarrow> string \<Rightarrow> string \<Rightarrow> jsval" where
  "join_event d pid cid key did =
     JObj [(''type'', JStr ''routepoint_participant_connected''), (''callId'', JStr cid),
           (''eventId'', JStr (''join-'' @ key)), (''routePointDn'', JStr (ad_routePointDn d)),
           (''did'', JStr did), (''direction'', JStr ''inbound''), (''participantId'', JNum pid)]"

definition end_event :: "'c sdk_deps \<Rightarrow> string \<Rightarrow> jsval" where
  "end_event d cid =
     JObj [(''type'', JStr ''routepoint_call_ended''), (''callId'', JStr cid),
           (''eventId'', JStr (''end-'' @ drop 4 cid)), (''routePointDn'', JStr (ad_routePointDn d))]"

definition ended_reasons :: "reason list" where
  "ended_reasons = [Call_ended, Already_terminal, Call_not_tracked]"

text \<open>\<open>#onParticipantConnected\<close> up to the resolver: why the participant is refused, or who it is.\<close>

definition join_check :: "'c sdk_deps \<Rightarrow> jsval \<Rightarrow> 'c sdk \<Rightarrow> (string, int \<times> string \<times> string) sum" where
  "join_check d p s =
     (if \<not> sd_accepting s then Inl ''pbx_not_ready''
      else if \<not> truthy p \<or> get p ''isExtensionParticipant'' \<noteq> JBool False \<or> get p ''dn'' \<noteq> JStr (ad_routePointDn d)
      then Inl ''non_routepoint_participant_ignored''
      else case number_of (get p ''id'') of
        None \<Rightarrow> Inl ''invalid_participant_state''
      | Some pid \<Rightarrow>
          let info = get p ''info'' in
          if pid < 1 \<or> \<not> truthy info \<or> get info ''status'' \<noteq> JStr ''Connected'' then Inl ''invalid_participant_state''
          else (case bounded_string (get info ''participant_uid'') 255 of
              None \<Rightarrow> Inl ''stable_call_reference_missing''
            | Some uid \<Rightarrow>
                if jm_get (sd_participantByCallId s) (call_id_of d uid) \<noteq> None then Inl ''duplicate_local_participant''
                else Inr (pid, call_id_of d uid, ad_sha256 d uid)))"

text \<open>The rest of it, given the resolver's answer.\<close>

definition join_finish :: "'c sdk_deps \<Rightarrow> int \<Rightarrow> string \<Rightarrow> string \<Rightarrow> jsval ext \<Rightarrow> 'c sdk \<Rightarrow> bool \<times> 'c sdk" where
  "join_finish d pid cid key resolution s =
     (case resolution of
        Throw _ \<Rightarrow> (True, signal ''inbound_call_unresolved'' s)
      | Ret r \<Rightarrow> (case bounded_string (get r ''did'') 64 of
            None \<Rightarrow> (True, signal ''inbound_call_unresolved'' s)
          | Some did \<Rightarrow>
              if get r ''direction'' \<noteq> JStr ''inbound'' then (True, signal ''inbound_call_unresolved'' s)
              else let s = s\<lparr>sd_participantByCallId := jm_set cid pid (sd_participantByCallId s),
                             sd_callIdByParticipantId := jm_set pid cid (sd_callIdByParticipantId s)\<rparr> in
                (case send d (join_event d pid cid key did) s of
                   (Throw _, s) \<Rightarrow> (False, s)
                 | (Ret r, s) \<Rightarrow>
                     (True, note_act (Controller_Said r)
                       (if r = Call_active then s
                        else s\<lparr>sd_participantByCallId := jm_delete cid (sd_participantByCallId s),
                               sd_callIdByParticipantId := jm_delete pid (sd_callIdByParticipantId s)\<rparr>)))))"

text \<open>An operation that throws ends with a signal of the queue.\<close>

definition caught :: "string \<Rightarrow> bool \<times> 'c sdk \<Rightarrow> 'c sdk" where
  "caught m r = (if fst r then snd r else signal m (snd r))"

definition participant_left :: "'c sdk_deps \<Rightarrow> jsval \<Rightarrow> 'c sdk \<Rightarrow> 'c sdk" where
  "participant_left d v s =
     (case number_of v of
        None \<Rightarrow> signal ''untracked_participant_end'' s
      | Some pid \<Rightarrow> (case jm_get (sd_callIdByParticipantId s) pid of
            None \<Rightarrow> signal ''untracked_participant_end'' s
          | Some cid \<Rightarrow>
              if cid = [] then signal ''untracked_participant_end'' s
              else (case send d (end_event d cid) s of
                (Throw _, s) \<Rightarrow> signal ''participant_end_failed'' s
              | (Ret r, s) \<Rightarrow>
                  note_act (Controller_Said r)
                   (if r \<in> set ended_reasons
                    then s\<lparr>sd_callIdByParticipantId := jm_delete pid (sd_callIdByParticipantId s),
                           sd_participantByCallId := jm_delete cid (sd_participantByCallId s)\<rparr>
                    else s))))"

text \<open>Reconciliation: end every tracked call that the fresh snapshot does not confirm.\<close>

definition still_present :: "'c sdk_deps \<Rightarrow> (string \<times> jsval) list \<Rightarrow> string \<Rightarrow> int \<Rightarrow> bool" where
  "still_present d current cid pid =
     (case map_of current (int_string pid) of
        None \<Rightarrow> False
      | Some info \<Rightarrow> get info ''status'' = JStr ''Connected''
          \<and> (case bounded_string (get info ''participant_uid'') 255 of
               Some uid \<Rightarrow> call_id_of d uid = cid | None \<Rightarrow> False))"

fun end_missing :: "'c sdk_deps \<Rightarrow> (string \<times> jsval) list \<Rightarrow> (string \<times> int) list \<Rightarrow> 'c sdk \<Rightarrow> bool \<times> 'c sdk" where
  "end_missing d current [] s = (True, s)"
| "end_missing d current ((cid, pid) # rest) s =
     (if still_present d current cid pid then end_missing d current rest s
      else (case send d (end_event d cid) s of
          (Throw _, s) \<Rightarrow> (False, s)
        | (Ret r, s) \<Rightarrow>
            if r \<notin> set ended_reasons then (False, s)
            else end_missing d current rest
              (s\<lparr>sd_participantByCallId := jm_delete cid (sd_participantByCallId s),
                 sd_callIdByParticipantId := jm_delete pid (sd_callIdByParticipantId s)\<rparr>)))"

definition join_now :: "'c sdk_deps \<Rightarrow> (string \<Rightarrow> jsval ext) \<Rightarrow> jsval \<Rightarrow> 'c sdk \<Rightarrow> bool \<times> 'c sdk" where
  "join_now d resolve p s =
     (case join_check d p s of
        Inl m \<Rightarrow> (True, signal m s)
      | Inr (pid, cid, key) \<Rightarrow> join_finish d pid cid key (resolve cid) s)"

definition snapshot_participant :: "'c sdk_deps \<Rightarrow> int \<Rightarrow> jsval \<Rightarrow> jsval" where
  "snapshot_participant d pid info =
     JObj [(''id'', JNum pid), (''dn'', JStr (ad_routePointDn d)), (''isExtensionParticipant'', JBool False),
       (''info'', JObj (jm_set ''dn'' (js_coalesce (get info ''dn'') (JStr (ad_routePointDn d))) (obj_fields info)))]"

fun admit :: "'c sdk_deps \<Rightarrow> (string \<Rightarrow> jsval ext) \<Rightarrow> (string \<times> jsval) list \<Rightarrow> 'c sdk \<Rightarrow> bool \<times> 'c sdk" where
  "admit d resolve [] s = (True, s)"
| "admit d resolve ((key, info) # rest) s =
     (if get info ''status'' \<noteq> JStr ''Connected'' then admit d resolve rest s
      else (case number_of (js_coalesce (get info ''id'') (JStr key)) of
          None \<Rightarrow> admit d resolve rest s
        | Some pid \<Rightarrow>
            if pid < 1 then admit d resolve rest s
            else (case join_now d resolve (snapshot_participant d pid info) s of
                (False, s) \<Rightarrow> (False, s)
              | (True, s) \<Rightarrow> admit d resolve rest s)))"

text \<open>\<open>#reconcileAfterReconnect\<close> after the snapshot arrived: the participants of the route point, if the
snapshot has them.\<close>

definition reconcile_finish ::
    "'c sdk_deps \<Rightarrow> (string \<times> jsval) list option ext \<Rightarrow> (string \<Rightarrow> jsval ext) \<Rightarrow> 'c sdk \<Rightarrow> 'c sdk" where
  "reconcile_finish d snapshot resolve s =
     (case snapshot of
        Ret (Some current) \<Rightarrow>
          (case end_missing d current (sd_participantByCallId s) s of
             (False, s) \<Rightarrow> signal ''pbx_reconciliation_failed'' s
           | (True, s) \<Rightarrow> (case admit d resolve current (s\<lparr>sd_accepting := True\<rparr>) of
                (False, s) \<Rightarrow> signal ''pbx_event_failed'' s
              | (True, s) \<Rightarrow> signal ''pbx_reconciled'' s))
      | _ \<Rightarrow> signal ''pbx_reconciliation_failed'' s)"

definition run_sdk_op :: "'c sdk_deps \<Rightarrow> sdk_op \<Rightarrow> 'c sdk \<Rightarrow> 'c sdk" where
  "run_sdk_op d op s =
     (case op of
        Op_Connected e is_first \<Rightarrow>
          if e \<noteq> sd_epoch s then s
          else if is_first then signal ''pbx_connected'' (s\<lparr>sd_accepting := True\<rparr>)
          else s\<lparr>sd_accepting := False, sd_running := Some Await_Snapshot\<rparr>
      | Op_Join p \<Rightarrow> (case join_check d p s of
            Inl m \<Rightarrow> signal m s
          | Inr (pid, cid, key) \<Rightarrow> s\<lparr>sd_running := Some (Await_Resolution pid cid key)\<rparr>)
      | Op_Left v \<Rightarrow> participant_left d v s)"

section \<open>Steps\<close>

datatype 'c sdk_event =
    Start_Adapter
  | Client_Connected
  | Client_Lost
  | Client_Error
  | Participant_Connected jsval
  | Participant_Disconnected jsval
  | Extension_Connected
  | Run_Next
  | Resolved "jsval ext"
  | Snapshot "(string \<times> jsval) list option ext" "string \<Rightarrow> jsval ext"
  | Controller_Moves "'c \<Rightarrow> 'c"
  | Shut_Down "unit ext"

fun sdk_step :: "'c sdk_deps \<Rightarrow> 'c sdk \<Rightarrow> 'c sdk_event \<Rightarrow> 'c sdk" where
  "sdk_step d s Start_Adapter = start_adapter s"
| "sdk_step d s Client_Connected = (if sd_started s then handle_connected s else s)"
| "sdk_step d s Client_Lost = (if sd_started s then handle_client_disconnected s else s)"
| "sdk_step d s Client_Error = (if sd_started s then signal ''pbx_sdk_error'' s else s)"
| "sdk_step d s (Participant_Connected p) = (if sd_started s then s\<lparr>sd_queue := sd_queue s @ [Op_Join p]\<rparr> else s)"
| "sdk_step d s (Participant_Disconnected v) = (if sd_started s then s\<lparr>sd_queue := sd_queue s @ [Op_Left v]\<rparr> else s)"
| "sdk_step d s Extension_Connected = (if sd_started s then signal ''extension_event_ignored'' s else s)"
| "sdk_step d s Run_Next =
     (case (sd_running s, sd_queue s) of
        (None, op # rest) \<Rightarrow> run_sdk_op d op (s\<lparr>sd_queue := rest\<rparr>)
      | _ \<Rightarrow> s)"
| "sdk_step d s (Resolved r) =
     (case sd_running s of
        Some (Await_Resolution pid cid key) \<Rightarrow>
          caught ''participant_event_failed'' (join_finish d pid cid key r (s\<lparr>sd_running := None\<rparr>))
      | _ \<Rightarrow> s)"
| "sdk_step d s (Snapshot sn resolve) =
     (case sd_running s of
        Some Await_Snapshot \<Rightarrow> reconcile_finish d sn resolve (s\<lparr>sd_running := None\<rparr>)
      | _ \<Rightarrow> s)"
| "sdk_step d s (Controller_Moves f) = s\<lparr>sd_ctl := f (sd_ctl s)\<rparr>"
| "sdk_step d s (Shut_Down disc) = snd (shutdown_adapter d disc s)"

section \<open>Invariant\<close>

text \<open>The participant index is contained in the call index, and the call about to be joined is in neither.\<close>

definition maps_ok :: "'c sdk \<Rightarrow> bool" where
  "maps_ok s \<longleftrightarrow> (\<forall>pid cid. jm_get (sd_callIdByParticipantId s) pid = Some cid \<longrightarrow>
     jm_get (sd_participantByCallId s) cid = Some pid)
     \<and> distinct (jm_keys (sd_participantByCallId s))"

definition joined :: "'c sdk_deps \<Rightarrow> sdk_act list \<Rightarrow> string \<Rightarrow> bool" where
  "joined d acts cid \<longleftrightarrow> (\<exists>pid key did. Sent (join_event d pid cid key did) \<in> set acts)"

definition act_ok :: "'c sdk_deps \<Rightarrow> sdk_act list \<Rightarrow> sdk_act \<Rightarrow> bool" where
  "act_ok d before a =
     (case a of
        Sent ev \<Rightarrow>
          (\<exists>pid cid key did. ev = join_event d pid cid key did \<and> 1 \<le> pid \<and> did \<noteq> [] \<and> length did \<le> 64
             \<and> cid = ''pbx-'' @ key)
          \<or> (\<exists>cid. ev = end_event d cid \<and> joined d before cid)
      | _ \<Rightarrow> True)"

definition log_ok :: "'c sdk_deps \<Rightarrow> sdk_act list \<Rightarrow> bool" where
  "log_ok d acts \<longleftrightarrow> list_all (\<lambda>k. act_ok d (take k acts) (acts ! k)) [0..<length acts]"

definition await_ok :: "(string, int) jsmap \<Rightarrow> sdk_await option \<Rightarrow> bool" where
  "await_ok m w = (case w of
       Some (Await_Resolution pid cid key) \<Rightarrow> jm_get m cid = None \<and> 1 \<le> pid \<and> cid = ''pbx-'' @ key
     | _ \<Rightarrow> True)"

definition sdk_ok :: "'c sdk_deps \<Rightarrow> 'c sdk \<Rightarrow> bool" where
  "sdk_ok d s \<longleftrightarrow> maps_ok s \<and> log_ok d (sd_log s)
     \<and> (\<forall>cid pid. jm_get (sd_participantByCallId s) cid = Some pid \<longrightarrow> joined d (sd_log s) cid)
     \<and> await_ok (sd_participantByCallId s) (sd_running s)"

lemma await_ok_simps [simp]: "await_ok m None" "await_ok m (Some Await_Snapshot)"
  "await_ok m (Some (Await_Resolution pid cid key)) \<longleftrightarrow> jm_get m cid = None \<and> 1 \<le> pid \<and> cid = ''pbx-'' @ key"
  by (simp_all add: await_ok_def)

lemma await_ok_delete: "await_ok m w \<Longrightarrow> await_ok (jm_delete k m) w"
  by (auto simp: await_ok_def split: option.splits sdk_await.splits)

lemma log_ok_snoc: "log_ok d (acts @ [a]) \<longleftrightarrow> log_ok d acts \<and> act_ok d acts a"
  by (auto simp: log_ok_def list_all_iff nth_append)

lemma joined_snoc: "joined d acts cid \<Longrightarrow> joined d (acts @ [a]) cid"
  by (auto simp: joined_def)

lemma joined_event: "joined d (acts @ [Sent (join_event d pid cid key did)]) cid"
  by (auto simp: joined_def)

text \<open>Updates that leave the two maps alone.\<close>

lemma sdk_ok_note: "sdk_ok d s \<Longrightarrow> act_ok d (sd_log s) a \<Longrightarrow> sdk_ok d (note_act a s)"
  by (auto simp: sdk_ok_def note_act_def log_ok_snoc maps_ok_def joined_snoc)

lemma sdk_ok_signal: "sdk_ok d s \<Longrightarrow> sdk_ok d (signal m s)"
  by (rule sdk_ok_note) (simp_all add: act_ok_def)

lemma sdk_ok_said: "sdk_ok d s \<Longrightarrow> sdk_ok d (note_act (Controller_Said r) s)"
  by (rule sdk_ok_note) (simp_all add: act_ok_def)

lemma note_act_simps [simp]:
  "sd_running (note_act a s) = sd_running s" "sd_participantByCallId (note_act a s) = sd_participantByCallId s"
  "sd_accepting (note_act a s) = sd_accepting s" "sd_ctl (note_act a s) = sd_ctl s"
  "sd_epoch (note_act a s) = sd_epoch s"
  by (simp_all add: note_act_def)

lemma sdk_ok_flags:
  assumes "sdk_ok d s"
  shows "sdk_ok d (s\<lparr>sd_accepting := b\<rparr>)" "sdk_ok d (s\<lparr>sd_ctl := c\<rparr>)" "sdk_ok d (s\<lparr>sd_queue := q\<rparr>)"
    "sdk_ok d (s\<lparr>sd_started := b\<rparr>)" "sdk_ok d (s\<lparr>sd_epoch := n\<rparr>)" "sdk_ok d (s\<lparr>sd_everConnected := b\<rparr>)"
    "sdk_ok d (s\<lparr>sd_running := None\<rparr>)" "sdk_ok d (s\<lparr>sd_running := Some Await_Snapshot\<rparr>)"
  using assms by (simp_all add: sdk_ok_def maps_ok_def)

lemma sdk_ok_drop:
  assumes "sdk_ok d s" "jm_get (sd_participantByCallId s) cid = Some pid"
  shows "sdk_ok d (s\<lparr>sd_participantByCallId := jm_delete cid (sd_participantByCallId s),
      sd_callIdByParticipantId := jm_delete pid (sd_callIdByParticipantId s)\<rparr>)"
  using assms by (auto simp: sdk_ok_def maps_ok_def jm_distinct_delete await_ok_delete)

lemma drop_order:
  "s\<lparr>sd_callIdByParticipantId := x, sd_participantByCallId := y\<rparr> = s\<lparr>sd_participantByCallId := y, sd_callIdByParticipantId := x\<rparr>"
  by simp

lemma send_eq:
  "send d ev s = (fst (ad_handleEvent d ev (sd_ctl s)), note_act (Sent ev) (s\<lparr>sd_ctl := snd (ad_handleEvent d ev (sd_ctl s))\<rparr>))"
  by (simp add: send_def split: prod.split)

lemma sdk_ok_send_end:
  assumes "sdk_ok d s" "jm_get (sd_participantByCallId s) cid = Some pid"
  shows "sdk_ok d (snd (send d (end_event d cid) s))"
proof -
  have "joined d (sd_log s) cid" using assms by (auto simp: sdk_ok_def)
  then show ?thesis unfolding send_eq snd_conv
    using assms(1) by (intro sdk_ok_note sdk_ok_flags) (auto simp: act_ok_def)
qed

lemma send_maps [simp]:
  "sd_participantByCallId (snd (send d ev s)) = sd_participantByCallId s"
  "sd_callIdByParticipantId (snd (send d ev s)) = sd_callIdByParticipantId s"
  "sd_running (snd (send d ev s)) = sd_running s"
  by (simp_all add: send_eq note_act_def)

lemma sdk_ok_left:
  assumes ok: "sdk_ok d s"
  shows "sdk_ok d (participant_left d v s)"
proof (cases "\<exists>pid cid. number_of v = Some pid \<and> jm_get (sd_callIdByParticipantId s) pid = Some cid \<and> cid \<noteq> []")
  case False
  then have "participant_left d v s = signal ''untracked_participant_end'' s"
    by (auto simp: participant_left_def split: option.split)
  then show ?thesis using sdk_ok_signal [OF ok] by simp
next
  case True
  then obtain pid cid where 2: "number_of v = Some pid" "jm_get (sd_callIdByParticipantId s) pid = Some cid" "cid \<noteq> []"
    by blast
  show ?thesis
  proof -
    have fw: "jm_get (sd_participantByCallId s) cid = Some pid" using ok 2(2) by (auto simp: sdk_ok_def maps_ok_def)
    obtain r s' where r: "send d (end_event d cid) s = (r, s')" by fastforce
    have ok': "sdk_ok d s'" and m: "jm_get (sd_participantByCallId s') cid = Some pid"
      using sdk_ok_send_end [OF ok fw] send_maps [of d "end_event d cid" s] fw unfolding r by simp_all
    show ?thesis
      using 2 r ok' sdk_ok_drop [OF ok' m]
      by (auto simp: participant_left_def act_ok_def drop_order intro!: sdk_ok_signal sdk_ok_note split: ext.splits)
  qed
qed

lemma sdk_ok_join_finish:
  assumes ok: "sdk_ok d s" and new: "jm_get (sd_participantByCallId s) cid = None" "1 \<le> pid" "cid = ''pbx-'' @ key"
    and run: "sd_running s = None"
  shows "sdk_ok d (snd (join_finish d pid cid key res s)) \<and> sd_running (snd (join_finish d pid cid key res s)) = None"
proof (cases "\<exists>r did. res = Ret r \<and> bounded_string (get r ''did'') 64 = Some did \<and> get r ''direction'' = JStr ''inbound''")
  case False
  then have "join_finish d pid cid key res s = (True, signal ''inbound_call_unresolved'' s)"
    by (auto simp: join_finish_def split: ext.split option.split)
  then show ?thesis using sdk_ok_signal [OF ok] run by (simp add: note_act_def)
next
  case True
  then obtain r did where 2: "res = Ret r" "bounded_string (get r ''did'') 64 = Some did"
    "get r ''direction'' = JStr ''inbound''" by blast
  show ?thesis
  proof -
    let ?s = "s\<lparr>sd_participantByCallId := jm_set cid pid (sd_participantByCallId s),
      sd_callIdByParticipantId := jm_set pid cid (sd_callIdByParticipantId s)\<rparr>"
    let ?ev = "join_event d pid cid key did"
    obtain q s' where q: "send d ?ev ?s = (q, s')" by fastforce
    have did: "did \<noteq> []" "length did \<le> 64" using 2(2) by (simp_all add: bounded_string_Some)
    obtain c where s': "s' = note_act (Sent ?ev) (?s\<lparr>sd_ctl := c\<rparr>)"
      using q unfolding send_eq by auto
    have "act_ok d (sd_log s) (Sent ?ev)" using new did by (auto simp: act_ok_def)
    then have ok': "sdk_ok d s'" unfolding s'
      using ok new run by (auto simp: sdk_ok_def note_act_def maps_ok_def log_ok_snoc joined_snoc joined_event jm_distinct_set)
    have m: "jm_get (sd_participantByCallId s') cid = Some pid" "sd_running s' = None"
      unfolding s' using run by (simp_all add: note_act_def)
    show ?thesis
      using 2 q ok' m sdk_ok_drop [OF ok' m(1)]
      by (auto simp: join_finish_def Let_def sdk_ok_said split: ext.splits)
  qed
qed

lemma sdk_ok_join_now:
  assumes ok: "sdk_ok d s" and run: "sd_running s = None"
  shows "sdk_ok d (snd (join_now d resolve p s)) \<and> sd_running (snd (join_now d resolve p s)) = None"
proof (cases "join_check d p s")
  case (Inl m)
  then show ?thesis using ok run by (simp add: join_now_def sdk_ok_signal)
next
  case (Inr t)
  obtain pid cid key where t: "t = (pid, cid, key)" by (cases t)
  have "jm_get (sd_participantByCallId s) cid = None" "1 \<le> pid" "cid = ''pbx-'' @ key"
    using Inr t by (auto simp: join_check_def call_id_of_def Let_def split: if_splits option.splits)
  from sdk_ok_join_finish [OF ok this run] show ?thesis using Inr t by (simp add: join_now_def)
qed

lemma sdk_ok_admit:
  "sdk_ok d s \<Longrightarrow> sd_running s = None \<Longrightarrow>
     sdk_ok d (snd (admit d resolve cur s)) \<and> sd_running (snd (admit d resolve cur s)) = None"
proof (induction cur arbitrary: s)
  case Nil
  then show ?case by simp
next
  case (Cons ki cur)
  obtain key info where ki: "ki = (key, info)" by (cases ki)
  have now: "sdk_ok d (snd (join_now d resolve p s)) \<and> sd_running (snd (join_now d resolve p s)) = None" for p
    using sdk_ok_join_now Cons.prems by blast
  have next_ok: "sdk_ok d (snd (case join_now d resolve p s of (False, s) \<Rightarrow> (False, s) | (True, s) \<Rightarrow> admit d resolve cur s))
    \<and> sd_running (snd (case join_now d resolve p s of (False, s) \<Rightarrow> (False, s) | (True, s) \<Rightarrow> admit d resolve cur s)) = None"
    for p
    using now [of p] Cons.IH by (auto split: prod.split bool.split)
  show ?case
    unfolding ki admit.simps using next_ok Cons.IH [OF Cons.prems] by (simp split: option.split)
qed

lemma sdk_ok_end_missing:
  "sdk_ok d s \<Longrightarrow> distinct (map fst rest) \<Longrightarrow>
     \<forall>(cid, pid)\<in>set rest. jm_get (sd_participantByCallId s) cid = Some pid \<Longrightarrow>
     sdk_ok d (snd (end_missing d current rest s)) \<and> sd_running (snd (end_missing d current rest s)) = sd_running s"
proof (induction rest arbitrary: s)
  case Nil
  then show ?case by simp
next
  case (Cons cp rest)
  obtain cid pid where cp: "cp = (cid, pid)" by (cases cp)
  obtain r s' where r: "send d (end_event d cid) s = (r, s')" by fastforce
  have fw: "jm_get (sd_participantByCallId s) cid = Some pid" using Cons.prems(3) cp by simp
  have ok': "sdk_ok d s'" using sdk_ok_send_end [OF Cons.prems(1) fw] r by simp
  have maps: "sd_participantByCallId s' = sd_participantByCallId s" "sd_running s' = sd_running s"
    using send_maps [of d "end_event d cid" s] r by simp_all
  let ?s = "s'\<lparr>sd_participantByCallId := jm_delete cid (sd_participantByCallId s'),
    sd_callIdByParticipantId := jm_delete pid (sd_callIdByParticipantId s')\<rparr>"
  have ok'': "sdk_ok d ?s" using sdk_ok_drop [OF ok'] fw maps by simp
  have rest: "\<forall>(c, q)\<in>set rest. jm_get (sd_participantByCallId ?s) c = Some q"
    using Cons.prems(2,3) cp maps by force
  have dist: "distinct (map fst rest)" using Cons.prems(2) by simp
  have a: "sdk_ok d (snd (end_missing d current rest ?s)) \<and> sd_running (snd (end_missing d current rest ?s)) = sd_running s"
    using Cons.IH [OF ok'' dist rest] maps(2) by simp
  have b: "sdk_ok d (snd (end_missing d current rest s)) \<and> sd_running (snd (end_missing d current rest s)) = sd_running s"
    using Cons.IH [OF Cons.prems(1) dist] Cons.prems(3) by simp
  show ?case unfolding cp end_missing.simps r using a b ok' maps by (simp split: ext.split)
qed

lemma sdk_ok_reconcile:
  assumes ok: "sdk_ok d s" and run: "sd_running s = None"
  shows "sdk_ok d (reconcile_finish d snapshot resolve s)"
proof (cases "\<exists>current. snapshot = Ret (Some current)")
  case False
  then show ?thesis using sdk_ok_signal [OF ok]
    by (auto simp: reconcile_finish_def split: ext.split option.split)
next
  case True
  then obtain current where c: "snapshot = Ret (Some current)" by blast
  have dist: "distinct (map fst (sd_participantByCallId s))"
    using ok by (simp add: sdk_ok_def maps_ok_def jm_keys_def)
  have all: "\<forall>(cid, pid)\<in>set (sd_participantByCallId s). jm_get (sd_participantByCallId s) cid = Some pid"
    using dist by (auto simp: jm_get_in jm_keys_def)
  obtain b s' where e: "end_missing d current (sd_participantByCallId s) s = (b, s')" by fastforce
  have s': "sdk_ok d s'" "sd_running s' = None"
    using sdk_ok_end_missing [OF ok dist all, of current] e run by simp_all
  obtain b' s'' where a: "admit d resolve current (s'\<lparr>sd_accepting := True\<rparr>) = (b', s'')" by fastforce
  have "sdk_ok d s''"
    using sdk_ok_admit [OF sdk_ok_flags(1) [OF s'(1)], of True resolve current] a s'(2) by simp
  then show ?thesis using c e a s'(1)
    by (cases b; cases b') (simp_all add: reconcile_finish_def sdk_ok_signal)
qed

lemma sdk_ok_run_sdk_op:
  assumes ok: "sdk_ok d s" and run: "sd_running s = None"
  shows "sdk_ok d (run_sdk_op d op s)"
proof (cases op)
  case (Op_Connected e first)
  then show ?thesis using ok by (simp add: run_sdk_op_def sdk_ok_signal sdk_ok_flags)
next
  case (Op_Join p)
  show ?thesis
  proof (cases "join_check d p s")
    case (Inl m)
    then show ?thesis using ok Op_Join by (simp add: run_sdk_op_def sdk_ok_signal)
  next
    case (Inr t)
    obtain pid cid key where t: "t = (pid, cid, key)" by (cases t)
    have "jm_get (sd_participantByCallId s) cid = None" "1 \<le> pid" "cid = ''pbx-'' @ key"
      using Inr t by (auto simp: join_check_def call_id_of_def Let_def split: if_splits option.splits)
    then show ?thesis using ok Op_Join Inr t by (simp add: run_sdk_op_def sdk_ok_def maps_ok_def)
  qed
next
  case (Op_Left v)
  then show ?thesis using sdk_ok_left [OF ok] by (simp add: run_sdk_op_def)
qed

lemma sdk_ok_shutdown: "sdk_ok d s \<Longrightarrow> sdk_ok d (snd (shutdown_adapter d disc s))"
  unfolding shutdown_adapter_def stop_adapter_def Let_def
  by (auto simp: act_ok_def intro!: sdk_ok_signal sdk_ok_note sdk_ok_flags split: prod.split ext.split)

lemma sdk_ok_step: "sdk_ok d s \<Longrightarrow> sdk_ok d (sdk_step d s e)"
proof (cases e)
  case Run_Next
  assume ok: "sdk_ok d s"
  show ?thesis
  proof (cases "sd_running s = None \<and> sd_queue s \<noteq> []")
    case True
    then obtain op rest where "sd_queue s = op # rest" by (cases "sd_queue s") auto
    then show ?thesis using True ok Run_Next sdk_ok_run_sdk_op [OF sdk_ok_flags(3) [OF ok]] by simp
  next
    case False
    then show ?thesis using ok Run_Next by (auto split: option.split list.split)
  qed
next
  case (Resolved r)
  assume ok: "sdk_ok d s"
  show ?thesis
  proof (cases "\<exists>pid cid key. sd_running s = Some (Await_Resolution pid cid key)")
    case True
    then obtain pid cid key where w: "sd_running s = Some (Await_Resolution pid cid key)" by blast
    have "await_ok (sd_participantByCallId s) (sd_running s)" using ok by (simp add: sdk_ok_def)
    then have n: "jm_get (sd_participantByCallId s) cid = None" "1 \<le> pid" "cid = ''pbx-'' @ key"
      unfolding w await_ok_simps by blast+
    have "sdk_ok d (snd (join_finish d pid cid key r (s\<lparr>sd_running := None\<rparr>)))"
      by (rule sdk_ok_join_finish [THEN conjunct1, OF sdk_ok_flags(7) [OF ok] _ n(2,3)]) (use n(1) in auto)
    then show ?thesis using Resolved w by (simp add: caught_def sdk_ok_signal)
  next
    case False
    then show ?thesis using ok Resolved by (auto split: option.split sdk_await.split)
  qed
next
  case (Snapshot sn resolve)
  assume ok: "sdk_ok d s"
  then show ?thesis using Snapshot sdk_ok_reconcile [OF sdk_ok_flags(7) [OF ok]]
    by (auto split: option.split sdk_await.split)
next
  case (Shut_Down disc)
  assume "sdk_ok d s"
  then show ?thesis using Shut_Down by (simp add: sdk_ok_shutdown)
qed (auto simp: start_adapter_def handle_connected_def handle_client_disconnected_def
      intro!: sdk_ok_signal sdk_ok_flags)

interpretation sdk_adapter: machine "sdk_step d" "sdk_ok d" for d :: "'c sdk_deps"
  by unfold_locales (rule sdk_ok_step)

lemma sdk_ok_new: "sdk_ok d (new_sdk c)"
  by (simp add: sdk_ok_def maps_ok_def log_ok_def new_sdk_def jm_keys_def)

lemma sdk_ok_reachable: "sdk_ok d (run (sdk_step d) (new_sdk c) es)"
  by (rule sdk_adapter.inv_run) (rule sdk_ok_new)

text \<open>The adapter on the call controller of this development, and its own shutdown contract.\<close>

definition threecx_deps :: "'w deps \<Rightarrow> binding \<Rightarrow> string \<Rightarrow> (string \<Rightarrow> string) \<Rightarrow> 'w ctl sdk_deps" where
  "threecx_deps d b dn sha =
     \<lparr>ad_routePointDn = dn, ad_sha256 = sha,
      ad_handleEvent = (\<lambda>ev c. (Ret (fst (handle_event d b ev c)), snd (handle_event d b ev c))),
      ad_shutdown = shutdown d b\<rparr>"

lemma shutdown_adapter_quiet:
  assumes "shutdown_adapter (threecx_deps d b dn sha) disc s = (Ret (True, rs), s')"
  shows "calls (sd_ctl s') = []"
proof -
  obtain q c where q: "shutdown d b (sd_ctl s) = (q, c)" by fastforce
  have "q = Ret (True, rs) \<and> sd_ctl s' = c"
    using assms q
    by (auto simp: shutdown_adapter_def threecx_deps_def note_act_def stop_adapter_def Let_def split: ext.splits if_splits)
  then show ?thesis using q controller_drain.drained_quiet by blast
qed

interpretation adapter_drain: drainable "shutdown_adapter (threecx_deps d b dn sha) disc" "\<lambda>s. calls (sd_ctl s) = []" "\<lambda>_. True"
  for d :: "'w deps" and b dn sha disc
  by unfold_locales (rule shutdown_adapter_quiet)

section \<open>Reconciliation\<close>

lemma end_missing_confirmed:
  "end_missing d current rest s = (True, s') \<Longrightarrow> jm_get (sd_participantByCallId s') cid = Some pid \<Longrightarrow>
     jm_get (sd_participantByCallId s) cid = Some pid \<and> ((cid, pid) \<in> set rest \<longrightarrow> still_present d current cid pid)"
proof (induction rest arbitrary: s)
  case Nil
  then show ?case by simp
next
  case (Cons cp rest)
  obtain c q where cp: "cp = (c, q)" by (cases cp)
  show ?case
  proof (cases "still_present d current c q")
    case True
    then show ?thesis using Cons.IH [of s] Cons.prems cp by auto
  next
    case False
    obtain r s1 where r: "send d (end_event d c) s = (Ret r, s1)"
      using Cons.prems(1) False cp by (auto split: prod.splits ext.splits)
    have m: "sd_participantByCallId s1 = sd_participantByCallId s"
      using send_maps [of d "end_event d c" s] r by simp
    have "end_missing d current rest (s1\<lparr>sd_participantByCallId := jm_delete c (sd_participantByCallId s),
        sd_callIdByParticipantId := jm_delete q (sd_callIdByParticipantId s1)\<rparr>) = (True, s')"
      using Cons.prems(1) False cp r m by (simp split: if_splits)
    from Cons.IH [OF this Cons.prems(2)] show ?thesis using cp by (simp split: if_splits)
  qed
qed

lemma send_accepting [simp]: "sd_accepting (snd (send d ev s)) = sd_accepting s"
  by (simp add: send_eq note_act_def)

lemma end_missing_accepting: "end_missing d current rest s = (b, s') \<Longrightarrow> sd_accepting s' = sd_accepting s"
proof (induction rest arbitrary: s)
  case Nil
  then show ?case by simp
next
  case (Cons cp rest)
  obtain c q where cp: "cp = (c, q)" by (cases cp)
  obtain r s1 where r: "send d (end_event d c) s = (r, s1)" by fastforce
  have "sd_accepting s1 = sd_accepting s" using send_accepting [of d "end_event d c" s] r by simp
  then show ?case using Cons.IH Cons.prems cp r by (force split: if_splits ext.splits)
qed

lemma reconcile_accepts:
  assumes ok: "sdk_ok d s" and off: "\<not> sd_accepting s" and acc: "sd_accepting (reconcile_finish d sn resolve s)"
  shows "\<exists>current s1 b s2. sn = Ret (Some current)
    \<and> end_missing d current (sd_participantByCallId s) s = (True, s1)
    \<and> list_all (\<lambda>(cid, pid). still_present d current cid pid) (sd_participantByCallId s1)
    \<and> admit d resolve current (s1\<lparr>sd_accepting := True\<rparr>) = (b, s2)
    \<and> reconcile_finish d sn resolve s = signal (if b then ''pbx_reconciled'' else ''pbx_event_failed'') s2"
proof -
  obtain current where sn: "sn = Ret (Some current)"
    using off acc by (auto simp: reconcile_finish_def split: ext.splits option.splits)
  obtain a s1 where e: "end_missing d current (sd_participantByCallId s) s = (a, s1)" by fastforce
  have a: "a" using off acc sn e end_missing_accepting [OF e] by (cases a) (simp_all add: reconcile_finish_def)
  obtain b s2 where ad: "admit d resolve current (s1\<lparr>sd_accepting := True\<rparr>) = (b, s2)" by fastforce
  have dist: "distinct (map fst (sd_participantByCallId s))"
    using ok by (simp add: sdk_ok_def maps_ok_def jm_keys_def)
  have "sdk_ok d s1"
    using sdk_ok_end_missing [OF ok dist, of current] dist e by (auto simp: jm_get_in jm_keys_def)
  then have dist1: "distinct (jm_keys (sd_participantByCallId s1))" by (simp add: sdk_ok_def maps_ok_def)
  have "list_all (\<lambda>(cid, pid). still_present d current cid pid) (sd_participantByCallId s1)"
    using end_missing_confirmed [of d current _ s s1] e a dist dist1
    by (auto simp: list_all_iff jm_get_in jm_keys_def)
  moreover have "reconcile_finish d sn resolve s = signal (if b then ''pbx_reconciled'' else ''pbx_event_failed'') s2"
    using sn e a ad by (cases b) (simp_all add: reconcile_finish_def)
  moreover have "end_missing d current (sd_participantByCallId s) s = (True, s1)" using e a by simp
  ultimately show ?thesis using sn ad by blast
qed

text \<open>What only the handlers of the client and the queue change.\<close>

definition outer :: "'c sdk \<Rightarrow> bool \<times> bool \<times> bool \<times> nat \<times> sdk_op list" where
  "outer s = (sd_accepting s, sd_started s, sd_everConnected s, sd_epoch s, sd_queue s)"

lemma outer_simps [simp]:
  "outer (note_act a s) = outer s" "outer (s\<lparr>sd_participantByCallId := m\<rparr>) = outer s"
  "outer (s\<lparr>sd_callIdByParticipantId := n\<rparr>) = outer s" "outer (s\<lparr>sd_running := w\<rparr>) = outer s"
  "outer (s\<lparr>sd_ctl := c\<rparr>) = outer s"
  by (simp_all add: outer_def note_act_def)

lemma outer_send: "send d ev s = (r, s') \<Longrightarrow> outer s' = outer s"
  by (auto simp: send_def split: prod.splits)

lemma outer_join_finish: "outer (snd (join_finish d pid cid key r s)) = outer s"
  by (auto simp: join_finish_def Let_def split: ext.split option.split prod.split dest!: outer_send)

lemma outer_left: "outer (participant_left d v s) = outer s"
  by (auto simp: participant_left_def split: ext.split option.split prod.split dest!: outer_send)

lemma outer_end_missing: "end_missing d current rest s = (b, s') \<Longrightarrow> outer s' = outer s"
  by (induction rest arbitrary: s) (force split: if_splits ext.splits prod.splits dest: outer_send)+

lemma outer_join_now: "join_now d resolve p s = (b, s') \<Longrightarrow> outer s' = outer s"
proof (cases "join_check d p s")
  case (Inr t)
  then show "join_now d resolve p s = (b, s') \<Longrightarrow> outer s' = outer s"
    using outer_join_finish [of d "fst t" "fst (snd t)" "snd (snd t)" "resolve (fst (snd t))" s]
    by (simp add: join_now_def split: prod.splits)
qed (auto simp: join_now_def)

lemma outer_admit: "admit d resolve ps s = (b, s') \<Longrightarrow> outer s' = outer s"
proof (induction ps arbitrary: s)
  case (Cons p ps)
  obtain key info where p: "p = (key, info)" by (cases p)
  show ?case
  proof (cases "admit d resolve ps s = (b, s')")
    case False
    then obtain q where q: "(case join_now d resolve q s of (False, s) \<Rightarrow> (False, s) | (True, s) \<Rightarrow> admit d resolve ps s) = (b, s')"
      using Cons.prems p by (auto split: if_splits option.splits)
    obtain x u where u: "join_now d resolve q s = (x, u)" by fastforce
    then show ?thesis using Cons.IH [of u] q outer_join_now [OF u] by (cases x) auto
  qed (rule Cons.IH)
qed simp

text \<open>The connections made (true) and lost (false) while the adapter listens.\<close>

definition connection_change :: "'c sdk \<Rightarrow> 'c sdk_event \<Rightarrow> bool list" where
  "connection_change s e =
     (case e of
        Client_Connected \<Rightarrow> if sd_started s then [True] else []
      | Client_Lost \<Rightarrow> if sd_started s then [False] else []
      | _ \<Rightarrow> [])"

fun connection_log :: "'c sdk_deps \<Rightarrow> 'c sdk \<Rightarrow> 'c sdk_event list \<Rightarrow> bool list" where
  "connection_log d s [] = []"
| "connection_log d s (e # es) = connection_change s e @ connection_log d (sdk_step d s e) es"

lemma connection_log_snoc: "connection_log d s (es @ [e]) = connection_log d s es @ connection_change (run (sdk_step d) s es) e"
  by (induction es arbitrary: s) simp_all

definition first_connection :: "bool list \<Rightarrow> bool" where
  "first_connection cs \<longleftrightarrow> cs \<noteq> [] \<and> last cs \<and> True \<notin> set (butlast cs)"

definition epoch_ok :: "bool list \<Rightarrow> 'c sdk \<Rightarrow> bool" where
  "epoch_ok cs s \<longleftrightarrow> length cs = sd_epoch s \<and> (sd_everConnected s \<longleftrightarrow> True \<in> set cs)
     \<and> (\<forall>n. Op_Connected n True \<in> set (sd_queue s) \<longrightarrow> n \<le> sd_epoch s \<and> (n = sd_epoch s \<longrightarrow> first_connection cs))"

lemma epoch_ok_outer:
  "epoch_ok cs s \<Longrightarrow> (sd_everConnected s', sd_epoch s') = (sd_everConnected s, sd_epoch s) \<Longrightarrow>
     (\<And>n. Op_Connected n True \<in> set (sd_queue s') \<Longrightarrow> Op_Connected n True \<in> set (sd_queue s)) \<Longrightarrow> epoch_ok cs s'"
  unfolding epoch_ok_def by (metis Pair_inject)

lemma outer_run_sdk_op: "sd_epoch (run_sdk_op d oper s) = sd_epoch s \<and> sd_everConnected (run_sdk_op d oper s) = sd_everConnected s
    \<and> sd_queue (run_sdk_op d oper s) = sd_queue s"
proof (cases oper)
  case (Op_Left v)
  then show ?thesis using outer_left [of d v s] by (simp add: run_sdk_op_def outer_def)
qed (auto simp: run_sdk_op_def note_act_def split: sum.split)

lemma outer_reconcile: "sd_epoch (reconcile_finish d sn resolve s) = sd_epoch s
    \<and> sd_everConnected (reconcile_finish d sn resolve s) = sd_everConnected s \<and> sd_queue (reconcile_finish d sn resolve s) = sd_queue s"
  by (auto simp: reconcile_finish_def outer_def note_act_def split: ext.split option.split prod.split bool.split
      dest!: outer_end_missing outer_admit)

lemma epoch_ok_step: "epoch_ok cs s \<Longrightarrow> epoch_ok (cs @ connection_change s e) (sdk_step d s e)"
proof (cases e)
  case Run_Next
  assume ok: "epoch_ok cs s"
  then show ?thesis using Run_Next outer_run_sdk_op [of d]
    by (auto simp: connection_change_def intro: epoch_ok_outer split: option.split list.split)
next
  case (Resolved r)
  assume ok: "epoch_ok cs s"
  have "epoch_ok cs (caught m (join_finish d pid cid key r (s\<lparr>sd_running := None\<rparr>)))" for m pid cid key
    using outer_join_finish [of d pid cid key r "s\<lparr>sd_running := None\<rparr>"]
    by (intro epoch_ok_outer [OF ok]) (simp_all add: caught_def outer_def note_act_def split: if_splits)
  then show ?thesis using Resolved ok by (auto simp: connection_change_def split: option.split sdk_await.split)
next
  case (Snapshot sn resolve)
  assume ok: "epoch_ok cs s"
  have "epoch_ok cs (reconcile_finish d sn resolve (s\<lparr>sd_running := None\<rparr>))"
    using outer_reconcile [of d sn resolve "s\<lparr>sd_running := None\<rparr>"] by (intro epoch_ok_outer [OF ok]) auto
  then show ?thesis using Snapshot ok by (auto simp: connection_change_def split: option.split sdk_await.split)
next
  case Client_Connected
  assume ok: "epoch_ok cs s"
  have "first_connection (cs @ [True])" if "\<not> sd_everConnected s" using ok that by (simp add: epoch_ok_def first_connection_def)
  moreover have "\<not> Op_Connected (Suc (sd_epoch s)) True \<in> set (sd_queue s)" using ok by (fastforce simp: epoch_ok_def)
  ultimately show ?thesis using ok Client_Connected by (auto simp: connection_change_def handle_connected_def epoch_ok_def le_SucI)
next
  case Client_Lost
  assume ok: "epoch_ok cs s"
  have "\<not> Op_Connected (Suc (sd_epoch s)) True \<in> set (sd_queue s)" using ok by (fastforce simp: epoch_ok_def)
  then show ?thesis using ok Client_Lost
    by (auto simp: connection_change_def handle_client_disconnected_def note_act_def epoch_ok_def le_SucI)
qed (auto simp: connection_change_def start_adapter_def note_act_def shutdown_adapter_def stop_adapter_def Let_def
    split: prod.split ext.split intro: epoch_ok_outer)

lemma epoch_ok_run: "epoch_ok (connection_log d (new_sdk c) es) (run (sdk_step d) (new_sdk c) es)"
proof (induction es rule: rev_induct)
  case Nil
  then show ?case by (simp add: epoch_ok_def new_sdk_def)
next
  case (snoc e es)
  then show ?case using epoch_ok_step by (simp add: connection_log_snoc run_append)
qed

lemma intake_opens_by:
  assumes "\<not> sd_accepting s" "sd_accepting (sdk_step d s e)"
  shows "e = Run_Next \<and> sd_running s = None \<and> (\<exists>rest. sd_queue s = Op_Connected (sd_epoch s) True # rest)
    \<or> (\<exists>sn resolve. e = Snapshot sn resolve \<and> sd_running s = Some Await_Snapshot)"
proof (cases e)
  case Run_Next
  then obtain oper rest where q: "sd_running s = None" "sd_queue s = oper # rest" "sd_accepting (run_sdk_op d oper (s\<lparr>sd_queue := rest\<rparr>))"
    using assms by (auto split: option.splits list.splits)
  then show ?thesis using assms(1) Run_Next outer_left [of d _ "s\<lparr>sd_queue := rest\<rparr>"]
    by (cases oper) (auto simp: run_sdk_op_def note_act_def outer_def split: if_splits sum.splits)
next
  case (Resolved r)
  have "\<not> sd_accepting (caught m (join_finish d pid cid key r (s\<lparr>sd_running := None\<rparr>)))" for m pid cid key
    using outer_join_finish [of d pid cid key r "s\<lparr>sd_running := None\<rparr>"] assms(1) by (simp add: caught_def outer_def note_act_def)
  then show ?thesis using assms Resolved by (auto split: option.splits sdk_await.splits)
qed (use assms in \<open>auto simp: start_adapter_def handle_connected_def handle_client_disconnected_def note_act_def
    shutdown_adapter_def stop_adapter_def Let_def split: if_splits option.splits sdk_await.splits prod.splits ext.splits\<close>)

text \<open>C23. The intake opens in two ways only, in every run and at every step. It opens at once for the first connection the
adapter ever sees, as long as no connection was made or lost since; and otherwise, after every reconnect, only when a fresh
snapshot of the PBX has arrived and every tracked call that the snapshot does not confirm (same participant, connected, same
call leg) has been ended in the controller; the participants of the snapshot are admitted only after that.\<close>

theorem intake_reopens_reconciled:
  assumes "s = run (sdk_step d) (new_sdk c) es" "\<not> sd_accepting s" "sd_accepting (sdk_step d s e)"
  shows "(e = Run_Next \<and> first_connection (connection_log d (new_sdk c) es))
    \<or> (\<exists>current resolve s1 b s2. e = Snapshot (Ret (Some current)) resolve \<and> sd_running s = Some Await_Snapshot
        \<and> end_missing d current (sd_participantByCallId s) (s\<lparr>sd_running := None\<rparr>) = (True, s1)
        \<and> list_all (\<lambda>(cid, pid). still_present d current cid pid) (sd_participantByCallId s1)
        \<and> admit d resolve current (s1\<lparr>sd_accepting := True\<rparr>) = (b, s2)
        \<and> sdk_step d s e = signal (if b then ''pbx_reconciled'' else ''pbx_event_failed'') s2)"
  using intake_opens_by [OF assms(2,3)]
proof
  assume "e = Run_Next \<and> sd_running s = None \<and> (\<exists>rest. sd_queue s = Op_Connected (sd_epoch s) True # rest)"
  then show ?thesis using epoch_ok_run [of d c es] assms(1) by (auto simp: epoch_ok_def)
next
  assume "\<exists>sn resolve. e = Snapshot sn resolve \<and> sd_running s = Some Await_Snapshot"
  then obtain sn resolve where e: "e = Snapshot sn resolve" "sd_running s = Some Await_Snapshot" by blast
  have ok: "sdk_ok d (s\<lparr>sd_running := None\<rparr>)" unfolding assms(1) by (rule sdk_ok_flags(7)) (rule sdk_ok_reachable)
  have step: "sdk_step d s e = reconcile_finish d sn resolve (s\<lparr>sd_running := None\<rparr>)" using e by simp
  show ?thesis using reconcile_accepts [OF ok, of sn resolve] assms(2,3) step e by auto
qed

definition demo_sdk :: "nat sdk_deps" where
  "demo_sdk = \<lparr>ad_routePointDn = ''rp'', ad_sha256 = (\<lambda>s. s),
     ad_handleEvent = (\<lambda>ev c. if get ev ''type'' = JStr ''routepoint_call_ended'' then (Ret Call_ended, c - 1)
                               else (Ret Call_active, c + 1)),
     ad_shutdown = (\<lambda>c. (Ret (c = 0, []), c))\<rparr>"

definition demo_participant :: jsval where
  "demo_participant = JObj [(''id'', JNum 7), (''dn'', JStr ''rp''), (''isExtensionParticipant'', JBool False),
     (''info'', JObj [(''status'', JStr ''Connected''), (''participant_uid'', JStr ''u1'')])]"

definition demo_events :: "nat sdk_event list" where
  "demo_events = [Start_Adapter, Client_Connected, Run_Next, Participant_Connected demo_participant, Run_Next,
     Resolved (Ret (JObj [(''did'', JStr ''100''), (''direction'', JStr ''inbound'')])),
     Client_Lost, Client_Connected, Run_Next]"

theorem intake_reopens_reconciled_witness:
  "let s = run (sdk_step demo_sdk) (new_sdk 0) demo_events in
     connection_log demo_sdk (new_sdk 0) demo_events = [True, False, True] \<and> sd_ctl s = 1
     \<and> sd_ctl (sdk_step demo_sdk s (Snapshot (Ret (Some [])) (\<lambda>_. Ret JNull))) = 0
     \<and> (\<exists>s1. end_missing demo_sdk [] (sd_participantByCallId s) (s\<lparr>sd_running := None\<rparr>) = (True, s1)
          \<and> list_all (\<lambda>(cid, pid). still_present demo_sdk [] cid pid) (sd_participantByCallId s1))"
proof -
  let ?s = "run (sdk_step demo_sdk) (new_sdk 0) demo_events" and ?e = "Snapshot (Ret (Some [])) (\<lambda>_. Ret JNull) :: nat sdk_event"
  have 1: "\<not> sd_accepting ?s" "sd_ctl ?s = 1" "connection_log demo_sdk (new_sdk 0) demo_events = [True, False, True]"
    by code_simp+
  have 2: "sd_accepting (sdk_step demo_sdk ?s ?e)" "sd_ctl (sdk_step demo_sdk ?s ?e) = 0"
    by code_simp+
  from intake_reopens_reconciled [OF refl 1(1) 2(1)] show ?thesis using 1 2(2) by (auto simp: Let_def)
qed

text \<open>The epoch is compared when an operation starts and not when its snapshot arrives: a connection lost while
the snapshot is under way does not stop the intake from opening.\<close>

lemma intake_opens_on_lost_connection:
  "sd_accepting (run (sdk_step demo_sdk) (new_sdk 0)
     (demo_events @ [Client_Lost, Snapshot (Ret (Some [])) (\<lambda>_. Ret JNull)]))"
  by code_simp

section \<open>What the controller is told\<close>

text \<open>Whatever the SDK client, the DID resolver and the controller do, the adapter sends the controller
only join events of the served route point with a positive participant id, a non-empty DID of at most 64
characters and a call id and event id built from the same opaque key, and end events of calls it announced before.\<close>

theorem adapter_events_are_vetted:
  "log_ok d (sd_log (run (sdk_step d) (new_sdk c) es))"
  using sdk_ok_reachable [of d c es] by (simp add: sdk_ok_def)

end
