(* ===== verification/Tenant_Runtime.thy ===== *)
theory Tenant_Runtime
  imports Sdk_Adapter Call_Scenarios
begin

text \<open>
  \<open>connector/threecx-tenant-runtime.mjs\<close>: one PBX connection of one tenant. The runtime composes the call
  controller and the event adapter, connects the client, and drains both on shutdown. Its two asynchronous
  functions are state machines: a step is one run to the next \<open>await\<close>. The layer below is a parameter of
  the runtime (start, drain, and the events that may reach it at any time); the contract of that layer is
  the locale \<open>drain_layer\<close>, which the adapter provides here and the runtime provides to the broker.
\<close>

section \<open>A layer that drains\<close>

text \<open>A layer that has been drained stays quiet whatever events reach it.\<close>

locale drain_layer = drainable drain quiet ok
  for drain :: "'s \<Rightarrow> (bool \<times> 'r) ext \<times> 's" and quiet ok :: "'s \<Rightarrow> bool" +
  fixes step :: "'s \<Rightarrow> 'e \<Rightarrow> 's"
  assumes quiet_step: "ok s \<Longrightarrow> quiet s \<Longrightarrow> quiet (step s e)"
    and ok_step: "ok s \<Longrightarrow> ok (step s e)"
    and ok_drain: "ok s \<Longrightarrow> ok (snd (drain s))"
begin

lemma quiet_run: "ok s \<Longrightarrow> quiet s \<Longrightarrow> quiet (run step s es)"
  by (induction es arbitrary: s) (auto intro: quiet_step ok_step)

lemma drained_stays_quiet: "ok s \<Longrightarrow> drain s = (Ret (True, rs), s') \<Longrightarrow> quiet (run step s' es)"
  using drained_quiet [of s rs s'] ok_drain [of s] quiet_run [of s' es] by simp

end

section \<open>The controller behind the adapter\<close>

text \<open>What the adapter keeps of the controller it drives: whatever every call of \<open>handleEvent\<close> and of
\<open>shutdown\<close> keeps.\<close>

fun controller_moves :: "'c sdk_event \<Rightarrow> bool" where
  "controller_moves (Controller_Moves _) = True"
| "controller_moves _ = False"

locale adapter_client =
  fixes d :: "'c sdk_deps" and Q :: "'c \<Rightarrow> bool"
  assumes event_keeps: "Q c \<Longrightarrow> Q (snd (ad_handleEvent d ev c))"
    and shutdown_keeps: "Q c \<Longrightarrow> Q (snd (ad_shutdown d c))"
begin

lemma note_keeps: "Q (sd_ctl s) \<Longrightarrow> Q (sd_ctl (note_act a s))"
  by simp

lemma send_keeps: "Q (sd_ctl s) \<Longrightarrow> Q (sd_ctl (snd (send d ev s)))"
  using event_keeps by (simp add: send_eq)

lemma send_keeps': "send d ev s = (r, s') \<Longrightarrow> Q (sd_ctl s) \<Longrightarrow> Q (sd_ctl s')"
  using send_keeps [of s ev] by simp

lemma join_finish_keeps: "Q (sd_ctl s) \<Longrightarrow> Q (sd_ctl (snd (join_finish d pid cid key r s)))"
  by (auto simp: join_finish_def Let_def dest: send_keeps' split: ext.split option.split prod.split)

lemma join_now_keeps: "Q (sd_ctl s) \<Longrightarrow> Q (sd_ctl (snd (join_now d resolve p s)))"
  by (auto simp: join_now_def join_finish_keeps split: sum.split)

lemma participant_left_keeps: "Q (sd_ctl s) \<Longrightarrow> Q (sd_ctl (participant_left d v s))"
  by (auto simp: participant_left_def dest: send_keeps' split: ext.split option.split prod.split)

lemma end_missing_keeps: "Q (sd_ctl s) \<Longrightarrow> Q (sd_ctl (snd (end_missing d current rest s)))"
proof (induction rest arbitrary: s)
  case (Cons cp rest)
  obtain cid pid where "cp = (cid, pid)" by (cases cp)
  moreover obtain r s1 where "send d (end_event d cid) s = (r, s1)" by fastforce
  ultimately show ?case using Cons.IH Cons.prems send_keeps' by (auto split: ext.split)
qed simp

lemma admit_keeps: "Q (sd_ctl s) \<Longrightarrow> Q (sd_ctl (snd (admit d resolve current s)))"
proof (induction current arbitrary: s)
  case (Cons ki current)
  obtain key info where ki: "ki = (key, info)" by (cases ki)
  have "Q (sd_ctl s') \<Longrightarrow> join_now d resolve p s = (b, s') \<Longrightarrow> Q (sd_ctl (snd (admit d resolve current s')))" for p b s'
    by (rule Cons.IH)
  moreover have "Q (sd_ctl s')" if "join_now d resolve p s = (b, s')" for p b s'
    using join_now_keeps [OF Cons.prems, of resolve p] that by simp
  ultimately show ?case using ki Cons.IH [OF Cons.prems]
    by (auto split: option.split prod.split bool.split)
qed simp

lemma reconcile_keeps: "Q (sd_ctl s) \<Longrightarrow> Q (sd_ctl (reconcile_finish d sn resolve s))"
proof -
  assume q: "Q (sd_ctl s)"
  have "Q (sd_ctl s1)" if "end_missing d current (sd_participantByCallId s) s = (b, s1)" for current b s1
    using end_missing_keeps [OF q] that by (metis snd_conv)
  moreover have "Q (sd_ctl s2)"
    if "admit d resolve current (s1\<lparr>sd_accepting := True\<rparr>) = (b, s2)" "Q (sd_ctl s1)" for current b s1 s2
    using admit_keeps [of "s1\<lparr>sd_accepting := True\<rparr>" resolve current] that by simp
  ultimately show ?thesis using q
    by (auto simp: reconcile_finish_def split: ext.split option.split prod.split bool.split)
qed

lemma run_sdk_op_keeps: "Q (sd_ctl s) \<Longrightarrow> Q (sd_ctl (run_sdk_op d op s))"
  by (auto simp: run_sdk_op_def participant_left_keeps split: sdk_op.split sum.split)

lemma adapter_shutdown_keeps: "Q (sd_ctl s) \<Longrightarrow> Q (sd_ctl (snd (shutdown_adapter d disc s)))"
  using shutdown_keeps [of "sd_ctl s"]
  by (auto simp: shutdown_adapter_def stop_adapter_def Let_def split: prod.split ext.split)

lemma sdk_step_keeps: "Q (sd_ctl s) \<Longrightarrow> \<not> controller_moves e \<Longrightarrow> Q (sd_ctl (sdk_step d s e))"
proof (cases e)
  case (Resolved r)
  assume "Q (sd_ctl s)"
  then show ?thesis using Resolved join_finish_keeps [of "s\<lparr>sd_running := None\<rparr>"]
    by (auto simp: caught_def split: option.split sdk_await.split)
next
  case (Snapshot sn resolve)
  assume "Q (sd_ctl s)"
  then show ?thesis using Snapshot reconcile_keeps [of "s\<lparr>sd_running := None\<rparr>"]
    by (auto split: option.split sdk_await.split)
next
  case Run_Next
  assume "Q (sd_ctl s)"
  then show ?thesis using Run_Next run_sdk_op_keeps by (auto split: option.split list.split)
qed (auto simp: adapter_shutdown_keeps start_adapter_def handle_connected_def handle_client_disconnected_def)

end

text \<open>The events of the composed layer: those of the SDK client, and the calls of the media bridge, of the
agent and of the lease timers into the controller.\<close>

datatype 'w layer_event =
    Sdk_Event "'w ctl sdk_event"
  | Media_Failure jsval jsval
  | Hang_Up jsval jsval
  | Lease_Timer nat

fun layer_step :: "'w deps \<Rightarrow> binding \<Rightarrow> string \<Rightarrow> (string \<Rightarrow> string) \<Rightarrow> 'w ctl sdk \<Rightarrow> 'w layer_event \<Rightarrow> 'w ctl sdk" where
  "layer_step d b dn sha s (Sdk_Event e) =
     (if controller_moves e then s else sdk_step (threecx_deps d b dn sha) s e)"
| "layer_step d b dn sha s (Media_Failure sid why) =
     s\<lparr>sd_ctl := snd (handle_media_failure d b sid why (sd_ctl s))\<rparr>"
| "layer_step d b dn sha s (Hang_Up sid why) =
     s\<lparr>sd_ctl := snd (handle_call_hangup d b sid why (sd_ctl s))\<rparr>"
| "layer_step d b dn sha s (Lease_Timer i) =
     (if i \<in> set (map snd (calls (sd_ctl s))) then s\<lparr>sd_ctl := snd (renew_task d b i (sd_ctl s))\<rparr> else s)"

definition quiet_ctl :: "'w ctl \<Rightarrow> bool" where
  "quiet_ctl c \<longleftrightarrow> stopping c \<and> calls c = []"

lemma stopping_basic [simp]:
  "stopping (upd i f c) = stopping c" "stopping (log_act a c) = stopping c" "stopping (forget i c) = stopping c"
  "stopping (clear_lease_renewal i c) = stopping c"
  by (simp_all add: upd_def log_act_def forget_def clear_lease_renewal_def)

lemma stopping_reported [simp]: "stopping (snd (decide r c)) = stopping c" "stopping (snd (ret_decide r c)) = stopping c"
  by (simp_all add: decide_def ret_decide_def)

lemma stopping_called [simp]: "ext_call f g c = (r, c') \<Longrightarrow> stopping c' = stopping c"
  by (auto simp: ext_call_def split: prod.splits)

lemma stopping_transition: "transition d b i st f c = (r, c') \<Longrightarrow> stopping c' = stopping c"
  by (auto simp: transition_def Let_def split: prod.splits if_splits)

lemma stopping_fallback: "pbx_fallback d i q c = (r, c') \<Longrightarrow> stopping c' = stopping c"
  by (auto simp: pbx_fallback_def split: prod.splits)

lemma stopping_cleanup: "cleanup d b i c = (r, c') \<Longrightarrow> stopping c' = stopping c"
proof -
  assume c: "cleanup d b i c = (r, c')"
  have 1: "stopping c2 = stopping c1" if "close_media_step d i c1 = (q, c2)" for c1 q c2
    using that by (auto simp: close_media_step_def Let_def split: if_splits prod.splits ext.splits)
  have 2: "stopping c2 = stopping c1" if "stop_agent_step d b i c1 = (q, c2)" for c1 q c2
    using that by (auto simp: stop_agent_step_def Let_def split: option.splits prod.splits ext.splits)
  show ?thesis using c by (auto simp: cleanup_def split: prod.splits dest!: 1 2)
qed

lemma shutdown_op_stopping: "stopping (snd (shutdown_op d b i c)) = stopping c"
proof -
  let ?c = "clear_lease_renewal i c"
  obtain r1 c1 where 1: "(if en_state (heap ?c i) \<noteq> Claimed \<and> en_state (heap ?c i) \<noteq> Ending
      then transition d b i Ending None ?c else (Ret True, ?c)) = (r1, c1)" by fastforce
  obtain r2 c2 where 2: "cleanup d b i c1 = (r2, c2)" by fastforce
  obtain r3 c3 where 3: "pbx_fallback d i (fallback_req b (heap c2 i) (JStr ''connector_shutdown'')) c2 = (r3, c3)"
    by fastforce
  obtain r4 c4 where 4: "transition d b i Ended None c3 = (r4, c4)" by fastforce
  have "stopping c1 = stopping c"
    using 1 stopping_transition [of d b i Ending None ?c r1 c1] by (simp split: if_splits) auto
  then have s: "stopping c1 = stopping c" "stopping c2 = stopping c" "stopping c3 = stopping c" "stopping c4 = stopping c"
    using stopping_cleanup [OF 2] stopping_fallback [OF 3] stopping_transition [OF 4] by simp_all
  show ?thesis unfolding shutdown_op_def Let_def 1
    by (cases r1; cases r2; cases r3; cases r4) (auto simp: s 2 3 4 split: bool.split)
qed

lemma shutdown_loop_stopping: "stopping (snd (shutdown_loop d b is c)) = stopping c"
proof (induction "is" arbitrary: c)
  case (Cons i "is")
  obtain r c1 where 1: "shutdown_op d b i c = (r, c1)" by fastforce
  then show ?case using Cons [of c1] shutdown_op_stopping [of d b i c]
    by (auto split: ext.splits prod.splits)
qed simp

lemma shutdown_quiet_ctl: "shutdown d b c = (Ret (True, rs), c') \<Longrightarrow> quiet_ctl c'"
  using shutdown_loop_stopping [of d b "map snd (calls c)" "c\<lparr>stopping := True\<rparr>"]
  by (auto simp: quiet_ctl_def shutdown_def Let_def split: prod.splits ext.splits)

lemma quiet_event: "quiet_ctl c \<Longrightarrow> quiet_ctl (snd (handle_event d b ev c))"
  by (auto simp: quiet_ctl_def handle_event_def end_call_def end_lookup_def decide_def log_act_def
      split: option.split)

lemma quiet_shutdown: "quiet_ctl c \<Longrightarrow> quiet_ctl (snd (shutdown d b c))"
  by (simp add: quiet_ctl_def shutdown_def)

interpretation quiet_client: adapter_client "threecx_deps d b dn sha" quiet_ctl for d :: "'w deps" and b dn sha
  by unfold_locales (simp_all add: threecx_deps_def quiet_event quiet_shutdown)

lemma quiet_layer_step: "quiet_ctl (sd_ctl s) \<Longrightarrow> quiet_ctl (sd_ctl (layer_step d b dn sha s e))"
proof (cases e)
  case (Sdk_Event x)
  assume "quiet_ctl (sd_ctl s)"
  then show ?thesis using Sdk_Event quiet_client.sdk_step_keeps [of s x] by simp
qed (auto simp: quiet_ctl_def handle_media_failure_def media_failure_lookup_def handle_call_hangup_def
      hangup_lookup_def find_session_def ret_decide_def decide_def log_act_def
      split: option.split jsval.split sum.split)

lemma shutdown_adapter_quiet_ctl:
  assumes "shutdown_adapter (threecx_deps d b dn sha) disc s = (Ret (True, rs), s')"
  shows "quiet_ctl (sd_ctl s')"
proof -
  obtain q c where q: "shutdown d b (sd_ctl s) = (q, c)" by fastforce
  have "q = Ret (True, rs) \<and> sd_ctl s' = c"
    using assms q
    by (auto simp: shutdown_adapter_def threecx_deps_def note_act_def stop_adapter_def Let_def split: ext.splits if_splits)
  then show ?thesis using q shutdown_quiet_ctl by blast
qed

interpretation adapter_layer: drain_layer "shutdown_adapter (threecx_deps d b dn sha) disc"
    "\<lambda>s. quiet_ctl (sd_ctl s)" "\<lambda>_. True" "layer_step d b dn sha"
  for d :: "'w deps" and b dn sha disc
  by unfold_locales (auto intro: shutdown_adapter_quiet_ctl quiet_layer_step)

section \<open>The runtime\<close>

datatype rt_state = Idle | Starting | Running | Draining | Failed_Start | Stopped

text \<open>\<open>startPromise\<close>: not created, waiting for \<open>client.connect\<close>, waiting for the cleanup of a failed
start, or settled. \<open>shutdownPromise\<close>: waiting for the start, or for the adapter.\<close>

datatype start_promise = Connecting_Client | Cleaning_Up | Settled "unit ext"
datatype shutdown_promise = Awaiting_Start | Awaiting_Adapter

datatype 'r rt_answer =
    Start_Refused
  | Already_Running
  | Shutdown_Done "(bool \<times> 'r) option ext"
  | Rt_Signal string

record ('a, 'r) rt =
  rt_adapter :: 'a
  rt_state :: rt_state
  rt_startPromise :: "start_promise option"
  rt_shutdownPromise :: "shutdown_promise option"
  rt_lastShutdown :: "(bool \<times> 'r) option"
  rt_answers :: "'r rt_answer list"

record ('a, 'e, 'o, 'r) rt_deps =
  rd_start :: "'a \<Rightarrow> 'a"
  rd_shutdown :: "'o \<Rightarrow> 'a \<Rightarrow> (bool \<times> 'r) ext \<times> 'a"
  rd_step :: "'a \<Rightarrow> 'e \<Rightarrow> 'a"

datatype ('e, 'o) rt_event =
    Rt_Start
  | Rt_Connected "unit ext"
  | Rt_Cleaned 'o
  | Rt_Shutdown
  | Rt_Resume
  | Rt_Drained 'o
  | Rt_Layer 'e

definition new_rt :: "'a \<Rightarrow> ('a, 'r) rt" where
  "new_rt a = \<lparr>rt_adapter = a, rt_state = Idle, rt_startPromise = None, rt_shutdownPromise = None,
     rt_lastShutdown = None, rt_answers = []\<rparr>"

definition rt_answer :: "'r rt_answer \<Rightarrow> ('a, 'r) rt \<Rightarrow> ('a, 'r) rt" where
  "rt_answer x s = s\<lparr>rt_answers := rt_answers s @ [x]\<rparr>"

definition rt_start :: "('a, 'e, 'o, 'r) rt_deps \<Rightarrow> ('a, 'r) rt \<Rightarrow> ('a, 'r) rt" where
  "rt_start d s =
     (case rt_state s of
        Starting \<Rightarrow> s
      | Running \<Rightarrow> rt_answer Already_Running s
      | Idle \<Rightarrow> s\<lparr>rt_state := Starting, rt_startPromise := Some Connecting_Client, rt_adapter := rd_start d (rt_adapter s)\<rparr>
      | _ \<Rightarrow> rt_answer Start_Refused s)"

definition rt_connected :: "unit ext \<Rightarrow> ('a, 'r) rt \<Rightarrow> ('a, 'r) rt" where
  "rt_connected r s =
     (if rt_startPromise s \<noteq> Some Connecting_Client then s
      else case r of
        Ret _ \<Rightarrow> rt_answer (Rt_Signal ''tenant_runtime_started'')
                  (s\<lparr>rt_state := Running, rt_startPromise := Some (Settled (Ret ()))\<rparr>)
      | Throw _ \<Rightarrow> s\<lparr>rt_startPromise := Some Cleaning_Up\<rparr>)"

text \<open>A rejecting cleanup leaves the state \<open>starting\<close> behind a rejected promise.\<close>

definition rt_cleaned :: "('a, 'e, 'o, 'r) rt_deps \<Rightarrow> 'o \<Rightarrow> ('a, 'r) rt \<Rightarrow> ('a, 'r) rt" where
  "rt_cleaned d out s =
     (if rt_startPromise s \<noteq> Some Cleaning_Up then s
      else case rd_shutdown d out (rt_adapter s) of
        (Throw m, a) \<Rightarrow> s\<lparr>rt_adapter := a, rt_startPromise := Some (Settled (Throw m))\<rparr>
      | (Ret r, a) \<Rightarrow>
          rt_answer (Rt_Signal (if fst r then ''tenant_runtime_start_failed'' else ''tenant_runtime_start_cleanup_incomplete''))
            (s\<lparr>rt_adapter := a, rt_lastShutdown := Some r, rt_state := (if fst r then Failed_Start else Draining),
               rt_startPromise := Some (Settled (Throw ''threecx_tenant_runtime_start_failed''))\<rparr>))"

definition enter_drain :: "('a, 'r) rt \<Rightarrow> ('a, 'r) rt" where
  "enter_drain s = s\<lparr>rt_state := Draining, rt_shutdownPromise := Some Awaiting_Adapter\<rparr>"

definition rt_shutdown :: "('a, 'r) rt \<Rightarrow> ('a, 'r) rt" where
  "rt_shutdown s =
     (if rt_shutdownPromise s \<noteq> None then s
      else if rt_state s = Stopped then rt_answer (Shutdown_Done (Ret (rt_lastShutdown s))) s
      else if rt_startPromise s = None then enter_drain s
      else s\<lparr>rt_shutdownPromise := Some Awaiting_Start\<rparr>)"

fun settled :: "start_promise option \<Rightarrow> bool" where
  "settled (Some (Settled _)) = True"
| "settled _ = False"

definition rt_resume :: "'r \<Rightarrow> ('a, 'r) rt \<Rightarrow> ('a, 'r) rt" where
  "rt_resume no_calls s =
     (if rt_shutdownPromise s \<noteq> Some Awaiting_Start \<or> \<not> settled (rt_startPromise s) then s
      else if rt_state s = Failed_Start
      then rt_answer (Shutdown_Done (Ret (case rt_lastShutdown s of None \<Rightarrow> Some (True, no_calls) | Some r \<Rightarrow> Some r)))
             (s\<lparr>rt_shutdownPromise := None\<rparr>)
      else enter_drain s)"

definition rt_drained :: "('a, 'e, 'o, 'r) rt_deps \<Rightarrow> 'o \<Rightarrow> ('a, 'r) rt \<Rightarrow> ('a, 'r) rt" where
  "rt_drained d out s =
     (if rt_shutdownPromise s \<noteq> Some Awaiting_Adapter then s
      else case rd_shutdown d out (rt_adapter s) of
        (Throw m, a) \<Rightarrow> rt_answer (Shutdown_Done (Throw m)) (s\<lparr>rt_adapter := a, rt_shutdownPromise := None\<rparr>)
      | (Ret r, a) \<Rightarrow> rt_answer (Shutdown_Done (Ret (Some r)))
          (s\<lparr>rt_adapter := a, rt_lastShutdown := Some r, rt_state := (if fst r then Stopped else Draining),
             rt_shutdownPromise := None\<rparr>))"

fun rt_step :: "('a, 'e, 'o, 'r) rt_deps \<Rightarrow> 'r \<Rightarrow> ('a, 'r) rt \<Rightarrow> ('e, 'o) rt_event \<Rightarrow> ('a, 'r) rt" where
  "rt_step d nc s Rt_Start = rt_start d s"
| "rt_step d nc s (Rt_Connected r) = rt_connected r s"
| "rt_step d nc s (Rt_Cleaned out) = rt_cleaned d out s"
| "rt_step d nc s Rt_Shutdown = rt_shutdown s"
| "rt_step d nc s Rt_Resume = rt_resume nc s"
| "rt_step d nc s (Rt_Drained out) = rt_drained d out s"
| "rt_step d nc s (Rt_Layer e) = s\<lparr>rt_adapter := rd_step d (rt_adapter s) e\<rparr>"

text \<open>Which promises belong to which state, and what a runtime that is down has left.\<close>

definition promises_ok :: "rt_state \<Rightarrow> start_promise option \<Rightarrow> shutdown_promise option \<Rightarrow> bool" where
  "promises_ok st sp sh \<longleftrightarrow>
     (sp = Some Connecting_Client \<or> sp = Some Cleaning_Up \<longrightarrow> st = Starting \<and> sh \<noteq> Some Awaiting_Adapter)
     \<and> (sh = Some Awaiting_Adapter \<longrightarrow> st = Draining)
     \<and> (st \<in> {Starting, Running, Failed_Start} \<longrightarrow> sp \<noteq> None)
     \<and> (st = Idle \<longrightarrow> sp = None) \<and> (st = Stopped \<longrightarrow> sh = None)"

fun done_stopped :: "'r rt_answer \<Rightarrow> bool" where
  "done_stopped (Shutdown_Done (Ret (Some r))) = fst r"
| "done_stopped _ = False"

definition is_down :: "rt_state \<Rightarrow> bool" where
  "is_down st \<longleftrightarrow> st = Stopped \<or> st = Failed_Start"

definition rt_inv :: "('a \<Rightarrow> bool) \<Rightarrow> ('a, 'r) rt \<Rightarrow> bool" where
  "rt_inv quiet s \<longleftrightarrow> promises_ok (rt_state s) (rt_startPromise s) (rt_shutdownPromise s)
     \<and> (is_down (rt_state s) \<longrightarrow> quiet (rt_adapter s) \<and> rt_lastShutdown s \<noteq> None \<and> fst (the (rt_lastShutdown s)))
     \<and> (list_ex done_stopped (rt_answers s) \<longrightarrow> is_down (rt_state s))"

lemmas rt_defs = rt_start_def rt_connected_def rt_cleaned_def rt_shutdown_def rt_resume_def rt_drained_def
  enter_drain_def rt_answer_def

lemma rt_answers_snoc [simp]: "list_ex done_stopped (xs @ [x]) \<longleftrightarrow> list_ex done_stopped xs \<or> done_stopped x"
  by (simp add: list_ex_append)

lemma rt_inv_step:
  assumes drained: "\<And>out a rs a'. rd_shutdown d out a = (Ret (True, rs), a') \<Longrightarrow> quiet a'"
    and moves: "\<And>a e. quiet a \<Longrightarrow> quiet (rd_step d a e)"
    and inv: "rt_inv quiet s"
  shows "rt_inv quiet (rt_step d nc s e)"
proof -
  obtain ad st sp sh la an where s: "s = \<lparr>rt_adapter = ad, rt_state = st, rt_startPromise = sp,
      rt_shutdownPromise = sh, rt_lastShutdown = la, rt_answers = an\<rparr>" by (cases s) auto
  have q: "quiet a" if "rd_shutdown d out ad = (Ret x, a)" "fst x" for out x a
    using drained [of out ad "snd x" a] that by (cases x) simp
  have inv': "promises_ok st sp sh" "is_down st \<Longrightarrow> quiet ad" "is_down st \<Longrightarrow> la \<noteq> None \<and> fst (the la)"
    "list_ex done_stopped an \<longrightarrow> is_down st"
    using inv by (auto simp: rt_inv_def s)
  show ?thesis
  proof (cases e)
    case (Rt_Cleaned out)
    show ?thesis
    proof (cases "sp = Some Cleaning_Up")
      case True
      obtain r a where r: "rd_shutdown d out ad = (r, a)" by fastforce
      have "st = Starting" "sh \<noteq> Some Awaiting_Adapter" using inv'(1) True by (simp_all add: promises_ok_def)
      then show ?thesis using Rt_Cleaned True r q [of out _ a] inv'
        by (cases r) (simp_all add: s rt_inv_def rt_defs promises_ok_def is_down_def)
    next
      case False
      then show ?thesis using Rt_Cleaned inv by (simp add: rt_cleaned_def s)
    qed
  next
    case (Rt_Drained out)
    show ?thesis
    proof (cases "sh = Some Awaiting_Adapter")
      case True
      obtain r a where r: "rd_shutdown d out ad = (r, a)" by fastforce
      have "st = Draining" using inv'(1) True by (simp add: promises_ok_def)
      then show ?thesis using Rt_Drained True r q [of out _ a] inv'
        by (cases r) (simp_all add: s rt_inv_def rt_defs promises_ok_def is_down_def)
    next
      case False
      then show ?thesis using Rt_Drained inv by (simp add: rt_drained_def s)
    qed
  next
    case (Rt_Layer x)
    then show ?thesis using inv' moves by (simp add: rt_inv_def s)
  next
    case Rt_Resume
    show ?thesis
    proof (cases "sh = Some Awaiting_Start \<and> settled sp")
      case True
      then obtain r where "sp = Some (Settled r)" by (cases sp rule: settled.cases) auto
      then show ?thesis using Rt_Resume True inv'
        by (cases st; cases la) (simp_all add: s rt_inv_def rt_defs promises_ok_def is_down_def)
    next
      case False
      then show ?thesis using Rt_Resume inv by (simp add: rt_resume_def s)
    qed
  next
    case Rt_Start
    then show ?thesis using inv'
      by (cases st) (simp_all add: s rt_inv_def rt_defs promises_ok_def is_down_def)
  next
    case Rt_Shutdown
    then show ?thesis using inv'
      by (cases st; cases la; cases sp) (simp_all add: s rt_inv_def rt_defs promises_ok_def is_down_def)
  next
    case (Rt_Connected r)
    show ?thesis
    proof (cases "sp = Some Connecting_Client")
      case True
      then have "st = Starting" using inv'(1) by (simp add: promises_ok_def)
      then show ?thesis using Rt_Connected True inv'
        by (cases r) (simp_all add: s rt_inv_def rt_defs promises_ok_def is_down_def)
    next
      case False
      then show ?thesis using Rt_Connected inv by (simp add: rt_connected_def s)
    qed
  qed
qed

lemma down_step:
  assumes "promises_ok (rt_state s) (rt_startPromise s) (rt_shutdownPromise s)" "is_down (rt_state s)"
  shows "is_down (rt_state (rt_step d nc s e))"
  using assms
  by (cases e; cases "rt_state s")
     (auto simp: rt_defs promises_ok_def is_down_def split: option.splits)

lemma rt_inv_down_step: "rt_inv quiet s \<Longrightarrow> is_down (rt_state s) \<Longrightarrow> is_down (rt_state (rt_step d nc s e))"
  by (rule down_step) (simp_all add: rt_inv_def)

section \<open>The runtime on the 3CX controller\<close>

definition tenant_deps ::
    "'w deps \<Rightarrow> (string \<Rightarrow> string) \<Rightarrow> binding \<Rightarrow> ('w ctl sdk, 'w layer_event, unit ext, reason list) rt_deps" where
  "tenant_deps d sha b =
     \<lparr>rd_start = start_adapter,
      rd_shutdown = shutdown_adapter (threecx_deps d b (bd_routePointDn b) sha),
      rd_step = layer_step d b (bd_routePointDn b) sha\<rparr>"

abbreviation tenant_quiet :: "'w ctl sdk \<Rightarrow> bool" where
  "tenant_quiet \<equiv> \<lambda>s. quiet_ctl (sd_ctl s)"

lemma tenant_inv_step: "rt_inv tenant_quiet s \<Longrightarrow> rt_inv tenant_quiet (rt_step (tenant_deps d sha b) nc s e)"
  by (rule rt_inv_step) (auto simp: tenant_deps_def intro: adapter_layer.drained_quiet adapter_layer.quiet_step)

interpretation tenant_runtime: machine "rt_step (tenant_deps d sha b) nc" "rt_inv tenant_quiet"
  for d :: "'w deps" and sha b nc
  by unfold_locales (rule tenant_inv_step)

lemma rt_inv_new: "rt_inv quiet (new_rt a)"
  by (simp add: rt_inv_def new_rt_def promises_ok_def is_down_def)

text \<open>C24. A tenant runtime that has stopped, whose start has failed, or that has answered a shutdown with
\<open>stopped\<close>, has no call left in its controller, and the controller refuses every later call; this stays so
whatever the PBX client, the media bridge, the agents and later requests do.\<close>

theorem stopped_runtime_has_no_call:
  assumes "is_down (rt_state (run (rt_step (tenant_deps d sha b) []) (new_rt (new_sdk (new_ctl w))) es))
    \<or> list_ex done_stopped (rt_answers (run (rt_step (tenant_deps d sha b) []) (new_rt (new_sdk (new_ctl w))) es))"
  shows "calls (sd_ctl (rt_adapter (run (rt_step (tenant_deps d sha b) []) (new_rt (new_sdk (new_ctl w))) (es @ es')))) = []
    \<and> stopping (sd_ctl (rt_adapter (run (rt_step (tenant_deps d sha b) []) (new_rt (new_sdk (new_ctl w))) (es @ es'))))"
proof -
  let ?st = "rt_step (tenant_deps d sha b) []"
  let ?s = "run ?st (new_rt (new_sdk (new_ctl w))) es"
  have inv: "rt_inv tenant_quiet ?s" by (rule tenant_runtime.inv_run) (rule rt_inv_new)
  have "is_down (rt_state (run ?st s es')) \<and> rt_inv tenant_quiet (run ?st s es')"
    if "is_down (rt_state s)" "rt_inv tenant_quiet s" for s
    using that
  proof (induction es' arbitrary: s)
    case (Cons e es')
    show ?case using Cons.IH [OF rt_inv_down_step [OF Cons.prems(2,1)] tenant_inv_step [OF Cons.prems(2)]] by simp
  qed simp
  moreover have "is_down (rt_state ?s)" using assms inv by (auto simp: rt_inv_def)
  ultimately have "rt_inv tenant_quiet (run ?st ?s es')" "is_down (rt_state (run ?st ?s es'))" using inv by blast+
  then show ?thesis by (simp add: rt_inv_def quiet_ctl_def run_append)
qed

definition demo_down :: "('w layer_event, unit ext) rt_event list" where
  "demo_down = [Rt_Start, Rt_Connected (Ret ()), Rt_Layer (Sdk_Event Client_Connected), Rt_Layer (Sdk_Event Run_Next),
     Rt_Shutdown, Rt_Resume, Rt_Drained (Ret ())]"

abbreviation demo_runtime :: "(unit layer_event, unit ext) rt_event list \<Rightarrow> (unit ctl sdk, reason list) rt" where
  "demo_runtime es \<equiv> run (rt_step (tenant_deps obliging (\<lambda>u. u) demo_binding) []) (new_rt (new_sdk (new_ctl ()))) es"

theorem stopped_runtime_has_no_call_witness:
  "rt_state (demo_runtime demo_down) = Stopped
   \<and> sd_log (rt_adapter (demo_runtime demo_down))
       = [Signal ''pbx_connected'', Client_Disconnected, Signal ''connector_shutdown_complete'']
   \<and> calls (sd_ctl (rt_adapter (demo_runtime (demo_down @ [Rt_Layer (Hang_Up (JStr ''s'') JUndef), Rt_Shutdown])))) = []"
proof -
  have 1: "rt_state (demo_runtime demo_down) = Stopped"
    "sd_log (rt_adapter (demo_runtime demo_down))
       = [Signal ''pbx_connected'', Client_Disconnected, Signal ''connector_shutdown_complete'']" by code_simp+
  then have "is_down (rt_state (demo_runtime demo_down))" by (simp add: is_down_def)
  from stopped_runtime_has_no_call [OF disjI1 [OF this]] show ?thesis using 1 by blast
qed

end
