(* ===== verification/Broker_Runtime.thy ===== *)
theory Broker_Runtime
  imports Tenant_Runtime
begin

text \<open>
  \<open>connector/broker-bound-tenant-runtime.mjs\<close>: a tenant runtime on a lease of the credential broker. The
  lease is acquired before the runtime is created, and released when the runtime has been drained. The
  runtime is a layer with the contract \<open>drain_layer\<close>. A \<open>shutdown\<close> in progress awaits the start, the
  runtime or the release; those that await the same promise resume one after the other in one step. The time, the broker and \<open>typeof v === "function"\<close> are parameters.
\<close>

section \<open>State\<close>

datatype br_state = Br_Idle | Br_Starting | Br_Running | Br_Stopping | Br_Draining | Br_Failed | Br_Stopped

datatype br_start = Acquiring | Starting_Runtime | Start_Releasing | Start_Settled bool

datatype 'r br_answer = Br_Refused | Br_Started bool | Br_Shut "(bool \<times> 'r) ext"

record ('x, 'r) br =
  br_state :: br_state
  br_startPromise :: "br_start option"
  br_runtime :: "'x option"
  br_lease :: "jsval option"
  br_releasing :: bool
  br_timer :: bool
  br_waitStart :: nat
  br_waitRuntime :: nat
  br_waitRelease :: "(bool \<times> 'r) list"
  br_answers :: "'r br_answer list"
  br_released :: "(bool \<times> 'x option) list"
    \<comment> \<open>the calls of \<open>releaseTenantLease\<close>: made by a failed start?, and the runtime at that moment\<close>

record ('x, 'e, 'o, 'r) br_deps =
  bd_make :: "jsval \<Rightarrow> 'x option"
  bd_start :: "'x \<Rightarrow> 'x"
  bd_started :: "'x \<Rightarrow> unit ext option"
  bd_drain :: "'o \<Rightarrow> 'x \<Rightarrow> (bool \<times> 'r) ext \<times> 'x"
  bd_step :: "'x \<Rightarrow> 'e \<Rightarrow> 'x"
  bd_is_function :: "jsval \<Rightarrow> bool"
  bd_no_calls :: 'r

definition new_br :: "('x, 'r) br" where
  "new_br = \<lparr>br_state = Br_Idle, br_startPromise = None, br_runtime = None, br_lease = None, br_releasing = False,
     br_timer = False, br_waitStart = 0, br_waitRuntime = 0, br_waitRelease = [], br_answers = [], br_released = []\<rparr>"

definition is_tenant_ref :: "jsval \<Rightarrow> bool" where
  "is_tenant_ref v = (bounded_string v 255 \<noteq> None)"

definition is_lease :: "(jsval \<Rightarrow> bool) \<Rightarrow> jsval \<Rightarrow> jsval \<Rightarrow> int \<Rightarrow> bool" where
  "is_lease is_fun v tenantRef now \<longleftrightarrow>
     truthy v \<and> is_object v \<and> bounded_string (get v ''leaseId'') 255 \<noteq> None
     \<and> get v ''tenantRef'' = tenantRef
     \<and> (case get v ''expiresAt'' of JNum t \<Rightarrow> now < t | JFrac q \<Rightarrow> of_int now < q | _ \<Rightarrow> False)
     \<and> truthy (get v ''client'') \<and> is_fun (get (get v ''client'') ''connect'')
     \<and> is_fun (get (get v ''client'') ''disconnect'')
     \<and> is_object (get v ''tenantBinding'')"

section \<open>Releasing the lease\<close>

definition br_answer :: "'r br_answer \<Rightarrow> ('x, 'r) br \<Rightarrow> ('x, 'r) br" where
  "br_answer a s = s\<lparr>br_answers := br_answers s @ [a]\<rparr>"

text \<open>\<open>releaseOnce\<close> with a lease: a release in flight is shared.\<close>

definition send_release :: "bool \<Rightarrow> ('x, 'r) br \<Rightarrow> ('x, 'r) br" where
  "send_release by_start s =
     (if br_releasing s then s
      else s\<lparr>br_releasing := True, br_released := br_released s @ [(by_start, br_runtime s)]\<rparr>)"

definition settle_failed :: "bool \<Rightarrow> ('x, 'r) br \<Rightarrow> ('x, 'r) br" where
  "settle_failed releaseFailed s =
     br_answer (Br_Started False)
      (s\<lparr>br_timer := False, br_runtime := None, br_lease := (if releaseFailed then br_lease s else None),
         br_state := (if releaseFailed \<and> br_lease s \<noteq> None then Br_Draining else Br_Failed),
         br_startPromise := Some (Start_Settled False)\<rparr>)"

definition start_fails :: "('x, 'r) br \<Rightarrow> ('x, 'r) br" where
  "start_fails s = (if br_lease s = None then settle_failed False s
                    else send_release True (s\<lparr>br_startPromise := Some Start_Releasing\<rparr>))"

definition finish_shutdown :: "bool \<times> 'r \<Rightarrow> ('x, 'r) br \<Rightarrow> ('x, 'r) br" where
  "finish_shutdown res s =
     br_answer (Br_Shut (Ret res)) (s\<lparr>br_timer := False, br_runtime := None, br_lease := None, br_state := Br_Stopped\<rparr>)"

definition release_phase :: "bool \<times> 'r \<Rightarrow> ('x, 'r) br \<Rightarrow> ('x, 'r) br" where
  "release_phase res s = (if br_lease s = None then finish_shutdown res s
                          else (send_release False s)\<lparr>br_waitRelease := br_waitRelease s @ [res]\<rparr>)"

section \<open>Start and shutdown\<close>

definition br_start_call :: "('x, 'r) br \<Rightarrow> ('x, 'r) br" where
  "br_start_call s =
     (case br_state s of
        Br_Starting \<Rightarrow> s
      | Br_Running \<Rightarrow> br_answer (Br_Started True) s
      | Br_Idle \<Rightarrow> s\<lparr>br_state := Br_Starting, br_startPromise := Some Acquiring\<rparr>
      | _ \<Rightarrow> br_answer Br_Refused s)"

definition acquired :: "('x, 'e, 'o, 'r) br_deps \<Rightarrow> jsval \<Rightarrow> int \<Rightarrow> jsval ext \<Rightarrow> ('x, 'r) br \<Rightarrow> ('x, 'r) br" where
  "acquired d tenantRef now r s =
     (if br_startPromise s \<noteq> Some Acquiring then s
      else case r of
        Throw _ \<Rightarrow> start_fails s
      | Ret l \<Rightarrow>
          if \<not> is_lease (bd_is_function d) l tenantRef now then start_fails s
          else let s = s\<lparr>br_lease := Some l\<rparr> in
            (case bd_make d l of
               None \<Rightarrow> start_fails s
             | Some x \<Rightarrow> s\<lparr>br_runtime := Some (bd_start d x), br_startPromise := Some Starting_Runtime\<rparr>))"

definition runtime_started :: "('x, 'e, 'o, 'r) br_deps \<Rightarrow> ('x, 'r) br \<Rightarrow> ('x, 'r) br" where
  "runtime_started d s =
     (if br_startPromise s \<noteq> Some Starting_Runtime then s
      else case br_runtime s of
        None \<Rightarrow> s
      | Some x \<Rightarrow> (case bd_started d x of
            None \<Rightarrow> s
          | Some (Ret _) \<Rightarrow> br_answer (Br_Started True)
              (s\<lparr>br_timer := True, br_state := Br_Running, br_startPromise := Some (Start_Settled True)\<rparr>)
          | Some (Throw _) \<Rightarrow> start_fails s))"

definition begin_stop :: "'r \<Rightarrow> ('x, 'r) br \<Rightarrow> ('x, 'r) br" where
  "begin_stop no_calls s0 =
     (let s = s0\<lparr>br_state := Br_Stopping\<rparr> in
      if br_runtime s = None then release_phase (True, no_calls) s else s\<lparr>br_waitRuntime := Suc (br_waitRuntime s)\<rparr>)"

definition br_shutdown :: "'r \<Rightarrow> ('x, 'r) br \<Rightarrow> ('x, 'r) br" where
  "br_shutdown no_calls s =
     (if br_state s = Br_Stopped then br_answer (Br_Shut (Ret (True, no_calls))) s
      else if br_state s = Br_Starting \<and> br_startPromise s \<noteq> None then s\<lparr>br_waitStart := Suc (br_waitStart s)\<rparr>
      else begin_stop no_calls s)"

fun start_settled :: "br_start option \<Rightarrow> bool" where
  "start_settled (Some (Start_Settled _)) = True"
| "start_settled _ = False"

definition start_awaited :: "'r \<Rightarrow> ('x, 'r) br \<Rightarrow> ('x, 'r) br" where
  "start_awaited no_calls s =
     (if \<not> start_settled (br_startPromise s) then s
      else ((\<lambda>s. if br_state s = Br_Stopped then br_answer (Br_Shut (Ret (True, no_calls))) s
                  else begin_stop no_calls s) ^^ br_waitStart s) (s\<lparr>br_waitStart := 0\<rparr>))"

text \<open>The runtime answers: an incomplete drain keeps the lease. A runtime that another shutdown has already
dropped had answered \<open>stopped\<close>.\<close>

definition after_runtime :: "(bool \<times> 'r) ext \<Rightarrow> ('x, 'r) br \<Rightarrow> ('x, 'r) br" where
  "after_runtime r s =
     (case r of
        Throw m \<Rightarrow> br_answer (Br_Shut (Throw m)) (s\<lparr>br_state := Br_Draining\<rparr>)
      | Ret res \<Rightarrow> if \<not> fst res then br_answer (Br_Shut (Ret res)) (s\<lparr>br_state := Br_Draining\<rparr>)
                   else release_phase res s)"

definition runtime_down :: "('x, 'e, 'o, 'r) br_deps \<Rightarrow> 'o \<Rightarrow> ('x, 'r) br \<Rightarrow> ('x, 'r) br" where
  "runtime_down d out s =
     (if br_waitRuntime s = 0 then s
      else case br_runtime s of
        None \<Rightarrow> (after_runtime (Ret (True, bd_no_calls d)) ^^ br_waitRuntime s) (s\<lparr>br_waitRuntime := 0\<rparr>)
      | Some x \<Rightarrow> (case bd_drain d out x of
          (r, x') \<Rightarrow> (after_runtime r ^^ br_waitRuntime s) (s\<lparr>br_runtime := Some x', br_waitRuntime := 0\<rparr>)))"

text \<open>The broker answers the release: the start and every shutdown that awaits it goes on.\<close>

definition after_release :: "unit ext \<Rightarrow> bool \<times> 'r \<Rightarrow> ('x, 'r) br \<Rightarrow> ('x, 'r) br" where
  "after_release r res s =
     (case r of
        Ret _ \<Rightarrow> finish_shutdown res s
      | Throw _ \<Rightarrow> br_answer (Br_Shut (Throw ''broker_bound_tenant_runtime_release_failed'')) (s\<lparr>br_state := Br_Draining\<rparr>))"

definition release_done :: "unit ext \<Rightarrow> ('x, 'r) br \<Rightarrow> ('x, 'r) br" where
  "release_done r s0 =
     (if \<not> br_releasing s0 then s0
      else let s = s0\<lparr>br_releasing := False, br_waitRelease := []\<rparr>;
               s = (if br_startPromise s = Some Start_Releasing then settle_failed (\<not> is_ret r) s else s)
           in fold (after_release r) (br_waitRelease s0) s)"

text \<open>The timer at the lease's expiry shuts a running runtime down.\<close>

definition lease_expired :: "'r \<Rightarrow> ('x, 'r) br \<Rightarrow> ('x, 'r) br" where
  "lease_expired no_calls s =
     (if \<not> br_timer s then s
      else let s = s\<lparr>br_timer := False\<rparr> in if br_state s = Br_Running then br_shutdown no_calls s else s)"

datatype ('e, 'o) br_event =
    Br_Start
  | Br_Acquired int "jsval ext"
  | Br_Runtime_Started
  | Br_Shutdown
  | Br_Start_Awaited
  | Br_Runtime_Down 'o
  | Br_Release_Done "unit ext"
  | Br_Lease_Expired
  | Br_Layer 'e

fun br_step :: "('x, 'e, 'o, 'r) br_deps \<Rightarrow> jsval \<Rightarrow> ('x, 'r) br \<Rightarrow> ('e, 'o) br_event \<Rightarrow> ('x, 'r) br" where
  "br_step d ref s Br_Start = br_start_call s"
| "br_step d ref s (Br_Acquired now r) = acquired d ref now r s"
| "br_step d ref s Br_Runtime_Started = runtime_started d s"
| "br_step d ref s Br_Shutdown = br_shutdown (bd_no_calls d) s"
| "br_step d ref s Br_Start_Awaited = start_awaited (bd_no_calls d) s"
| "br_step d ref s (Br_Runtime_Down out) = runtime_down d out s"
| "br_step d ref s (Br_Release_Done r) = release_done r s"
| "br_step d ref s Br_Lease_Expired = lease_expired (bd_no_calls d) s"
| "br_step d ref s (Br_Layer e) = s\<lparr>br_runtime := map_option (\<lambda>x. bd_step d x e) (br_runtime s)\<rparr>"

section \<open>Invariant\<close>

definition opt_ok :: "('x \<Rightarrow> bool) \<Rightarrow> 'x option \<Rightarrow> bool" where
  "opt_ok ok x = (case x of None \<Rightarrow> True | Some y \<Rightarrow> ok y)"

definition released_ok :: "('x \<Rightarrow> bool) \<Rightarrow> bool \<times> 'x option \<Rightarrow> bool" where
  "released_ok quiet e \<longleftrightarrow> fst e \<or> opt_ok quiet (snd e)"

fun start_pending :: "br_start option \<Rightarrow> bool" where
  "start_pending None = False"
| "start_pending (Some (Start_Settled _)) = False"
| "start_pending (Some _) = True"

text \<open>Which awaits belong to which state, and what a stopped one has dropped.\<close>

definition phases_ok :: "br_state \<Rightarrow> br_start option \<Rightarrow> nat \<Rightarrow> 'y list \<Rightarrow> jsval option \<Rightarrow> 'x option \<Rightarrow> bool" where
  "phases_ok st p wr wl l x =
     (case st of
        Br_Starting \<Rightarrow> start_pending p \<and> wr = 0 \<and> wl = []
      | Br_Idle \<Rightarrow> p = None \<and> wr = 0 \<and> wl = []
      | Br_Stopped \<Rightarrow> \<not> start_pending p \<and> l = None \<and> x = None
      | _ \<Rightarrow> \<not> start_pending p)"

definition br_inv :: "('x \<Rightarrow> bool) \<Rightarrow> ('x \<Rightarrow> bool) \<Rightarrow> ('x, 'r) br \<Rightarrow> bool" where
  "br_inv quiet ok s \<longleftrightarrow>
     list_all (released_ok quiet) (br_released s) \<and> opt_ok ok (br_runtime s)
     \<and> phases_ok (br_state s) (br_startPromise s) (br_waitRuntime s) (br_waitRelease s) (br_lease s) (br_runtime s)"

lemma opt_ok_simps [simp]: "opt_ok ok None" "opt_ok ok (Some x) \<longleftrightarrow> ok x"
  by (simp_all add: opt_ok_def)

lemma phases_simps [simp]:
  "phases_ok Br_Starting p wr wl l x \<longleftrightarrow> start_pending p \<and> wr = 0 \<and> wl = []"
  "phases_ok Br_Idle p wr wl l x \<longleftrightarrow> p = None \<and> wr = 0 \<and> wl = []"
  "phases_ok Br_Stopped p wr wl l x \<longleftrightarrow> \<not> start_pending p \<and> l = None \<and> x = None"
  "phases_ok Br_Running p wr wl l x \<longleftrightarrow> \<not> start_pending p"
  "phases_ok Br_Stopping p wr wl l x \<longleftrightarrow> \<not> start_pending p"
  "phases_ok Br_Draining p wr wl l x \<longleftrightarrow> \<not> start_pending p"
  "phases_ok Br_Failed p wr wl l x \<longleftrightarrow> \<not> start_pending p"
  by (simp_all add: phases_ok_def)

lemma phases_pending:
  "phases_ok st p wr wl l x \<Longrightarrow> start_pending p \<Longrightarrow> st = Br_Starting \<and> wr = 0 \<and> wl = []"
  by (cases st) auto

lemma phases_late: "phases_ok st p wr wl l x \<Longrightarrow> st \<noteq> Br_Starting \<Longrightarrow> \<not> start_pending p"
  by (cases st) auto

lemma phases_waiting:
  "phases_ok st p wr wl l x \<Longrightarrow> wr \<noteq> 0 \<or> wl \<noteq> [] \<Longrightarrow> st \<noteq> Br_Starting \<and> st \<noteq> Br_Idle \<and> \<not> start_pending p"
  by (cases st) auto

lemma phases_runtime: "phases_ok st p wr wl l (Some x) \<Longrightarrow> phases_ok st p wr wl l (Some y)"
  by (cases st) auto

lemma phases_fewer: "phases_ok st p wr wl l x \<Longrightarrow> phases_ok st p 0 wl l x \<and> phases_ok st p wr [] l x"
  by (cases st) auto

lemma br_inv_new: "br_inv quiet ok new_br"
  by (simp add: br_inv_def new_br_def)

text \<open>What every part of a shutdown keeps, and the parts.\<close>

definition shutting :: "('x \<Rightarrow> bool) \<Rightarrow> ('x \<Rightarrow> bool) \<Rightarrow> ('x, 'r) br \<Rightarrow> bool" where
  "shutting quiet ok s \<longleftrightarrow> br_inv quiet ok s \<and> br_state s \<noteq> Br_Starting"

lemma shutting_inv: "shutting quiet ok s \<Longrightarrow> br_inv quiet ok s"
  by (simp add: shutting_def)

lemma shutting_parts:
  assumes "shutting quiet ok s"
  shows "list_all (released_ok quiet) (br_released s)" "opt_ok ok (br_runtime s)" "\<not> start_pending (br_startPromise s)"
    "br_state s \<noteq> Br_Starting"
    "phases_ok (br_state s) (br_startPromise s) (br_waitRuntime s) (br_waitRelease s) (br_lease s) (br_runtime s)"
  using assms phases_late [of "br_state s"] unfolding shutting_def br_inv_def by blast+

lemma inv_parts:
  assumes "br_inv quiet ok s"
  shows "list_all (released_ok quiet) (br_released s)" "opt_ok ok (br_runtime s)"
    "phases_ok (br_state s) (br_startPromise s) (br_waitRuntime s) (br_waitRelease s) (br_lease s) (br_runtime s)"
  using assms unfolding br_inv_def by blast+

lemmas br_unfold = shutting_def br_inv_def br_answer_def

lemma finish_shutdown_ok:
  assumes "shutting quiet ok s"
  shows "shutting quiet ok (finish_shutdown res s)"
  using shutting_parts(1-3) [OF assms] by (simp add: br_unfold finish_shutdown_def)

lemma release_phase_ok:
  assumes s: "shutting quiet ok s" and q: "opt_ok quiet (br_runtime s)" and st: "br_state s \<noteq> Br_Idle"
  shows "shutting quiet ok (release_phase res s)"
proof (cases "br_lease s")
  case None
  then show ?thesis using finish_shutdown_ok [OF s] by (simp add: release_phase_def)
next
  case (Some l)
  note p = shutting_parts [OF s]
  have "phases_ok (br_state s) (br_startPromise s) (br_waitRuntime s) (br_waitRelease s @ [res]) (br_lease s) (br_runtime s)"
    using p(3-5) st by (cases "br_state s") simp_all
  then show ?thesis using Some p(1,2,4) q
    by (simp add: release_phase_def send_release_def br_unfold released_ok_def)
qed

lemma stopping_ok:
  assumes "shutting quiet ok s"
  shows "shutting quiet ok (s\<lparr>br_state := Br_Stopping\<rparr>)"
  using shutting_parts(1-3) [OF assms] by (simp add: br_unfold)

lemma begin_stop_ok: "shutting quiet ok s \<Longrightarrow> shutting quiet ok (begin_stop nc s)"
proof -
  assume s: "shutting quiet ok s"
  show ?thesis
  proof (cases "br_runtime s")
    case None
    then show ?thesis using release_phase_ok [OF stopping_ok [OF s], of "(True, nc)"] by (simp add: begin_stop_def)
  next
    case (Some x)
    then show ?thesis using shutting_parts(1-3) [OF s] by (simp add: begin_stop_def br_unfold)
  qed
qed

lemma answer_ok: "shutting quiet ok s \<Longrightarrow> shutting quiet ok (br_answer a s)"
  by (simp add: br_unfold)

lemma draining_ok:
  assumes "shutting quiet ok s"
  shows "shutting quiet ok (br_answer a (s\<lparr>br_state := Br_Draining\<rparr>))"
  using shutting_parts(1-3) [OF assms] by (simp add: br_unfold)

lemma funpow_keeps: "P s \<Longrightarrow> (\<And>s. P s \<Longrightarrow> P (f s)) \<Longrightarrow> P ((f ^^ n) s)"
  by (induction n) auto

definition down_ok :: "('x \<Rightarrow> bool) \<Rightarrow> ('x \<Rightarrow> bool) \<Rightarrow> ('x, 'r) br \<Rightarrow> bool" where
  "down_ok quiet ok s \<longleftrightarrow> shutting quiet ok s \<and> br_state s \<noteq> Br_Idle \<and> opt_ok quiet (br_runtime s)"

lemma down_ok_release: "down_ok quiet ok s \<Longrightarrow> down_ok quiet ok (release_phase res s)"
  using release_phase_ok [of quiet ok s res]
  by (simp add: down_ok_def) (simp add: release_phase_def finish_shutdown_def br_answer_def send_release_def)

lemma after_runtime_failed:
  "\<not> (\<exists>res. r = Ret res \<and> fst res) \<Longrightarrow> shutting quiet ok s \<Longrightarrow> shutting quiet ok (after_runtime r s)"
  using draining_ok by (cases r) (auto simp: after_runtime_def)

lemma runtime_dropped:
  assumes "shutting quiet ok s" "opt_ok ok x" "x = None \<longleftrightarrow> br_runtime s = None"
  shows "shutting quiet ok (s\<lparr>br_runtime := x, br_waitRuntime := 0\<rparr>)"
proof -
  note p = shutting_parts [OF assms(1)]
  have "phases_ok (br_state s) (br_startPromise s) 0 (br_waitRelease s) (br_lease s) x"
    using p(3-5) assms(3) by (cases "br_state s") simp_all
  then show ?thesis using p assms(2) by (simp add: br_unfold)
qed

lemma runtime_down_ok:
  assumes inv: "br_inv quiet ok s"
    and drained: "\<And>out x rs x'. ok x \<Longrightarrow> bd_drain d out x = (Ret (True, rs), x') \<Longrightarrow> quiet x'"
    and keeps: "\<And>out x. ok x \<Longrightarrow> ok (snd (bd_drain d out x))"
  shows "br_inv quiet ok (runtime_down d out s)"
proof (cases "br_waitRuntime s = 0")
  case True
  then show ?thesis using inv by (simp add: runtime_down_def)
next
  case False
  have sh: "shutting quiet ok s" "br_state s \<noteq> Br_Idle"
    using inv phases_waiting [OF inv_parts(3) [OF inv]] False by (simp_all add: shutting_def)
  show ?thesis
  proof (cases "br_runtime s")
    case None
    then have eq: "s\<lparr>br_runtime := None, br_waitRuntime := 0\<rparr> = s\<lparr>br_waitRuntime := 0\<rparr>" by (cases s) simp
    have "shutting quiet ok (s\<lparr>br_runtime := None, br_waitRuntime := 0\<rparr>)"
      by (rule runtime_dropped [OF sh(1)]) (simp_all add: None)
    then have "shutting quiet ok (s\<lparr>br_waitRuntime := 0\<rparr>)" unfolding eq .
    then have "down_ok quiet ok (s\<lparr>br_waitRuntime := 0\<rparr>)" using sh(2) None by (simp add: down_ok_def)
    then have "down_ok quiet ok ((after_runtime (Ret (True, bd_no_calls d)) ^^ br_waitRuntime s) (s\<lparr>br_waitRuntime := 0\<rparr>))"
      by (rule funpow_keeps) (simp add: after_runtime_def down_ok_release)
    then show ?thesis using None False by (simp add: runtime_down_def down_ok_def shutting_inv)
  next
    case (Some x)
    obtain r x' where r: "bd_drain d out x = (r, x')" by fastforce
    have x: "ok x" using inv_parts(2) [OF inv] Some by simp
    then have x': "ok x'" using keeps [of x out] r by simp
    let ?s = "s\<lparr>br_runtime := Some x', br_waitRuntime := 0\<rparr>"
    have s': "shutting quiet ok ?s" using runtime_dropped [OF sh(1), of "Some x'"] x' Some by simp
    have "br_inv quiet ok ((after_runtime r ^^ br_waitRuntime s) ?s)"
    proof (cases "\<exists>res. r = Ret res \<and> fst res")
      case True
      then obtain res where res: "r = Ret res" "fst res" by blast
      then have "quiet x'" using drained [OF x, of out "snd res" x'] r by (cases res) simp
      then have "down_ok quiet ok ?s" using s' sh(2) by (simp add: down_ok_def)
      then have "down_ok quiet ok ((after_runtime r ^^ br_waitRuntime s) ?s)"
        by (rule funpow_keeps) (use res in \<open>simp add: after_runtime_def down_ok_release\<close>)
      then show ?thesis by (simp add: down_ok_def shutting_inv)
    next
      case False
      have "shutting quiet ok ((after_runtime r ^^ br_waitRuntime s) ?s)"
        by (rule funpow_keeps [where P = "shutting quiet ok", OF s' after_runtime_failed [OF False]])
      then show ?thesis by (rule shutting_inv)
    qed
    then show ?thesis using Some False r by (simp add: runtime_down_def)
  qed
qed

lemma pending_parts:
  assumes "br_inv quiet ok s" "start_pending (br_startPromise s)"
  shows "br_state s = Br_Starting" "br_waitRuntime s = 0" "br_waitRelease s = []"
  using phases_pending [OF inv_parts(3) [OF assms(1)] assms(2)] by simp_all

lemma settle_failed_ok:
  assumes "br_inv quiet ok s" "start_pending (br_startPromise s)"
  shows "shutting quiet ok (settle_failed b s)"
  using inv_parts [OF assms(1)] pending_parts [OF assms] by (simp add: settle_failed_def br_unfold)

lemma start_fails_ok:
  assumes "br_inv quiet ok s" "start_pending (br_startPromise s)"
  shows "br_inv quiet ok (start_fails s)"
  using shutting_inv [OF settle_failed_ok [OF assms, of False]] inv_parts [OF assms(1)] pending_parts [OF assms]
  by (simp add: start_fails_def send_release_def br_unfold released_ok_def)

lemma release_done_ok:
  assumes inv: "br_inv quiet ok s"
  shows "br_inv quiet ok (release_done r s)"
proof (cases "br_releasing s")
  case False
  then show ?thesis using inv by (simp add: release_done_def)
next
  case True
  let ?s = "s\<lparr>br_releasing := False, br_waitRelease := []\<rparr>"
  have inv': "br_inv quiet ok ?s"
    using inv_parts(1,2) [OF inv] by (simp add: br_inv_def phases_fewer [THEN conjunct2, OF inv_parts(3) [OF inv]])
  show ?thesis
  proof (cases "br_startPromise s = Some Start_Releasing")
    case starting: True
    then have "br_waitRelease s = []" using pending_parts(3) [OF inv] by simp
    moreover have "br_inv quiet ok (settle_failed (\<not> is_ret r) ?s)"
      by (rule shutting_inv, rule settle_failed_ok [OF inv']) (simp add: starting)
    ultimately show ?thesis using True starting by (simp add: release_done_def)
  next
    case other: False
    show ?thesis
    proof (cases "br_waitRelease s = []")
      case nil: True
      then show ?thesis using True other inv' by (simp add: release_done_def)
    next
      case False
      then have "br_state s \<noteq> Br_Starting" using phases_waiting [OF inv_parts(3) [OF inv]] by blast
      then have sh: "shutting quiet ok ?s" using inv' by (simp add: shutting_def)
      have "shutting quiet ok (fold (after_release r) xs ?s)" for xs
      proof (induction xs rule: rev_induct)
        case (snoc x xs)
        then show ?case by (cases r) (simp_all add: after_release_def finish_shutdown_ok draining_ok)
      qed (simp add: sh)
      then show ?thesis using True other by (simp add: release_done_def shutting_inv)
    qed
  qed
qed

lemma br_shutdown_ok:
  assumes inv: "br_inv quiet ok s"
  shows "br_inv quiet ok (br_shutdown nc s)"
proof -
  consider "br_state s = Br_Stopped" | "br_state s = Br_Starting" | "shutting quiet ok s" "br_state s \<noteq> Br_Stopped" "br_state s \<noteq> Br_Starting"
    using inv unfolding shutting_def by blast
  then show ?thesis
  proof cases
    case 2
    then have "br_startPromise s \<noteq> None" using inv_parts(3) [OF inv] by (cases "br_startPromise s") simp_all
    then show ?thesis using 2 inv by (simp add: br_shutdown_def br_unfold)
  next
    case 3
    then show ?thesis using begin_stop_ok [of quiet ok s nc] by (simp add: br_shutdown_def shutting_inv)
  qed (use inv in \<open>simp_all add: br_shutdown_def br_unfold\<close>)
qed

lemma start_awaited_ok:
  assumes inv: "br_inv quiet ok s"
  shows "br_inv quiet ok (start_awaited nc s)"
proof (cases "start_settled (br_startPromise s)")
  case True
  then have "\<not> start_pending (br_startPromise s)" by (cases "br_startPromise s" rule: start_settled.cases) auto
  then have "br_state s \<noteq> Br_Starting" using inv_parts(3) [OF inv] by auto
  then have "shutting quiet ok (s\<lparr>br_waitStart := 0\<rparr>)" using inv by (simp add: br_unfold)
  then have "shutting quiet ok (((\<lambda>s. if br_state s = Br_Stopped then br_answer (Br_Shut (Ret (True, nc))) s
      else begin_stop nc s) ^^ br_waitStart s) (s\<lparr>br_waitStart := 0\<rparr>))"
    by (rule funpow_keeps) (simp add: answer_ok begin_stop_ok)
  then show ?thesis using True by (simp add: start_awaited_def shutting_inv)
qed (use inv in \<open>simp add: start_awaited_def\<close>)

lemma runtime_started_ok:
  assumes inv: "br_inv quiet ok s"
  shows "br_inv quiet ok (runtime_started d s)"
proof (cases "br_startPromise s = Some Starting_Runtime")
  case True
  then have p: "start_pending (br_startPromise s)" by simp
  have "br_inv quiet ok (br_answer (Br_Started True)
      (s\<lparr>br_timer := True, br_state := Br_Running, br_startPromise := Some (Start_Settled True)\<rparr>))"
    using inv_parts(1,2) [OF inv] by (simp add: br_unfold)
  then show ?thesis using inv True start_fails_ok [OF inv p]
    by (simp add: runtime_started_def split: option.split ext.split)
qed (use inv in \<open>simp add: runtime_started_def\<close>)

lemma acquired_ok:
  assumes inv: "br_inv quiet ok s" and fresh: "\<And>l x. bd_make d l = Some x \<Longrightarrow> ok (bd_start d x)"
  shows "br_inv quiet ok (acquired d ref now r s)"
proof (cases "br_startPromise s = Some Acquiring")
  case True
  then have p: "start_pending (br_startPromise s)" by simp
  have l: "br_inv quiet ok (s\<lparr>br_lease := Some l\<rparr>)" for l
    using inv_parts(1,2) [OF inv] pending_parts [OF inv p] p by (simp add: br_inv_def)
  then have "br_inv quiet ok (start_fails (s\<lparr>br_lease := Some l\<rparr>))" for l
    by (rule start_fails_ok) (use p in simp)
  moreover have "br_inv quiet ok (s\<lparr>br_lease := Some l, br_runtime := Some (bd_start d x), br_startPromise := Some Starting_Runtime\<rparr>)"
    if "bd_make d l = Some x" for l x
    using inv_parts(1) [OF inv] pending_parts [OF inv p] fresh [OF that] by (simp add: br_inv_def)
  ultimately show ?thesis using True start_fails_ok [OF inv p]
    by (simp add: acquired_def Let_def split: ext.split option.split)
qed (use inv in \<open>simp add: acquired_def\<close>)

lemma layer_ok:
  assumes inv: "br_inv quiet ok s" and steps: "\<And>x e. ok x \<Longrightarrow> ok (bd_step d x e)"
  shows "br_inv quiet ok (s\<lparr>br_runtime := map_option (\<lambda>x. bd_step d x e) (br_runtime s)\<rparr>)"
proof (cases "br_runtime s")
  case (Some x)
  then show ?thesis
    using inv_parts(1) [OF inv] phases_runtime inv_parts(2,3) [OF inv] steps [of x e] by (auto simp: br_inv_def)
qed (use inv in \<open>simp add: br_inv_def\<close>)

lemma br_inv_step:
  assumes fresh: "\<And>l x. bd_make d l = Some x \<Longrightarrow> ok (bd_start d x)"
    and drained: "\<And>out x rs x'. ok x \<Longrightarrow> bd_drain d out x = (Ret (True, rs), x') \<Longrightarrow> quiet x'"
    and keeps: "\<And>out x. ok x \<Longrightarrow> ok (snd (bd_drain d out x))"
    and steps: "\<And>x e. ok x \<Longrightarrow> ok (bd_step d x e)"
    and inv: "br_inv quiet ok s"
  shows "br_inv quiet ok (br_step d ref s e)"
proof (cases e)
  case (Br_Runtime_Down out)
  then show ?thesis using runtime_down_ok [OF inv drained keeps] by simp
next
  case (Br_Acquired now r)
  then show ?thesis using acquired_ok [OF inv fresh] by simp
next
  case (Br_Layer x)
  then show ?thesis using layer_ok [OF inv steps] by simp
next
  case Br_Lease_Expired
  have t: "br_inv quiet ok (s\<lparr>br_timer := False\<rparr>)" using inv by (simp add: br_inv_def)
  then show ?thesis using Br_Lease_Expired inv br_shutdown_ok [OF t] by (simp add: lease_expired_def Let_def)
next
  case Br_Start
  then show ?thesis using inv_parts [OF inv] inv
    by (cases "br_state s") (simp_all add: br_start_call_def br_unfold)
qed (use inv in \<open>simp_all add: br_shutdown_ok start_awaited_ok release_done_ok runtime_started_ok\<close>)

section \<open>The tenant runtime on a lease\<close>

text \<open>The runtime created for a lease, with the binding the lease carries; \<open>shutdown\<close> of a runtime whose start
has settled runs to its answer.\<close>

type_synonym 'w bound = "binding \<times> ('w ctl sdk, reason list) rt"

definition bound_step :: "'w deps \<Rightarrow> (string \<Rightarrow> string) \<Rightarrow> 'w bound \<Rightarrow> ('w layer_event, unit ext) rt_event \<Rightarrow> 'w bound" where
  "bound_step d sha x e = (fst x, rt_step (tenant_deps d sha (fst x)) [] (snd x) e)"

definition shutdown_answer :: "'r rt_answer list \<Rightarrow> (bool \<times> 'r) ext" where
  "shutdown_answer as =
     (case List.find (\<lambda>a. case a of Shutdown_Done _ \<Rightarrow> True | _ \<Rightarrow> False) as of
        Some (Shutdown_Done (Ret (Some r))) \<Rightarrow> Ret r
      | Some (Shutdown_Done (Throw m)) \<Rightarrow> Throw m
      | _ \<Rightarrow> Throw ''unsettled'')"

definition bound_drain :: "'w deps \<Rightarrow> (string \<Rightarrow> string) \<Rightarrow> unit ext \<Rightarrow> 'w bound \<Rightarrow> (bool \<times> reason list) ext \<times> 'w bound" where
  "bound_drain d sha out x =
     (let x' = run (bound_step d sha) x [Rt_Shutdown, Rt_Resume, Rt_Drained out]
      in (shutdown_answer (drop (length (rt_answers (snd x))) (rt_answers (snd x'))), x'))"

definition bound_deps ::
    "(string \<Rightarrow> bool) \<Rightarrow> (jsval \<Rightarrow> bool) \<Rightarrow> 'w deps \<Rightarrow> (string \<Rightarrow> string) \<Rightarrow> 'w
       \<Rightarrow> ('w bound, ('w layer_event, unit ext) rt_event, unit ext, reason list) br_deps" where
  "bound_deps zone_ok is_fun d sha w =
     \<lparr>bd_make = (\<lambda>l. case new_binding zone_ok (get l ''tenantBinding'') of
          Inl _ \<Rightarrow> None | Inr b \<Rightarrow> Some (b, new_rt (new_sdk (new_ctl w)))),
      bd_start = (\<lambda>x. bound_step d sha x Rt_Start),
      bd_started = (\<lambda>x. case rt_startPromise (snd x) of Some (Settled r) \<Rightarrow> Some r | _ \<Rightarrow> None),
      bd_drain = bound_drain d sha, bd_step = bound_step d sha, bd_is_function = is_fun, bd_no_calls = []\<rparr>"

definition bound_ok :: "'w bound \<Rightarrow> bool" where
  "bound_ok x \<longleftrightarrow> rt_inv tenant_quiet (snd x)"

definition bound_down :: "'w bound \<Rightarrow> bool" where
  "bound_down x \<longleftrightarrow> is_down (rt_state (snd x))"

lemma bound_ok_step: "bound_ok x \<Longrightarrow> bound_ok (bound_step d sha x e)"
  by (simp add: bound_ok_def bound_step_def tenant_inv_step)

lemma bound_ok_run: "bound_ok x \<Longrightarrow> bound_ok (run (bound_step d sha) x es)"
proof (induction es arbitrary: x)
  case (Cons e es)
  show ?case using Cons.IH [OF bound_ok_step [OF Cons.prems]] by simp
qed simp

lemma shutdown_answer_stopped: "shutdown_answer as = Ret (True, rs) \<Longrightarrow> list_ex done_stopped as"
proof (induction as)
  case (Cons a as)
  then show ?case
    by (cases a) (auto simp: shutdown_answer_def split: ext.splits option.splits)
qed (simp add: shutdown_answer_def)

lemma bound_drained:
  assumes ok: "bound_ok x" and d: "bound_drain d sha out x = (Ret (True, rs), x')"
  shows "bound_down x'"
proof -
  have x': "x' = run (bound_step d sha) x [Rt_Shutdown, Rt_Resume, Rt_Drained out]"
    and a: "shutdown_answer (drop (length (rt_answers (snd x))) (rt_answers (snd x'))) = Ret (True, rs)"
    using d unfolding bound_drain_def Let_def by blast+
  have "list_ex done_stopped (drop (length (rt_answers (snd x))) (rt_answers (snd x')))"
    by (rule shutdown_answer_stopped [OF a])
  then have "list_ex done_stopped (rt_answers (snd x'))" by (auto simp: list_ex_iff dest: in_set_dropD)
  moreover have "bound_ok x'" unfolding x' by (rule bound_ok_run [OF ok])
  ultimately show ?thesis by (simp add: bound_ok_def bound_down_def rt_inv_def)
qed

interpretation bound_layer: drain_layer "bound_drain d sha out" bound_down bound_ok "bound_step d sha"
  for d :: "'w deps" and sha out
proof unfold_locales
  show "bound_ok s \<Longrightarrow> bound_down s \<Longrightarrow> bound_down (bound_step d sha s e)" for s :: "'w bound" and e
    using rt_inv_down_step by (auto simp: bound_ok_def bound_down_def bound_step_def)
  show "bound_ok s \<Longrightarrow> bound_ok (snd (bound_drain d sha out s))" for s :: "'w bound"
    unfolding bound_drain_def Let_def snd_conv by (rule bound_ok_run)
qed (auto intro: bound_drained bound_ok_step)

definition bound_quiet :: "'w bound \<Rightarrow> bool" where
  "bound_quiet x = quiet_ctl (sd_ctl (rt_adapter (snd x)))"

lemma bound_down_quiet: "bound_ok x \<Longrightarrow> bound_down x \<Longrightarrow> bound_quiet x"
  by (simp add: bound_ok_def bound_down_def bound_quiet_def rt_inv_def)

lemma bound_br_step:
  "br_inv bound_quiet bound_ok s \<Longrightarrow> br_inv bound_quiet bound_ok (br_step (bound_deps z f d sha w) ref s e)"
proof (rule br_inv_step)
  show "bd_make (bound_deps z f d sha w) l = Some x \<Longrightarrow> bound_ok (bd_start (bound_deps z f d sha w) x)" for l x
    by (auto simp: bound_deps_def split: sum.splits intro!: bound_ok_step) (simp add: bound_ok_def rt_inv_new)
  show "bound_ok x \<Longrightarrow> bd_drain (bound_deps z f d sha w) out x = (Ret (True, rs), x') \<Longrightarrow> bound_quiet x'" for out x rs x'
    using bound_layer.drained_quiet [of x d sha out rs x'] bound_layer.ok_drain [of x d sha out]
    by (auto simp: bound_deps_def intro: bound_down_quiet)
qed (simp_all add: bound_deps_def bound_layer.ok_drain bound_ok_step)

interpretation broker_runtime: machine "br_step (bound_deps z f d sha w) ref" "br_inv bound_quiet bound_ok"
  for z f and d :: "'w deps" and sha w ref
  by unfold_locales (rule bound_br_step)

text \<open>C25. Except by a start that failed, a tenant's lease is given back to the broker only when the runtime held at that
moment is drained (its controller refuses calls and tracks none) or none is held; and a runtime that reports
\<open>stopped\<close> holds neither a lease nor a runtime.\<close>

theorem lease_released_after_drain:
  "list_all (\<lambda>(by_start, rt). by_start \<or> rt = None \<or>
        (stopping (sd_ctl (rt_adapter (snd (the rt)))) \<and> calls (sd_ctl (rt_adapter (snd (the rt)))) = []))
     (br_released (run (br_step (bound_deps z f d sha w) ref) new_br es))
   \<and> (br_state (run (br_step (bound_deps z f d sha w) ref) new_br es) = Br_Stopped \<longrightarrow>
        br_lease (run (br_step (bound_deps z f d sha w) ref) new_br es) = None
        \<and> br_runtime (run (br_step (bound_deps z f d sha w) ref) new_br es) = None)"
proof -
  have inv: "br_inv bound_quiet bound_ok (run (br_step (bound_deps z f d sha w) ref) new_br es)"
    by (rule broker_runtime.inv_run) (rule br_inv_new)
  have "list_all (released_ok bound_quiet) xs \<Longrightarrow> list_all (\<lambda>(by_start, rt). by_start \<or> rt = None \<or>
        (stopping (sd_ctl (rt_adapter (snd (the rt)))) \<and> calls (sd_ctl (rt_adapter (snd (the rt)))) = [])) xs" for xs
    by (auto simp: list_all_iff released_ok_def bound_quiet_def quiet_ctl_def opt_ok_def split: option.splits)
  then show ?thesis using inv_parts(1,3) [OF inv] by auto
qed

definition demo_lease :: jsval where
  "demo_lease = JObj [(''leaseId'', JStr ''l''), (''tenantRef'', JStr ''t''), (''expiresAt'', JNum 9),
     (''client'', JObj [(''connect'', JBool True), (''disconnect'', JBool True)]), (''tenantBinding'', demo_tenant)]"

definition demo_held :: "(('w layer_event, unit ext) rt_event, unit ext) br_event list" where
  "demo_held = [Br_Start, Br_Acquired 5 (Ret demo_lease), Br_Layer (Rt_Connected (Ret ())), Br_Runtime_Started,
     Br_Lease_Expired, Br_Runtime_Down (Ret ()), Br_Release_Done (Throw ''unreachable''), Br_Shutdown,
     Br_Runtime_Down (Ret ()), Br_Release_Done (Ret ())]"

abbreviation demo_broker :: "(unit bound, reason list) br" where
  "demo_broker \<equiv> run (br_step (bound_deps (\<lambda>z. z = ''UTC'') (\<lambda>v. v = JBool True) obliging (\<lambda>u. u) ()) (JStr ''t'')) new_br demo_held"

theorem lease_released_after_drain_witness:
  "br_state demo_broker = Br_Stopped \<and> length (br_released demo_broker) = 2
   \<and> list_all (\<lambda>(by_start, rt). \<not> by_start \<and> rt \<noteq> None) (br_released demo_broker)
   \<and> br_lease demo_broker = None \<and> br_runtime demo_broker = None"
proof -
  have 1: "br_state demo_broker = Br_Stopped" "length (br_released demo_broker) = 2"
    "list_all (\<lambda>(by_start, rt). \<not> by_start \<and> rt \<noteq> None) (br_released demo_broker)"
    by code_simp+
  from lease_released_after_drain [THEN conjunct2, THEN mp, OF 1(1)] show ?thesis using 1 by blast
qed

text \<open>A failed start gives the lease back whatever its runtime has left: here a PBX connection that could not be
closed, in a runtime that is draining and no longer referenced.\<close>

lemma failed_start_drops_draining_runtime:
  "let s = run (br_step (bound_deps (\<lambda>z. z = ''UTC'') (\<lambda>v. v = JBool True) obliging (\<lambda>u. u) ()) (JStr ''t'')) new_br
      [Br_Start, Br_Acquired 5 (Ret demo_lease), Br_Layer (Rt_Connected (Throw ''refused'')),
       Br_Layer (Rt_Cleaned (Throw ''still open'')), Br_Runtime_Started, Br_Release_Done (Ret ())]
   in br_state s = Br_Failed \<and> br_runtime s = None
     \<and> map (\<lambda>(by_start, rt). (by_start, rt_state (snd (the rt)))) (br_released s) = [(True, Draining)]"
  by code_simp

end
