(* ===== verification/Supervisor.thy ===== *)
theory Supervisor
  imports Prelude "HOL-Library.List_Lexorder" "HOL-Library.Char_ord"
begin

text \<open>
  \<open>connector/multi-tenant-supervisor.mjs\<close>: keeps one runtime per active tenant. A round of reconciliation
  fetches the active tenants, stops the runtimes of tenants that are gone, and starts or restarts those that
  are new or changed. Rounds, shutdowns and timer callbacks interleave at their awaits. The runtimes are the
  caller's: creating one may throw, and starting and stopping it have an outcome. Company ids are compared
  as values (they are strings).
\<close>

section \<open>State\<close>

datatype tenant_state = T_Starting | T_Running | T_Stopping

record tenant =
  tn_config :: jsval
  tn_fingerprint :: string
  tn_state :: tenant_state

datatype sup_state = Sup_Idle | Sup_Running | Sup_Stopping | Sup_Stopped

datatype work = Stop_Removed jsval | Sync jsval jsval

text \<open>What a round awaits: the list, the stop of a tenant (and, when it is being restarted, its new
configuration and fingerprint), or the start of one.\<close>

datatype round_await =
    Fetching
  | Stopping_Tenant jsval "(jsval \<times> string) option"
  | Starting_Tenant jsval

datatype sup_signal = Sup_Signal string jsval

record sup =
  sp_state :: sup_state
  sp_tenants :: "(jsval, tenant) jsmap"
  sp_await :: "(round_await \<times> work list) option"   \<comment> \<open>the round in progress (\<open>reconciling\<close>)\<close>
  sp_then_schedule :: bool
  sp_timer :: bool
  sp_closings :: "jsval list list"   \<comment> \<open>per shutdown in progress: the stops it awaits\<close>
  sp_signals :: "sup_signal list"
  sp_created :: "jsval list"   \<comment> \<open>the companies a runtime was created for\<close>

definition new_sup :: sup where
  "new_sup = \<lparr>sp_state = Sup_Idle, sp_tenants = [], sp_await = None, sp_then_schedule = False, sp_timer = False,
     sp_closings = [], sp_signals = [], sp_created = []\<rparr>"

definition interval_ok :: "jsval \<Rightarrow> bool" where
  "interval_ok v = (case v of JNum n \<Rightarrow> 1000 \<le> n \<and> n \<le> 300000 | _ \<Rightarrow> False)"

definition notify :: "string \<Rightarrow> jsval \<Rightarrow> sup \<Rightarrow> sup" where
  "notify e v s = s\<lparr>sp_signals := sp_signals s @ [Sup_Signal e v]\<rparr>"

section \<open>Fingerprint\<close>

text \<open>\<open>[...].join(sep)\<close>: null and undefined are empty.\<close>

definition join_part :: "(rat \<Rightarrow> string) \<Rightarrow> jsval \<Rightarrow> string" where
  "join_part fr v = (if v = JUndef \<or> v = JNull then [] else js_string fr v)"

definition sorted_dids :: "(rat \<Rightarrow> string) \<Rightarrow> jsval \<Rightarrow> string ext" where
  "sorted_dids fr v =
     (if \<not> truthy v then Ret []
      else case v of
        JArr xs \<Rightarrow> Ret (js_join '','' (map (join_part fr) (sort_key (js_string fr) xs)))
      | _ \<Rightarrow> Throw ''not a function'')"

definition compute_fingerprint :: "(rat \<Rightarrow> string) \<Rightarrow> jsval \<Rightarrow> string ext" where
  "compute_fingerprint fr c =
     (case sorted_dids fr (get c ''dids'') of
        Throw m \<Rightarrow> Throw m
      | Ret dids \<Rightarrow> Ret (js_join ''|''
          [join_part fr (get c ''companyId''), join_part fr (get c ''routePointDn''),
           join_part fr (js_or (get c ''pbxHostname'') (get c ''pbxUrl'')), join_part fr (get c ''appId''), dids,
           join_part fr (get c ''failureAction''), join_part fr (get c ''failureDestination''),
           join_part fr (js_or (get c ''credentialUpdatedAt'') (JStr []))]))"

section \<open>Rounds of reconciliation\<close>

text \<open>\<open>createTenantRuntime\<close> is a parameter: it throws or not.\<close>

definition create_ok :: "(jsval \<Rightarrow> unit ext) \<Rightarrow> jsval \<Rightarrow> bool" where
  "create_ok create c = is_ret (create c)"

definition schedule_next :: "sup \<Rightarrow> sup" where
  "schedule_next s = (if sp_state s = Sup_Running then s\<lparr>sp_timer := True\<rparr> else s)"

text \<open>The end of a round (\<open>finally\<close>), and what the caller of a scheduled round does next.\<close>

definition end_round :: "string \<Rightarrow> sup \<Rightarrow> sup" where
  "end_round e s0 =
     (let s = notify e JNull (s0\<lparr>sp_await := None\<rparr>) in
      if sp_then_schedule s then schedule_next (s\<lparr>sp_then_schedule := False\<rparr>) else s)"

definition set_tenant_state :: "jsval \<Rightarrow> tenant_state \<Rightarrow> sup \<Rightarrow> sup" where
  "set_tenant_state k st s =
     (case jm_get (sp_tenants s) k of
        None \<Rightarrow> s | Some t \<Rightarrow> s\<lparr>sp_tenants := jm_set k (t\<lparr>tn_state := st\<rparr>) (sp_tenants s)\<rparr>)"

text \<open>\<open>#startTenant\<close> and \<open>#stopTenant\<close> up to their await; a throwing factory does not await.\<close>

definition start_tenant :: "(jsval \<Rightarrow> unit ext) \<Rightarrow> jsval \<Rightarrow> jsval \<Rightarrow> string \<Rightarrow> sup \<Rightarrow> bool \<times> sup" where
  "start_tenant create k c fp s =
     (if create_ok create c
      then (True, s\<lparr>sp_tenants := jm_set k \<lparr>tn_config = c, tn_fingerprint = fp, tn_state = T_Starting\<rparr> (sp_tenants s),
                    sp_created := sp_created s @ [k]\<rparr>)
      else (False, notify ''tenant_start_failed'' k (s\<lparr>sp_tenants := jm_delete k (sp_tenants s)\<rparr>)))"

definition tenant_started :: "jsval \<Rightarrow> unit ext \<Rightarrow> sup \<Rightarrow> sup" where
  "tenant_started k r s =
     (case r of
        Ret _ \<Rightarrow> notify ''tenant_started'' k (set_tenant_state k T_Running s)
      | Throw _ \<Rightarrow> notify ''tenant_start_failed'' k (s\<lparr>sp_tenants := jm_delete k (sp_tenants s)\<rparr>))"

definition stop_tenant :: "jsval \<Rightarrow> sup \<Rightarrow> sup" where
  "stop_tenant k s = set_tenant_state k T_Stopping s"

definition tenant_stopped :: "jsval \<Rightarrow> unit ext \<Rightarrow> sup \<Rightarrow> sup" where
  "tenant_stopped k r s0 =
     (let s = (case r of Ret _ \<Rightarrow> s0 | Throw _ \<Rightarrow> notify ''tenant_stop_error'' k s0)
      in notify ''tenant_stopped'' k (s\<lparr>sp_tenants := jm_delete k (sp_tenants s)\<rparr>))"

text \<open>The round up to its next await.\<close>

fun advance :: "(jsval \<Rightarrow> unit ext) \<Rightarrow> (rat \<Rightarrow> string) \<Rightarrow> work list \<Rightarrow> sup \<Rightarrow> sup" where
  "advance create fr [] s = end_round ''reconcile_completed'' s"
| "advance create fr (Stop_Removed k # ws) s =
     (stop_tenant k (notify ''stopping_removed_tenant'' k s))\<lparr>sp_await := Some (Stopping_Tenant k None, ws)\<rparr>"
| "advance create fr (Sync k c # ws) s =
     (case compute_fingerprint fr c of
        Throw _ \<Rightarrow> end_round ''reconcile_error'' s
      | Ret fp \<Rightarrow> (case jm_get (sp_tenants s) k of
          None \<Rightarrow> (case start_tenant create k c fp s of
              (True, s) \<Rightarrow> s\<lparr>sp_await := Some (Starting_Tenant k, ws)\<rparr>
            | (False, s) \<Rightarrow> advance create fr ws s)
        | Some t \<Rightarrow>
            if tn_fingerprint t = fp then advance create fr ws s
            else (stop_tenant k (notify ''restarting_updated_tenant'' k s))
                   \<lparr>sp_await := Some (Stopping_Tenant k (Some (c, fp)), ws)\<rparr>))"

definition begin_round :: "sup \<Rightarrow> sup" where
  "begin_round s =
     (if sp_await s \<noteq> None \<or> sp_state s \<noteq> Sup_Running then s else s\<lparr>sp_await := Some (Fetching, [])\<rparr>)"

definition active_map :: "jsval list \<Rightarrow> (jsval, jsval) jsmap" where
  "active_map ts = fold (\<lambda>t m. if truthy (get t ''companyId'') then jm_set (get t ''companyId'') t m else m) ts []"

definition fetched :: "(jsval \<Rightarrow> unit ext) \<Rightarrow> (rat \<Rightarrow> string) \<Rightarrow> jsval ext \<Rightarrow> sup \<Rightarrow> sup" where
  "fetched create fr r s =
     (case r of
        Throw _ \<Rightarrow> end_round ''reconcile_error'' s
      | Ret (JArr ts) \<Rightarrow>
          let act = active_map ts in
          advance create fr
            (map Stop_Removed (filter (\<lambda>k. k \<notin> set (jm_keys act)) (jm_keys (sp_tenants s)))
             @ map (\<lambda>(k, c). Sync k c) act) s
      | Ret _ \<Rightarrow> end_round ''invalid_active_tenants_payload'' s)"

definition start_awaited_tenant :: "(jsval \<Rightarrow> unit ext) \<Rightarrow> (rat \<Rightarrow> string) \<Rightarrow> jsval \<Rightarrow> jsval \<Rightarrow> string \<Rightarrow> work list \<Rightarrow> sup \<Rightarrow> sup" where
  "start_awaited_tenant create fr k c fp ws s =
     (case start_tenant create k c fp s of
        (True, s) \<Rightarrow> s\<lparr>sp_await := Some (Starting_Tenant k, ws)\<rparr>
      | (False, s) \<Rightarrow> advance create fr ws s)"

section \<open>Start, shutdown, timer\<close>

definition start_sup :: "sup \<Rightarrow> sup" where
  "start_sup s =
     (if sp_state s \<noteq> Sup_Idle then s
      else begin_round (notify ''supervisor_started'' JNull (s\<lparr>sp_state := Sup_Running, sp_then_schedule := True\<rparr>)))"

definition timer_fires :: "sup \<Rightarrow> sup" where
  "timer_fires s0 =
     (if \<not> sp_timer s0 then s0
      else let s = s0\<lparr>sp_timer := False\<rparr> in
        if sp_state s \<noteq> Sup_Running then s
        else if sp_await s \<noteq> None then schedule_next s
        else begin_round (s\<lparr>sp_then_schedule := True\<rparr>))"

definition sup_stopped :: "sup \<Rightarrow> sup" where
  "sup_stopped s = notify ''supervisor_stopped'' JNull (s\<lparr>sp_tenants := [], sp_state := Sup_Stopped\<rparr>)"

definition shutdown_sup :: "sup \<Rightarrow> sup" where
  "shutdown_sup s0 =
     (if sp_state s0 = Sup_Stopped then s0
      else let s = fold stop_tenant (jm_keys (sp_tenants s0)) (s0\<lparr>sp_state := Sup_Stopping, sp_timer := False\<rparr>) in
        if sp_tenants s = [] then sup_stopped s
        else s\<lparr>sp_closings := sp_closings s @ [jm_keys (sp_tenants s)]\<rparr>)"

text \<open>One of the stops that a shutdown awaits is done; after the last one the shutdown finishes.\<close>

definition closing_done :: "nat \<Rightarrow> jsval \<Rightarrow> unit ext \<Rightarrow> sup \<Rightarrow> sup" where
  "closing_done i k r s0 =
     (if i < length (sp_closings s0) \<and> k \<in> set (sp_closings s0 ! i)
      then let left = remove1 k (sp_closings s0 ! i);
               s = (tenant_stopped k r s0)\<lparr>sp_closings := (sp_closings s0)[i := left]\<rparr>
           in if left = [] then sup_stopped s else s
      else s0)"

datatype sup_event =
    Start_Supervisor
  | Reconcile_Now
  | Timer_Fires
  | Fetched "jsval ext"
  | Round_Answer "unit ext"
  | Shut_Down_Supervisor
  | Closing_Done nat jsval "unit ext"

fun sup_step :: "(jsval \<Rightarrow> unit ext) \<Rightarrow> (rat \<Rightarrow> string) \<Rightarrow> sup \<Rightarrow> sup_event \<Rightarrow> sup" where
  "sup_step create fr s Start_Supervisor = start_sup s"
| "sup_step create fr s Reconcile_Now = begin_round s"
| "sup_step create fr s Timer_Fires = timer_fires s"
| "sup_step create fr s (Fetched r) =
     (case sp_await s of Some (Fetching, _) \<Rightarrow> fetched create fr r s | _ \<Rightarrow> s)"
| "sup_step create fr s (Round_Answer r) =
     (case sp_await s of
        Some (Starting_Tenant k, ws) \<Rightarrow> advance create fr ws (tenant_started k r s)
      | Some (Stopping_Tenant k None, ws) \<Rightarrow> advance create fr ws (tenant_stopped k r s)
      | Some (Stopping_Tenant k (Some (c, fp)), ws) \<Rightarrow> start_awaited_tenant create fr k c fp ws (tenant_stopped k r s)
      | _ \<Rightarrow> s)"
| "sup_step create fr s Shut_Down_Supervisor = shutdown_sup s"
| "sup_step create fr s (Closing_Done i k r) = closing_done i k r s"

text \<open>A round that was under way when the supervisor shut down goes on and creates runtimes that nothing stops
any more: the fetch of the active tenants answers after the shutdown.\<close>

lemma round_outlives_shutdown:
  "let s = run (sup_step (\<lambda>_. Ret ()) (\<lambda>_. [])) new_sup
      [Start_Supervisor, Shut_Down_Supervisor, Fetched (Ret (JArr [JObj [(''companyId'', JStr ''c'')]])), Round_Answer (Ret ())]
   in sp_state s = Sup_Stopped \<and> map fst (sp_tenants s) = [JStr ''c''] \<and> sp_created s = [JStr ''c'']"
  by code_simp

section \<open>A round that is not interrupted\<close>

text \<open>The outcomes of starting and stopping each tenant are given; the round is driven through its awaits.\<close>

fun drive :: "(jsval \<Rightarrow> unit ext) \<Rightarrow> (rat \<Rightarrow> string) \<Rightarrow> (jsval \<Rightarrow> unit ext) \<Rightarrow> (jsval \<Rightarrow> unit ext) \<Rightarrow> nat \<Rightarrow> sup \<Rightarrow> sup" where
  "drive create fr starts stops 0 s = s"
| "drive create fr starts stops (Suc n) s =
     (case sp_await s of
        Some (Starting_Tenant k, _) \<Rightarrow> drive create fr starts stops n (sup_step create fr s (Round_Answer (starts k)))
      | Some (Stopping_Tenant k _, _) \<Rightarrow> drive create fr starts stops n (sup_step create fr s (Round_Answer (stops k)))
      | _ \<Rightarrow> s)"

definition fresh_tenant :: "(jsval \<Rightarrow> unit ext) \<Rightarrow> (jsval \<Rightarrow> unit ext) \<Rightarrow> jsval \<Rightarrow> jsval \<Rightarrow> string \<Rightarrow> tenant option" where
  "fresh_tenant create starts k c fp =
     (if create_ok create c \<and> is_ret (starts k)
      then Some \<lparr>tn_config = c, tn_fingerprint = fp, tn_state = T_Running\<rparr> else None)"

text \<open>What the round means to leave of a tenant.\<close>

fun item_result :: "(jsval \<Rightarrow> unit ext) \<Rightarrow> (rat \<Rightarrow> string) \<Rightarrow> (jsval \<Rightarrow> unit ext) \<Rightarrow> work \<Rightarrow> tenant option \<Rightarrow> tenant option" where
  "item_result create fr starts (Stop_Removed k) t = None"
| "item_result create fr starts (Sync k c) t =
     (case compute_fingerprint fr c of
        Throw _ \<Rightarrow> t
      | Ret fp \<Rightarrow> (case t of
          Some t' \<Rightarrow> if tn_fingerprint t' = fp then t else fresh_tenant create starts k c fp
        | None \<Rightarrow> fresh_tenant create starts k c fp))"

fun work_key :: "work \<Rightarrow> jsval" where
  "work_key (Stop_Removed k) = k"
| "work_key (Sync k c) = k"

fun work_ok :: "(rat \<Rightarrow> string) \<Rightarrow> work \<Rightarrow> bool" where
  "work_ok fr (Stop_Removed k) = True"
| "work_ok fr (Sync k c) = is_ret (compute_fingerprint fr c)"

lemma notify_simps [simp]:
  "sp_tenants (notify e v s) = sp_tenants s" "sp_await (notify e v s) = sp_await s"
  by (simp_all add: notify_def)

lemma end_round_simps [simp]: "sp_tenants (end_round e s) = sp_tenants s" "sp_await (end_round e s) = None"
  by (simp_all add: end_round_def schedule_next_def Let_def)

lemma set_state_get:
  "jm_get (sp_tenants (set_tenant_state k st s)) k' =
     (if k' = k then map_option (\<lambda>t. t\<lparr>tn_state := st\<rparr>) (jm_get (sp_tenants s) k) else jm_get (sp_tenants s) k')"
  by (cases "jm_get (sp_tenants s) k") (auto simp: set_tenant_state_def)

lemma tenant_stopped_get:
  "jm_get (sp_tenants (tenant_stopped k r s)) k' = (if k' = k then None else jm_get (sp_tenants s) k')"
  by (cases r) (simp_all add: tenant_stopped_def Let_def)

lemma tenant_started_get:
  "jm_get (sp_tenants (tenant_started k r s)) k' =
     (if k' = k then (if is_ret r then map_option (\<lambda>t. t\<lparr>tn_state := T_Running\<rparr>) (jm_get (sp_tenants s) k) else None)
      else jm_get (sp_tenants s) k')"
  by (cases r) (simp_all add: tenant_started_def set_state_get)

definition merge_item :: "(jsval \<Rightarrow> unit ext) \<Rightarrow> (rat \<Rightarrow> string) \<Rightarrow> (jsval \<Rightarrow> unit ext) \<Rightarrow> jsval \<Rightarrow> work \<Rightarrow> tenant option \<Rightarrow> tenant option" where
  "merge_item create fr starts k w t = (if work_key w = k then item_result create fr starts w t else t)"

lemma drive_idle: "sp_await s = None \<Longrightarrow> drive create fr starts stops n s = s"
  by (cases n) simp_all

text \<open>Starting a tenant, through its await.\<close>

lemma drive_start:
  assumes n: "Suc n \<le> m"
    and rest: "\<And>m s. n \<le> m \<Longrightarrow> sp_await (drive create fr starts stops m (advance create fr ws s)) = None
      \<and> (\<forall>k. jm_get (sp_tenants (drive create fr starts stops m (advance create fr ws s))) k
           = fold (merge_item create fr starts k) ws (jm_get (sp_tenants s) k))"
  shows "sp_await (drive create fr starts stops m (start_awaited_tenant create fr k c fp ws s)) = None
    \<and> (\<forall>k'. jm_get (sp_tenants (drive create fr starts stops m (start_awaited_tenant create fr k c fp ws s))) k'
         = fold (merge_item create fr starts k') ws
             (if k' = k then fresh_tenant create starts k c fp else jm_get (sp_tenants s) k'))"
proof (cases "create_ok create c")
  case True
  obtain j where m: "m = Suc j" "n \<le> j" using n by (cases m) auto
  let ?s = "s\<lparr>sp_tenants := jm_set k \<lparr>tn_config = c, tn_fingerprint = fp, tn_state = T_Starting\<rparr> (sp_tenants s),
    sp_created := sp_created s @ [k], sp_await := Some (Starting_Tenant k, ws)\<rparr>"
  have 1: "drive create fr starts stops m (start_awaited_tenant create fr k c fp ws s)
      = drive create fr starts stops j (advance create fr ws (tenant_started k (starts k) ?s))"
    using True m(1) by (simp add: start_awaited_tenant_def start_tenant_def)
  have 2: "jm_get (sp_tenants (tenant_started k (starts k) ?s)) k'
      = (if k' = k then fresh_tenant create starts k c fp else jm_get (sp_tenants s) k')" for k'
    using True by (simp add: tenant_started_get fresh_tenant_def)
  show ?thesis unfolding 1 using rest [OF m(2), of "tenant_started k (starts k) ?s"] unfolding 2 .
next
  case False
  let ?s = "notify ''tenant_start_failed'' k (s\<lparr>sp_tenants := jm_delete k (sp_tenants s)\<rparr>)"
  have 1: "start_awaited_tenant create fr k c fp ws s = advance create fr ws ?s"
    using False by (simp add: start_awaited_tenant_def start_tenant_def)
  have 2: "jm_get (sp_tenants ?s) k' = (if k' = k then fresh_tenant create starts k c fp else jm_get (sp_tenants s) k')" for k'
    using False by (simp add: fresh_tenant_def)
  have "n \<le> m" using n by simp
  from rest [OF this, of ?s] show ?thesis unfolding 1 2 .
qed

lemma drive_advance:
  "2 * length ws \<le> n \<Longrightarrow> list_all (work_ok fr) ws \<Longrightarrow>
     sp_await (drive create fr starts stops n (advance create fr ws s)) = None
     \<and> (\<forall>k. jm_get (sp_tenants (drive create fr starts stops n (advance create fr ws s))) k
          = fold (merge_item create fr starts k) ws (jm_get (sp_tenants s) k))"
proof (induction ws arbitrary: n s)
  case Nil
  then show ?case by (simp add: drive_idle)
next
  case (Cons w ws)
  have ws: "list_all (work_ok fr) ws" and n: "2 + 2 * length ws \<le> n" using Cons.prems by simp_all
  then obtain j where j: "n = Suc j" "Suc (2 * length ws) \<le> j" by (cases n) auto
  have rest: "\<And>m s. 2 * length ws \<le> m \<Longrightarrow> sp_await (drive create fr starts stops m (advance create fr ws s)) = None
      \<and> (\<forall>k. jm_get (sp_tenants (drive create fr starts stops m (advance create fr ws s))) k
           = fold (merge_item create fr starts k) ws (jm_get (sp_tenants s) k))"
    using Cons.IH ws by blast
  show ?case
  proof (cases w)
    case (Stop_Removed k)
    let ?s = "(stop_tenant k (notify ''stopping_removed_tenant'' k s))\<lparr>sp_await := Some (Stopping_Tenant k None, ws)\<rparr>"
    have 1: "drive create fr starts stops n (advance create fr (w # ws) s)
        = drive create fr starts stops j (advance create fr ws (tenant_stopped k (stops k) ?s))"
      using Stop_Removed j(1) by simp
    have 2: "jm_get (sp_tenants (tenant_stopped k (stops k) ?s)) k' = merge_item create fr starts k' w (jm_get (sp_tenants s) k')" for k'
      using Stop_Removed by (simp add: tenant_stopped_get stop_tenant_def set_state_get merge_item_def)
    have "2 * length ws \<le> j" using j(2) by simp
    from rest [OF this, of "tenant_stopped k (stops k) ?s"] show ?thesis unfolding 1 2 by simp
  next
    case (Sync k c)
    then obtain fp where fp: "compute_fingerprint fr c = Ret fp" using Cons.prems(2) by (auto simp: is_ret_iff)
    have new: ?thesis if "jm_get (sp_tenants s) k = None"
    proof -
      have 1: "advance create fr (w # ws) s = start_awaited_tenant create fr k c fp ws s"
        using Sync fp that by (simp add: start_awaited_tenant_def split: prod.split bool.split)
      have "merge_item create fr starts k' w (jm_get (sp_tenants s) k')
          = (if k' = k then fresh_tenant create starts k c fp else jm_get (sp_tenants s) k')" for k'
        using Sync fp that by (simp add: merge_item_def)
      moreover have "Suc (2 * length ws) \<le> n" using n by simp
      ultimately show ?thesis unfolding 1 using drive_start [OF _ rest] by simp
    qed
    have same: ?thesis if "jm_get (sp_tenants s) k = Some t" "tn_fingerprint t = fp" for t
    proof -
      have 1: "advance create fr (w # ws) s = advance create fr ws s" using Sync fp that by simp
      have 2: "merge_item create fr starts k' w (jm_get (sp_tenants s) k') = jm_get (sp_tenants s) k'" for k'
        using Sync fp that by (cases "k' = k") (simp_all add: merge_item_def)
      have "2 * length ws \<le> n" using n by simp
      from rest [OF this, of s] show ?thesis unfolding 1 by (simp add: 2)
    qed
    have changed: ?thesis if t: "jm_get (sp_tenants s) k = Some t" "tn_fingerprint t \<noteq> fp" for t
    proof -
      let ?s = "(stop_tenant k (notify ''restarting_updated_tenant'' k s))\<lparr>sp_await := Some (Stopping_Tenant k (Some (c, fp)), ws)\<rparr>"
      have 1: "drive create fr starts stops n (advance create fr (w # ws) s)
          = drive create fr starts stops j (start_awaited_tenant create fr k c fp ws (tenant_stopped k (stops k) ?s))"
        using Sync fp t j(1) by simp
      have 2: "(if k' = k then fresh_tenant create starts k c fp else jm_get (sp_tenants (tenant_stopped k (stops k) ?s)) k')
          = merge_item create fr starts k' w (jm_get (sp_tenants s) k')" for k'
        using Sync fp t by (cases "k' = k") (simp_all add: tenant_stopped_get stop_tenant_def set_state_get merge_item_def)
      show ?thesis unfolding 1 using drive_start [OF j(2) rest, of k c fp "tenant_stopped k (stops k) ?s"] unfolding 2 by simp
    qed
    show ?thesis using new same changed by (cases "jm_get (sp_tenants s) k") blast+
  qed
qed

lemma fold_stops:
  "fold (merge_item create fr starts k) (map Stop_Removed ks) t = (if k \<in> set ks then None else t)"
  by (induction ks arbitrary: t) (auto simp: merge_item_def)

lemma fold_syncs:
  "distinct (jm_keys act) \<Longrightarrow> fold (merge_item create fr starts k) (map (\<lambda>(k, c). Sync k c) act) t =
     (case jm_get act k of None \<Rightarrow> t | Some c \<Rightarrow> item_result create fr starts (Sync k c) t)"
proof (induction act arbitrary: t)
  case (Cons kc act)
  obtain k1 c where kc: "kc = (k1, c)" by (cases kc)
  have d: "distinct (jm_keys act)" "k1 \<notin> fst ` set act" using Cons.prems kc by (simp_all add: jm_keys_def)
  then have "jm_get act k1 = None" by (simp add: jm_get_def map_of_eq_None_iff)
  then show ?case using Cons.IH [OF d(1)] kc by (simp add: merge_item_def jm_get_def)
qed simp

lemma active_map_snoc: "active_map (ts @ [t]) =
    (if truthy (get t ''companyId'') then jm_set (get t ''companyId'') t (active_map ts) else active_map ts)"
  by (simp add: active_map_def)

lemma length_jm_set: "length (jm_set k v m) \<le> Suc (length m)"
  unfolding jm_set_def by (induction m) auto

lemma active_map_ok: "distinct (jm_keys (active_map ts)) \<and> length (active_map ts) \<le> length ts"
proof (induction ts rule: rev_induct)
  case Nil
  then show ?case by (simp add: active_map_def jm_keys_def)
next
  case (snoc t ts)
  then show ?case using length_jm_set [of "get t ''companyId''" t "active_map ts"]
    by (simp add: active_map_snoc jm_distinct_set)
qed

text \<open>C26. A round of reconciliation that is not interrupted and in which no configuration's fingerprint throws (one with
dids that are truthy and not a list does, and ends the round) ends, after at most two awaits per tenant, with exactly the
runtimes the fetched list calls for: a tenant that is not in the list has none, one whose fingerprint is unchanged
keeps its own, and a new or changed one has a fresh running runtime with its configuration and fingerprint, unless
its factory or its start failed.\<close>

theorem round_reaches_target:
  assumes "sp_await s = Some (Fetching, ws)"
    and "list_all (\<lambda>(k, c). is_ret (compute_fingerprint fr c)) (active_map ts)"
    and "2 * (length (sp_tenants s) + length ts) \<le> n"
  shows "sp_await (drive create fr starts stops n (sup_step create fr s (Fetched (Ret (JArr ts))))) = None
    \<and> jm_get (sp_tenants (drive create fr starts stops n (sup_step create fr s (Fetched (Ret (JArr ts)))))) k
      = (case jm_get (active_map ts) k of
           None \<Rightarrow> None
         | Some c \<Rightarrow> item_result create fr starts (Sync k c) (jm_get (sp_tenants s) k))"
proof -
  let ?act = "active_map ts"
  let ?gone = "filter (\<lambda>k. k \<notin> set (jm_keys ?act)) (jm_keys (sp_tenants s))"
  let ?ws = "map Stop_Removed ?gone @ map (\<lambda>(k, c). Sync k c) ?act"
  have act: "distinct (jm_keys ?act)" "length ?act \<le> length ts" using active_map_ok by blast+
  have "length ?gone \<le> length (sp_tenants s)"
    using length_filter_le [of "\<lambda>k. k \<notin> set (jm_keys ?act)" "jm_keys (sp_tenants s)"] by (simp add: jm_keys_def)
  then have n: "2 * length ?ws \<le> n" using act(2) assms(3) by simp
  have ok: "list_all (work_ok fr) ?ws" using assms(2) by (auto simp: list_all_iff)
  have "fold (merge_item create fr starts k) ?ws (jm_get (sp_tenants s) k)
      = (case jm_get ?act k of None \<Rightarrow> None | Some c \<Rightarrow> item_result create fr starts (Sync k c) (jm_get (sp_tenants s) k))"
  proof (cases "jm_get ?act k")
    case None
    then have "k \<notin> set (jm_keys ?act)" by (simp add: jm_get_def jm_keys_def map_of_eq_None_iff)
    moreover have "jm_get (sp_tenants s) k = None" if "k \<notin> set (jm_keys (sp_tenants s))"
      using that by (simp add: jm_get_def jm_keys_def map_of_eq_None_iff)
    ultimately show ?thesis using None by (auto simp: fold_stops fold_syncs [OF act(1)])
  next
    case (Some c)
    then have "k \<in> set (jm_keys ?act)" by (force simp: jm_get_def jm_keys_def dest: map_of_SomeD)
    then show ?thesis using Some by (simp add: fold_stops fold_syncs [OF act(1)])
  qed
  moreover have "sup_step create fr s (Fetched (Ret (JArr ts))) = advance create fr ?ws s"
    using assms(1) by (simp add: fetched_def Let_def)
  ultimately show ?thesis using drive_advance [OF n ok, of create starts stops s] by simp
qed

theorem round_reaches_target_witness:
  "let s = run (sup_step (\<lambda>_. Ret ()) (\<lambda>_. [])) new_sup
        [Start_Supervisor, Fetched (Ret (JArr [JObj [(''companyId'', JStr ''a'')], JObj [(''companyId'', JStr ''b'')]])),
         Round_Answer (Ret ()), Round_Answer (Ret ()), Timer_Fires];
       s' = drive (\<lambda>_. Ret ()) (\<lambda>_. []) (\<lambda>_. Ret ()) (\<lambda>_. Throw ''stuck'') 6
         (sup_step (\<lambda>_. Ret ()) (\<lambda>_. []) s (Fetched (Ret (JArr [JObj [(''companyId'', JStr ''b''), (''appId'', JNum 3)]]))))
   in jm_keys (sp_tenants s) = [JStr ''a'', JStr ''b''] \<and> sp_await s' = None
     \<and> map_option tn_fingerprint (jm_get (sp_tenants s') (JStr ''b'')) = Some ''b|||3||||''"
proof -
  let ?s = "run (sup_step (\<lambda>_. Ret ()) (\<lambda>_. [])) new_sup
        [Start_Supervisor, Fetched (Ret (JArr [JObj [(''companyId'', JStr ''a'')], JObj [(''companyId'', JStr ''b'')]])),
         Round_Answer (Ret ()), Round_Answer (Ret ()), Timer_Fires]"
  let ?ts = "[JObj [(''companyId'', JStr ''b''), (''appId'', JNum 3)]]"
  have s: "sp_await ?s = Some (Fetching, [])" "length (sp_tenants ?s) = 2"
    "jm_keys (sp_tenants ?s) = [JStr ''a'', JStr ''b'']" by code_simp+
  have ok: "list_all (\<lambda>(k, c). is_ret (compute_fingerprint (\<lambda>_. []) c)) (active_map ?ts)" by code_simp
  have n: "2 * (length (sp_tenants ?s) + length ?ts) \<le> 6" using s(2) by simp
  have t: "map_option tn_fingerprint (case jm_get (active_map ?ts) (JStr ''b'') of None \<Rightarrow> None
      | Some c \<Rightarrow> item_result (\<lambda>_. Ret ()) (\<lambda>_. []) (\<lambda>_. Ret ()) (Sync (JStr ''b'') c) (jm_get (sp_tenants ?s) (JStr ''b'')))
    = Some ''b|||3||||''" by code_simp
  from round_reaches_target [OF s(1) ok n, of "\<lambda>_. Ret ()" "\<lambda>_. Ret ()" "\<lambda>_. Throw ''stuck''" "JStr ''b''"] s(3) t
  show ?thesis by (simp only: Let_def)
qed

end
