(* ===== verification/Mobile_Api.thy ===== *)
theory Mobile_Api
  imports Prelude
begin

text \<open>
  \<open>mobile/src/services/api.ts\<close>: the HTTP client of the mobile app. An operation is a function of the service's
  configuration and of the network, and yields its result and the requests it sent. The network answers a
  request with a status and a body that \<open>json()\<close> parses or rejects, or rejects the request itself (an abort by
  the timeout included). URL parsing, percent encoding and the formatting of dates are parameters.
\<close>

section \<open>Requests\<close>

record mreq =
  mr_method :: string
  mr_url :: string
  mr_headers :: "(string \<times> string) list"
  mr_body :: "jsval option"
  mr_timeout :: nat

type_synonym net = "mreq \<Rightarrow> reply ext"
type_synonym 'a call = "'a \<times> mreq list"

text \<open>The property of a value that may be null.\<close>

definition prop_of :: "jsval \<Rightarrow> string \<Rightarrow> jsval ext" where
  "prop_of v k = (if nullish v then Throw ''Cannot read properties'' else Ret (get v k))"

text \<open>A loop over endpoints: the first one whose answer yields a result ends it; errors are swallowed.\<close>

fun try_endpoints :: "net \<Rightarrow> (reply \<Rightarrow> 'a option ext) \<Rightarrow> mreq list \<Rightarrow> 'a option call" where
  "try_endpoints net h [] = (None, [])"
| "try_endpoints net h (q # qs) =
     (case (case net q of Throw _ \<Rightarrow> None | Ret r \<Rightarrow> (case h r of Ret (Some x) \<Rightarrow> Some x | _ \<Rightarrow> None)) of
        Some x \<Rightarrow> (Some x, [q])
      | None \<Rightarrow> (case try_endpoints net h qs of (x, sent) \<Rightarrow> (x, q # sent)))"

definition or_else :: "'a \<Rightarrow> 'a option call \<Rightarrow> 'a call" where
  "or_else d c = (case fst c of Some x \<Rightarrow> x | None \<Rightarrow> d, snd c)"

section \<open>The service\<close>

record api =
  ap_backendUrl :: string
  ap_tokenEndpoint :: string
  ap_livekitUrl :: string

record web =
  wb_origin :: "string \<Rightarrow> string option"   \<comment> \<open>\<open>new URL(s).origin\<close>\<close>
  wb_window_origin :: "string option"      \<comment> \<open>\<open>window.location.origin\<close>, where there is one\<close>
  wb_with_params :: "string \<Rightarrow> (string \<times> string) list \<Rightarrow> string option"
  wb_encode :: "string \<Rightarrow> string"          \<comment> \<open>\<open>encodeURIComponent\<close>\<close>
  wb_frac :: "rat \<Rightarrow> string"

definition new_api :: "(string \<Rightarrow> string option) \<Rightarrow> api" where
  "new_api env =
     (let appUrl = strip_slashes (get_env env ''EXPO_PUBLIC_APP_URL''
                     (get_env env ''EXPO_PUBLIC_WEB_URL'' ''http://localhost:3000''))
      in \<lparr>ap_backendUrl = strip_slashes (get_env env ''EXPO_PUBLIC_BACKEND_URL'' ''http://localhost:8000''),
          ap_tokenEndpoint = get_env env ''EXPO_PUBLIC_LIVEKIT_TOKEN_ENDPOINT'' (appUrl @ ''/api/livekit/token''),
          ap_livekitUrl = get_env env ''EXPO_PUBLIC_LIVEKIT_URL'' ''wss://ai-voice-assistant-vu6rr406.livekit.cloud''\<rparr>)"

text \<open>\<open>replace(/\/api\/livekit(?:\/token|-token).*$/, '')\<close>: the rest of the string has no line break.\<close>

definition is_token_path :: "string \<Rightarrow> bool" where
  "is_token_path s \<longleftrightarrow> (starts_with ''/api/livekit/token'' s \<or> starts_with ''/api/livekit-token'' s)
     \<and> list_all (\<lambda>c. c \<noteq> CHR 0x0A \<and> c \<noteq> CHR 0x0D) s"

fun cut_token_path :: "string \<Rightarrow> string" where
  "cut_token_path [] = []"
| "cut_token_path (c # cs) = (if is_token_path (c # cs) then [] else c # cut_token_path cs)"

definition web_base :: "api \<Rightarrow> string" where
  "web_base a = (if ap_tokenEndpoint a \<noteq> [] then cut_token_path (ap_tokenEndpoint a) else ap_backendUrl a)"

definition set_backend_url :: "string \<Rightarrow> api \<Rightarrow> api" where
  "set_backend_url u a = a\<lparr>ap_backendUrl := strip_slashes u\<rparr>"

definition set_token_endpoint :: "string \<Rightarrow> api \<Rightarrow> api" where
  "set_token_endpoint u a = a\<lparr>ap_tokenEndpoint := u\<rparr>"

definition set_livekit_url :: "string \<Rightarrow> api \<Rightarrow> api" where
  "set_livekit_url u a = a\<lparr>ap_livekitUrl := u\<rparr>"

definition request_origin :: "web \<Rightarrow> string \<Rightarrow> string" where
  "request_origin w base = (case wb_origin w base of Some s \<Rightarrow> s | None \<Rightarrow> base)"

definition callback_url :: "web \<Rightarrow> string" where
  "callback_url w = (case wb_window_origin w of Some s \<Rightarrow> if s = [] then ''/'' else s | None \<Rightarrow> ''/'')"

definition plain_get :: "string \<Rightarrow> nat \<Rightarrow> mreq" where
  "plain_get u t = \<lparr>mr_method = ''GET'', mr_url = u, mr_headers = [(''Accept'', ''application/json'')],
     mr_body = None, mr_timeout = t\<rparr>"

definition origin_req :: "web \<Rightarrow> api \<Rightarrow> string \<Rightarrow> string \<Rightarrow> nat \<Rightarrow> mreq" where
  "origin_req w a m u t = \<lparr>mr_method = m, mr_url = u,
     mr_headers = [(''Accept'', ''application/json''), (''Origin'', request_origin w (web_base a))],
     mr_body = None, mr_timeout = t\<rparr>"

definition json_req :: "web \<Rightarrow> api \<Rightarrow> string \<Rightarrow> string \<Rightarrow> jsval \<Rightarrow> nat \<Rightarrow> mreq" where
  "json_req w a m u body t = \<lparr>mr_method = m, mr_url = u,
     mr_headers = [(''Content-Type'', ''application/json''), (''Accept'', ''application/json''),
                   (''Origin'', request_origin w (web_base a))],
     mr_body = Some body, mr_timeout = t\<rparr>"

section \<open>Authentication\<close>

definition not_authenticated :: jsval where
  "not_authenticated = JObj [(''authenticated'', JBool False)]"

definition session_of :: "reply \<Rightarrow> jsval" where
  "session_of r =
     (if \<not> reply_ok r then not_authenticated
      else let data = json_or JNull r; user = js_or (get data ''user'') (get (get data ''session'') ''user'') in
        if \<not> truthy user then not_authenticated
        else JObj [(''authenticated'', JBool True),
               (''user'', JObj [(''id'', get user ''id''), (''email'', get user ''email''), (''name'', get user ''name'')]),
               (''session'', get data ''session'')])"

definition check_session :: "api \<Rightarrow> net \<Rightarrow> jsval call" where
  "check_session a net =
     (let q = plain_get (web_base a @ ''/api/auth/get-session'') 5000 in
      (case net q of Throw _ \<Rightarrow> not_authenticated | Ret r \<Rightarrow> session_of r, [q]))"

definition failure :: "jsval \<Rightarrow> jsval" where
  "failure msg = JObj [(''success'', JBool False), (''error'', msg)]"

definition success :: jsval where
  "success = JObj [(''success'', JBool True)]"

text \<open>The part sign-in and sign-up share; \<open>payload.message\<close> of a null payload throws into the outer catch.\<close>

definition auth_answer :: "string \<Rightarrow> string \<Rightarrow> reply ext \<Rightarrow> jsval" where
  "auth_answer refused offline res =
     (case res of
        Throw m \<Rightarrow> failure (js_or (JStr m) (JStr offline))
      | Ret r \<Rightarrow>
          if reply_ok r then success
          else let payload = json_or (JObj []) r in
            (case prop_of payload ''message'' of
               Throw m \<Rightarrow> failure (js_or (JStr m) (JStr offline))
             | Ret m \<Rightarrow> failure (js_or m (js_or (get payload ''error'') (JStr refused)))))"

definition sign_in_email :: "web \<Rightarrow> api \<Rightarrow> string \<Rightarrow> string \<Rightarrow> net \<Rightarrow> jsval call" where
  "sign_in_email w a email password net =
     (let q = json_req w a ''POST'' (web_base a @ ''/api/auth/sign-in/email'')
        (JObj [(''email'', JStr email), (''password'', JStr password), (''callbackURL'', JStr (callback_url w))]) 8000
      in (auth_answer ''Authentication failed. Please verify your credentials.''
            ''Network connection failed during sign-in'' (net q), [q]))"

definition sign_up_email :: "web \<Rightarrow> api \<Rightarrow> string \<Rightarrow> string \<Rightarrow> string \<Rightarrow> net \<Rightarrow> jsval call" where
  "sign_up_email w a email password name net =
     (let resolved = str_or name (takeWhile (\<lambda>c. c \<noteq> CHR ''@'') email);
          q = json_req w a ''POST'' (web_base a @ ''/api/auth/sign-up/email'')
            (JObj [(''email'', JStr email), (''password'', JStr password), (''name'', JStr resolved),
                   (''callbackURL'', JStr (callback_url w))]) 8000
      in (auth_answer ''Account creation failed.'' ''Network connection failed during sign-up'' (net q), [q]))"

definition google_sign_in_url :: "web \<Rightarrow> api \<Rightarrow> net \<Rightarrow> jsval ext call" where
  "google_sign_in_url w a net =
     (let q = json_req w a ''POST'' (web_base a @ ''/api/auth/sign-in/social'')
        (JObj [(''provider'', JStr ''google''), (''callbackURL'', JStr (callback_url w))]) 6000
      in (case net q of
            Throw m \<Rightarrow> Throw m
          | Ret r \<Rightarrow> let payload = json_or (JObj []) r in
              if nullish payload then Throw ''Cannot read properties''
              else if \<not> reply_ok r \<or> \<not> truthy (get payload ''url'')
              then Throw (js_string (wb_frac w) (js_or (get payload ''message'') (JStr ''Google sign-in is unavailable.'')))
              else Ret (get payload ''url''), [q]))"

definition sign_out :: "web \<Rightarrow> api \<Rightarrow> net \<Rightarrow> jsval call" where
  "sign_out w a net =
     (let q = json_req w a ''POST'' (web_base a @ ''/api/auth/sign-out'') (JObj []) 5000
      in (case net q of
            Throw m \<Rightarrow> failure (js_or (JStr m) (JStr ''Network error during sign out''))
          | Ret r \<Rightarrow> if reply_ok r then success else failure (JStr ''Sign out failed''), [q]))"

section \<open>Diagnostics, tokens, tools\<close>

text \<open>The latency is the parameter \<open>ms\<close>.\<close>

definition check_backend_health :: "api \<Rightarrow> int \<Rightarrow> net \<Rightarrow> jsval call" where
  "check_backend_health a ms net =
     (let q = plain_get (ap_backendUrl a @ ''/health'') 3500;
          down = (\<lambda>st. JObj [(''status'', JStr st), (''latencyMs'', JNum ms)])
      in (case net q of
            Throw _ \<Rightarrow> down ''unreachable''
          | Ret r \<Rightarrow>
              if \<not> reply_ok r then down ''unhealthy''
              else (case rp_json r of
                  Throw _ \<Rightarrow> down ''unreachable''
                | Ret data \<Rightarrow> if nullish data then down ''unreachable''
                    else JObj [(''status'', JStr (if get data ''status'' = JStr ''healthy'' then ''healthy'' else ''unhealthy'')),
                           (''service'', get data ''service''), (''version'', get data ''version''),
                           (''database'', get data ''database''), (''latencyMs'', JNum ms)]), [q]))"

definition fetch_livekit_token :: "web \<Rightarrow> api \<Rightarrow> string \<Rightarrow> string \<Rightarrow> net \<Rightarrow> jsval ext call" where
  "fetch_livekit_token w a room identity net =
     (case wb_with_params w (ap_tokenEndpoint a)
             ([(''room'', room)] @ (if identity = [] then [] else [(''identity'', identity)])) of
        None \<Rightarrow> (Throw ''Invalid URL'', [])
      | Some u \<Rightarrow>
          let q = plain_get u 5000 in
          (case net q of
             Throw m \<Rightarrow> Throw m
           | Ret r \<Rightarrow>
               if \<not> reply_ok r then Throw (''Failed to fetch LiveKit token: HTTP '' @ int_string (rp_status r))
               else (case rp_json r of
                   Throw m \<Rightarrow> Throw m
                 | Ret data \<Rightarrow> if nullish data then Throw ''Cannot read properties''
                     else Ret (JObj [(''token'', get data ''token''),
                       (''wsUrl'', js_or (get data ''ws_url'') (js_or (get data ''wsUrl'') (JStr (ap_livekitUrl a)))),
                       (''room'', js_or (get data ''room'') (JStr room)),
                       (''identity'', js_or (get data ''identity'') (js_or (JStr identity) (JStr ''mobile-user'')))])), [q]))"

definition tool_error :: "jsval \<Rightarrow> jsval" where
  "tool_error msg = JObj [(''status'', JStr ''error''), (''error_message'', msg)]"

definition execute_tool :: "web \<Rightarrow> api \<Rightarrow> string \<Rightarrow> jsval \<Rightarrow> net \<Rightarrow> jsval call" where
  "execute_tool w a tool args net =
     (let q = json_req w a ''POST'' (web_base a @ ''/api/tools/execute'')
        (JObj [(''tool_name'', JStr tool), (''parameters'', args)]) 8000;
          failed = (\<lambda>m. tool_error (js_or (JStr m) (JStr ''Tool execution network failure'')))
      in (case net q of
            Throw m \<Rightarrow> failed m
          | Ret r \<Rightarrow> if \<not> reply_ok r then tool_error (JStr (''Server returned HTTP '' @ int_string (rp_status r)))
                    else (case rp_json r of Throw m \<Rightarrow> failed m | Ret v \<Rightarrow> v), [q]))"

section \<open>Google account\<close>

text \<open>A handler that reads the body of an ok answer.\<close>

definition on_ok :: "(jsval \<Rightarrow> 'a option ext) \<Rightarrow> reply \<Rightarrow> 'a option ext" where
  "on_ok h r = (if reply_ok r then (case rp_json r of Throw m \<Rightarrow> Throw m | Ret v \<Rightarrow> h v) else Ret None)"

definition needs_object :: "(jsval \<Rightarrow> 'a option) \<Rightarrow> jsval \<Rightarrow> 'a option ext" where
  "needs_object f v = (if nullish v then Throw ''Cannot read properties'' else Ret (f v))"

definition google_auth_status :: "web \<Rightarrow> api \<Rightarrow> net \<Rightarrow> jsval call" where
  "google_auth_status w a net = or_else (JObj [(''connected'', JBool False)])
     (try_endpoints net (on_ok (needs_object (\<lambda>d. Some (JObj
        [(''connected'', JBool (truthy (get d ''connected''))),
         (''provider'', js_or (get d ''provider'') (JStr ''google'')),
         (''google_email'', js_or (get d ''google_email'') (get d ''email'')),
         (''email'', js_or (get d ''email'') (get d ''google_email'')), (''expires_at'', get d ''expires_at''),
         (''is_expired'', get d ''is_expired''), (''can_refresh'', get d ''can_refresh''), (''scope'', get d ''scope'')]))))
      [origin_req w a ''GET'' (web_base a @ ''/auth/google/status'') 4000])"

definition google_auth_url :: "web \<Rightarrow> api \<Rightarrow> net \<Rightarrow> jsval ext call" where
  "google_auth_url w a net =
     (case try_endpoints net (on_ok (needs_object (\<lambda>d. if truthy (get d ''auth_url'') then Some (get d ''auth_url'') else None)))
             [origin_req w a ''GET'' (web_base a @ ''/auth/google/url'') 5000] of
        (Some u, sent) \<Rightarrow> (Ret u, sent)
      | (None, sent) \<Rightarrow> (Throw ''Google authorization URL was not available.'', sent))"

definition disconnect_google_auth :: "web \<Rightarrow> api \<Rightarrow> net \<Rightarrow> jsval call" where
  "disconnect_google_auth w a net = or_else (JObj [(''status'', JStr ''error'')])
     (try_endpoints net (on_ok (needs_object (\<lambda>d. Some (JObj [(''status'', js_or (get d ''status'') (JStr ''disconnected''))]))))
      [origin_req w a ''POST'' (web_base a @ ''/auth/google/disconnect'') 5000])"

section \<open>Company profile and assistant configuration\<close>

definition data_if_any :: "jsval \<Rightarrow> jsval option" where
  "data_if_any d = (if truthy (get d ''data'') then Some (get d ''data'') else None)"

definition get_company_profile_mobile :: "api \<Rightarrow> net \<Rightarrow> jsval call" where
  "get_company_profile_mobile a net = or_else JNull
     (try_endpoints net (on_ok (needs_object data_if_any)) [plain_get (web_base a @ ''/api/company-profile'') 4000])"

definition message_failure :: "string \<Rightarrow> jsval" where
  "message_failure m = JObj [(''success'', JBool False), (''message'', JStr m)]"

text \<open>A save that only looks at the status.\<close>

definition save_handler :: "reply \<Rightarrow> jsval option ext" where
  "save_handler r = Ret (if reply_ok r then Some success else None)"

definition save_company_profile :: "web \<Rightarrow> api \<Rightarrow> jsval \<Rightarrow> net \<Rightarrow> jsval call" where
  "save_company_profile w a profile net = or_else (message_failure ''Could not reach server to save company profile'')
     (try_endpoints net save_handler [json_req w a ''POST'' (web_base a @ ''/api/company-profile'') profile 5000])"

definition read_capability :: "jsval \<Rightarrow> string \<Rightarrow> bool \<Rightarrow> jsval" where
  "read_capability raw k d =
     JBool (truthy (js_coalesce (get (get raw k) ''enabled'') (js_coalesce (get raw k) (JBool d))))"

definition read_capabilities :: "jsval \<Rightarrow> jsval" where
  "read_capabilities raw =
     JObj [(''company_receptionist'', read_capability raw ''company_receptionist'' False),
           (''company_faq'', read_capability raw ''company_faq'' False),
           (''google_calendar'', read_capability raw ''google_calendar'' True)]"

definition read_config :: "jsval \<Rightarrow> jsval" where
  "read_config data =
     JObj (js_merge (spread data) [(''capabilities'', read_capabilities (js_or (get data ''capabilities'') (JObj [])))])"

definition get_assistant_config_mobile :: "api \<Rightarrow> net \<Rightarrow> jsval call" where
  "get_assistant_config_mobile a net = or_else JNull
     (try_endpoints net (on_ok (needs_object (\<lambda>d. map_option read_config (data_if_any d))))
       [plain_get (web_base a @ ''/api/assistant-config'') 4000])"

definition format_capabilities :: "jsval \<Rightarrow> jsval" where
  "format_capabilities c =
     JObj (map (\<lambda>k. (k, JObj [(''enabled'', JBool (truthy (get c k)))]))
       [''company_receptionist'', ''company_faq'', ''google_calendar''])"

definition config_payload :: "jsval \<Rightarrow> bool \<Rightarrow> jsval" where
  "config_payload config deploy =
     JObj (js_merge (spread config)
       [(''capabilities'', format_capabilities (get config ''capabilities'')), (''is_deployed'', JBool deploy)])"

text \<open>The validation request; its answer only ends the loop over validators.\<close>

definition validate_handler :: "reply \<Rightarrow> unit option ext" where
  "validate_handler r =
     Ret (if reply_ok r \<and> get (json_or JNull r) ''status'' = JStr ''valid'' then Some () else None)"

definition save_assistant_config :: "web \<Rightarrow> api \<Rightarrow> jsval \<Rightarrow> bool \<Rightarrow> net \<Rightarrow> jsval ext call" where
  "save_assistant_config w a config deploy net =
     (if nullish (get config ''capabilities'') then (Throw ''Cannot read properties'', [])
      else
        let payload = config_payload config deploy;
            validated = (if deploy then snd (try_endpoints net validate_handler
              [json_req w a ''POST'' (web_base a @ ''/api/assistant-config/validate'') payload 5000]) else []);
            saved = or_else (message_failure ''Network error or backend unavailable. (Local changes preserved)'')
              (try_endpoints net (\<lambda>r. Ret (if reply_ok r then Some (JObj [(''success'', JBool True),
                   (''version'', get (get (json_or JNull r) ''data'') ''profile_version''),
                   (''message'', JStr (if deploy then ''Assistant profile published successfully!''
                                       else ''Assistant draft saved.''))]) else None))
               [json_req w a ''POST'' (web_base a @ ''/api/assistant-config'') payload 6000])
        in (Ret (fst saved), validated @ snd saved))"

definition array_if_any :: "jsval \<Rightarrow> jsval option" where
  "array_if_any d = (case get d ''data'' of JArr xs \<Rightarrow> Some (JArr xs) | _ \<Rightarrow> None)"

definition get_assistant_versions :: "api \<Rightarrow> net \<Rightarrow> jsval call" where
  "get_assistant_versions a net = or_else (JArr [])
     (try_endpoints net (on_ok (needs_object array_if_any)) [plain_get (web_base a @ ''/api/assistant-config/versions'') 4000])"

section \<open>Telephony\<close>

definition threecx_status :: "api \<Rightarrow> net \<Rightarrow> jsval call" where
  "threecx_status a net = or_else (JObj [(''configured'', JBool False), (''state'', JStr ''unconfigured'')])
     (try_endpoints net (on_ok (\<lambda>v. Ret (Some v))) [plain_get (web_base a @ ''/api/integrations/3cx'') 4000])"

definition threecx_handler :: "reply \<Rightarrow> jsval option ext" where
  "threecx_handler r =
     Ret (Some (if reply_ok r then success
       else let failure = json_or JNull r in
         JObj [(''success'', JBool False),
               (''message'', js_or (get failure ''detail'') (js_or (get failure ''error_message'') (JStr ''3CX connection test failed'')))]))"

definition save_threecx_config :: "web \<Rightarrow> api \<Rightarrow> jsval \<Rightarrow> net \<Rightarrow> jsval call" where
  "save_threecx_config w a payload net = or_else (message_failure ''Could not reach the server to save the 3CX configuration.'')
     (try_endpoints net threecx_handler [json_req w a ''PUT'' (web_base a @ ''/api/integrations/3cx'') payload 6000])"

definition disconnect_threecx :: "web \<Rightarrow> api \<Rightarrow> net \<Rightarrow> jsval call" where
  "disconnect_threecx w a net = or_else (message_failure ''Could not reach the server to disconnect 3CX.'')
     (try_endpoints net save_handler [origin_req w a ''DELETE'' (web_base a @ ''/api/integrations/3cx'') 5000])"

text \<open>Dates: \<open>new Date(v)\<close> as milliseconds (\<open>None\<close> is an invalid date), the current time, and its texts.\<close>

record calendar =
  cl_parse :: "jsval \<Rightarrow> int option"
  cl_now :: int
  cl_time :: "int option \<Rightarrow> string"
  cl_day :: "int option \<Rightarrow> string"      \<comment> \<open>\<open>toDateString\<close>\<close>
  cl_label :: "int option \<Rightarrow> string"    \<comment> \<open>\<open>toLocaleDateString\<close>\<close>
  cl_iso :: "int \<Rightarrow> string"

definition call_start :: "calendar \<Rightarrow> jsval \<Rightarrow> int option" where
  "call_start cl c = (if truthy (get c ''createdAt'') then cl_parse cl (get c ''createdAt'') else Some (cl_now cl))"

definition call_end :: "calendar \<Rightarrow> jsval \<Rightarrow> int option" where
  "call_end cl c =
     (if truthy (get c ''endedAt'') then cl_parse cl (get c ''endedAt'')
      else if truthy (get c ''updatedAt'') then cl_parse cl (get c ''updatedAt'') else None)"

definition duration_seconds :: "int option \<Rightarrow> int option \<Rightarrow> int" where
  "duration_seconds st en =
     (case (st, en) of (Some s, Some e) \<Rightarrow> max 0 ((e - s) div 1000) | _ \<Rightarrow> 0)"

definition duration_text :: "int \<Rightarrow> string" where
  "duration_text d =
     (if d > 0 then int_string (d div 60) @ ''m '' @ pad2 (int_string (d mod 60)) @ ''s'' else ''0m 00s'')"

definition call_status :: "jsval \<Rightarrow> string" where
  "call_status st =
     (if st = JStr ''ended'' \<or> st = JStr ''completed'' then ''Ended''
      else if st = JStr ''failed'' then ''Failed''
      else if st = JStr ''ringing'' then ''Ringing'' else ''Active'')"

definition time_id :: "int option \<Rightarrow> string" where
  "time_id t = (case t of Some n \<Rightarrow> int_string n | None \<Rightarrow> ''NaN'')"

definition dash :: jsval where
  "dash = JStr [CHR 0x97]"   \<comment> \<open>the em dash, in the code page of the model\<close>

definition call_record :: "calendar \<Rightarrow> nat \<Rightarrow> jsval \<Rightarrow> jsval ext" where
  "call_record cl i c =
     (if nullish c then Throw ''Cannot read properties''
      else let st = call_start cl c; d = duration_seconds st (call_end cl c) in
        Ret (JObj [(''id'', js_or (get c ''id'') (JStr (''call_'' @ decimal i @ ''_'' @ time_id st))),
          (''did'', js_or (get c ''did'') dash),
          (''direction'', JStr (if get c ''direction'' = JStr ''outbound'' then ''outbound'' else ''inbound'')),
          (''state'', js_or (get c ''state'') (JStr ''ended'')),
          (''status'', JStr (call_status (get c ''state''))), (''duration'', JStr (duration_text d)),
          (''durationSeconds'', JNum d),
          (''dateTime'', JStr (if cl_day cl (Some (cl_now cl)) = cl_day cl st then ''Today, '' @ cl_time cl st
                               else cl_label cl st @ '', '' @ cl_time cl st)),
          (''createdAt'', js_or (get c ''createdAt'') (JStr (cl_iso cl (cl_now cl)))),
          (''updatedAt'', js_or (get c ''updatedAt'') (JStr (cl_iso cl (cl_now cl)))),
          (''endedAt'', js_or (get c ''endedAt'') JNull), (''pbxHost'', js_or (get c ''pbxHost'') dash),
          (''routePointDn'', js_or (get c ''routePointDn'') dash),
          (''transcriptId'', js_or (get c ''transcriptId'') (JStr []))]))"

fun map_ext :: "('a \<Rightarrow> 'b ext) \<Rightarrow> 'a list \<Rightarrow> 'b list ext" where
  "map_ext f [] = Ret []"
| "map_ext f (x # xs) =
     (case f x of Throw m \<Rightarrow> Throw m
      | Ret y \<Rightarrow> (case map_ext f xs of Throw m \<Rightarrow> Throw m | Ret ys \<Rightarrow> Ret (y # ys)))"

definition call_history :: "web \<Rightarrow> api \<Rightarrow> calendar \<Rightarrow> nat \<Rightarrow> net \<Rightarrow> jsval list call" where
  "call_history w a cl limit net = or_else []
     (try_endpoints net (on_ok (\<lambda>j. case prop_of j ''calls'' of
          Throw m \<Rightarrow> Throw m
        | Ret cs \<Rightarrow> (let raw = array_or cs [] in
            case map_ext (\<lambda>(i, c). call_record cl i c) (zip [0..<length raw] raw) of
              Throw m \<Rightarrow> Throw m | Ret rs \<Rightarrow> Ret (Some rs))))
      [origin_req w a ''GET'' (web_base a @ ''/api/integrations/3cx/calls?limit='' @ decimal limit) 5000])"

section \<open>Tasks\<close>

definition raw_tasks :: "jsval \<Rightarrow> jsval list ext" where
  "raw_tasks j =
     (case j of
        JArr xs \<Rightarrow> Ret xs
      | _ \<Rightarrow> if nullish j then Throw ''Cannot read properties''
             else Ret (array_or (get j ''tasks'') (array_or (get j ''data'') [])))"

definition task_record :: "jsval \<Rightarrow> jsval ext" where
  "task_record t =
     (if nullish t then Throw ''Cannot read properties''
      else Ret (JObj [(''id'', js_or (get t ''id'') (get t ''task_id'')), (''title'', js_or (get t ''title'') (JStr [])),
        (''tool_name'', js_or (get t ''tool_name'') (JStr [])), (''status'', js_or (get t ''status'') (JStr ''pending'')),
        (''output_result'', get t ''output_result''), (''error_message'', get t ''error_message''),
        (''created_at'', get t ''created_at''), (''updated_at'', get t ''updated_at'')]))"

definition get_tasks :: "api \<Rightarrow> nat \<Rightarrow> net \<Rightarrow> jsval list call" where
  "get_tasks a limit net = or_else []
     (try_endpoints net (on_ok (\<lambda>j. case raw_tasks j of
          Throw m \<Rightarrow> Throw m
        | Ret ts \<Rightarrow> (case map_ext task_record ts of Throw m \<Rightarrow> Throw m | Ret rs \<Rightarrow> Ret (Some rs))))
      [plain_get (web_base a @ ''/api/tasks?limit='' @ decimal limit) 4000])"

definition cancel_task :: "web \<Rightarrow> api \<Rightarrow> string \<Rightarrow> net \<Rightarrow> bool call" where
  "cancel_task w a taskId net = or_else False
     (try_endpoints net (\<lambda>r. Ret (if reply_ok r then Some True else None))
      [origin_req w a ''POST'' (web_base a @ ''/api/tasks/'' @ wb_encode w taskId) 5000])"

section \<open>Where requests go\<close>

text \<open>Every operation of the service that uses the network.\<close>

datatype mobile_op =
    Check_Session | Sign_In string string | Sign_Up string string string | Google_Sign_In_Url | Sign_Out
  | Backend_Health int | Livekit_Token string string | Execute_Tool string jsval
  | Google_Auth_Status | Google_Auth_Url | Disconnect_Google
  | Get_Profile | Save_Profile jsval | Get_Config | Save_Config jsval bool | Get_Versions
  | Threecx_Status | Save_Threecx jsval | Disconnect_Threecx | Call_History nat | Get_Tasks nat | Cancel_Task string

fun op_requests :: "web \<Rightarrow> api \<Rightarrow> calendar \<Rightarrow> net \<Rightarrow> mobile_op \<Rightarrow> mreq list" where
  "op_requests w a cl net Check_Session = snd (check_session a net)"
| "op_requests w a cl net (Sign_In e p) = snd (sign_in_email w a e p net)"
| "op_requests w a cl net (Sign_Up e p n) = snd (sign_up_email w a e p n net)"
| "op_requests w a cl net Google_Sign_In_Url = snd (google_sign_in_url w a net)"
| "op_requests w a cl net Sign_Out = snd (sign_out w a net)"
| "op_requests w a cl net (Backend_Health ms) = snd (check_backend_health a ms net)"
| "op_requests w a cl net (Livekit_Token room i) = snd (fetch_livekit_token w a room i net)"
| "op_requests w a cl net (Execute_Tool t ps) = snd (execute_tool w a t ps net)"
| "op_requests w a cl net Google_Auth_Status = snd (google_auth_status w a net)"
| "op_requests w a cl net Google_Auth_Url = snd (google_auth_url w a net)"
| "op_requests w a cl net Disconnect_Google = snd (disconnect_google_auth w a net)"
| "op_requests w a cl net Get_Profile = snd (get_company_profile_mobile a net)"
| "op_requests w a cl net (Save_Profile p) = snd (save_company_profile w a p net)"
| "op_requests w a cl net Get_Config = snd (get_assistant_config_mobile a net)"
| "op_requests w a cl net (Save_Config c d) = snd (save_assistant_config w a c d net)"
| "op_requests w a cl net Get_Versions = snd (get_assistant_versions a net)"
| "op_requests w a cl net Threecx_Status = snd (threecx_status a net)"
| "op_requests w a cl net (Save_Threecx p) = snd (save_threecx_config w a p net)"
| "op_requests w a cl net Disconnect_Threecx = snd (disconnect_threecx w a net)"
| "op_requests w a cl net (Call_History n) = snd (call_history w a cl n net)"
| "op_requests w a cl net (Get_Tasks n) = snd (get_tasks a n net)"
| "op_requests w a cl net (Cancel_Task t) = snd (cancel_task w a t net)"

definition request_placed :: "web \<Rightarrow> api \<Rightarrow> mreq \<Rightarrow> bool" where
  "request_placed w a q \<longleftrightarrow>
     (starts_with (web_base a) (mr_url q) \<and>
        (mr_method q = ''GET'' \<or> map_of (mr_headers q) ''Origin'' = Some (request_origin w (web_base a))))
     \<or> q = plain_get (ap_backendUrl a @ ''/health'') 3500
     \<or> (\<exists>ps u. wb_with_params w (ap_tokenEndpoint a) ps = Some u \<and> q = plain_get u 5000)"

lemma starts_with_append: "starts_with p (p @ s)"
  by (simp add: starts_with_def)

lemma placed_simps [simp]:
  "request_placed w a (plain_get (web_base a @ u) t)"
  "request_placed w a (origin_req w a m (web_base a @ u) t)"
  "request_placed w a (json_req w a m (web_base a @ u) b t)"
  "request_placed w a (plain_get (ap_backendUrl a @ ''/health'') 3500)"
  by (simp_all add: request_placed_def plain_get_def origin_req_def json_req_def starts_with_append)

lemma try_endpoints_sent: "list_all P qs \<Longrightarrow> list_all P (snd (try_endpoints net h qs))"
  by (induction qs) (auto split: option.split prod.split)

lemma or_else_snd [simp]: "snd (or_else d c) = snd c"
  by (simp add: or_else_def)

text \<open>The credentials of the app only travel to the configured servers: every request an operation sends goes to the
web base, except the health probe of the backend and the token request of the configured endpoint, which are plain
reads; and every request that is not a read names the origin of the web base.\<close>

theorem mobile_requests_stay_home: "list_all (request_placed w a) (op_requests w a cl net oper)"
proof -
  have t: "request_placed w a (plain_get u 5000)" if "wb_with_params w (ap_tokenEndpoint a) ps = Some u" for ps u
    using that unfolding request_placed_def by blast
  have g: "list_all (request_placed w a) (snd (google_auth_url w a net))"
    using try_endpoints_sent [of "request_placed w a" "[origin_req w a ''GET'' (web_base a @ ''/auth/google/url'') 5000]"]
    by (auto simp: google_auth_url_def split: prod.splits option.splits)
  show ?thesis
    by (cases oper)
       (auto simp: check_session_def sign_in_email_def sign_up_email_def google_sign_in_url_def sign_out_def
          check_backend_health_def execute_tool_def google_auth_status_def disconnect_google_auth_def
          get_company_profile_mobile_def save_company_profile_def get_assistant_config_mobile_def get_assistant_versions_def
          threecx_status_def save_threecx_config_def disconnect_threecx_def call_history_def get_tasks_def cancel_task_def
          fetch_livekit_token_def save_assistant_config_def Let_def g
          intro!: try_endpoints_sent t split: option.split)
qed

section \<open>Capabilities and call records\<close>

lemma get_merge: "get (JObj (js_merge kvs b)) k = (case jm_get (js_merge kvs b) k of Some v \<Rightarrow> v | None \<Rightarrow> JUndef)"
  by (rule get_obj_fields)

lemma read_formatted: "read_capabilities (format_capabilities c) =
    JObj (map (\<lambda>k. (k, JBool (truthy (get c k)))) [''company_receptionist'', ''company_faq'', ''google_calendar''])"
  by (simp add: read_capabilities_def format_capabilities_def read_capability_def js_coalesce_def)

text \<open>What the app publishes is what it reads back: the configuration read from a server that returns the saved
payload has the capabilities the user chose, and every other field unchanged.\<close>

theorem saved_config_reads_back:
  assumes "k \<noteq> ''capabilities''" "k \<noteq> ''is_deployed''"
  shows "get (read_config (config_payload (JObj kvs) deploy)) ''capabilities''
       = JObj (map (\<lambda>c. (c, JBool (truthy (get (get (JObj kvs) ''capabilities'') c))))
           [''company_receptionist'', ''company_faq'', ''google_calendar''])
    \<and> get (read_config (config_payload (JObj kvs) deploy)) k = get (JObj kvs) k
    \<and> get (read_config (config_payload (JObj kvs) deploy)) ''is_deployed'' = JBool deploy"
proof -
  let ?f = "format_capabilities (get (JObj kvs) ''capabilities'')"
  let ?m = "js_merge kvs [(''capabilities'', ?f), (''is_deployed'', JBool deploy)]"
  have c: "jm_get ?m ''capabilities'' = Some ?f" "jm_get ?m ''is_deployed'' = Some (JBool deploy)"
    by (rule jm_get_merge; simp)+
  have k: "jm_get ?m k = jm_get kvs k" by (rule jm_get_merge_other) (use assms in auto)
  have t: "truthy ?f" by (simp add: format_capabilities_def)
  have p: "config_payload (JObj kvs) deploy = JObj ?m" by (simp add: config_payload_def del: get.simps)
  have r: "read_config (JObj ?m) = JObj (js_merge ?m [(''capabilities'', read_capabilities ?f)])"
    using c t by (simp add: read_config_def js_or_def get_obj_fields del: get.simps)
  have "jm_get (js_merge ?m [(''capabilities'', read_capabilities ?f)]) ''capabilities'' = Some (read_capabilities ?f)"
    by (rule jm_get_merge) simp_all
  moreover have "jm_get (js_merge ?m [(''capabilities'', read_capabilities ?f)]) k' = jm_get ?m k'"
    if "k' \<noteq> ''capabilities''" for k'
    by (rule jm_get_merge_other) (use that in auto)
  ultimately show ?thesis unfolding p r using c k assms
    by (simp add: get_obj_fields read_formatted del: get.simps)
qed

theorem saved_config_reads_back_witness:
  "get (read_config (config_payload (JObj [(''tone'', JStr ''warm''),
       (''capabilities'', JObj [(''google_calendar'', JBool False), (''company_faq'', JBool True)])]) True)) ''tone'' = JStr ''warm''
   \<and> get (read_config (config_payload (JObj [(''tone'', JStr ''warm''),
       (''capabilities'', JObj [(''google_calendar'', JBool False), (''company_faq'', JBool True)])]) True)) ''capabilities''
     = JObj [(''company_receptionist'', JBool False), (''company_faq'', JBool True), (''google_calendar'', JBool False)]"
  using saved_config_reads_back [of "''tone''" "[(''tone'', JStr ''warm''),
       (''capabilities'', JObj [(''google_calendar'', JBool False), (''company_faq'', JBool True)])]" True]
  by simp












text \<open>Publishing does not depend on what the validator answers: only the request to save decides.\<close>

lemma publish_ignores_validation:
  assumes "\<And>q. mr_url q \<noteq> web_base a @ ''/api/assistant-config/validate'' \<Longrightarrow> net q = net' q"
  shows "fst (save_assistant_config w a config True net) = fst (save_assistant_config w a config True net')"
proof -
  let ?q = "json_req w a ''POST'' (web_base a @ ''/api/assistant-config'') (config_payload config True) 6000"
  have "net ?q = net' ?q" by (rule assms) (simp add: json_req_def)
  then have "try_endpoints net h [?q] = try_endpoints net' h [?q]" for h :: "reply \<Rightarrow> jsval option ext"
    by (simp only: try_endpoints.simps)
  then show ?thesis
    by (simp add: save_assistant_config_def Let_def or_else_def del: try_endpoints.simps)
qed

end
