(* ===== verification/Mobile_Voice_Api.thy ===== *)
theory Mobile_Voice_Api
  imports Mobile_Api
begin

text \<open>
  \<open>mobile/src/services/voicePackets.ts\<close> and \<open>livekitApi.ts\<close>: the data packets the mobile voice session takes from
  its room, and the client that fetches the credentials of a room. A packet is what \<open>JSON.parse\<close> makes of its
  bytes, or the error. The session id the client makes up is the parameter \<open>fresh\<close>.
\<close>

section \<open>Data packets\<close>

record voice_transcript =
  vt_id :: string
  vt_role :: string
  vt_text :: string
  vt_isFinal :: bool
  vt_timestamp :: jsval

datatype voice_packet = Transcript_Packet voice_transcript | Task_Packet jsval

text \<open>The property of a null packet throws, and is caught like a parse error.\<close>

definition parse_voice_packet :: "jsval ext \<Rightarrow> int \<Rightarrow> string \<Rightarrow> voice_packet option" where
  "parse_voice_packet parsed now new_id =
     (case parsed of
        Throw _ \<Rightarrow> None
      | Ret p \<Rightarrow>
          if nullish p then None
          else (case (get p ''type'' = JStr ''transcript'', the_str (get p ''text'')) of
              (True, Some t) \<Rightarrow>
                if trim t \<noteq> []
                then Some (Transcript_Packet
                  \<lparr>vt_id = (case the_str (get p ''id'') of Some i \<Rightarrow> i | None \<Rightarrow> new_id),
                   vt_role = (if get p ''speaker'' = JStr ''user'' \<or> get p ''role'' = JStr ''user'' then ''user'' else ''assistant''),
                   vt_text = trim t, vt_isFinal = (get p ''is_final'' \<noteq> JBool False),
                   vt_timestamp = (if is_number (get p ''timestamp'') then get p ''timestamp'' else JNum now)\<rparr>)
                else None
            | _ \<Rightarrow>
                if get p ''type'' = JStr ''task_update'' \<and> is_object (get p ''task'')
                then Some (Task_Packet (get p ''task'')) else None))"

section \<open>Credentials of a room\<close>

record lk_client =
  lc_tokenEndpoint :: string
  lc_timeoutMs :: nat

record voice_config =
  vc_sessionId :: "string option"
  vc_participantName :: "string option"
  vc_profileVersion :: "int option"

record voice_token =
  vk_token :: string
  vk_wsUrl :: string
  vk_room :: string
  vk_identity :: string
  vk_sessionId :: "string option"

text \<open>\<open>LiveKitApiError\<close>; a missing status or code is \<open>undefined\<close>.\<close>

record api_error =
  ae_message :: string
  ae_status :: jsval
  ae_code :: jsval

definition api_error :: "string \<Rightarrow> api_error" where
  "api_error m = \<lparr>ae_message = m, ae_status = JUndef, ae_code = JUndef\<rparr>"

definition configured_token_endpoint :: "(string \<Rightarrow> string option) \<Rightarrow> string" where
  "configured_token_endpoint env =
     (let explicit = (case env ''EXPO_PUBLIC_LIVEKIT_TOKEN_ENDPOINT'' of Some v \<Rightarrow> trim v | None \<Rightarrow> [])
      in if explicit \<noteq> [] then explicit
         else strip_slashes (get_env env ''EXPO_PUBLIC_APP_URL''
                (get_env env ''EXPO_PUBLIC_WEB_URL'' ''http://localhost:3000'')) @ ''/api/livekit/token'')"

definition new_lk_client :: "(string \<Rightarrow> string option) \<Rightarrow> lk_client" where
  "new_lk_client env = \<lparr>lc_tokenEndpoint = configured_token_endpoint env, lc_timeoutMs = 30000\<rparr>"

text \<open>\<open>s || d\<close> for a string that may be undefined.\<close>

definition opt_or :: "string option \<Rightarrow> string \<Rightarrow> string" where
  "opt_or s d = (case s of Some v \<Rightarrow> str_or v d | None \<Rightarrow> d)"

definition token_params :: "voice_config \<Rightarrow> string \<Rightarrow> (string \<times> string) list" where
  "token_params cfg fresh =
     [(''session_id'', opt_or (vc_sessionId cfg) fresh)]
     @ (case vc_participantName cfg of Some n \<Rightarrow> if trim n \<noteq> [] then [(''participant_name'', trim n)] else [] | None \<Rightarrow> [])
     @ (case vc_profileVersion cfg of Some v \<Rightarrow> [(''profile_version'', int_string v)] | None \<Rightarrow> [])"

definition build_token_url :: "web \<Rightarrow> lk_client \<Rightarrow> voice_config \<Rightarrow> string \<Rightarrow> string option" where
  "build_token_url w c cfg fresh = wb_with_params w (lc_tokenEndpoint c) (token_params cfg fresh)"

definition str_field :: "jsval \<Rightarrow> string \<Rightarrow> string" where
  "str_field v k = (case the_str (get v k) of Some s \<Rightarrow> s | None \<Rightarrow> [])"

definition filled :: "jsval \<Rightarrow> bool" where
  "filled v = (case the_str v of Some s \<Rightarrow> trim s \<noteq> [] | None \<Rightarrow> False)"

fun is_plain_object :: "jsval \<Rightarrow> bool" where
  "is_plain_object (JObj _) = True"
| "is_plain_object _ = False"

definition normalize_token_response :: "jsval \<Rightarrow> api_error + voice_token" where
  "normalize_token_response raw =
     (if \<not> is_plain_object raw then Inl (api_error ''The voice service returned an invalid response.'')
      else if \<not> filled (get raw ''token'') then Inl (api_error ''The voice service response did not include a token.'')
      else if \<not> filled (get raw ''ws_url'') then Inl (api_error ''The voice service response did not include a LiveKit URL.'')
      else Inr \<lparr>vk_token = str_field raw ''token'', vk_wsUrl = str_field raw ''ws_url'',
             vk_room = str_field raw ''room'', vk_identity = str_field raw ''identity'',
             vk_sessionId = (case the_str (get raw ''session_id'') of
                Some s \<Rightarrow> Some s | None \<Rightarrow> the_str (get raw ''sessionId''))\<rparr>)"

definition network_error :: "string \<Rightarrow> api_error" where
  "network_error m = \<lparr>ae_message = ''Unable to reach the voice service: '' @ m, ae_status = JUndef, ae_code = JStr ''NETWORK_ERROR''\<rparr>"

text \<open>What \<open>fetchToken\<close> makes of the outcome of its request.\<close>

definition token_answer :: "(rat \<Rightarrow> string) \<Rightarrow> string \<Rightarrow> reply ext \<Rightarrow> api_error + voice_token" where
  "token_answer fr sid res =
     (case res of
        Throw m \<Rightarrow> Inl (network_error m)
      | Ret r \<Rightarrow> let body = json_or JNull r in
          if \<not> reply_ok r
          then Inl \<lparr>ae_message = js_string fr (js_or (get body ''error_message'') (js_or (get body ''detail'')
                      (JStr (''Voice session request failed with HTTP '' @ int_string (rp_status r) @ ''.'')))),
                    ae_status = JNum (rp_status r),
                    ae_code = js_or (get body ''error_code'')
                      (JStr (if rp_status r = 401 then ''AUTHENTICATION_REQUIRED'' else ''TOKEN_REQUEST_FAILED''))\<rparr>
          else (case normalize_token_response body of
              Inl e \<Rightarrow> Inl e
            | Inr t \<Rightarrow> Inr (t\<lparr>vk_sessionId := Some (opt_or (vk_sessionId t) sid)\<rparr>)))"

definition fetch_voice_token :: "web \<Rightarrow> lk_client \<Rightarrow> voice_config \<Rightarrow> string \<Rightarrow> net \<Rightarrow> (api_error + voice_token) call" where
  "fetch_voice_token w c cfg fresh net =
     (let sid = opt_or (vc_sessionId cfg) fresh in
      case build_token_url w c (cfg\<lparr>vc_sessionId := Some sid\<rparr>) fresh of
        None \<Rightarrow> (Inl (network_error ''Invalid URL''), [])
      | Some u \<Rightarrow> let q = plain_get u (lc_timeoutMs c) in (token_answer (wb_frac w) sid (net q), [q]))"

lemma normalize_ok:
  "normalize_token_response raw = Inr t \<Longrightarrow>
     trim (vk_token t) \<noteq> [] \<and> trim (vk_wsUrl t) \<noteq> [] \<and> get raw ''token'' = JStr (vk_token t) \<and> get raw ''ws_url'' = JStr (vk_wsUrl t)"
  by (auto simp: normalize_token_response_def filled_def str_field_def split: if_splits option.splits)

text \<open>Credentials only come from an accepted answer whose body names a token and a server.\<close>

lemma token_answer_ok:
  assumes "token_answer fr sid res = Inr t"
  shows "trim (vk_token t) \<noteq> [] \<and> trim (vk_wsUrl t) \<noteq> [] \<and>
    (\<exists>r body. res = Ret r \<and> reply_ok r \<and> rp_json r = Ret body
       \<and> get body ''token'' = JStr (vk_token t) \<and> get body ''ws_url'' = JStr (vk_wsUrl t))"
proof -
  obtain r t' where r: "res = Ret r" "reply_ok r" "normalize_token_response (json_or JNull r) = Inr t'"
    and t: "t = t'\<lparr>vk_sessionId := Some (opt_or (vk_sessionId t') sid)\<rparr>"
    using assms by (auto simp: token_answer_def Let_def split: ext.splits if_splits sum.splits)
  from normalize_ok [OF r(3)] r t show ?thesis
    by (auto simp: json_or_def split: ext.splits)
qed

lemma fetched_session: "token_answer fr sid res = Inr t \<Longrightarrow> sid \<noteq> [] \<Longrightarrow> \<exists>s. vk_sessionId t = Some s \<and> s \<noteq> []"
  by (auto simp: token_answer_def Let_def opt_or_def split: ext.splits if_splits sum.splits option.splits)

text \<open>A transcript that is shown is never blank.\<close>

lemma transcript_not_blank:
  "parse_voice_packet p now i = Some (Transcript_Packet t) \<Longrightarrow> vt_text t \<noteq> [] \<and> trim (vt_text t) = vt_text t
     \<and> vt_role t \<in> {''user'', ''assistant''}"
  by (auto simp: parse_voice_packet_def split: ext.splits option.splits if_splits bool.splits)

end
