(* ===== verification/Mobile_Voice.thy ===== *)
theory Mobile_Voice
  imports Mobile_Voice_Api
begin

text \<open>
  \<open>mobile/src/hooks/useVoiceBot.ts\<close>: the voice session of the mobile app. The state is the React state and the
  refs of the hook (a state that is always set together with its ref is one field), the rooms it created and the
  continuations of its suspended \<open>async\<close> functions. A callback of the page, an event of a room, a timer and the
  settling of an awaited promise are one step each, so a run is any interleaving of them. Rooms are numbered in
  the order of their creation. What the program does to the SDK is appended to \<open>vb_effects\<close>.
\<close>

section \<open>State\<close>

datatype voice_status = V_Disconnected | V_Connecting | V_Waiting | V_Connected | V_Reconnecting | V_Error

record voice_error =
  be_code :: jsval
  be_message :: jsval
  be_status :: jsval

definition to_voice_bot_error :: "jsval \<Rightarrow> voice_error" where
  "to_voice_bot_error e =
     (if is_object e
      then \<lparr>be_code = js_or (get e ''code'') (JStr ''VOICE_SESSION_FAILED''),
            be_message = js_or (get e ''message'') (JStr ''The voice session could not be started.''),
            be_status = get e ''status''\<rparr>
      else \<lparr>be_code = JStr ''VOICE_SESSION_FAILED'', be_message = JStr ''The voice session could not be started.'',
            be_status = JUndef\<rparr>)"

text \<open>A caught \<open>LiveKitApiError\<close> as an object.\<close>

definition error_object :: "api_error \<Rightarrow> jsval" where
  "error_object e = JObj [(''message'', JStr (ae_message e)), (''status'', ae_status e), (''code'', ae_code e)]"

text \<open>A room: the generation its handlers captured, \<open>hasAgentAudio\<close>, and whether its handlers are registered.\<close>

record voice_room =
  vr_generation :: nat
  vr_hasAgentAudio :: bool
  vr_listening :: bool

datatype voice_cont =
    V_Token nat string                \<comment> \<open>awaits \<open>fetchToken\<close> with a session id\<close>
  | V_Configure nat voice_token       \<comment> \<open>awaits \<open>configureAudio\<close>\<close>
  | V_Start nat voice_token           \<comment> \<open>awaits \<open>startAudioSession\<close>\<close>
  | V_Select nat voice_token          \<comment> \<open>awaits \<open>selectOutput\<close>\<close>
  | V_Connect nat nat                 \<comment> \<open>generation, room: awaits \<open>room.connect\<close>\<close>
  | V_Abandon nat nat                 \<comment> \<open>awaits the \<open>disconnect\<close> of a room that is not current\<close>
  | V_Mic nat nat                     \<comment> \<open>awaits \<open>setMicrophoneEnabled\<close>\<close>
  | V_Cleanup_Room nat jsval          \<comment> \<open>room, error: the catch block awaits \<open>room.disconnect\<close>\<close>
  | V_Cleanup_Audio jsval             \<comment> \<open>the catch block awaits \<open>stopNativeAudio\<close>\<close>
  | V_End_Room nat                    \<comment> \<open>\<open>endCall\<close> awaits \<open>room.disconnect\<close>\<close>
  | V_End_Audio                       \<comment> \<open>\<open>endCall\<close> awaits \<open>stopNativeAudio\<close>\<close>
  | V_Mute bool                       \<comment> \<open>\<open>toggleMute\<close>, with \<open>previous\<close>\<close>
  | V_Speaker bool                    \<comment> \<open>\<open>toggleSpeakerphone\<close>, with \<open>previous\<close>\<close>
  | V_Publish nat                     \<comment> \<open>\<open>interrupt\<close> awaits \<open>publishData\<close>\<close>
  | V_Restore nat                     \<comment> \<open>the timer of \<open>interrupt\<close>\<close>

datatype voice_effect =
    Fetch_Voice_Token voice_config
  | Configure_Audio
  | Start_Audio
  | Stop_Audio
  | Select_Output bool
  | Room_Connect nat string string    \<comment> \<open>room, server, token\<close>
  | Room_Disconnect nat
  | Set_Microphone nat bool
  | Publish_Cancel nat

record vb =
  vb_room :: "nat option"
  vb_generation :: nat
  vb_intentional :: bool
  vb_botSpeaking :: bool
  vb_userSpeaking :: bool
  vb_muted :: bool
  vb_speaker :: bool
  vb_status :: voice_status
  vb_localLevel :: int
  vb_remoteLevel :: int
  vb_transcripts :: "voice_transcript list"
  vb_activeTask :: "jsval option"
  vb_error :: "voice_error option"
  vb_mounted :: bool
  vb_rooms :: "voice_room list"
  vb_pending :: "voice_cont list"
  vb_effects :: "voice_effect list"
  vb_gone :: "nat list"                \<comment> \<open>rooms whose \<open>Disconnected\<close> event was handled\<close>

definition vb_init :: vb where
  "vb_init = \<lparr>vb_room = None, vb_generation = 0, vb_intentional = False, vb_botSpeaking = False, vb_userSpeaking = False,
     vb_muted = False, vb_speaker = True, vb_status = V_Disconnected, vb_localLevel = 0, vb_remoteLevel = 0,
     vb_transcripts = [], vb_activeTask = None, vb_error = None, vb_mounted = True, vb_rooms = [], vb_pending = [],
     vb_effects = [], vb_gone = []\<rparr>"

definition vdo :: "voice_effect \<Rightarrow> vb \<Rightarrow> vb" where
  "vdo e s = s\<lparr>vb_effects := vb_effects s @ [e]\<rparr>"

definition vwait :: "voice_cont \<Rightarrow> vb \<Rightarrow> vb" where
  "vwait k s = s\<lparr>vb_pending := k # vb_pending s\<rparr>"

definition vset :: "voice_status \<Rightarrow> vb \<Rightarrow> vb" where
  "vset st s = s\<lparr>vb_status := st\<rparr>"

definition clear_session_state :: "vb \<Rightarrow> vb" where
  "clear_session_state s = s\<lparr>vb_botSpeaking := False, vb_userSpeaking := False, vb_localLevel := 0, vb_remoteLevel := 0\<rparr>"

definition remove_all_listeners :: "nat \<Rightarrow> vb \<Rightarrow> vb" where
  "remove_all_listeners r s =
     (if r < length (vb_rooms s) then s\<lparr>vb_rooms := (vb_rooms s)[r := (vb_rooms s ! r)\<lparr>vr_listening := False\<rparr>]\<rparr> else s)"

text \<open>\<open>isCurrent\<close>, as the handlers and the start of a call captured it.\<close>

definition room_current :: "nat \<Rightarrow> nat \<Rightarrow> vb \<Rightarrow> bool" where
  "room_current g r s \<longleftrightarrow> vb_room s = Some r \<and> vb_generation s = g"

section \<open>Starting and ending a call\<close>

definition initiate_call :: "voice_config \<Rightarrow> string \<Rightarrow> vb \<Rightarrow> vb" where
  "initiate_call cfg fresh s =
     (if vb_room s \<noteq> None then s
      else let g = vb_generation s + 1 in
        vwait (V_Token g (opt_or (vc_sessionId cfg) fresh)) (vdo (Fetch_Voice_Token cfg)
          (vset V_Connecting (s\<lparr>vb_generation := g, vb_intentional := False, vb_error := None, vb_transcripts := [],
             vb_activeTask := None\<rparr>))))"

text \<open>The catch block of \<open>initiateCall\<close>, up to its first await; \<open>room\<close> is the room the run created, if any.\<close>

definition call_start_failed :: "nat \<Rightarrow> nat option \<Rightarrow> jsval \<Rightarrow> vb \<Rightarrow> vb" where
  "call_start_failed g room err s =
     (if vb_generation s \<noteq> g then s
      else let s = s\<lparr>vb_room := None\<rparr> in
        case room of
          Some r \<Rightarrow> vwait (V_Cleanup_Room r err) (vdo (Room_Disconnect r) s)
        | None \<Rightarrow> vwait (V_Cleanup_Audio err) (vdo Stop_Audio s))"

definition voice_token_settled :: "nat \<Rightarrow> string \<Rightarrow> (rat \<Rightarrow> string) \<Rightarrow> reply ext \<Rightarrow> vb \<Rightarrow> vb" where
  "voice_token_settled g sid fr res s =
     (case token_answer fr sid res of
        Inl e \<Rightarrow> call_start_failed g None (error_object e) s
      | Inr t \<Rightarrow> if vb_generation s \<noteq> g then s else vwait (V_Configure g t) (vdo Configure_Audio s))"

text \<open>Creation of the room, after the output was selected or not.\<close>

definition create_room :: "nat \<Rightarrow> voice_token \<Rightarrow> vb \<Rightarrow> vb" where
  "create_room g t s =
     (let r = length (vb_rooms s) in
      vwait (V_Connect g r) (vdo (Room_Connect r (vk_wsUrl t) (vk_token t))
        (s\<lparr>vb_room := Some r,
           vb_rooms := vb_rooms s @ [\<lparr>vr_generation = g, vr_hasAgentAudio = False, vr_listening = True\<rparr>]\<rparr>)))"

definition has_agent_audio :: "nat \<Rightarrow> vb \<Rightarrow> bool" where
  "has_agent_audio r s \<longleftrightarrow> r < length (vb_rooms s) \<and> vr_hasAgentAudio (vb_rooms s ! r)"

definition connect_settled :: "nat \<Rightarrow> nat \<Rightarrow> bool \<Rightarrow> jsval \<Rightarrow> vb \<Rightarrow> vb" where
  "connect_settled g r ok err s =
     (if \<not> ok then call_start_failed g (Some r) err s
      else if \<not> room_current g r s then vwait (V_Abandon g r) (vdo (Room_Disconnect r) s)
      else vwait (V_Mic g r) (vdo (Set_Microphone r (\<not> vb_muted s))
             (vset (if has_agent_audio r s then V_Connected else V_Waiting) s)))"

definition hang_up :: "vb \<Rightarrow> vb" where
  "hang_up s =
     (let room = vb_room s;
          s = s\<lparr>vb_generation := vb_generation s + 1, vb_intentional := True, vb_room := None\<rparr> in
      case room of
        Some r \<Rightarrow> vwait (V_End_Room r) (vdo (Room_Disconnect r) s)
      | None \<Rightarrow> vwait V_End_Audio (vdo Stop_Audio s))"

definition unmount :: "vb \<Rightarrow> vb" where
  "unmount s =
     (let room = vb_room s;
          s = s\<lparr>vb_generation := vb_generation s + 1, vb_intentional := True, vb_room := None, vb_mounted := False\<rparr> in
      vdo Stop_Audio (case room of Some r \<Rightarrow> remove_all_listeners r (vdo (Room_Disconnect r) s) | None \<Rightarrow> s))"

section \<open>Controls\<close>

definition toggle_voice_mute :: "vb \<Rightarrow> vb" where
  "toggle_voice_mute s =
     (let previous = vb_muted s; nxt = \<not> previous;
          s = s\<lparr>vb_muted := nxt\<rparr>; s = (if nxt then s\<lparr>vb_localLevel := 0\<rparr> else s) in
      case vb_room s of
        Some r \<Rightarrow> vwait (V_Mute previous) (vdo (Set_Microphone r (\<not> nxt)) s)
      | None \<Rightarrow> s)"

definition toggle_speakerphone :: "vb \<Rightarrow> vb" where
  "toggle_speakerphone s =
     (let previous = vb_speaker s; nxt = \<not> previous in
      vwait (V_Speaker previous) (vdo (Select_Output nxt) (s\<lparr>vb_speaker := nxt\<rparr>)))"

text \<open>\<open>interrupt\<close>, with the connection state of the room.\<close>

definition interrupt :: "bool \<Rightarrow> vb \<Rightarrow> vb" where
  "interrupt conn s =
     (if vb_muted s \<or> \<not> vb_botSpeaking s then s
      else case vb_room s of
          None \<Rightarrow> s
        | Some r \<Rightarrow> if \<not> conn then s
            else vwait (V_Publish r) (vdo (Publish_Cancel r) (s\<lparr>vb_userSpeaking := True, vb_botSpeaking := False\<rparr>)))"

definition restore_speaking :: "nat \<Rightarrow> bool \<Rightarrow> vb \<Rightarrow> vb" where
  "restore_speaking r remote_speaks s =
     (let s = s\<lparr>vb_userSpeaking := False\<rparr> in
      if vb_room s = Some r then s\<lparr>vb_botSpeaking := remote_speaks\<rparr> else s)"

text \<open>The interval that reads the levels while the call is shown as live.\<close>

definition level_tick :: "rat \<Rightarrow> rat list \<Rightarrow> vb \<Rightarrow> vb" where
  "level_tick local remotes s =
     (if \<not> vb_mounted s \<or> vb_status s \<notin> {V_Connected, V_Waiting, V_Reconnecting} \<or> vb_room s = None then s
      else s\<lparr>vb_localLevel := (if vb_muted s then 0 else js_round (local * 100)),
             vb_remoteLevel := js_round (foldr max remotes 0 * 100)\<rparr>)"

section \<open>Room events\<close>

datatype voice_room_event =
    Room_Reconnecting
  | Room_Reconnected
  | Track_Subscribed bool            \<comment> \<open>an audio track\<close>
  | Track_Unsubscribed bool bool     \<comment> \<open>an audio track; the room is connected\<close>
  | Active_Speakers "bool list"      \<comment> \<open>\<open>isLocal\<close> of each\<close>
  | Data_Received "jsval ext" int string
  | Room_Disconnected

definition set_agent_audio :: "nat \<Rightarrow> bool \<Rightarrow> vb \<Rightarrow> vb" where
  "set_agent_audio r b s = s\<lparr>vb_rooms := (vb_rooms s)[r := (vb_rooms s ! r)\<lparr>vr_hasAgentAudio := b\<rparr>]\<rparr>"

definition voice_data_received :: "jsval ext \<Rightarrow> int \<Rightarrow> string \<Rightarrow> vb \<Rightarrow> vb" where
  "voice_data_received p now i s =
     (case parse_voice_packet p now i of
        Some (Transcript_Packet t) \<Rightarrow> s\<lparr>vb_transcripts := vb_transcripts s @ [t]\<rparr>
      | Some (Task_Packet t) \<Rightarrow> s\<lparr>vb_activeTask := Some t\<rparr>
      | None \<Rightarrow> s)"

definition room_lost :: "nat \<Rightarrow> vb \<Rightarrow> vb" where
  "room_lost r s =
     (let s = vdo Stop_Audio (clear_session_state (remove_all_listeners r (s\<lparr>vb_room := None, vb_gone := r # vb_gone s\<rparr>))) in
      if vb_intentional s then vset V_Disconnected s
      else (vset V_Error s)\<lparr>vb_error := Some \<lparr>be_code = JStr ''ROOM_DISCONNECTED'',
             be_message = JStr ''The LiveKit room disconnected unexpectedly.'', be_status = JUndef\<rparr>\<rparr>)"

definition handle_voice_event :: "nat \<Rightarrow> voice_room_event \<Rightarrow> vb \<Rightarrow> vb" where
  "handle_voice_event r ev s =
     (if r \<ge> length (vb_rooms s) \<or> \<not> vr_listening (vb_rooms s ! r)
         \<or> \<not> room_current (vr_generation (vb_rooms s ! r)) r s then s
      else case ev of
          Room_Reconnecting \<Rightarrow> vset V_Reconnecting s
        | Room_Reconnected \<Rightarrow> vset (if has_agent_audio r s then V_Connected else V_Waiting) s
        | Track_Subscribed audio \<Rightarrow> if audio then vset V_Connected (set_agent_audio r True s) else s
        | Track_Unsubscribed audio conn \<Rightarrow>
            if \<not> audio then s
            else let s = (set_agent_audio r False s)\<lparr>vb_botSpeaking := False\<rparr> in
              if conn then vset V_Waiting s else s
        | Active_Speakers locals \<Rightarrow> if vb_userSpeaking s then s else s\<lparr>vb_botSpeaking := list_ex Not locals\<rparr>
        | Data_Received p now i \<Rightarrow> voice_data_received p now i s
        | Room_Disconnected \<Rightarrow> room_lost r s)"

section \<open>Steps\<close>

text \<open>The settling of an awaited promise: resolved or rejected with an error; the answer of the token request and
the speakers at the end of the timer of \<open>interrupt\<close> are part of the outcome.\<close>

record outcome =
  oc_ok :: bool
  oc_error :: jsval
  oc_reply :: "reply ext"
  oc_remoteSpeaks :: bool

definition voice_settled :: "(rat \<Rightarrow> string) \<Rightarrow> voice_cont \<Rightarrow> outcome \<Rightarrow> vb \<Rightarrow> vb" where
  "voice_settled fr k oc s =
     (let ok = oc_ok oc; err = oc_error oc in
      case k of
        V_Token g sid \<Rightarrow> voice_token_settled g sid fr (oc_reply oc) s
      | V_Configure g t \<Rightarrow> if ok then vwait (V_Start g t) (vdo Start_Audio s) else call_start_failed g None err s
      | V_Start g t \<Rightarrow> if ok then vwait (V_Select g t) (vdo (Select_Output (vb_speaker s)) s) else call_start_failed g None err s
      | V_Select g t \<Rightarrow> create_room g t s
      | V_Connect g r \<Rightarrow> connect_settled g r ok err s
      | V_Abandon g r \<Rightarrow> if ok then s else call_start_failed g (Some r) err s
      | V_Mic g r \<Rightarrow> if ok then s else call_start_failed g (Some r) err s
      | V_Cleanup_Room r e \<Rightarrow> vwait (V_Cleanup_Audio e) (vdo Stop_Audio (remove_all_listeners r s))
      | V_Cleanup_Audio e \<Rightarrow> vset V_Error ((clear_session_state s)\<lparr>vb_error := Some (to_voice_bot_error e)\<rparr>)
      | V_End_Room r \<Rightarrow> vwait V_End_Audio (vdo Stop_Audio (remove_all_listeners r s))
      | V_End_Audio \<Rightarrow> vset V_Disconnected (clear_session_state s)
      | V_Mute previous \<Rightarrow> if ok then s else s\<lparr>vb_muted := previous, vb_error := Some (to_voice_bot_error err)\<rparr>
      | V_Speaker previous \<Rightarrow> if ok then s else s\<lparr>vb_speaker := previous, vb_error := Some (to_voice_bot_error err)\<rparr>
      | V_Publish r \<Rightarrow> if ok then vwait (V_Restore r) s else s
      | V_Restore r \<Rightarrow> restore_speaking r (oc_remoteSpeaks oc) s)"

datatype voice_step =
    Initiate voice_config string
  | End_Call
  | Toggle_Mute
  | Toggle_Speakerphone
  | Interrupt bool
  | Unmount
  | Level_Tick rat "rat list"
  | From_Room nat voice_room_event
  | Settles voice_cont outcome

definition vb_step :: "(rat \<Rightarrow> string) \<Rightarrow> vb \<Rightarrow> voice_step \<Rightarrow> vb" where
  "vb_step fr s e =
     (case e of
        Initiate cfg fresh \<Rightarrow> initiate_call cfg fresh s
      | End_Call \<Rightarrow> hang_up s
      | Toggle_Mute \<Rightarrow> toggle_voice_mute s
      | Toggle_Speakerphone \<Rightarrow> toggle_speakerphone s
      | Interrupt conn \<Rightarrow> interrupt conn s
      | Unmount \<Rightarrow> unmount s
      | Level_Tick l rs \<Rightarrow> level_tick l rs s
      | From_Room r ev \<Rightarrow> handle_voice_event r ev s
      | Settles k oc \<Rightarrow> if k \<in> set (vb_pending s) then voice_settled fr k oc (s\<lparr>vb_pending := remove1 k (vb_pending s)\<rparr>) else s)"

end
