(* ===== verification/Mobile_Voice_Claims.thy ===== *)
theory Mobile_Voice_Claims
  imports Mobile_Voice
begin

text \<open>
  What the voice session of the mobile app guarantees when a call is not ended or replaced while the audio session
  of the phone is set up, and not started while the last one is torn down, and what goes wrong otherwise.
\<close>

section \<open>The run of a start\<close>

fun start_gen :: "voice_cont \<Rightarrow> nat option" where
  "start_gen (V_Token g _) = Some g"
| "start_gen (V_Configure g _) = Some g"
| "start_gen (V_Start g _) = Some g"
| "start_gen (V_Select g _) = Some g"
| "start_gen (V_Connect g _) = Some g"
| "start_gen (V_Abandon g _) = Some g"
| "start_gen (V_Mic g _) = Some g"
| "start_gen _ = None"

fun sets_up_audio :: "voice_cont \<Rightarrow> bool" where
  "sets_up_audio (V_Configure _ _) = True"
| "sets_up_audio (V_Start _ _) = True"
| "sets_up_audio (V_Select _ _) = True"
| "sets_up_audio _ = False"

fun before_room :: "voice_cont \<Rightarrow> bool" where
  "before_room (V_Token _ _) = True"
| "before_room k = sets_up_audio k"

fun start_room :: "voice_cont \<Rightarrow> nat option" where
  "start_room (V_Connect _ r) = Some r"
| "start_room (V_Abandon _ r) = Some r"
| "start_room (V_Mic _ r) = Some r"
| "start_room _ = None"

fun tears_down :: "voice_cont \<Rightarrow> bool" where
  "tears_down (V_Cleanup_Room _ _) = True"
| "tears_down (V_Cleanup_Audio _) = True"
| "tears_down (V_End_Room _) = True"
| "tears_down V_End_Audio = True"
| "tears_down _ = False"

definition setting_up :: "vb \<Rightarrow> bool" where
  "setting_up s \<longleftrightarrow> list_ex sets_up_audio (vb_pending s)"

definition tearing_down :: "vb \<Rightarrow> bool" where
  "tearing_down s \<longleftrightarrow> list_ex tears_down (vb_pending s)"

text \<open>A step that does not cut into the set-up of the audio session or the tear-down of a call.\<close>

definition sequential :: "vb \<Rightarrow> voice_step \<Rightarrow> bool" where
  "sequential s e \<longleftrightarrow>
     (case e of
        Initiate _ _ \<Rightarrow> \<not> setting_up s \<and> \<not> tearing_down s
      | End_Call \<Rightarrow> \<not> setting_up s
      | Unmount \<Rightarrow> \<not> setting_up s
      | _ \<Rightarrow> True)"

fun sequential_run :: "(rat \<Rightarrow> string) \<Rightarrow> vb \<Rightarrow> voice_step list \<Rightarrow> bool" where
  "sequential_run fr s [] = True"
| "sequential_run fr s (e # es) = (sequential s e \<and> sequential_run fr (vb_step fr s e) es)"

definition live_status :: "voice_status \<Rightarrow> bool" where
  "live_status st \<longleftrightarrow> st \<notin> {V_Disconnected, V_Error}"

definition of_gen :: "nat \<Rightarrow> voice_cont \<Rightarrow> bool" where
  "of_gen g k \<longleftrightarrow> start_gen k = Some g"

abbreviation current_start :: "vb \<Rightarrow> voice_cont list" where
  "current_start s \<equiv> filter (of_gen (vb_generation s)) (vb_pending s)"

text \<open>The start in progress has one continuation; before it has a room none is held, afterwards only its own.\<close>

definition phase_ok :: "vb \<Rightarrow> voice_cont \<Rightarrow> bool" where
  "phase_ok s k \<longleftrightarrow>
     (if before_room k then vb_room s = None \<and> \<not> tearing_down s \<and> vb_status s = V_Connecting
      else vb_room s = None \<or> vb_room s = start_room k)"

definition start_ok :: "vb \<Rightarrow> bool" where
  "start_ok s \<longleftrightarrow>
     (\<forall>k\<in>set (vb_pending s). (\<forall>g. start_gen k = Some g \<longrightarrow> g \<le> vb_generation s)
         \<and> (sets_up_audio k \<longrightarrow> of_gen (vb_generation s) k))
     \<and> length (current_start s) \<le> 1 \<and> list_all (phase_ok s) (current_start s)"

definition held_ok :: "vb \<Rightarrow> bool" where
  "held_ok s \<longleftrightarrow>
     (\<forall>r. vb_room s = Some r \<longrightarrow> r < length (vb_rooms s) \<and> vr_generation (vb_rooms s ! r) = vb_generation s
        \<and> vr_listening (vb_rooms s ! r) \<and> live_status (vb_status s) \<and> \<not> tearing_down s)"

definition rooms_ok :: "vb \<Rightarrow> bool" where
  "rooms_ok s \<longleftrightarrow>
     (\<forall>r < length (vb_rooms s). vb_room s = Some r \<or> Room_Disconnect r \<in> set (vb_effects s) \<or> r \<in> set (vb_gone s))"

definition idle_ok :: "vb \<Rightarrow> bool" where
  "idle_ok s \<longleftrightarrow> (vb_mounted s \<and> vb_room s = None \<and> \<not> tearing_down s \<and> live_status (vb_status s) \<longrightarrow>
     list_ex before_room (current_start s))"

definition base_ok :: "vb \<Rightarrow> bool" where
  "base_ok s \<longleftrightarrow> start_ok s \<and> held_ok s \<and> rooms_ok s"

definition voice_ok :: "vb \<Rightarrow> bool" where
  "voice_ok s \<longleftrightarrow> base_ok s \<and> idle_ok s"

definition polite_step :: "(rat \<Rightarrow> string) \<Rightarrow> vb \<Rightarrow> voice_step \<Rightarrow> vb" where
  "polite_step fr s e = (if sequential s e then vb_step fr s e else s)"

lemma sequential_polite: "sequential_run fr s es \<Longrightarrow> run (vb_step fr) s es = run (polite_step fr) s es"
  by (induction es arbitrary: s) (auto simp: polite_step_def)

named_theorems voice_defs \<open>the bookkeeping of the hook\<close>
declare vdo_def [voice_defs] vwait_def [voice_defs] vset_def [voice_defs] clear_session_state_def [voice_defs]
  Let_def [voice_defs]

lemmas voice_inv = voice_ok_def base_ok_def start_ok_def held_ok_def rooms_ok_def idle_ok_def phase_ok_def
  tearing_down_def

lemma voice_init: "voice_ok vb_init"
  by (simp add: voice_inv vb_init_def live_status_def)

section \<open>Preservation\<close>

text \<open>A step that touches neither the start in progress nor the held room.\<close>

definition same_call :: "vb \<Rightarrow> vb \<Rightarrow> bool" where
  "same_call s t \<longleftrightarrow> vb_room t = vb_room s \<and> vb_generation t = vb_generation s \<and> vb_mounted t = vb_mounted s
     \<and> vb_pending t = vb_pending s \<and> set (vb_effects s) \<subseteq> set (vb_effects t) \<and> vb_gone t = vb_gone s
     \<and> length (vb_rooms t) = length (vb_rooms s)
     \<and> (\<forall>r < length (vb_rooms s). vr_generation (vb_rooms t ! r) = vr_generation (vb_rooms s ! r)
          \<and> vr_listening (vb_rooms t ! r) = vr_listening (vb_rooms s ! r))
     \<and> (vb_status t = vb_status s \<or> vb_room s \<noteq> None \<and> live_status (vb_status t))"

lemma same_call_base:
  assumes ok: "base_ok s" and same: "same_call s t"
  shows "base_ok t"
proof -
  have td: "tearing_down t = tearing_down s" using same by (simp add: same_call_def tearing_down_def)
  have ph: "list_all (phase_ok s) ks \<Longrightarrow> list_all (phase_ok t) ks" for ks
    using same td unfolding list_all_iff phase_ok_def same_call_def by (auto split: if_splits)
  have "start_ok t" using ok same ph unfolding base_ok_def start_ok_def same_call_def by auto
  moreover have "held_ok t" using ok same unfolding base_ok_def held_ok_def same_call_def td by auto
  moreover have "rooms_ok t" using ok same unfolding base_ok_def rooms_ok_def same_call_def by auto
  ultimately show ?thesis by (simp add: base_ok_def)
qed

lemma same_call_idle: "idle_ok s \<Longrightarrow> same_call s t \<Longrightarrow> idle_ok t"
  by (auto simp: idle_ok_def same_call_def tearing_down_def)

lemma same_call_ok: "voice_ok s \<Longrightarrow> same_call s t \<Longrightarrow> voice_ok t"
  by (auto simp: voice_ok_def same_call_base same_call_idle)

lemma no_start: "start_gen k = None \<Longrightarrow> \<not> before_room k \<and> \<not> sets_up_audio k \<and> start_room k = None"
  by (cases k) auto

lemma tears_down_no_start: "tears_down k \<Longrightarrow> start_gen k = None"
  by (cases k) auto

text \<open>A continuation of a control.\<close>

lemma voice_ok_wait:
  assumes "voice_ok s" "start_gen k = None" "\<not> tears_down k"
  shows "voice_ok (vwait k s)"
proof -
  have "phase_ok (vwait k s) = phase_ok s" "tearing_down (vwait k s) = tearing_down s"
    using assms(3) by (simp_all add: fun_eq_iff phase_ok_def tearing_down_def vwait_def)
  with assms no_start [OF assms(2)] show ?thesis
    by (simp add: voice_ok_def base_ok_def start_ok_def held_ok_def rooms_ok_def idle_ok_def vwait_def of_gen_def)
qed

text \<open>The next continuation of the start in progress.\<close>

lemma voice_ok_next:
  assumes "base_ok s" "current_start s = []" "start_gen k = Some (vb_generation s)" "phase_ok s k"
    and "before_room k \<or> idle_ok s"
  shows "voice_ok (vwait k s)"
proof -
  have k: "\<not> tears_down k" using assms(3) tears_down_no_start [of k] by auto
  then have *: "phase_ok (vwait k s) = phase_ok s" "tearing_down (vwait k s) = tearing_down s"
    by (simp_all add: fun_eq_iff phase_ok_def tearing_down_def vwait_def)
  show ?thesis
    using assms * by (auto simp: voice_ok_def base_ok_def start_ok_def held_ok_def rooms_ok_def idle_ok_def vwait_def of_gen_def)
qed

text \<open>A tear-down begins.\<close>

lemma voice_ok_tear_down:
  assumes "base_ok s" "vb_room s = None" "current_start s = []" "tears_down k"
  shows "voice_ok (vwait k s)"
  using assms tears_down_no_start [OF assms(4)] no_start [of k]
  by (auto simp: voice_ok_def base_ok_def start_ok_def held_ok_def rooms_ok_def idle_ok_def vwait_def of_gen_def tearing_down_def)

text \<open>A continuation is taken.\<close>

definition taken :: "voice_cont \<Rightarrow> vb \<Rightarrow> vb" where
  "taken k s = s\<lparr>vb_pending := remove1 k (vb_pending s)\<rparr>"

lemma taken_fields [simp]:
  "vb_room (taken k s) = vb_room s" "vb_generation (taken k s) = vb_generation s" "vb_status (taken k s) = vb_status s"
  "vb_mounted (taken k s) = vb_mounted s" "vb_rooms (taken k s) = vb_rooms s" "vb_gone (taken k s) = vb_gone s"
  "vb_effects (taken k s) = vb_effects s" "vb_pending (taken k s) = remove1 k (vb_pending s)"
  by (simp_all add: taken_def)

lemma tearing_down_taken: "tearing_down (taken k s) \<Longrightarrow> tearing_down s"
  using set_remove1_subset [of k "vb_pending s"] by (auto simp: tearing_down_def list_ex_iff)

lemma current_start_taken: "current_start (taken k s) = remove1 k (current_start s)"
  by (simp add: filter_remove1)

lemma the_start:
  assumes "base_ok s" "k \<in> set (vb_pending s)" "start_gen k = Some (vb_generation s)"
  shows "current_start (taken k s) = []" and "phase_ok s k"
proof -
  have "k \<in> set (current_start s)" using assms by (simp add: of_gen_def)
  moreover have "length (current_start s) \<le> 1" using assms by (simp add: base_ok_def start_ok_def)
  ultimately have *: "current_start s = [k]" by (cases "current_start s") auto
  then show "current_start (taken k s) = []" by (simp add: current_start_taken del: taken_fields)
  show "phase_ok s k" using assms(1) * by (simp add: base_ok_def start_ok_def)
qed

lemma other_start: "start_gen k \<noteq> Some (vb_generation s) \<Longrightarrow> current_start (taken k s) = current_start s"
  by (simp add: current_start_taken of_gen_def remove1_idem del: taken_fields)

lemma base_ok_taken:
  assumes "base_ok s"
  shows "base_ok (taken k s)"
proof -
  have sub: "set (remove1 k ks) \<subseteq> set ks" for ks :: "voice_cont list" by (rule set_remove1_subset)
  have ph: "phase_ok s x \<Longrightarrow> phase_ok (taken k s) x" for x
    using tearing_down_taken [of k s] by (auto simp: phase_ok_def split: if_splits)
  have "start_ok (taken k s)"
    using assms sub ph unfolding base_ok_def start_ok_def current_start_taken list_all_iff
    by (auto simp: length_remove1 dest!: subsetD [OF sub])
  moreover have "held_ok (taken k s)"
    using assms tearing_down_taken [of k s] by (auto simp: base_ok_def held_ok_def)
  ultimately show ?thesis using assms by (simp add: base_ok_def rooms_ok_def)
qed

lemma list_ex_remove1: "\<not> P k \<Longrightarrow> list_ex P (remove1 k xs) = list_ex P xs"
  by (induction xs) auto

lemma tearing_down_keeps: "\<not> tears_down k \<Longrightarrow> tearing_down (taken k s) = tearing_down s"
  by (simp add: tearing_down_def list_ex_remove1)

lemma idle_ok_taken:
  assumes "idle_ok s" "\<not> tears_down k" "\<not> before_room k \<or> start_gen k \<noteq> Some (vb_generation s)"
  shows "idle_ok (taken k s)"
proof -
  have "list_ex before_room (current_start (taken k s)) = list_ex before_room (current_start s)"
    using assms(3) other_start [of k s] list_ex_remove1 [of before_room k "current_start s"]
    by (auto simp: current_start_taken simp del: taken_fields)
  then show ?thesis using assms tearing_down_keeps [of k s] by (auto simp: idle_ok_def simp del: taken_fields(8))
qed

text \<open>The end of a start that failed.\<close>

lemma voice_ok_failed:
  assumes ok: "voice_ok s" and k: "k \<in> set (vb_pending s)" "start_gen k = Some g"
    and room: "if before_room k then room = None else room = start_room k \<and> room \<noteq> None"
  shows "voice_ok (call_start_failed g room err (taken k s))"
proof (cases "vb_generation s = g")
  case False
  have "\<not> tears_down k" using k(2) tears_down_no_start [of k] by auto
  then show ?thesis using False ok k base_ok_taken [of s k] idle_ok_taken [of s k]
    by (simp add: call_start_failed_def voice_ok_def)
next
  case True
  have b: "base_ok s" using ok by (simp add: voice_ok_def)
  have c: "current_start (taken k s) = []" and ph: "phase_ok s k" using the_start [OF b k(1)] k(2) True by simp_all
  define s' where "s' = (taken k s)\<lparr>vb_room := None, vb_effects := vb_effects s @ (case room of Some r \<Rightarrow> [Room_Disconnect r] | None \<Rightarrow> [Stop_Audio])\<rparr>"
  have "base_ok s'"
    using base_ok_taken [OF b, of k] c ph room unfolding s'_def base_ok_def start_ok_def held_ok_def rooms_ok_def
    by (auto simp: phase_ok_def split: if_splits option.splits)
  moreover have "vb_room s' = None" "current_start s' = []" using c by (simp_all add: s'_def)
  ultimately have "voice_ok (vwait (case room of Some r \<Rightarrow> V_Cleanup_Room r err | None \<Rightarrow> V_Cleanup_Audio err) s')"
    by (rule voice_ok_tear_down) (simp split: option.split)
  then show ?thesis using True
    by (simp add: call_start_failed_def s'_def Let_def vdo_def taken_def split: option.splits)
qed

text \<open>A new generation: the conts that are pending belong to older starts.\<close>

lemma new_generation:
  assumes ok: "base_ok s" and quiet: "\<not> setting_up s"
    and t: "vb_generation t = vb_generation s + 1" "vb_pending t = vb_pending s" "vb_room t = None"
      "vb_rooms t = vb_rooms s \<or> (\<exists>r. vb_rooms t = vb_rooms (remove_all_listeners r s))" "vb_gone t = vb_gone s"
      "set (vb_effects s) \<subseteq> set (vb_effects t)" "\<And>r. vb_room s = Some r \<Longrightarrow> Room_Disconnect r \<in> set (vb_effects t)"
  shows "base_ok t" and "current_start t = []"
proof -
  have le: "g \<le> vb_generation s" if "k \<in> set (vb_pending s)" "start_gen k = Some g" for k g
    using ok that by (simp add: base_ok_def start_ok_def)
  then show c: "current_start t = []" using t by (fastforce simp: of_gen_def filter_empty_conv)
  have "\<not> sets_up_audio k" if "k \<in> set (vb_pending s)" for k
    using quiet that by (simp add: setting_up_def list_ex_iff)
  then have "start_ok t" using c t le by (fastforce simp: start_ok_def)
  moreover have "length (vb_rooms t) = length (vb_rooms s)"
    using t(4) by (auto simp: remove_all_listeners_def split: if_splits)
  then have "rooms_ok t" using ok t by (auto simp: base_ok_def rooms_ok_def)
  moreover have "held_ok t" using t by (simp add: held_ok_def)
  ultimately show "base_ok t" by (simp add: base_ok_def)
qed

lemma voice_ok_initiate:
  assumes "voice_ok s" "\<not> setting_up s" "\<not> tearing_down s"
  shows "voice_ok (initiate_call cfg fresh s)"
proof (cases "vb_room s")
  case None
  define t where "t = vdo (Fetch_Voice_Token cfg) (vset V_Connecting (s\<lparr>vb_generation := vb_generation s + 1,
    vb_intentional := False, vb_error := None, vb_transcripts := [], vb_activeTask := None\<rparr>))"
  have b: "base_ok s" using assms by (simp add: voice_ok_def)
  have "base_ok t" "current_start t = []"
    by (rule new_generation [OF b assms(2)]; use None in \<open>auto simp: t_def voice_defs\<close>)+
  moreover have "phase_ok t (V_Token (vb_generation s + 1) sid)" for sid
    using None assms(3) by (simp add: phase_ok_def t_def voice_defs tearing_down_def)
  ultimately show ?thesis using None voice_ok_next [of t]
    by (simp add: initiate_call_def Let_def t_def [symmetric]) (simp add: t_def voice_defs)
qed (use assms in \<open>simp add: initiate_call_def\<close>)

lemma voice_ok_hang_up:
  assumes "voice_ok s" "\<not> setting_up s"
  shows "voice_ok (hang_up s)"
proof -
  define t where "t = s\<lparr>vb_generation := vb_generation s + 1, vb_intentional := True, vb_room := None,
    vb_effects := vb_effects s @ (case vb_room s of Some r \<Rightarrow> [Room_Disconnect r] | None \<Rightarrow> [Stop_Audio])\<rparr>"
  have b: "base_ok s" using assms by (simp add: voice_ok_def)
  have "base_ok t" "current_start t = []"
    by (rule new_generation [OF b assms(2)]; auto simp: t_def)+
  then have "voice_ok (vwait (case vb_room s of Some r \<Rightarrow> V_End_Room r | None \<Rightarrow> V_End_Audio) t)"
    by (intro voice_ok_tear_down) (simp_all add: t_def split: option.split)
  then show ?thesis by (simp add: hang_up_def t_def voice_defs split: option.splits)
qed

lemma voice_ok_unmount:
  assumes "voice_ok s" "\<not> setting_up s"
  shows "voice_ok (unmount s)"
proof -
  have b: "base_ok s" using assms by (simp add: voice_ok_def)
  have "base_ok (unmount s)"
    by (rule new_generation(1) [OF b assms(2)])
      (cases "vb_room s"; auto simp: unmount_def voice_defs remove_all_listeners_def)+
  moreover have "\<not> vb_mounted (unmount s)"
    by (simp add: unmount_def voice_defs remove_all_listeners_def split: option.split)
  ultimately show ?thesis by (simp add: voice_ok_def idle_ok_def)
qed

lemma voice_ok_mute:
  assumes "voice_ok s"
  shows "voice_ok (toggle_voice_mute s)"
proof (cases "vb_room s")
  case None
  have "same_call s (toggle_voice_mute s)" using None by (auto simp: toggle_voice_mute_def same_call_def Let_def)
  with assms show ?thesis by (rule same_call_ok)
next
  case (Some r)
  have "same_call s (vdo e (s\<lparr>vb_muted := b\<rparr>))" "same_call s (vdo e (s\<lparr>vb_muted := b, vb_localLevel := 0\<rparr>))" for e b
    by (auto simp: same_call_def vdo_def)
  note ok = this [THEN same_call_ok [OF assms]]
  show ?thesis
  proof (cases "vb_muted s")
    case True
    then have "toggle_voice_mute s = vwait (V_Mute True) (vdo (Set_Microphone r True) (s\<lparr>vb_muted := False\<rparr>))"
      using Some by (simp add: toggle_voice_mute_def Let_def)
    then show ?thesis using voice_ok_wait [OF ok(1)] by simp
  next
    case False
    then have "toggle_voice_mute s =
        vwait (V_Mute False) (vdo (Set_Microphone r False) (s\<lparr>vb_muted := True, vb_localLevel := 0\<rparr>))"
      using Some by (simp add: toggle_voice_mute_def Let_def)
    then show ?thesis using voice_ok_wait [OF ok(2)] by simp
  qed
qed

lemma voice_ok_speakerphone:
  assumes "voice_ok s"
  shows "voice_ok (toggle_speakerphone s)"
proof -
  have "same_call s (vdo e (s\<lparr>vb_speaker := b\<rparr>))" for b e by (auto simp: same_call_def vdo_def)
  from voice_ok_wait [OF same_call_ok [OF assms this]] show ?thesis by (simp add: toggle_speakerphone_def Let_def)
qed

lemma voice_ok_interrupt:
  assumes "voice_ok s"
  shows "voice_ok (interrupt conn s)"
proof -
  have "same_call s (vdo e (s\<lparr>vb_userSpeaking := a, vb_botSpeaking := b\<rparr>))" for a b e by (auto simp: same_call_def vdo_def)
  from voice_ok_wait [OF same_call_ok [OF assms this]] assms show ?thesis by (simp add: interrupt_def split: option.split)
qed

lemma voice_ok_level_tick: "voice_ok s \<Longrightarrow> voice_ok (level_tick l rs s)"
  by (erule same_call_ok) (simp add: same_call_def level_tick_def)

lemma voice_ok_lost:
  assumes ok: "voice_ok s" and r: "vb_room s = Some r"
  shows "voice_ok (room_lost r s)"
proof -
  have nb: "\<not> before_room k" if "k \<in> set (current_start s)" for k
    using ok r that unfolding voice_ok_def base_ok_def start_ok_def list_all_iff phase_ok_def by (metis option.distinct(1))
  have len: "length (vb_rooms (remove_all_listeners r t)) = length (vb_rooms t)" for t
    by (simp add: remove_all_listeners_def)
  define t where "t = room_lost r s"
  have f: "vb_room t = None" "vb_generation t = vb_generation s" "vb_pending t = vb_pending s"
    "vb_gone t = r # vb_gone s" "set (vb_effects s) \<subseteq> set (vb_effects t)" "length (vb_rooms t) = length (vb_rooms s)"
    "\<not> live_status (vb_status t)"
    by (auto simp: t_def room_lost_def voice_defs remove_all_listeners_def live_status_def)
  have "start_ok t" using ok nb f unfolding voice_ok_def base_ok_def start_ok_def phase_ok_def list_all_iff by auto
  moreover have "held_ok t" using f by (simp add: held_ok_def)
  moreover have "rooms_ok t" using ok r f by (auto simp: voice_ok_def base_ok_def rooms_ok_def)
  moreover have "idle_ok t" using f by (simp add: idle_ok_def)
  ultimately show ?thesis by (simp add: voice_ok_def base_ok_def t_def)
qed

lemma voice_ok_event:
  assumes ok: "voice_ok s"
  shows "voice_ok (handle_voice_event r ev s)"
proof (cases "r \<ge> length (vb_rooms s) \<or> \<not> vr_listening (vb_rooms s ! r) \<or> \<not> room_current (vr_generation (vb_rooms s ! r)) r s")
  case True
  then show ?thesis using ok by (simp add: handle_voice_event_def)
next
  case False
  then have r: "vb_room s = Some r" "r < length (vb_rooms s)" by (simp_all add: room_current_def)
  show ?thesis
  proof (cases "ev = Room_Disconnected")
    case True
    then show ?thesis using False voice_ok_lost [OF ok r(1)] by (simp add: handle_voice_event_def)
  next
    case ne: False
    then have "same_call s (handle_voice_event r ev s)"
      using r by (cases ev) (auto simp: handle_voice_event_def same_call_def vset_def Let_def set_agent_audio_def live_status_def
        voice_data_received_def nth_list_update split: option.split voice_packet.split)
    from same_call_ok [OF ok this] show ?thesis .
  qed
qed

text \<open>The awaited answers.\<close>

lemma base_ok_effect:
  assumes "base_ok s" "vb_room t = vb_room s" "vb_generation t = vb_generation s" "vb_pending t = vb_pending s"
    "vb_status t = vb_status s" "vb_rooms t = vb_rooms s" "vb_gone t = vb_gone s" "set (vb_effects s) \<subseteq> set (vb_effects t)"
    "vb_mounted t = vb_mounted s"
  shows "base_ok t"
  by (rule same_call_base [OF assms(1)]) (simp add: same_call_def assms)

text \<open>The start in progress goes on to its next await before it has a room.\<close>

lemma voice_ok_set_up:
  assumes ok: "voice_ok s" and k: "k \<in> set (vb_pending s)" "start_gen k = Some (vb_generation s)" "before_room k"
    and k': "start_gen k' = Some (vb_generation s)" "before_room k'"
  shows "voice_ok (vwait k' (vdo e (taken k s)))"
proof -
  have b: "base_ok s" using ok by (simp add: voice_ok_def)
  note c = the_start [OF b k(1,2)]
  have "base_ok (vdo e (taken k s))" by (rule base_ok_effect [OF base_ok_taken [OF b]]) (auto simp: vdo_def)
  moreover have "phase_ok (vdo e (taken k s)) k'"
    using c(2) k(3) k'(2) tearing_down_taken [of k s] by (auto simp: phase_ok_def vdo_def tearing_down_def)
  ultimately show ?thesis using c(1) k' by (intro voice_ok_next) (simp_all add: vdo_def)
qed

lemma sets_up_before: "sets_up_audio k \<Longrightarrow> before_room k"
  by (cases k) auto

lemma set_up_current:
  "voice_ok s \<Longrightarrow> k \<in> set (vb_pending s) \<Longrightarrow> sets_up_audio k \<Longrightarrow> start_gen k = Some (vb_generation s)"
  by (auto simp: voice_ok_def base_ok_def start_ok_def of_gen_def)

lemma voice_ok_token:
  assumes ok: "voice_ok s" and k: "V_Token g sid \<in> set (vb_pending s)"
  shows "voice_ok (voice_token_settled g sid fr res (taken (V_Token g sid) s))"
proof (cases "token_answer fr sid res")
  case (Inl e)
  then show ?thesis using voice_ok_failed [OF ok k, of g None] by (simp add: voice_token_settled_def)
next
  case (Inr t)
  show ?thesis
  proof (cases "vb_generation s = g")
    case True
    then show ?thesis using Inr voice_ok_set_up [OF ok k, of "V_Configure g t"] by (simp add: voice_token_settled_def)
  next
    case False
    then show ?thesis using Inr ok base_ok_taken [of s] idle_ok_taken [of s "V_Token g sid"]
      by (simp add: voice_token_settled_def voice_ok_def)
  qed
qed

lemma voice_ok_room:
  assumes ok: "voice_ok s" and k: "V_Select g t \<in> set (vb_pending s)"
  shows "voice_ok (create_room g t (taken (V_Select g t) s))"
proof -
  have b: "base_ok s" using ok by (simp add: voice_ok_def)
  have g: "g = vb_generation s" using set_up_current [OF ok k] by simp
  note c = the_start [OF b k, unfolded g, simplified]
  define u where "u = vdo (Room_Connect (length (vb_rooms s)) (vk_wsUrl t) (vk_token t))
    ((taken (V_Select g t) s)\<lparr>vb_room := Some (length (vb_rooms s)),
       vb_rooms := vb_rooms s @ [\<lparr>vr_generation = g, vr_hasAgentAudio = False, vr_listening = True\<rparr>]\<rparr>)"
  have cs: "current_start u = []" using c(1) by (simp add: u_def vdo_def g)
  have ph: "vb_room s = None" "\<not> tearing_down s" "vb_status s = V_Connecting" using c(2) by (simp_all add: phase_ok_def g)
  have "start_ok u" using base_ok_taken [OF b, of "V_Select g t"] cs by (simp add: base_ok_def start_ok_def u_def vdo_def)
  moreover have "held_ok u" using ph tearing_down_taken [of "V_Select g t" s]
    by (auto simp: held_ok_def u_def vdo_def g live_status_def tearing_down_def)
  moreover have "rooms_ok u" using b ph by (auto simp: base_ok_def rooms_ok_def u_def vdo_def nth_append less_Suc_eq)
  moreover have "idle_ok u" by (simp add: idle_ok_def u_def vdo_def)
  ultimately have "voice_ok (vwait (V_Connect g (length (vb_rooms s))) u)"
    using cs by (intro voice_ok_next) (simp_all add: base_ok_def phase_ok_def u_def vdo_def g)
  then show ?thesis by (simp add: create_room_def u_def Let_def)
qed

lemma voice_ok_connect:
  assumes ok: "voice_ok s" and k: "V_Connect g r \<in> set (vb_pending s)"
  shows "voice_ok (connect_settled g r joined err (taken (V_Connect g r) s))"
proof -
  let ?k = "V_Connect g r"
  have b: "base_ok s" and bt: "base_ok (taken ?k s)" and it: "idle_ok (taken ?k s)"
    using ok base_ok_taken [of s] idle_ok_taken [of s ?k] by (simp_all add: voice_ok_def)
  consider "\<not> joined" | "joined" "\<not> room_current g r (taken ?k s)" | "joined" "room_current g r (taken ?k s)" by blast
  then show ?thesis
  proof cases
    case 1
    then show ?thesis using voice_ok_failed [OF ok k, of g "Some r"] by (simp add: connect_settled_def)
  next
    case 2
    let ?u = "vdo (Room_Disconnect r) (taken ?k s)"
    have bu: "base_ok ?u" by (rule base_ok_effect [OF bt]) (auto simp: vdo_def)
    have iu: "idle_ok ?u" using it by (simp add: idle_ok_def vdo_def tearing_down_def)
    have "voice_ok (vwait (V_Abandon g r) ?u)"
    proof (cases "g = vb_generation s")
      case True
      note c = the_start [OF b k, unfolded True, simplified]
      have "phase_ok ?u (V_Abandon g r)" using c(2) True by (simp add: phase_ok_def vdo_def)
      then show ?thesis using bu iu c(1) True by (intro voice_ok_next) (simp_all add: vdo_def)
    next
      case False
      then have "g < vb_generation s" using b k by (fastforce simp: base_ok_def start_ok_def)
      then show ?thesis using bu iu
        by (auto simp: voice_ok_def base_ok_def start_ok_def held_ok_def rooms_ok_def idle_ok_def vwait_def vdo_def
            of_gen_def tearing_down_def phase_ok_def list_all_iff)
    qed
    with 2 show ?thesis by (simp add: connect_settled_def)
  next
    case 3
    then have g: "g = vb_generation s" and r: "vb_room s = Some r" by (simp_all add: room_current_def)
    note c = the_start [OF b k, unfolded g, simplified]
    let ?u = "vdo (Set_Microphone r (\<not> vb_muted (taken ?k s)))
      (vset (if has_agent_audio r (taken ?k s) then V_Connected else V_Waiting) (taken ?k s))"
    have sc: "same_call (taken ?k s) ?u" using r by (auto simp: same_call_def vdo_def vset_def live_status_def)
    have "voice_ok (vwait (V_Mic g r) ?u)"
      by (rule voice_ok_next [OF same_call_base [OF bt sc]])
        (use c r g same_call_idle [OF it sc] in \<open>simp_all add: phase_ok_def vdo_def vset_def\<close>)
    with 3 show ?thesis by (simp add: connect_settled_def)
  qed
qed

lemma voice_ok_drop:
  assumes "voice_ok s" "\<not> tears_down k" "\<not> before_room k"
  shows "voice_ok (taken k s)"
  using assms base_ok_taken [of s k] idle_ok_taken [of s k] by (simp add: voice_ok_def)

text \<open>A tear-down goes on, or ends; there is no room meanwhile.\<close>

lemma no_room_while_tearing_down:
  assumes "voice_ok s" "k \<in> set (vb_pending s)" "tears_down k"
  shows "vb_room s = None" and "k' \<in> set (current_start s) \<Longrightarrow> \<not> before_room k'"
proof -
  have td: "tearing_down s" using assms(2,3) by (auto simp: tearing_down_def list_ex_iff)
  show "vb_room s = None" using assms(1) td by (cases "vb_room s") (auto simp: voice_ok_def base_ok_def held_ok_def)
  show "\<not> before_room k'" if "k' \<in> set (current_start s)"
    using that assms(1) td by (auto simp: voice_ok_def base_ok_def start_ok_def list_all_iff phase_ok_def)
qed

lemma tear_down_base:
  assumes ok: "voice_ok s" and k: "k \<in> set (vb_pending s)" "tears_down k"
    and t: "vb_room t = vb_room s" "vb_generation t = vb_generation s" "vb_pending t = remove1 k (vb_pending s)"
      "length (vb_rooms t) = length (vb_rooms s)" "vb_gone t = vb_gone s" "set (vb_effects s) \<subseteq> set (vb_effects t)"
  shows "base_ok t" and "vb_room t = None" and "k' \<in> set (current_start t) \<Longrightarrow> \<not> before_room k'"
proof -
  note no = no_room_while_tearing_down [OF ok k]
  have cs: "current_start t = current_start s"
    using other_start [of k s] tears_down_no_start [OF k(2)] t by simp
  show room: "vb_room t = None" using no t by simp
  show nb: "\<not> before_room k'" if "k' \<in> set (current_start t)" for k' using that no cs by metis
  have "start_ok t"
    using ok no cs t(1,2,3) set_remove1_subset [of k "vb_pending s"] unfolding voice_ok_def base_ok_def start_ok_def list_all_iff phase_ok_def
    by (metis (no_types, lifting) subsetD)
  then show "base_ok t" using ok t room by (auto simp: voice_ok_def base_ok_def held_ok_def rooms_ok_def)
qed

lemma voice_ok_tear_down_on:
  assumes ok: "voice_ok s" and k: "k \<in> set (vb_pending s)" "tears_down k" and k': "tears_down k'"
  shows "voice_ok (vwait k' (vdo e (remove_all_listeners r (taken k s))))"
proof -
  let ?u = "vdo e (remove_all_listeners r (taken k s))"
  have "base_ok ?u" "vb_room ?u = None" and nb: "\<And>x. x \<in> set (current_start ?u) \<Longrightarrow> \<not> before_room x"
    by (rule tear_down_base [OF ok k]; auto simp: vdo_def remove_all_listeners_def)+
  then show ?thesis using k' tears_down_no_start [OF k'] no_start [of k']
    by (auto simp: voice_ok_def base_ok_def start_ok_def held_ok_def rooms_ok_def idle_ok_def vwait_def of_gen_def
        tearing_down_def phase_ok_def list_all_iff)
qed

lemma voice_ok_torn_down:
  assumes ok: "voice_ok s" and k: "k \<in> set (vb_pending s)" "tears_down k"
    and t: "vb_room t = vb_room s" "vb_generation t = vb_generation s" "vb_pending t = remove1 k (vb_pending s)"
      "vb_rooms t = vb_rooms s" "vb_gone t = vb_gone s" "vb_effects t = vb_effects s" "\<not> live_status (vb_status t)"
  shows "voice_ok t"
  using tear_down_base(1) [OF ok k, of t] t by (simp add: voice_ok_def idle_ok_def)

lemma voice_ok_control:
  assumes "voice_ok s" "k \<in> set (vb_pending s)" "start_gen k = None" "\<not> tears_down k"
    and "vb_room t = vb_room s" "vb_generation t = vb_generation s" "vb_mounted t = vb_mounted s"
      "vb_pending t = remove1 k (vb_pending s)" "vb_effects t = vb_effects s" "vb_gone t = vb_gone s" "vb_rooms t = vb_rooms s"
      "vb_status t = vb_status s"
  shows "voice_ok t"
  by (rule same_call_ok [OF voice_ok_drop [OF assms(1,4)]]) (use assms no_start in \<open>auto simp: same_call_def\<close>)

lemma voice_ok_settles:
  assumes ok: "voice_ok s" and k: "k \<in> set (vb_pending s)"
  shows "voice_ok (voice_settled fr k oc (taken k s))"
proof (cases k)
  case (V_Configure g t)
  then show ?thesis
    using voice_ok_failed [OF ok k, of g None] set_up_current [OF ok k] voice_ok_set_up [OF ok k, of "V_Start g t"]
    by (simp add: voice_settled_def Let_def)
next
  case (V_Start g t)
  then show ?thesis
    using voice_ok_failed [OF ok k, of g None] set_up_current [OF ok k] voice_ok_set_up [OF ok k, of "V_Select g t"]
    by (simp add: voice_settled_def Let_def)
next
  case (V_Abandon g r)
  then show ?thesis using voice_ok_failed [OF ok k, of g "Some r"] voice_ok_drop [OF ok, of k]
    by (simp add: voice_settled_def Let_def)
next
  case (V_Mic g r)
  then show ?thesis using voice_ok_failed [OF ok k, of g "Some r"] voice_ok_drop [OF ok, of k]
    by (simp add: voice_settled_def Let_def)
next
  case (V_Cleanup_Audio e)
  show ?thesis by (rule voice_ok_torn_down [OF ok k]; simp add: V_Cleanup_Audio voice_settled_def voice_defs live_status_def)
next
  case V_End_Audio
  show ?thesis by (rule voice_ok_torn_down [OF ok k]; simp add: V_End_Audio voice_settled_def voice_defs live_status_def)
next
  case (V_Publish r)
  then have "voice_ok (taken k s)" using voice_ok_drop [OF ok, of k] by simp
  then show ?thesis using V_Publish by (simp add: voice_settled_def Let_def voice_ok_wait)
next
  case (V_Mute b)
  show ?thesis by (rule voice_ok_control [OF ok k]; simp add: V_Mute voice_settled_def Let_def)
next
  case (V_Speaker b)
  show ?thesis by (rule voice_ok_control [OF ok k]; simp add: V_Speaker voice_settled_def Let_def)
next
  case (V_Restore r)
  show ?thesis by (rule voice_ok_control [OF ok k]; simp add: V_Restore voice_settled_def Let_def restore_speaking_def)
qed (use ok k voice_ok_token voice_ok_room voice_ok_connect voice_ok_tear_down_on [OF ok k] in
    \<open>simp_all add: voice_settled_def Let_def\<close>)

interpretation voice_session: machine "polite_step fr" voice_ok
proof
  fix s e
  assume ok: "voice_ok s"
  show "voice_ok (polite_step fr s e)"
    using ok voice_ok_initiate [OF ok] voice_ok_hang_up [OF ok] voice_ok_unmount [OF ok] voice_ok_mute [OF ok]
      voice_ok_speakerphone [OF ok] voice_ok_interrupt [OF ok] voice_ok_level_tick [OF ok] voice_ok_event [OF ok]
      voice_ok_settles [OF ok]
    by (cases e) (simp_all add: polite_step_def sequential_def vb_step_def taken_def)
qed

lemma sequential_ok: "sequential_run fr vb_init es \<Longrightarrow> voice_ok (run (vb_step fr) vb_init es)"
  by (simp add: sequential_polite voice_session.inv_run voice_init)

section \<open>Claims\<close>

text \<open>The last answer of a tear-down takes the call off the screen.\<close>

lemma tear_down_ends:
  "tears_down k \<Longrightarrow> k \<in> set (vb_pending s) \<Longrightarrow> tearing_down (vb_step fr s (Settles k oc)) \<or> \<not> live_status (vb_status (vb_step fr s (Settles k oc)))"
  by (cases k) (auto simp: vb_step_def voice_settled_def voice_defs remove_all_listeners_def tearing_down_def live_status_def)

text \<open>C28. In every run in which no call is started while another start sets up the audio session or while an ended or
failed call is torn down, and none is ended or unmounted during that set-up, the mobile voice session keeps track of
its rooms. A held room belongs to the current generation, listens, is shown as live, and no tear-down is under way;
every other room ever created was told to disconnect or reported that it is gone. Without a room, a mounted session
shows a live status in two cases only: it shows connecting and the current start still waits for its token or its audio
session, or a tear-down is under way, no start of the current generation is before its room, and each answer of the
tear-down either leaves a further one to wait for or takes the live status off the screen.\<close>

theorem mobile_calls_are_tracked:
  assumes "sequential_run fr vb_init es" and "s = run (vb_step fr) vb_init es"
  shows "(case vb_room s of
        Some r \<Rightarrow> r < length (vb_rooms s) \<and> vr_generation (vb_rooms s ! r) = vb_generation s \<and> vr_listening (vb_rooms s ! r)
          \<and> live_status (vb_status s) \<and> \<not> tearing_down s
      | None \<Rightarrow> vb_mounted s \<and> live_status (vb_status s) \<longrightarrow>
          (if tearing_down s
           then \<not> list_ex before_room (current_start s)
             \<and> list_all (\<lambda>k. tears_down k \<longrightarrow> (\<forall>oc. tearing_down (vb_step fr s (Settles k oc))
                 \<or> \<not> live_status (vb_status (vb_step fr s (Settles k oc))))) (vb_pending s)
           else vb_status s = V_Connecting \<and> list_ex before_room (current_start s)))
    \<and> list_all (\<lambda>r. vb_room s = Some r \<or> Room_Disconnect r \<in> set (vb_effects s) \<or> r \<in> set (vb_gone s))
        [0..<length (vb_rooms s)]"
proof -
  have ok: "voice_ok s" unfolding assms(2) by (rule sequential_ok [OF assms(1)])
  have inv: "rooms_ok s" "held_ok s" "idle_ok s" and ph: "list_all (phase_ok s) (current_start s)"
    using ok by (simp_all add: voice_ok_def base_ok_def start_ok_def)
  have connecting: "vb_status s = V_Connecting \<and> \<not> tearing_down s" if "list_ex before_room (current_start s)"
    using that ph unfolding list_ex_iff list_all_iff phase_ok_def by metis
  have down: "list_all (\<lambda>k. tears_down k \<longrightarrow> (\<forall>oc. tearing_down (vb_step fr s (Settles k oc))
      \<or> \<not> live_status (vb_status (vb_step fr s (Settles k oc))))) (vb_pending s)"
    using tear_down_ends by (simp add: list_all_iff)
  have gone: "list_all (\<lambda>r. vb_room s = Some r \<or> Room_Disconnect r \<in> set (vb_effects s) \<or> r \<in> set (vb_gone s))
        [0..<length (vb_rooms s)]" using inv(1) by (simp add: rooms_ok_def list_all_iff)
  have idle: "if tearing_down s then \<not> list_ex before_room (current_start s)
      else vb_status s = V_Connecting \<and> list_ex before_room (current_start s)"
    if "vb_mounted s" "live_status (vb_status s)" "vb_room s = None"
    using that inv(3) connecting unfolding idle_ok_def by presburger
  show ?thesis
  proof (cases "vb_room s")
    case None
    then show ?thesis using gone idle down by (simp split: if_splits)
  next
    case (Some r)
    then show ?thesis using inv(2) gone by (simp add: held_ok_def)
  qed
qed

definition demo_reply :: "reply ext" where
  "demo_reply = Ret \<lparr>rp_status = 200, rp_json = Ret (JObj [(''token'', JStr ''jwt''), (''ws_url'', JStr ''wss://lk'')])\<rparr>"

definition demo_ok :: outcome where
  "demo_ok = \<lparr>oc_ok = True, oc_error = JUndef, oc_reply = demo_reply, oc_remoteSpeaks = True\<rparr>"

definition demo_failed :: outcome where
  "demo_failed = demo_ok\<lparr>oc_ok := False, oc_error := JObj [(''message'', JStr ''refused'')]\<rparr>"

definition demo_token :: voice_token where
  "demo_token = \<lparr>vk_token = ''jwt'', vk_wsUrl = ''wss://lk'', vk_room = [], vk_identity = [], vk_sessionId = Some ''s''\<rparr>"

definition demo_config :: voice_config where
  "demo_config = \<lparr>vc_sessionId = Some ''s'', vc_participantName = None, vc_profileVersion = None\<rparr>"

text \<open>The steps of a start up to its room, and to the end.\<close>

definition demo_prepare :: "nat \<Rightarrow> voice_step list" where
  "demo_prepare g = [Initiate demo_config ''x'', Settles (V_Token g ''s'') demo_ok, Settles (V_Configure g demo_token) demo_ok]"

definition demo_join :: "nat \<Rightarrow> nat \<Rightarrow> voice_step list" where
  "demo_join g r = [Settles (V_Start g demo_token) demo_ok, Settles (V_Select g demo_token) demo_ok,
     Settles (V_Connect g r) demo_ok, From_Room r (Track_Subscribed True)]"

definition demo_fr :: "rat \<Rightarrow> string" where
  "demo_fr q = []"

lemmas demo_defs = demo_reply_def demo_ok_def demo_failed_def demo_token_def demo_config_def demo_prepare_def demo_join_def

definition demo_call :: vb where
  "demo_call = run (vb_step demo_fr) vb_init (demo_prepare 1 @ demo_join 1 0)"

theorem mobile_calls_are_tracked_witness:
  "vb_room demo_call = Some 0 \<and> vb_status demo_call = V_Connected \<and> live_status (vb_status demo_call)
   \<and> list_all (\<lambda>r. vb_room demo_call = Some r \<or> Room_Disconnect r \<in> set (vb_effects demo_call) \<or> r \<in> set (vb_gone demo_call))
       [0..<length (vb_rooms demo_call)]"
proof -
  have "sequential_run demo_fr vb_init (demo_prepare 1 @ demo_join 1 0)" by code_simp
  from mobile_calls_are_tracked [OF this demo_call_def]
  have "list_all (\<lambda>r. vb_room demo_call = Some r \<or> Room_Disconnect r \<in> set (vb_effects demo_call) \<or> r \<in> set (vb_gone demo_call))
       [0..<length (vb_rooms demo_call)]" ..
  moreover have "vb_room demo_call = Some 0 \<and> vb_status demo_call = V_Connected" by code_simp
  ultimately show ?thesis by (simp add: live_status_def)
qed

text \<open>The call that is started, hung up while the phone sets up its audio, and started again: the first start goes on,
takes the place of the second call, whose microphone is live, and hanging up then leaves that room.\<close>

definition demo_overtaken :: "voice_step list" where
  "demo_overtaken = demo_prepare 1 @ [End_Call, Settles V_End_Audio demo_ok] @ demo_prepare 3 @ demo_join 3 0
     @ [Settles (V_Mic 3 0) demo_ok, Settles (V_Start 1 demo_token) demo_ok, Settles (V_Select 1 demo_token) demo_ok,
        Settles (V_Connect 1 1) demo_ok, Settles (V_Abandon 1 1) demo_ok,
        End_Call, Settles (V_End_Room 1) demo_ok, Settles V_End_Audio demo_ok]"

text \<open>Without that discipline a call can outlive its end: after a start that was hung up while the phone set up its
audio, a second call that is then ended is shown as disconnected and no promise is pending, but its room was neither
told to disconnect nor is it gone, and its microphone was switched on.\<close>

theorem overtaken_start_leaks_call:
  "let s = run (vb_step demo_fr) vb_init demo_overtaken in
     vb_status s = V_Disconnected \<and> vb_room s = None \<and> vb_pending s = []
     \<and> Set_Microphone 0 True \<in> set (vb_effects s) \<and> Set_Microphone 0 False \<notin> set (vb_effects s)
     \<and> Room_Disconnect 0 \<notin> set (vb_effects s) \<and> 0 \<notin> set (vb_gone s)"
  by code_simp

section \<open>Credentials and addressees\<close>

fun joins :: "voice_effect \<Rightarrow> (nat \<times> string \<times> string) option" where
  "joins (Room_Connect r url tok) = Some (r, url, tok)"
| "joins _ = None"

fun addressee :: "voice_effect \<Rightarrow> nat option" where
  "addressee (Set_Microphone r _) = Some r"
| "addressee (Publish_Cancel r) = Some r"
| "addressee _ = None"

definition usable :: "string \<Rightarrow> bool" where
  "usable s \<longleftrightarrow> trim s \<noteq> []"

fun cont_token :: "voice_cont \<Rightarrow> voice_token option" where
  "cont_token (V_Configure _ t) = Some t"
| "cont_token (V_Start _ t) = Some t"
| "cont_token (V_Select _ t) = Some t"
| "cont_token _ = None"

definition token_usable :: "voice_cont \<Rightarrow> bool" where
  "token_usable k \<longleftrightarrow> (case cont_token k of Some t \<Rightarrow> usable (vk_wsUrl t) \<and> usable (vk_token t) | None \<Rightarrow> True)"

definition joined_ok :: "vb \<Rightarrow> bool" where
  "joined_ok s \<longleftrightarrow>
     map fst (List.map_filter joins (vb_effects s)) = [0..<length (vb_rooms s)]
     \<and> list_all (\<lambda>(r, url, tok). usable url \<and> usable tok) (List.map_filter joins (vb_effects s))
     \<and> list_all (\<lambda>r. r < length (vb_rooms s)) (List.map_filter addressee (vb_effects s))
     \<and> list_all token_usable (vb_pending s)
     \<and> (\<forall>r. vb_room s = Some r \<longrightarrow> r < length (vb_rooms s))"

lemma map_filter_snoc: "List.map_filter f (xs @ [x]) = List.map_filter f xs @ (case f x of Some y \<Rightarrow> [y] | None \<Rightarrow> [])"
  by (simp add: List.map_filter_def split: option.split)

lemma joined_do:
  assumes "joined_ok s" "joins e = None" "addressee e = None \<or> addressee e = vb_room s"
  shows "joined_ok (vdo e s)"
  using assms by (auto simp: joined_ok_def vdo_def map_filter_snoc split: option.splits)

lemma joined_wait: "joined_ok s \<Longrightarrow> token_usable k \<Longrightarrow> joined_ok (vwait k s)"
  by (simp add: joined_ok_def vwait_def)

lemma joined_same:
  "joined_ok s \<Longrightarrow> vb_effects t = vb_effects s \<Longrightarrow> vb_pending t = vb_pending s \<Longrightarrow> length (vb_rooms t) = length (vb_rooms s)
   \<Longrightarrow> vb_room t = vb_room s \<or> vb_room t = None \<Longrightarrow> joined_ok t"
  by (auto simp: joined_ok_def)

lemma joined_taken:
  assumes "joined_ok s"
  shows "joined_ok (taken k s)"
proof -
  have "list_all token_usable (remove1 k (vb_pending s))"
    using assms set_remove1_subset [of k "vb_pending s"] by (auto simp: joined_ok_def list_all_iff)
  then show ?thesis using assms by (simp add: joined_ok_def)
qed

lemmas token_usable_simps = token_usable_def

lemma joined_set: "joined_ok s \<Longrightarrow> joined_ok (vset st s)"
  by (erule joined_same) (simp_all add: vset_def)

lemma joined_listeners: "joined_ok s \<Longrightarrow> joined_ok (remove_all_listeners r s)"
  by (erule joined_same) (simp_all add: remove_all_listeners_def)

lemma joined_clear: "joined_ok s \<Longrightarrow> joined_ok (clear_session_state s)"
  by (erule joined_same) (simp_all add: clear_session_state_def)

lemmas joined_intros = joined_wait joined_do joined_set joined_listeners joined_clear

lemma joined_failed: "joined_ok s \<Longrightarrow> joined_ok (call_start_failed g room err s)"
  by (auto simp: call_start_failed_def Let_def token_usable_def intro!: joined_intros intro: joined_same split: option.split)

lemma joined_token: "joined_ok s \<Longrightarrow> joined_ok (voice_token_settled g sid fr res s)"
  using token_answer_ok [of fr sid res]
  by (auto simp: voice_token_settled_def token_usable_def usable_def joined_failed intro!: joined_intros split: sum.split)

lemma joined_room:
  assumes "joined_ok s" "usable (vk_wsUrl t)" "usable (vk_token t)"
  shows "joined_ok (create_room g t s)"
proof -
  have "list_all (\<lambda>r. r < Suc (length (vb_rooms s))) xs" if "list_all (\<lambda>r. r < length (vb_rooms s)) xs" for xs
    using that by (auto simp: list_all_iff)
  then show ?thesis using assms
    by (auto simp: create_room_def Let_def joined_ok_def vwait_def vdo_def map_filter_snoc token_usable_def)
qed

lemma joined_connect: "joined_ok s \<Longrightarrow> joined_ok (connect_settled g r ok err s)"
  by (auto simp: connect_settled_def joined_failed token_usable_def room_current_def intro!: joined_wait joined_do joined_set)
     (simp_all add: vset_def)

lemma joined_settles:
  assumes ok: "joined_ok s" and k: "k \<in> set (vb_pending s)"
  shows "joined_ok (voice_settled fr k oc (taken k s))"
proof -
  have "token_usable k" using assms by (auto simp: joined_ok_def list_all_iff)
  then show ?thesis
    using joined_taken [OF ok, of k]
    by (cases k)
       (auto simp: voice_settled_def Let_def joined_token joined_failed joined_connect joined_room token_usable_def
          restore_speaking_def intro!: joined_intros intro: joined_same)
qed

lemma joined_lost: "joined_ok s \<Longrightarrow> joined_ok (room_lost r s)"
proof -
  assume "joined_ok s"
  then have "joined_ok (s\<lparr>vb_room := None, vb_gone := r # vb_gone s\<rparr>)" by (rule joined_same) simp_all
  then have "joined_ok (vdo Stop_Audio (clear_session_state (remove_all_listeners r (s\<lparr>vb_room := None, vb_gone := r # vb_gone s\<rparr>))))"
    by (intro joined_do joined_clear joined_listeners) simp_all
  then show ?thesis unfolding room_lost_def Let_def by (auto intro!: joined_set intro: joined_same [OF joined_set])
qed

interpretation voice_rooms: machine "vb_step fr" joined_ok
proof
  fix s e
  assume ok: "joined_ok s"
  have ev: "joined_ok (handle_voice_event r ev s)" for r ev
    using ok by (auto simp: handle_voice_event_def Let_def voice_data_received_def set_agent_audio_def joined_lost
        intro!: joined_set intro: joined_same
        split: voice_room_event.split option.split voice_packet.split)
  show "joined_ok (vb_step fr s e)"
    using ok joined_settles [OF ok] ev
    by (cases e)
       (auto simp: vb_step_def taken_def [symmetric] initiate_call_def hang_up_def unmount_def toggle_voice_mute_def
          toggle_speakerphone_def interrupt_def level_tick_def token_usable_def Let_def
          intro!: joined_wait joined_do joined_set joined_listeners intro: joined_same split: option.split)
qed

text \<open>C29. In every run at all, each room the mobile voice session creates is joined exactly once, in the order of their
creation, with a server and a token that are not blank, and the microphone and the cancel packet only ever address a
room that was joined.\<close>

theorem rooms_are_joined_with_credentials:
  "let s = run (vb_step fr) vb_init es; joined = List.map_filter joins (vb_effects s) in
     map fst joined = [0..<length (vb_rooms s)]
     \<and> list_all (\<lambda>(r, url, tok). trim url \<noteq> [] \<and> trim tok \<noteq> []) joined
     \<and> list_all (\<lambda>r. r < length (vb_rooms s)) (List.map_filter addressee (vb_effects s))"
proof -
  have "joined_ok vb_init" by (simp add: joined_ok_def vb_init_def List.map_filter_def)
  from voice_rooms.inv_run [OF this, of fr es] show ?thesis
    by (simp add: joined_ok_def Let_def usable_def)
qed

section \<open>What goes wrong\<close>

text \<open>A call that is hung up while the phone sets up its audio goes on to create its room, and that room is held by no
call: the next start is ignored.\<close>

definition demo_hung_up :: vb where
  "demo_hung_up = run (vb_step demo_fr) vb_init (demo_prepare 1 @ [End_Call, Settles V_End_Audio demo_ok,
     Settles (V_Start 1 demo_token) demo_ok, Settles (V_Select 1 demo_token) demo_ok, Settles (V_Connect 1 0) demo_ok,
     Settles (V_Abandon 1 0) demo_ok])"

lemma hung_up_start_blocks_calls:
  "vb_status demo_hung_up = V_Disconnected \<and> vb_pending demo_hung_up = []
   \<and> initiate_call cfg fresh demo_hung_up = demo_hung_up"
proof -
  have "vb_room demo_hung_up = Some 0" by code_simp
  then have "initiate_call cfg fresh demo_hung_up = demo_hung_up" by (simp add: initiate_call_def)
  moreover have "vb_status demo_hung_up = V_Disconnected \<and> vb_pending demo_hung_up = []"
    by code_simp
  ultimately show ?thesis by blast
qed

text \<open>A hang-up that finishes late marks the next call, which is live, as disconnected.\<close>

lemma late_hang_up_hides_call:
  "let s = run (vb_step demo_fr) vb_init (demo_prepare 1 @ demo_join 1 0 @ [End_Call, Settles (V_End_Room 0) demo_ok]
       @ demo_prepare 3 @ demo_join 3 1 @ [Settles V_End_Audio demo_ok])
   in vb_status s = V_Disconnected \<and> vb_room s = Some 1 \<and> has_agent_audio 1 s \<and> Room_Disconnect 1 \<notin> set (vb_effects s)"
  by code_simp

text \<open>An interruption whose packet cannot be sent leaves the user speaking: no later change of the speakers is shown.\<close>

lemma failed_interruption_sticks:
  "let s = run (vb_step demo_fr) demo_call [From_Room 0 (Active_Speakers [False]), Interrupt True,
       Settles (V_Publish 0) demo_failed] in
     vb_userSpeaking s \<and> V_Restore 0 \<notin> set (vb_pending s) \<and> handle_voice_event 0 (Active_Speakers locals) s = s"
proof -
  define s where "s = run (vb_step demo_fr) demo_call [From_Room 0 (Active_Speakers [False]), Interrupt True,
       Settles (V_Publish 0) demo_failed]"
  have "vb_userSpeaking s \<and> V_Restore 0 \<notin> set (vb_pending s)" unfolding s_def by code_simp
  then show ?thesis unfolding Let_def s_def [symmetric] by (simp add: handle_voice_event_def)
qed

text \<open>Three quick mute toggles of a muted call, the first of which fails last: it is shown as muted with a live
microphone.\<close>

lemma failed_toggle_shows_muted:
  "let s = run (vb_step demo_fr) demo_call [Toggle_Mute, Settles (V_Mute False) demo_ok, Toggle_Mute, Toggle_Mute,
       Settles (V_Mute False) demo_ok, Toggle_Mute, Settles (V_Mute True) demo_failed] in
     vb_muted s \<and> last (List.map_filter (\<lambda>e. case e of Set_Microphone r b \<Rightarrow> Some (r, b) | _ \<Rightarrow> None) (vb_effects s)) = (0, True)"
  by code_simp

end
