(* ===== verification/Sandbox_Session.thy ===== *)
theory Sandbox_Session
  imports Livekit_Runtime
begin

text \<open>
  \<open>frontend/src/components/sandbox/TestingSandboxPage.tsx\<close>: the page on which a company talks to its assistant from
  the browser. The state is the React state and the refs of the page; \<open>connectInFlightRef\<close> is set exactly while
  \<open>startSession\<close> is suspended, so it is the phase the start waits in. A click, an event of a room, of the audio
  element or of the watchdog, and the settling of an awaited promise are one step each. Rooms, microphone tracks and
  audio elements are numbered in the order of their creation; what the page does to them is appended to \<open>sb_effects\<close>.
\<close>

section \<open>State\<close>

datatype sandbox_status = Sb_Disconnected | Sb_Connecting | Sb_Connected | Sb_Recovering | Sb_Speaking | Sb_Listening

record sandbox_message =
  sm_id :: jsval
  sm_sender :: string
  sm_text :: string

datatype start_phase =
    Ph_Lock string                \<comment> \<open>awaits the lock of the browser; the session id\<close>
  | Ph_Token                      \<comment> \<open>awaits the token response\<close>
  | Ph_Connect nat                \<comment> \<open>awaits \<open>room.connect\<close>\<close>
  | Ph_Microphone nat             \<comment> \<open>awaits \<open>createLocalAudioTrack\<close>\<close>
  | Ph_Publish nat nat            \<comment> \<open>room, track: awaits \<open>publishTrack\<close>\<close>
  | Ph_Close string               \<comment> \<open>the catch block awaits \<open>close\<close> of the audio context; the message\<close>

datatype sandbox_effect =
    Token_Request string "int option"
  | Join_Room nat jsval jsval     \<comment> \<open>room, server, token\<close>
  | Leave_Room nat
  | Publish_Track nat nat
  | Mute_Track nat
  | Unmute_Track nat
  | Stop_Track nat
  | Pause_Audio nat
  | Close_Audio_Context

record sb =
  sb_status :: sandbox_status
  sb_muted :: bool
  sb_duration :: nat
  sb_messages :: "sandbox_message list"
  sb_error :: "string option"
  sb_roomName :: jsval
  sb_room :: "nat option"
  sb_track :: "nat option"
  sb_element :: "nat option"
  sb_assistantTrack :: "nat option"
  sb_assistantIdentity :: "string option"
  sb_audioContext :: bool
  sb_analyser :: bool
  sb_start :: "start_phase option"
  sb_lock :: bool
  sb_sessionId :: "string option"
  sb_transcriptIds :: "jsval list"
  sb_timer :: "nat option"
  sb_mounted :: bool
  sb_rooms :: nat
  sb_tracks :: nat
  sb_elements :: nat
  sb_effects :: "sandbox_effect list"
  sb_gone :: "nat list"           \<comment> \<open>rooms whose \<open>Disconnected\<close> event was handled\<close>

definition sb_init :: sb where
  "sb_init = \<lparr>sb_status = Sb_Disconnected, sb_muted = False, sb_duration = 0, sb_messages = [], sb_error = None,
     sb_roomName = JNull, sb_room = None, sb_track = None, sb_element = None, sb_assistantTrack = None,
     sb_assistantIdentity = None, sb_audioContext = False, sb_analyser = False, sb_start = None, sb_lock = False,
     sb_sessionId = None, sb_transcriptIds = [], sb_timer = None, sb_mounted = True, sb_rooms = 0, sb_tracks = 0,
     sb_elements = 0, sb_effects = [], sb_gone = []\<rparr>"

definition sb_do :: "sandbox_effect \<Rightarrow> sb \<Rightarrow> sb" where
  "sb_do e s = s\<lparr>sb_effects := sb_effects s @ [e]\<rparr>"

text \<open>\<open>isLive\<close>, and the status with the effect that resets the duration.\<close>

definition is_live :: "sandbox_status \<Rightarrow> bool" where
  "is_live st \<longleftrightarrow> st \<noteq> Sb_Disconnected \<and> st \<noteq> Sb_Connecting"

definition sb_show :: "sandbox_status \<Rightarrow> sb \<Rightarrow> sb" where
  "sb_show st s = s\<lparr>sb_status := st, sb_duration := (if is_live st then sb_duration s else 0)\<rparr>"

definition duration_tick :: "sb \<Rightarrow> sb" where
  "duration_tick s = (if is_live (sb_status s) then s\<lparr>sb_duration := sb_duration s + 1\<rparr> else s)"

definition format_duration :: "nat \<Rightarrow> string" where
  "format_duration secs = pad2 (decimal (secs div 60)) @ '':'' @ pad2 (decimal (secs mod 60))"

section \<open>Settings\<close>

record sandbox_config =
  sc_assistant_name :: jsval
  sc_voice_engine :: jsval
  sc_inbound_greeting :: jsval
  sc_system_prompt :: jsval

text \<open>The answer of \<open>/api/assistant-config\<close>: \<open>None\<close> keeps the settings.\<close>

definition load_sandbox_config :: "bool \<Rightarrow> jsval ext \<Rightarrow> sandbox_config option" where
  "load_sandbox_config ok body =
     (case body of
        Throw _ \<Rightarrow> None
      | Ret json \<Rightarrow>
          if \<not> ok \<or> nullish json \<or> \<not> truthy (get json ''data'') then None
          else let d = get json ''data'' in
            Some \<lparr>sc_assistant_name = js_or (get d ''assistant_name'') (JStr []),
                  sc_voice_engine = js_or (get d ''voice_engine'') (JStr ''Aoede''),
                  sc_inbound_greeting = js_or (get d ''inbound_greeting'') (JStr []),
                  sc_system_prompt = js_or (get d ''system_prompt'') (JStr [])\<rparr>)"

definition load_sandbox_profile :: "jsval \<Rightarrow> (jsval \<times> jsval) option" where
  "load_sandbox_profile p =
     (if truthy p then Some (js_or (get p ''company_name'') (JStr []), js_or (get p ''timezone'') (JStr ''Indian/Mauritius''))
      else None)"

section \<open>Clean-up\<close>

definition cleanup_assistant_audio :: "sb \<Rightarrow> sb" where
  "cleanup_assistant_audio s =
     (case sb_element s of Some e \<Rightarrow> sb_do (Pause_Audio e) s | None \<Rightarrow> s)\<lparr>sb_element := None, sb_assistantTrack := None\<rparr>"

definition release_voice_session_lock :: "sb \<Rightarrow> sb" where
  "release_voice_session_lock s = s\<lparr>sb_lock := False\<rparr>"

definition stop_local_track :: "sb \<Rightarrow> sb" where
  "stop_local_track s = (case sb_track s of Some t \<Rightarrow> (sb_do (Stop_Track t) s)\<lparr>sb_track := None\<rparr> | None \<Rightarrow> s)"

definition close_audio_context :: "sb \<Rightarrow> sb" where
  "close_audio_context s = (if sb_audioContext s then (sb_do Close_Audio_Context s)\<lparr>sb_audioContext := False\<rparr> else s)"

definition leave_room :: "sb \<Rightarrow> sb" where
  "leave_room s = (case sb_room s of Some r \<Rightarrow> (sb_do (Leave_Room r) s)\<lparr>sb_room := None\<rparr> | None \<Rightarrow> s)"

definition clear_agent_timeout :: "sb \<Rightarrow> sb" where
  "clear_agent_timeout s = s\<lparr>sb_timer := None\<rparr>"

definition arm_agent_timeout :: "nat \<Rightarrow> sb \<Rightarrow> sb" where
  "arm_agent_timeout r s = (clear_agent_timeout s)\<lparr>sb_timer := Some r\<rparr>"

definition drop_assistant :: "sb \<Rightarrow> sb" where
  "drop_assistant s = (cleanup_assistant_audio s)\<lparr>sb_assistantIdentity := None\<rparr>"

definition fail_voice_session :: "nat \<Rightarrow> string \<Rightarrow> sb \<Rightarrow> sb" where
  "fail_voice_session r msg s =
     (if sb_room s \<noteq> Some r then s
      else let s = stop_local_track (release_voice_session_lock (drop_assistant (clear_agent_timeout s)));
               s = (close_audio_context (leave_room s))\<lparr>sb_analyser := False, sb_sessionId := None, sb_roomName := JNull\<rparr> in
           (sb_show Sb_Disconnected s)\<lparr>sb_error := Some msg\<rparr>)"

text \<open>The watchdog: its timer stays set after it fired.\<close>

definition agent_timer_fired :: "sb \<Rightarrow> sb" where
  "agent_timer_fired s =
     (case sb_timer s of
        Some r \<Rightarrow> fail_voice_session r ''The voice worker stopped responding. Start a new voice session to continue.'' s
      | None \<Rightarrow> s)"

section \<open>Starting a session\<close>

definition start_session :: "string \<Rightarrow> sb \<Rightarrow> sb" where
  "start_session sid s =
     (if sb_start s \<noteq> None \<or> sb_room s \<noteq> None then s
      else (sb_show Sb_Connecting (s\<lparr>sb_error := None\<rparr>))\<lparr>sb_start := Some (Ph_Lock sid)\<rparr>)"

definition system_message :: "string \<Rightarrow> string \<Rightarrow> sandbox_message" where
  "system_message i t = \<lparr>sm_id = JStr i, sm_sender = ''system'', sm_text = t\<rparr>"

text \<open>The lock: whether the browser has locks, and whether it was granted.\<close>

definition lock_settled :: "string \<Rightarrow> int option \<Rightarrow> string \<Rightarrow> bool \<Rightarrow> bool \<Rightarrow> sb \<Rightarrow> sb" where
  "lock_settled intro version sid locks granted s =
     (if locks \<and> \<not> granted
      then (sb_show Sb_Disconnected s)\<lparr>sb_start := None,
          sb_error := Some ''A voice session is already active in another browser tab. End it there before starting a new one.''\<rparr>
      else sb_do (Token_Request sid version) (s\<lparr>sb_lock := (locks \<or> sb_lock s), sb_sessionId := Some sid,
             sb_transcriptIds := [], sb_messages := [system_message ''msg-init'' intro], sb_start := Some Ph_Token\<rparr>))"

definition start_catch_end :: "string \<Rightarrow> sb \<Rightarrow> sb" where
  "start_catch_end msg s =
     (clear_agent_timeout (sb_show Sb_Disconnected
        (s\<lparr>sb_audioContext := False, sb_analyser := False, sb_roomName := JNull\<rparr>)))
       \<lparr>sb_error := Some (str_or msg ''Could not connect to the LiveKit voice session.''), sb_start := None\<rparr>"

definition start_catch :: "string \<Rightarrow> sb \<Rightarrow> sb" where
  "start_catch msg s =
     (let s = stop_local_track (leave_room (release_voice_session_lock (drop_assistant s))) in
      if sb_audioContext s then (sb_do Close_Audio_Context s)\<lparr>sb_start := Some (Ph_Close msg)\<rparr>
      else start_catch_end msg s)"

text \<open>The token response: rejected, or its status and its parsed body.\<close>

definition sandbox_token_settled :: "(rat \<Rightarrow> string) \<Rightarrow> (bool \<times> int \<times> jsval ext) ext \<Rightarrow> sb \<Rightarrow> sb" where
  "sandbox_token_settled fr res s =
     (case res of
        Throw m \<Rightarrow> start_catch m s
      | Ret (ok, status, body) \<Rightarrow>
          if \<not> ok
          then let b = (case body of Ret v \<Rightarrow> v | Throw _ \<Rightarrow> JNull) in
            start_catch (js_string fr (js_or (get b ''error_message'') (js_or (get b ''detail'')
              (JStr (''Failed to obtain LiveKit token: HTTP '' @ int_string status))))) s
          else (case body of
              Throw m \<Rightarrow> start_catch m s
            | Ret data \<Rightarrow>
                if nullish data then start_catch ''Cannot destructure'' s
                else if \<not> truthy (get data ''token'') \<or> \<not> truthy (get data ''ws_url'') \<or> \<not> truthy (get data ''room'')
                then start_catch ''LiveKit token response was incomplete.'' s
                else let r = sb_rooms s in
                  (sb_do (Join_Room r (get data ''ws_url'') (get data ''token''))
                    (s\<lparr>sb_roomName := get data ''room'', sb_room := Some r, sb_rooms := r + 1\<rparr>))
                    \<lparr>sb_start := Some (Ph_Connect r)\<rparr>))"

definition room_joined :: "nat \<Rightarrow> unit ext \<Rightarrow> sb \<Rightarrow> sb" where
  "room_joined r res s =
     (case res of
        Throw m \<Rightarrow> start_catch m s
      | Ret _ \<Rightarrow> (arm_agent_timeout r s)\<lparr>sb_start := Some (Ph_Microphone r)\<rparr>)"

definition microphone_created :: "nat \<Rightarrow> unit ext \<Rightarrow> sb \<Rightarrow> sb" where
  "microphone_created r res s =
     (case res of
        Throw m \<Rightarrow> start_catch m s
      | Ret _ \<Rightarrow> let t = sb_tracks s in
          (sb_do (Publish_Track r t) (s\<lparr>sb_track := Some t, sb_tracks := t + 1\<rparr>))\<lparr>sb_start := Some (Ph_Publish r t)\<rparr>)"

text \<open>The audio context of the meter: made, made without an analyser, or neither.\<close>

definition published :: "bool \<Rightarrow> bool \<Rightarrow> unit ext \<Rightarrow> sb \<Rightarrow> sb" where
  "published ctx analyser res s =
     (case res of
        Throw m \<Rightarrow> start_catch m s
      | Ret _ \<Rightarrow> sb_show Sb_Connected (s\<lparr>sb_audioContext := (ctx \<or> sb_audioContext s),
             sb_analyser := (ctx \<and> analyser \<or> sb_analyser s), sb_start := None\<rparr>))"

section \<open>Ending a session\<close>

definition stop_session :: "sb \<Rightarrow> sb" where
  "stop_session s =
     (if sb_start s \<noteq> None then s
      else let s = stop_local_track (release_voice_session_lock (drop_assistant (clear_agent_timeout s)));
               s = (close_audio_context (leave_room s))\<lparr>sb_analyser := False, sb_sessionId := None, sb_transcriptIds := [],
                      sb_roomName := JNull\<rparr>;
               s = sb_show Sb_Disconnected s in
           s\<lparr>sb_messages := sb_messages s @ [system_message ''msg-end'' ''Voice session concluded.'']\<rparr>)"

text \<open>The main button: disabled while connecting; it stops a live session and starts one otherwise.\<close>

definition main_button :: "string \<Rightarrow> sb \<Rightarrow> sb" where
  "main_button sid s =
     (if sb_status s = Sb_Connecting then s
      else if is_live (sb_status s) then stop_session s else start_session sid s)"

definition leave_page :: "sb \<Rightarrow> sb" where
  "leave_page s =
     (let s = stop_local_track (release_voice_session_lock (cleanup_assistant_audio (clear_agent_timeout s))) in
      (close_audio_context (leave_room s))\<lparr>sb_mounted := False\<rparr>)"

text \<open>The mute button is disabled unless the session is live.\<close>

definition mute_button :: "sb \<Rightarrow> sb" where
  "mute_button s =
     (if \<not> is_live (sb_status s) then s
      else (case sb_track s of
          Some t \<Rightarrow> sb_do (if sb_muted s then Unmute_Track t else Mute_Track t) s
        | None \<Rightarrow> s)\<lparr>sb_muted := \<not> sb_muted s\<rparr>)"

section \<open>Room events\<close>

datatype sandbox_event =
    Sb_Track_Subscribed bool nat string     \<comment> \<open>an audio track; the track; the identity\<close>
  | Sb_Track_Unsubscribed nat
  | Sb_Participant_Disconnected string
  | Sb_Data "jsval ext"
  | Sb_Room_Disconnected

text \<open>The handler does not test the room; the answer of \<open>play\<close> is the step \<open>Play_Blocked\<close>.\<close>

definition sandbox_track_subscribed :: "bool \<Rightarrow> nat \<Rightarrow> string \<Rightarrow> sb \<Rightarrow> sb" where
  "sandbox_track_subscribed audio t ident s =
     (if \<not> audio then s
      else if (case sb_assistantIdentity s of Some i \<Rightarrow> i \<noteq> [] \<and> i \<noteq> ident | None \<Rightarrow> False) then s
      else if sb_assistantTrack s = Some t \<and> sb_element s \<noteq> None then s
      else let s = cleanup_assistant_audio (s\<lparr>sb_assistantIdentity := Some ident\<rparr>); e = sb_elements s in
        sb_show Sb_Speaking (s\<lparr>sb_element := Some e, sb_elements := e + 1, sb_assistantTrack := Some t\<rparr>))"

definition transcript_id :: "(rat \<Rightarrow> string) \<Rightarrow> jsval \<Rightarrow> jsval" where
  "transcript_id fr p =
     js_or (get p ''id'') (js_or (get p ''message_id'')
       (JStr (js_string fr (get p ''role'') @ '':'' @ js_string fr (get p ''timestamp'') @ '':'' @ js_string fr (get p ''text''))))"

text \<open>A transcript packet; a text that is no string throws and is caught.\<close>

definition add_sandbox_transcript :: "(rat \<Rightarrow> string) \<Rightarrow> jsval \<Rightarrow> sb \<Rightarrow> sb" where
  "add_sandbox_transcript fr p s =
     (case (get p ''type'' = JStr ''transcript'', get p ''text'') of
        (True, JStr t) \<Rightarrow>
          (let i = transcript_id fr p in
           if trim t = [] \<or> \<not> is_object i \<and> i \<in> set (sb_transcriptIds s) then s
           else s\<lparr>sb_transcriptIds := i # sb_transcriptIds s,
                  sb_messages := sb_messages s @ [\<lparr>sm_id = i,
                    sm_sender = (if get p ''role'' = JStr ''assistant'' then ''assistant'' else ''user''), sm_text = t\<rparr>]\<rparr>)
      | _ \<Rightarrow> s)"

definition sandbox_data :: "(rat \<Rightarrow> string) \<Rightarrow> nat \<Rightarrow> jsval ext \<Rightarrow> sb \<Rightarrow> sb" where
  "sandbox_data fr r packet s =
     (case packet of
        Throw _ \<Rightarrow> s
      | Ret p \<Rightarrow> (case parse_agent_lifecycle_message p of
            Some m \<Rightarrow>
              if sb_sessionId s \<noteq> Some (am_sessionId m) then s
              else if am_state m = Failed then fail_voice_session r
                ''The Gemini voice connection could not recover. No calendar action was repeated. Start a new voice session to continue.'' s
              else if am_state m = Ended then fail_voice_session r ''The voice session ended. Start a new session to continue.'' s
              else let s = arm_agent_timeout r s in
                if am_state m = Agent_Is_Recovering
                then (sb_show Sb_Recovering s)\<lparr>sb_error := Some ''The voice service was interrupted and is reconnecting safely...''\<rparr>
                else if am_state m \<in> {Ready, Recovered} then (sb_show Sb_Connected s)\<lparr>sb_error := None\<rparr>
                else s
          | None \<Rightarrow> if nullish p then s else add_sandbox_transcript fr p s))"

definition sandbox_room_lost :: "nat \<Rightarrow> sb \<Rightarrow> sb" where
  "sandbox_room_lost r s =
     (if sb_room s \<noteq> Some r then s
      else let s = (clear_agent_timeout s)\<lparr>sb_room := None, sb_gone := r # sb_gone s\<rparr>;
               s = close_audio_context (stop_local_track (release_voice_session_lock (drop_assistant s))) in
           sb_show Sb_Disconnected (s\<lparr>sb_analyser := False, sb_roomName := JNull\<rparr>))"

definition sandbox_room_event :: "(rat \<Rightarrow> string) \<Rightarrow> nat \<Rightarrow> sandbox_event \<Rightarrow> sb \<Rightarrow> sb" where
  "sandbox_room_event fr r ev s =
     (if r \<ge> sb_rooms s then s
      else case ev of
          Sb_Track_Subscribed audio t i \<Rightarrow> sandbox_track_subscribed audio t i s
        | Sb_Track_Unsubscribed t \<Rightarrow> if sb_assistantTrack s = Some t then cleanup_assistant_audio s else s
        | Sb_Participant_Disconnected i \<Rightarrow> if sb_assistantIdentity s = Some i then drop_assistant s else s
        | Sb_Data p \<Rightarrow> sandbox_data fr r p s
        | Sb_Room_Disconnected \<Rightarrow> sandbox_room_lost r s)"

section \<open>Steps\<close>

record start_outcome =
  so_lock :: bool
  so_token :: "(bool \<times> int \<times> jsval ext) ext"
  so_done :: "unit ext"
  so_context :: bool
  so_analyser :: bool

definition start_settled :: "(rat \<Rightarrow> string) \<Rightarrow> bool \<Rightarrow> string \<Rightarrow> int option \<Rightarrow> start_outcome \<Rightarrow> sb \<Rightarrow> sb" where
  "start_settled fr locks intro version oc s =
     (case sb_start s of
        None \<Rightarrow> s
      | Some (Ph_Lock sid) \<Rightarrow> lock_settled intro version sid locks (so_lock oc) s
      | Some Ph_Token \<Rightarrow> sandbox_token_settled fr (so_token oc) s
      | Some (Ph_Connect r) \<Rightarrow> room_joined r (so_done oc) s
      | Some (Ph_Microphone r) \<Rightarrow> microphone_created r (so_done oc) s
      | Some (Ph_Publish r t) \<Rightarrow> published (so_context oc) (so_analyser oc) (so_done oc) s
      | Some (Ph_Close msg) \<Rightarrow> start_catch_end msg s)"

datatype sandbox_step =
    Main_Button string
  | Stop_Button
  | Mute_Button
  | Clear_Messages
  | Leave_Page
  | Duration_Tick
  | Agent_Timer_Fired
  | Play_Blocked
  | Sandbox_Event nat sandbox_event
  | Start_Settled string "int option" start_outcome

definition sb_step :: "(rat \<Rightarrow> string) \<Rightarrow> bool \<Rightarrow> sb \<Rightarrow> sandbox_step \<Rightarrow> sb" where
  "sb_step fr locks s e =
     (case e of
        Main_Button sid \<Rightarrow> main_button sid s
      | Stop_Button \<Rightarrow> if is_live (sb_status s) then stop_session s else s
      | Mute_Button \<Rightarrow> mute_button s
      | Clear_Messages \<Rightarrow> s\<lparr>sb_messages := []\<rparr>
      | Leave_Page \<Rightarrow> leave_page s
      | Duration_Tick \<Rightarrow> duration_tick s
      | Agent_Timer_Fired \<Rightarrow> agent_timer_fired s
      | Play_Blocked \<Rightarrow>
          s\<lparr>sb_error := Some ''Microphone connected, but browser audio playback is blocked. Click the page to retry audio.''\<rparr>
      | Sandbox_Event r ev \<Rightarrow> sandbox_room_event fr r ev s
      | Start_Settled intro version oc \<Rightarrow> start_settled fr locks intro version oc s)"

end
