(* ===== verification/Sandbox_Claims.thy ===== *)
theory Sandbox_Claims
  imports Sandbox_Session
begin

text \<open>
  What the sandbox page guarantees of its rooms, microphone tracks and lock in every run, and where it leaves the
  microphone live: a page that is closed while it connects, and a session that is shown as muted.
\<close>

section \<open>Rooms, tracks and the lock\<close>

definition tracked_rooms :: "sb \<Rightarrow> bool" where
  "tracked_rooms s \<longleftrightarrow> list_all (\<lambda>r. sb_room s = Some r \<or> Leave_Room r \<in> set (sb_effects s) \<or> r \<in> set (sb_gone s)) [0..<sb_rooms s]"

definition tracked_microphones :: "sb \<Rightarrow> bool" where
  "tracked_microphones s \<longleftrightarrow> list_all (\<lambda>t. sb_track s = Some t \<or> Stop_Track t \<in> set (sb_effects s)) [0..<sb_tracks s]"

text \<open>What a start may already hold in each of its phases.\<close>

fun phase_holds :: "start_phase option \<Rightarrow> sb \<Rightarrow> bool" where
  "phase_holds None s = (is_live (sb_status s) \<or> sb_room s = None \<and> sb_track s = None)"
| "phase_holds (Some (Ph_Lock _)) s = (sb_room s = None \<and> sb_track s = None)"
| "phase_holds (Some Ph_Token) s = (sb_room s = None \<and> sb_track s = None)"
| "phase_holds (Some (Ph_Connect _)) s = (sb_track s = None)"
| "phase_holds (Some (Ph_Microphone _)) s = (sb_track s = None)"
| "phase_holds (Some (Ph_Publish _ _)) s = True"
| "phase_holds (Some (Ph_Close _)) s = (sb_room s = None \<and> sb_track s = None)"

definition locked :: "bool \<Rightarrow> sb \<Rightarrow> bool" where
  "locked locks s \<longleftrightarrow> (locks \<and> sb_mounted s \<and> (sb_room s \<noteq> None \<or> sb_start s = Some Ph_Token) \<longrightarrow> sb_lock s)"

definition sb_ok :: "bool \<Rightarrow> sb \<Rightarrow> bool" where
  "sb_ok locks s \<longleftrightarrow> tracked_rooms s \<and> tracked_microphones s \<and> phase_holds (sb_start s) s \<and> locked locks s"

lemma sb_ok_init: "sb_ok locks sb_init"
  by (simp add: sb_ok_def tracked_rooms_def tracked_microphones_def locked_def sb_init_def)

text \<open>A step that keeps what is held.\<close>

definition sb_same :: "sb \<Rightarrow> sb \<Rightarrow> bool" where
  "sb_same s t \<longleftrightarrow> sb_room t = sb_room s \<and> sb_track t = sb_track s \<and> sb_start t = sb_start s \<and> sb_rooms t = sb_rooms s
     \<and> sb_tracks t = sb_tracks s \<and> set (sb_effects s) \<subseteq> set (sb_effects t) \<and> sb_gone t = sb_gone s
     \<and> sb_lock t = sb_lock s \<and> sb_mounted t = sb_mounted s \<and> (sb_status t = sb_status s \<or> is_live (sb_status t))"

lemma phase_holds_same:
  "sb_room t = sb_room s \<Longrightarrow> sb_track t = sb_track s \<Longrightarrow> sb_status t = sb_status s \<or> is_live (sb_status t)
   \<Longrightarrow> phase_holds p s \<Longrightarrow> phase_holds p t"
  by (cases "(p, s)" rule: phase_holds.cases) auto

lemma sb_same_ok: "sb_ok locks s \<Longrightarrow> sb_same s t \<Longrightarrow> sb_ok locks t"
  using phase_holds_same [of t s "sb_start s"]
  by (auto simp: sb_ok_def sb_same_def tracked_rooms_def tracked_microphones_def locked_def list_all_iff)

text \<open>A clean-up: nothing is held any more.\<close>

definition sb_clean :: "sb \<Rightarrow> sb \<Rightarrow> bool" where
  "sb_clean s t \<longleftrightarrow> sb_room t = None \<and> sb_track t = None \<and> sb_rooms t = sb_rooms s \<and> sb_tracks t = sb_tracks s
     \<and> set (sb_effects s) \<subseteq> set (sb_effects t) \<and> set (sb_gone s) \<subseteq> set (sb_gone t)
     \<and> (\<forall>r. sb_room s = Some r \<longrightarrow> Leave_Room r \<in> set (sb_effects t) \<or> r \<in> set (sb_gone t))
     \<and> (\<forall>x. sb_track s = Some x \<longrightarrow> Stop_Track x \<in> set (sb_effects t))
     \<and> (sb_start t = Some Ph_Token \<longrightarrow> \<not> sb_mounted t \<or> sb_start s = Some Ph_Token \<and> sb_lock t = sb_lock s \<and> sb_mounted s)"

lemma sb_clean_ok:
  assumes "sb_ok locks s" "sb_clean s t"
  shows "sb_ok locks t"
proof -
  have "phase_holds p t" for p
    using assms(2) by (cases "(p, t)" rule: phase_holds.cases) (auto simp: sb_clean_def)
  then show ?thesis using assms
    by (auto simp: sb_ok_def sb_clean_def tracked_rooms_def tracked_microphones_def locked_def list_all_iff)
qed

lemmas sb_defs = sb_do_def sb_show_def cleanup_assistant_audio_def release_voice_session_lock_def stop_local_track_def
  close_audio_context_def leave_room_def clear_agent_timeout_def arm_agent_timeout_def drop_assistant_def Let_def

lemma sb_ok_fail:
  assumes ok: "sb_ok locks s"
  shows "sb_ok locks (fail_voice_session r msg s)"
proof (cases "sb_room s = Some r")
  case True
  have "sb_start s \<noteq> Some Ph_Token" using True ok by (auto simp: sb_ok_def)
  then have "sb_clean s (fail_voice_session r msg s)"
    using True by (auto simp: fail_voice_session_def sb_clean_def sb_defs split: option.split)
  then show ?thesis using ok by (rule sb_clean_ok [rotated])
qed (use ok in \<open>simp add: fail_voice_session_def\<close>)

lemma sb_ok_lost:
  assumes ok: "sb_ok locks s"
  shows "sb_ok locks (sandbox_room_lost r s)"
proof (cases "sb_room s = Some r")
  case True
  have "sb_start s \<noteq> Some Ph_Token" using True ok by (auto simp: sb_ok_def)
  then have "sb_clean s (sandbox_room_lost r s)"
    using True by (auto simp: sandbox_room_lost_def sb_clean_def sb_defs split: option.split)
  then show ?thesis using ok by (rule sb_clean_ok [rotated])
qed (use ok in \<open>simp add: sandbox_room_lost_def\<close>)

lemma sb_clean_catch: "sb_clean s (start_catch msg s)"
  by (auto simp: start_catch_def start_catch_end_def sb_clean_def sb_defs split: option.split)

lemma sb_ok_catch: "sb_ok locks s \<Longrightarrow> sb_ok locks (start_catch msg s)"
  by (rule sb_clean_ok [OF _ sb_clean_catch])

lemma sb_ok_stop:
  assumes "sb_ok locks s"
  shows "sb_ok locks (stop_session s)"
proof (cases "sb_start s")
  case None
  then have "sb_clean s (stop_session s)"
    by (auto simp: stop_session_def sb_clean_def sb_defs split: option.split)
  then show ?thesis using assms by (rule sb_clean_ok [rotated])
qed (use assms in \<open>simp add: stop_session_def\<close>)

lemma sb_ok_leave: "sb_ok locks s \<Longrightarrow> sb_ok locks (leave_page s)"
  by (erule sb_clean_ok) (auto simp: leave_page_def sb_clean_def sb_defs split: option.split)

lemma sb_ok_button:
  assumes ok: "sb_ok locks s"
  shows "sb_ok locks (main_button sid s)"
proof -
  have "sb_ok locks (start_session sid s)" if "\<not> is_live (sb_status s)"
    using ok that by (auto simp: start_session_def sb_show_def sb_ok_def tracked_rooms_def tracked_microphones_def locked_def)
  then show ?thesis using ok sb_ok_stop [OF ok] by (simp add: main_button_def)
qed

lemma sb_ok_lock_settled:
  assumes ok: "sb_ok locks s" and ph: "sb_start s = Some (Ph_Lock sid)"
  shows "sb_ok locks (lock_settled intro version sid locks granted s)"
  using ok ph by (auto simp: lock_settled_def sb_show_def sb_do_def sb_ok_def tracked_rooms_def tracked_microphones_def
      locked_def list_all_iff is_live_def)

lemma sb_ok_token_settled:
  assumes ok: "sb_ok locks s" and ph: "sb_start s = Some Ph_Token"
  shows "sb_ok locks (sandbox_token_settled fr res s)"
proof -
  have "sb_ok locks ((sb_do (Join_Room (sb_rooms s) w t) (s\<lparr>sb_roomName := n, sb_room := Some (sb_rooms s), sb_rooms := sb_rooms s + 1\<rparr>))
      \<lparr>sb_start := Some (Ph_Connect (sb_rooms s))\<rparr>)" for w t n
    using ok ph by (auto simp: sb_do_def sb_ok_def tracked_rooms_def tracked_microphones_def locked_def list_all_iff less_Suc_eq)
  then show ?thesis using sb_ok_catch [OF ok]
    by (auto simp: sandbox_token_settled_def Let_def split: ext.split)
qed

lemma sb_ok_joined:
  assumes ok: "sb_ok locks s" and ph: "sb_start s = Some (Ph_Connect r)"
  shows "sb_ok locks (room_joined r res s)"
proof -
  have "sb_ok locks ((arm_agent_timeout r s)\<lparr>sb_start := Some (Ph_Microphone r)\<rparr>)"
    using ok ph by (auto simp: arm_agent_timeout_def clear_agent_timeout_def sb_ok_def tracked_rooms_def
        tracked_microphones_def locked_def)
  then show ?thesis using sb_ok_catch [OF ok] by (simp add: room_joined_def split: ext.split)
qed

lemma sb_ok_microphone:
  assumes ok: "sb_ok locks s" and ph: "sb_start s = Some (Ph_Microphone r)"
  shows "sb_ok locks (microphone_created r res s)"
proof -
  have "sb_ok locks ((sb_do (Publish_Track r (sb_tracks s)) (s\<lparr>sb_track := Some (sb_tracks s), sb_tracks := sb_tracks s + 1\<rparr>))
      \<lparr>sb_start := Some (Ph_Publish r (sb_tracks s))\<rparr>)"
    using ok ph by (auto simp: sb_do_def sb_ok_def tracked_rooms_def tracked_microphones_def locked_def list_all_iff less_Suc_eq)
  then show ?thesis using sb_ok_catch [OF ok] by (simp add: microphone_created_def Let_def split: ext.split)
qed

lemma sb_ok_published:
  assumes ok: "sb_ok locks s" and ph: "sb_start s = Some (Ph_Publish r t)"
  shows "sb_ok locks (published c a res s)"
proof -
  have "sb_ok locks (sb_show Sb_Connected (s\<lparr>sb_audioContext := c', sb_analyser := a', sb_start := None\<rparr>))" for c' a'
    using ok ph by (auto simp: sb_show_def sb_ok_def tracked_rooms_def tracked_microphones_def locked_def is_live_def)
  then show ?thesis using sb_ok_catch [OF ok] by (simp add: published_def split: ext.split)
qed

lemma sb_ok_catch_end:
  assumes ok: "sb_ok locks s" and ph: "sb_start s = Some (Ph_Close msg)"
  shows "sb_ok locks (start_catch_end msg s)"
  using ok ph by (auto simp: start_catch_end_def sb_show_def clear_agent_timeout_def sb_ok_def tracked_rooms_def
      tracked_microphones_def locked_def)

lemma sb_ok_settled: "sb_ok locks s \<Longrightarrow> sb_ok locks (start_settled fr locks intro version oc s)"
  by (auto simp: start_settled_def intro: sb_ok_lock_settled sb_ok_token_settled sb_ok_joined sb_ok_microphone
      sb_ok_published sb_ok_catch_end split: option.split start_phase.split)

lemma sb_same_events:
  "sb_same s (sandbox_track_subscribed audio t i s)" "sb_same s (cleanup_assistant_audio s)" "sb_same s (drop_assistant s)"
  "sb_same s (add_sandbox_transcript fr p s)" "sb_same s (arm_agent_timeout r s)" "sb_same s (mute_button s)"
  "sb_same s (duration_tick s)"
  by (auto simp: sb_same_def sandbox_track_subscribed_def add_sandbox_transcript_def mute_button_def duration_tick_def sb_defs
      is_live_def split: option.split jsval.split bool.split)

lemma sb_same_shown: "is_live st \<Longrightarrow> sb_same s ((sb_show st (arm_agent_timeout r s))\<lparr>sb_error := e\<rparr>)"
  by (simp add: sb_same_def sb_defs)

lemma sb_ok_data: "sb_ok locks s \<Longrightarrow> sb_ok locks (sandbox_data fr r packet s)"
  using sb_same_ok [OF _ sb_same_shown [where st = Sb_Recovering]] sb_same_ok [OF _ sb_same_shown [where st = Sb_Connected]]
  by (auto simp: sandbox_data_def Let_def sb_ok_fail is_live_def intro: sb_same_ok sb_same_events split: ext.split option.split)

lemma sb_ok_event: "sb_ok locks s \<Longrightarrow> sb_ok locks (sandbox_room_event fr r ev s)"
  by (auto simp: sandbox_room_event_def sb_ok_data sb_ok_lost intro: sb_same_ok sb_same_events split: sandbox_event.split)

interpretation sandbox: machine "sb_step fr locks" "sb_ok locks"
proof
  fix s e
  assume ok: "sb_ok locks s"
  have same: "sb_same s (s\<lparr>sb_messages := []\<rparr>)" "sb_same s (s\<lparr>sb_error := x\<rparr>)" for x by (simp_all add: sb_same_def)
  show "sb_ok locks (sb_step fr locks s e)"
    using ok sb_ok_button [OF ok] sb_ok_stop [OF ok] sb_ok_leave [OF ok] sb_ok_fail [OF ok] sb_ok_event [OF ok]
      sb_ok_settled [OF ok] sb_same_ok [OF ok same(1)] sb_same_ok [OF ok same(2)] sb_same_ok [OF ok sb_same_events(6)]
      sb_same_ok [OF ok sb_same_events(7)]
    by (cases e) (simp_all add: sb_step_def agent_timer_fired_def split: option.split)
qed

section \<open>Claims\<close>

text \<open>C30. In every run of the sandbox page, every room it created is the held one, was told to disconnect or is gone, and
every microphone track is the held one or was stopped. A page that shows no live session and is not starting one holds
neither; and where the browser has locks, an open page that holds a room holds the lock that keeps other tabs out.\<close>

theorem idle_sandbox_holds_nothing:
  "let s = run (sb_step fr locks) sb_init es in
     tracked_rooms s \<and> tracked_microphones s
     \<and> (is_live (sb_status s) \<or> sb_start s \<noteq> None \<or> sb_room s = None \<and> sb_track s = None)
     \<and> (sb_lock s \<or> \<not> locks \<or> \<not> sb_mounted s \<or> sb_room s = None)"
proof -
  define s where "s = run (sb_step fr locks) sb_init es"
  have ok: "sb_ok locks s" unfolding s_def by (rule sandbox.inv_run [OF sb_ok_init])
  have "is_live (sb_status s) \<or> sb_start s \<noteq> None \<or> sb_room s = None \<and> sb_track s = None"
    using ok by (cases "sb_start s") (auto simp: sb_ok_def)
  then show ?thesis using ok unfolding Let_def s_def [symmetric] by (auto simp: sb_ok_def locked_def)
qed

text \<open>A session from the click to the running call, and the steps that follow.\<close>

definition sandbox_fr :: "rat \<Rightarrow> string" where
  "sandbox_fr q = ''0''"

definition good_token :: jsval where
  "good_token = JObj [(''token'', JStr ''t''), (''ws_url'', JStr ''wss://livekit''), (''room'', JStr ''room-1'')]"

definition good_start :: sandbox_step where
  "good_start = Start_Settled ''Initiating session'' None
     \<lparr>so_lock = True, so_token = Ret (True, 200, Ret good_token), so_done = Ret (), so_context = True, so_analyser = True\<rparr>"

definition lifecycle_packet :: "string \<Rightarrow> string \<Rightarrow> jsval ext" where
  "lifecycle_packet sid st = Ret (JObj [(''type'', JStr ''agent_lifecycle''), (''state'', JStr st), (''session_id'', JStr sid),
     (''sequence'', JNum 1), (''timestamp'', JNum 1)])"

definition sandbox_run :: "sandbox_step list \<Rightarrow> sb" where
  "sandbox_run = run (sb_step sandbox_fr True) sb_init"

theorem idle_sandbox_holds_nothing_witness:
  "let s = sandbox_run (Main_Button ''s1'' # replicate 5 good_start @ [Stop_Button]) in
     sb_rooms s = 1 \<and> sb_tracks s = 1 \<and> \<not> is_live (sb_status s) \<and> sb_start s = None \<and> sb_room s = None \<and> sb_track s = None"
proof -
  define s where "s = sandbox_run (Main_Button ''s1'' # replicate 5 good_start @ [Stop_Button])"
  have "sb_rooms s = 1 \<and> sb_tracks s = 1 \<and> \<not> is_live (sb_status s) \<and> sb_start s = None"
    unfolding s_def by code_simp
  moreover from this have "sb_room s = None \<and> sb_track s = None"
    using idle_sandbox_holds_nothing [of sandbox_fr True "Main_Button ''s1'' # replicate 5 good_start @ [Stop_Button]"]
    unfolding s_def sandbox_run_def Let_def by blast
  ultimately show ?thesis unfolding s_def [symmetric] Let_def by blast
qed

section \<open>What goes wrong\<close>

text \<open>The mute state outlives its session: a session that is muted and ended leaves the page muted, and the next
session publishes its new microphone without ever muting it, while the page shows it as muted.\<close>

theorem muted_session_is_heard:
  "let s = sandbox_run (Main_Button ''s1'' # replicate 5 good_start @ [Mute_Button, Stop_Button]
       @ Main_Button ''s2'' # replicate 5 good_start) in
     sb_status s = Sb_Connected \<and> sb_muted s \<and> sb_track s = Some 1 \<and> Publish_Track 1 1 \<in> set (sb_effects s)
     \<and> Mute_Track 1 \<notin> set (sb_effects s) \<and> Stop_Track 1 \<notin> set (sb_effects s)"
  by code_simp

text \<open>A page that is closed while its start waits for the token still joins the room and publishes the microphone, and
nothing ends either: the page cannot be asked to stop any more.\<close>

lemma closed_page_joins:
  "let s = sandbox_run ([Main_Button ''s1'', good_start, Leave_Page] @ replicate 4 good_start) in
     \<not> sb_mounted s \<and> sb_room s = Some 0 \<and> sb_track s = Some 0 \<and> sb_start s = None
     \<and> Leave_Room 0 \<notin> set (sb_effects s) \<and> Stop_Track 0 \<notin> set (sb_effects s)"
  by code_simp

text \<open>An agent that fails while the microphone is asked for ends the room, and the start goes on to show a connected
session with a live microphone and no room; its error is the one of the failure.\<close>

lemma failed_start_shows_connected:
  "let s = sandbox_run ([Main_Button ''s1''] @ replicate 3 good_start
       @ [Sandbox_Event 0 (Sb_Data (lifecycle_packet ''s1'' ''failed''))] @ replicate 2 good_start) in
     sb_status s = Sb_Connected \<and> sb_room s = None \<and> sb_track s = Some 0 \<and> Leave_Room 0 \<in> set (sb_effects s)
     \<and> \<not> sb_lock s \<and> sb_error s \<noteq> None"
  by code_simp

text \<open>The audio of the assistant that arrives before the microphone is published turns the main button into the one
that ends the session, and pressing it has no effect.\<close>

lemma end_is_ignored_while_starting:
  "let s = sandbox_run ([Main_Button ''s1''] @ replicate 3 good_start @ [Sandbox_Event 0 (Sb_Track_Subscribed True 5 ''agent'')]) in
     is_live (sb_status s) \<and> main_button ''s2'' s = s"
proof -
  define s where "s = sandbox_run ([Main_Button ''s1''] @ replicate 3 good_start @ [Sandbox_Event 0 (Sb_Track_Subscribed True 5 ''agent'')])"
  have "sb_status s = Sb_Speaking \<and> sb_start s = Some (Ph_Microphone 0)" unfolding s_def by code_simp
  then show ?thesis unfolding Let_def s_def [symmetric] by (simp add: main_button_def stop_session_def is_live_def)
qed

end
