(* ===== verification/Web_Assistant.thy ===== *)
theory Web_Assistant
  imports Assistant_Policy
begin

text \<open>
  The assistant pages of the web app (\<open>frontend/src/App.tsx\<close>): language policy, capability switches, operating
  fields, the configuration page with its load, save, validation and publication, and the onboarding pages. A page
  is the record of its form; an edit is a function on it. A request goes to the network \<open>net\<close>, a function of the
  request; what a page does yields its result and the requests it sent. Form values that come from the server
  unchecked are JavaScript values.
\<close>

section \<open>Requests of a page\<close>

record wreq =
  wq_method :: string
  wq_url :: string
  wq_body :: "jsval option"

type_synonym wnet = "wreq \<Rightarrow> reply ext"

definition w_get :: "string \<Rightarrow> wreq" where
  "w_get u = \<lparr>wq_method = ''GET'', wq_url = u, wq_body = None\<rparr>"

definition w_send :: "string \<Rightarrow> string \<Rightarrow> jsval \<Rightarrow> wreq" where
  "w_send m u b = \<lparr>wq_method = m, wq_url = u, wq_body = Some b\<rparr>"

text \<open>The body of an ok answer, for a handler that throws otherwise.\<close>

definition ok_json :: "string \<Rightarrow> reply ext \<Rightarrow> jsval ext" where
  "ok_json msg res = (case res of Throw m \<Rightarrow> Throw m | Ret r \<Rightarrow> if reply_ok r then rp_json r else Throw msg)"

section \<open>Response languages\<close>

datatype lang = Fr_FR | Fr_BE | En

fun lang_code :: "lang \<Rightarrow> string" where
  "lang_code Fr_FR = ''fr-FR''"
| "lang_code Fr_BE = ''fr-BE''"
| "lang_code En = ''en''"

definition lang_of :: "jsval \<Rightarrow> lang option" where
  "lang_of v = (if v = JStr ''fr-FR'' then Some Fr_FR else if v = JStr ''fr-BE'' then Some Fr_BE
     else if v = JStr ''en'' then Some En else None)"

lemma lang_of_code [simp]: "lang_of (JStr (lang_code l)) = Some l"
  by (cases l) (simp_all add: lang_of_def)

definition read_response_language :: "jsval \<Rightarrow> lang" where
  "read_response_language v = (case lang_of v of Some l \<Rightarrow> l | None \<Rightarrow> En)"

definition read_allowed_languages :: "jsval \<Rightarrow> lang \<Rightarrow> lang list" where
  "read_allowed_languages v d =
     (let unique = js_uniq (List.map_filter lang_of (array_or v []));
          unique = (if d \<in> set unique then unique else d # unique) in
      if unique = [] then [Fr_FR, Fr_BE, En] else unique)"

text \<open>The fields of the policy: a default, and the allowed languages; the box of the default is disabled.\<close>

type_synonym language_policy = "lang \<times> lang list"

definition pick_default :: "lang \<Rightarrow> language_policy \<Rightarrow> language_policy" where
  "pick_default n p = (n, if n \<in> set (snd p) then snd p else snd p @ [n])"

definition toggle_language :: "lang \<Rightarrow> bool \<Rightarrow> language_policy \<Rightarrow> language_policy" where
  "toggle_language l checked p =
     (if l = fst p then p
      else (fst p, js_uniq (if checked then snd p @ [l] else filter (\<lambda>x. x \<noteq> l) (snd p))))"

definition policy_ok :: "language_policy \<Rightarrow> bool" where
  "policy_ok p \<longleftrightarrow> fst p \<in> set (snd p) \<and> distinct (snd p)"

lemma policy_ok_edits:
  "policy_ok p \<Longrightarrow> policy_ok (pick_default n p)" "policy_ok p \<Longrightarrow> policy_ok (toggle_language l c p)"
  by (auto simp: policy_ok_def pick_default_def toggle_language_def)

lemma policy_ok_read: "policy_ok (d, read_allowed_languages v d)"
  by (auto simp: policy_ok_def read_allowed_languages_def Let_def)

lemma read_written_languages:
  assumes "policy_ok (d, ls)"
  shows "read_allowed_languages (JArr (map (\<lambda>l. JStr (lang_code l)) ls)) d = ls"
proof -
  have "List.map_filter lang_of (map (\<lambda>l. JStr (lang_code l)) xs) = xs" for xs
    by (induction xs) (simp_all add: List.map_filter_simps)
  then show ?thesis using assms by (auto simp: read_allowed_languages_def policy_ok_def js_uniq_distinct Let_def)
qed

section \<open>Capabilities\<close>

record cap_flags =
  cf_receptionist :: bool
  cf_faq :: bool
  cf_calendar :: bool

definition default_capability_flags :: cap_flags where
  "default_capability_flags = \<lparr>cf_receptionist = False, cf_faq = False, cf_calendar = True\<rparr>"

definition has_own :: "jsval \<Rightarrow> string \<Rightarrow> bool" where
  "has_own v k \<longleftrightarrow> jm_get (obj_fields v) k \<noteq> None"

definition read_flag :: "jsval \<Rightarrow> string \<Rightarrow> bool \<Rightarrow> bool" where
  "read_flag raw k d =
     (let v = get raw k in
      if is_object v \<and> has_own v ''enabled'' then truthy (get v ''enabled'')
      else case v of JBool b \<Rightarrow> b | _ \<Rightarrow> \<not> has_own raw k \<and> d)"

definition read_capability_flags :: "jsval \<Rightarrow> cap_flags" where
  "read_capability_flags raw =
     (if \<not> is_object raw then default_capability_flags
      else \<lparr>cf_receptionist = read_flag raw ''company_receptionist'' False, cf_faq = read_flag raw ''company_faq'' False,
            cf_calendar = read_flag raw ''google_calendar'' True\<rparr>)"

definition flag_list :: "cap_flags \<Rightarrow> (string \<times> bool) list" where
  "flag_list f = [(''company_receptionist'', cf_receptionist f), (''company_faq'', cf_faq f), (''google_calendar'', cf_calendar f)]"

definition write_capability_flags :: "cap_flags \<Rightarrow> jsval" where
  "write_capability_flags f = JObj (map (\<lambda>(n, b). (n, JObj [(''enabled'', JBool b)])) (flag_list f))"

lemma read_written_flags [simp]: "read_capability_flags (write_capability_flags f) = f"
  by (simp add: read_capability_flags_def write_capability_flags_def flag_list_def read_flag_def has_own_def jm_get_def)

datatype capability_key = Receptionist | Faq | Calendar

fun set_flag :: "capability_key \<Rightarrow> bool \<Rightarrow> cap_flags \<Rightarrow> cap_flags" where
  "set_flag Receptionist b f = f\<lparr>cf_receptionist := b\<rparr>"
| "set_flag Faq b f = f\<lparr>cf_faq := b\<rparr>"
| "set_flag Calendar b f = f\<lparr>cf_calendar := b\<rparr>"

section \<open>Operating fields\<close>

definition newline :: char where
  "newline = CHR 0x0A"

definition parse_rules :: "string \<Rightarrow> string list" where
  "parse_rules text = take 10 (trim_parts newline text)"

text \<open>The effect that follows the saved rules: the raw text is only replaced when they change from outside.\<close>

definition sync_escalation :: "string list \<Rightarrow> string \<Rightarrow> string" where
  "sync_escalation rules text =
     (if js_join [newline] (parse_rules text) \<noteq> js_join [newline] rules then js_join [newline] rules else text)"

fun unix_lines :: "string \<Rightarrow> string" where
  "unix_lines [] = []"
| "unix_lines (c # cs) =
     (if c = CHR 0x0D then newline # (case cs of d # ds \<Rightarrow> if d = newline then unix_lines ds else unix_lines cs | [] \<Rightarrow> [])
      else c # unix_lines cs)"

record text_file =
  tf_name :: string
  tf_size :: nat
  tf_content :: "string ext"

definition trim_end :: "string \<Rightarrow> string" where
  "trim_end s = rev (dropWhile is_space (rev s))"

text \<open>The upload: the new text, if any, and the note with its success.\<close>

definition handle_upload :: "string \<Rightarrow> text_file \<Rightarrow> string option \<times> string \<times> bool" where
  "handle_upload text f =
     (if tf_size f > 200 * 1024 then (None, ''File is too large (max 200 KB).'', False)
      else case tf_content f of
          Throw _ \<Rightarrow> (None, ''Could not read that file.'', False)
        | Ret raw \<Rightarrow>
            let content = filter (\<lambda>c. c \<noteq> CHR 0x00) (unix_lines raw) in
            if trim content = [] then (None, ''That file is empty.'', False)
            else let combined = (if trim text \<noteq> [] then trim_end text @ newline # content else content);
                     total = length (trim_parts newline combined) in
              (Some combined,
               ''Loaded '' @ tf_name f @ (if total > 10 then ''. Only the first 10 lines are used ('' @ decimal total @ '' found).'' else ''.''),
               total \<le> 10))"

text \<open>The approved FAQs; an entry keeps what else it holds.\<close>

definition edit_faq :: "nat \<Rightarrow> string \<Rightarrow> string \<Rightarrow> jsval list \<Rightarrow> jsval list" where
  "edit_faq i k v es = map (\<lambda>(j, e). if j = i then JObj (js_merge (spread e) [(k, JStr v)]) else e) (zip [0..<length es] es)"

definition remove_faq :: "nat \<Rightarrow> jsval list \<Rightarrow> jsval list" where
  "remove_faq i es = take i es @ drop (Suc i) es"

definition add_faq :: "jsval list \<Rightarrow> jsval list" where
  "add_faq es = (if length es \<ge> 20 then es else es @ [JObj [(''question'', JStr []), (''answer'', JStr [])]])"

definition set_hours :: "string \<Rightarrow> string \<Rightarrow> jsval \<Rightarrow> jsval" where
  "set_hours day v hours = JObj (js_merge (spread hours) [(day, JStr v)])"

section \<open>The configuration page\<close>

record af =
  af_name :: jsval
  af_voice :: jsval
  af_greeting :: jsval
  af_prompt :: jsval
  af_notes :: jsval
  af_languages :: language_policy
  af_tone :: jsval
  af_hours :: jsval
  af_rules :: jsval
  af_faqs :: jsval
  af_capabilities :: cap_flags

definition af_init :: af where
  "af_init = \<lparr>af_name = JStr [], af_voice = JStr ''Aoede'', af_greeting = JStr [], af_prompt = JStr [], af_notes = JStr [],
     af_languages = (En, [Fr_FR, Fr_BE, En]), af_tone = JStr ''friendly'', af_hours = JObj [], af_rules = JArr [],
     af_faqs = JArr [], af_capabilities = default_capability_flags\<rparr>"

definition tones :: "jsval list" where
  "tones = [JStr ''professional'', JStr ''friendly'', JStr ''warm'', JStr ''concise'']"

definition voices :: "string list" where
  "voices = [''Aoede'', ''Puck'', ''Charon'', ''Kore'', ''Fenrir'']"

definition load_data :: "jsval \<Rightarrow> af \<Rightarrow> af" where
  "load_data d f =
     (let l = read_response_language (get d ''default_language'') in
      \<lparr>af_name = js_or (get d ''assistant_name'') (af_name f), af_voice = js_or (get d ''voice_engine'') (af_voice f),
       af_greeting = js_or (get d ''inbound_greeting'') (af_greeting f), af_prompt = js_or (get d ''system_prompt'') (af_prompt f),
       af_notes = js_or (get d ''knowledge_base_notes'') (af_notes f),
       af_languages = (l, read_allowed_languages (get d ''allowed_languages'') l),
       af_tone = (if get d ''tone'' \<in> set tones then get d ''tone'' else af_tone f),
       af_hours = js_or (get d ''business_hours'') (JObj []), af_rules = js_or (get d ''escalation_rules'') (JArr []),
       af_faqs = js_or (get d ''faq_entries'') (JArr []),
       af_capabilities = read_capability_flags (get d ''capabilities'')\<rparr>)"

text \<open>A failed load keeps the form.\<close>

definition load_assistant :: "reply ext \<Rightarrow> af \<Rightarrow> af" where
  "load_assistant res f =
     (case ok_json [] res of
        Throw _ \<Rightarrow> f
      | Ret json \<Rightarrow> if nullish json \<or> \<not> truthy (get json ''data'') then f else load_data (get json ''data'') f)"

definition assistant_config :: "af \<Rightarrow> jsval" where
  "assistant_config f =
     JObj [(''assistant_name'', af_name f), (''voice_engine'', af_voice f), (''inbound_greeting'', af_greeting f),
       (''system_prompt'', af_prompt f), (''knowledge_base_notes'', af_notes f),
       (''default_language'', JStr (lang_code (fst (af_languages f)))),
       (''allowed_languages'', JArr (map (\<lambda>l. JStr (lang_code l)) (snd (af_languages f)))), (''tone'', af_tone f),
       (''business_hours'', af_hours f), (''escalation_rules'', af_rules f), (''faq_entries'', af_faqs f),
       (''capabilities'', write_capability_flags (af_capabilities f))]"

datatype af_edit =
    Loaded "reply ext"
  | Set_Name string | Pick_Voice nat | Set_Greeting string | Set_Prompt string | Set_Notes string
  | Pick_Default lang | Toggle_Language lang bool
  | Set_Flag capability_key bool
  | Pick_Tone nat | Set_Hours string string | Set_Escalation string
  | Edit_Question nat string | Edit_Answer nat string | Remove_Faq nat | Add_Faq

text \<open>An edit of the form; the FAQs are only edited while they are a list, and a choice is one of the offered ones.\<close>

definition af_step :: "af \<Rightarrow> af_edit \<Rightarrow> af" where
  "af_step f e =
     (let faqs = (\<lambda>g. case af_faqs f of JArr es \<Rightarrow> f\<lparr>af_faqs := JArr (g es)\<rparr> | _ \<Rightarrow> f) in
      case e of
        Loaded res \<Rightarrow> load_assistant res f
      | Set_Name s \<Rightarrow> f\<lparr>af_name := JStr s\<rparr>
      | Pick_Voice i \<Rightarrow> if i < length voices then f\<lparr>af_voice := JStr (voices ! i)\<rparr> else f
      | Set_Greeting s \<Rightarrow> f\<lparr>af_greeting := JStr (take 500 s)\<rparr>
      | Set_Prompt s \<Rightarrow> f\<lparr>af_prompt := JStr s\<rparr>
      | Set_Notes s \<Rightarrow> f\<lparr>af_notes := JStr (take 16000 s)\<rparr>
      | Pick_Default l \<Rightarrow> f\<lparr>af_languages := pick_default l (af_languages f)\<rparr>
      | Toggle_Language l c \<Rightarrow> f\<lparr>af_languages := toggle_language l c (af_languages f)\<rparr>
      | Set_Flag k b \<Rightarrow> f\<lparr>af_capabilities := set_flag k b (af_capabilities f)\<rparr>
      | Pick_Tone i \<Rightarrow> if i < length tones then f\<lparr>af_tone := tones ! i\<rparr> else f
      | Set_Hours d v \<Rightarrow> f\<lparr>af_hours := set_hours d v (af_hours f)\<rparr>
      | Set_Escalation t \<Rightarrow> f\<lparr>af_rules := JArr (map JStr (parse_rules t))\<rparr>
      | Edit_Question i s \<Rightarrow> faqs (edit_faq i ''question'' (take 240 s))
      | Edit_Answer i s \<Rightarrow> faqs (edit_faq i ''answer'' (take 1200 s))
      | Remove_Faq i \<Rightarrow> faqs (remove_faq i)
      | Add_Faq \<Rightarrow> faqs add_faq)"

section \<open>Saving and publishing\<close>

definition validate_url :: string where
  "validate_url = ''/api/assistant-config/validate''"

definition config_url :: string where
  "config_url = ''/api/assistant-config''"

definition with_deployed :: "jsval \<Rightarrow> bool \<Rightarrow> jsval" where
  "with_deployed c b = JObj (js_merge (obj_fields c) [(''is_deployed'', JBool b)])"

text \<open>The validator accepts: an ok answer with the status \<open>valid\<close>; otherwise the message of the error thrown.\<close>

definition accepts :: "reply ext \<Rightarrow> bool" where
  "accepts res = (case res of Throw _ \<Rightarrow> False
     | Ret r \<Rightarrow> reply_ok r \<and> get (json_or JNull r) ''status'' = JStr ''valid'')"

definition refusal :: "(rat \<Rightarrow> string) \<Rightarrow> reply ext \<Rightarrow> string" where
  "refusal fr res = (case res of Throw m \<Rightarrow> m
     | Ret r \<Rightarrow> js_string fr (js_or (get (json_or JNull r) ''detail'')
         (JStr ''Assistant profile validation failed. Review the configuration before publishing.'')))"

text \<open>\<open>refreshPublishedProfile\<close>: the published version, or the error state.\<close>

fun find_published :: "jsval list \<Rightarrow> jsval ext" where
  "find_published [] = Ret JUndef"
| "find_published (v # vs) =
     (if nullish v then Throw ''Cannot read properties''
      else if get v ''lifecycle_state'' = JStr ''published'' then Ret v else find_published vs)"

definition refresh_published :: "wnet \<Rightarrow> jsval ext \<times> wreq list" where
  "refresh_published net =
     (let q = w_get ''/api/assistant-config/versions'' in
      (case ok_json ''Profile versions unavailable'' (net q) of
         Throw m \<Rightarrow> Throw m
       | Ret payload \<Rightarrow> if nullish payload then Throw ''Cannot read properties''
           else (case find_published (array_or (get payload ''data'') []) of
               Throw m \<Rightarrow> Throw m
             | Ret v \<Rightarrow> Ret (if is_number (get v ''version'') then get v ''version'' else JNull)), [q]))"

record save_result =
  sr_text :: jsval
  sr_success :: bool
  sr_version :: "int option"
  sr_published :: "jsval ext option"      \<comment> \<open>the refreshed version, where it was refreshed\<close>

definition save_failed :: "jsval \<Rightarrow> save_result" where
  "save_failed t = \<lparr>sr_text = t, sr_success = False, sr_version = None, sr_published = None\<rparr>"

definition save_answer :: "bool \<Rightarrow> wnet \<Rightarrow> reply ext \<Rightarrow> save_result \<times> wreq list" where
  "save_answer deploy net res =
     (case res of
        Throw m \<Rightarrow> (save_failed (JStr m), [])
      | Ret r \<Rightarrow>
          if reply_ok r
          then let saved = json_or JNull r; (p, sent) = (if deploy then map_prod Some id (refresh_published net) else (None, [])) in
            (\<lparr>sr_text = JStr (if deploy then ''Assistant profile published. New sessions will use this version.''
                              else ''Assistant draft saved.''),
              sr_success = True, sr_version = the_int (get (get saved ''data'') ''profile_version''), sr_published = p\<rparr>, sent)
          else (save_failed (js_or (get (json_or JNull r) ''detail'') (JStr ''Failed to save assistant configuration.'')), []))"

definition handle_save :: "(rat \<Rightarrow> string) \<Rightarrow> bool \<Rightarrow> wnet \<Rightarrow> af \<Rightarrow> save_result \<times> wreq list" where
  "handle_save fr deploy net f =
     (let config = assistant_config f; v = w_send ''POST'' validate_url (with_deployed config False);
          q = w_send ''POST'' config_url (with_deployed config deploy) in
      if deploy \<and> \<not> accepts (net v) then (save_failed (JStr (refusal fr (net v))), [v])
      else (case save_answer deploy net (net q) of (r, sent) \<Rightarrow> (r, (if deploy then [v] else []) @ q # sent)))"

text \<open>The button that tests a draft opens the sandbox with the version that was saved.\<close>

definition save_and_test :: "(rat \<Rightarrow> string) \<Rightarrow> wnet \<Rightarrow> af \<Rightarrow> int option" where
  "save_and_test fr net f = sr_version (fst (handle_save fr False net f))"

section \<open>Onboarding\<close>

text \<open>The draft of the onboarding page is the form's object, with the server's fields spread over it.\<close>

definition onboarding_draft :: "jsval" where
  "onboarding_draft = JObj [(''assistant_name'', JStr []), (''voice_engine'', JStr ''Aoede''), (''inbound_greeting'', JStr []),
     (''system_prompt'', JStr []), (''knowledge_base_notes'', JStr []), (''default_language'', JStr ''en''),
     (''allowed_languages'', JArr [JStr ''fr-FR'', JStr ''fr-BE'', JStr ''en'']), (''tone'', JStr ''friendly''),
     (''business_hours'', JObj []), (''escalation_rules'', JArr []), (''faq_entries'', JArr []),
     (''capabilities'', JObj (map (\<lambda>(n, b). (n, JBool b)) (flag_list default_capability_flags)))]"

definition flags_object :: "cap_flags \<Rightarrow> jsval" where
  "flags_object f = JObj (map (\<lambda>(n, b). (n, JBool b)) (flag_list f))"

definition load_onboarding :: "reply ext \<Rightarrow> jsval \<Rightarrow> jsval" where
  "load_onboarding res draft =
     (case ok_json [] res of
        Throw _ \<Rightarrow> draft
      | Ret p \<Rightarrow> if nullish p \<or> \<not> truthy (get p ''data'') then draft
          else JObj (js_merge (js_merge (obj_fields draft) (spread (get p ''data'')))
                 [(''capabilities'', flags_object (read_capability_flags (get (get p ''data'') ''capabilities'')))]))"

text \<open>\<open>Object.entries\<close> of the draft's capabilities, each wrapped.\<close>

definition write_flags_of :: "jsval \<Rightarrow> jsval" where
  "write_flags_of c = JObj (map (\<lambda>(n, b). (n, JObj [(''enabled'', b)])) (obj_fields c))"

text \<open>Where a successful save leads, or the message.\<close>

definition save_onboarding :: "(rat \<Rightarrow> string) \<Rightarrow> bool \<Rightarrow> wnet \<Rightarrow> jsval \<Rightarrow> (string + string) \<times> wreq list" where
  "save_onboarding fr publish net draft =
     (let v = w_send ''POST'' validate_url (with_deployed draft False);
          q = w_send ''POST'' config_url (JObj (js_merge (obj_fields draft)
                [(''capabilities'', write_flags_of (get draft ''capabilities'')), (''is_deployed'', JBool publish)])) in
      if publish \<and> \<not> accepts (net v) then (Inl (refusal fr (net v)), [v])
      else (case net q of
              Throw m \<Rightarrow> Inl m
            | Ret r \<Rightarrow> if reply_ok r then Inr (if publish then ''dashboard'' else ''assistant-config'')
                      else Inl ''Assistant configuration could not be saved.'',
            (if publish then [v] else []) @ [q]))"

section \<open>The form\<close>

text \<open>What every form holds: a language policy that allows its default, an offered tone, and no value that a reload
would not take.\<close>

definition text_ok :: "jsval \<Rightarrow> bool" where
  "text_ok v \<longleftrightarrow> v = JStr [] \<or> truthy v"

definition af_ok :: "af \<Rightarrow> bool" where
  "af_ok f \<longleftrightarrow> list_all text_ok [af_name f, af_greeting f, af_prompt f, af_notes f] \<and> truthy (af_voice f)
     \<and> policy_ok (af_languages f) \<and> af_tone f \<in> set tones \<and> list_all truthy [af_hours f, af_rules f, af_faqs f]"

lemma text_ok_simps [simp]: "text_ok (JStr s)" "truthy v \<Longrightarrow> text_ok v" "text_ok v \<Longrightarrow> text_ok (js_or w v)"
  by (auto simp: text_ok_def js_or_def)

lemma truthy_or [simp]: "truthy w \<Longrightarrow> truthy (js_or v w)" "truthy v \<Longrightarrow> js_or v w = v"
  by (simp_all add: js_or_def)

lemma text_or [simp]: "text_ok v \<Longrightarrow> js_or v (JStr []) = v"
  by (auto simp: text_ok_def js_or_def)

lemma voices_truthy: "i < length voices \<Longrightarrow> voices ! i \<noteq> []"
  using nth_mem [of i voices] by (auto simp: voices_def)

lemma af_ok_init: "af_ok af_init"
  by (simp add: af_ok_def af_init_def policy_ok_def tones_def)

lemma af_ok_load: "af_ok f \<Longrightarrow> af_ok (load_data d f)"
  by (simp add: af_ok_def load_data_def Let_def policy_ok_read)

interpretation form: machine af_step af_ok
proof
  fix f e
  assume ok: "af_ok f"
  show "af_ok (af_step f e)"
  proof (cases e)
    case (Loaded res)
    then show ?thesis using ok af_ok_load [OF ok] by (simp add: af_step_def load_assistant_def split: ext.split)
  qed (use ok voices_truthy policy_ok_edits in \<open>auto simp: af_step_def af_ok_def set_hours_def Let_def split: jsval.split\<close>)
qed

lemma load_config: "af_ok f \<Longrightarrow> load_data (with_deployed (assistant_config f) b) af_init = f"
  by (simp add: with_deployed_def assistant_config_def js_merge_def jm_set_def load_data_def af_ok_def af_init_def
      read_response_language_def read_written_languages)

text \<open>C33. A configuration page shows what it saved: whatever was loaded and edited, the form that a fresh page loads from
a server that returns the saved configuration, as a draft or as published, is the form that was saved.\<close>

theorem web_configuration_reads_back:
  "let f = run af_step af_init es in
     af_step af_init (Loaded (Ret \<lparr>rp_status = 200,
       rp_json = Ret (JObj [(''data'', with_deployed (assistant_config f) b)])\<rparr>)) = f"
proof -
  have "load_data (with_deployed (assistant_config (run af_step af_init es)) b) af_init = run af_step af_init es"
    by (rule load_config [OF form.inv_run [OF af_ok_init]])
  moreover have "truthy (with_deployed c b)" for c by (simp add: with_deployed_def)
  ultimately show ?thesis
    by (simp add: af_step_def load_assistant_def ok_json_def reply_ok_def Let_def)
qed

text \<open>The company profile the capability compiler reads from a configuration.\<close>

definition profile_of :: "jsval \<Rightarrow> company_profile" where
  "profile_of c = \<lparr>cp_capabilities = obj_fields (get c ''capabilities''),
     cp_default_language = the_str (get c ''default_language''),
     cp_allowed_languages = map_option (List.map_filter the_str) (the_arr (get c ''allowed_languages''))\<rparr>"

definition switched_on :: "af \<Rightarrow> string list" where
  "switched_on f = map fst (filter snd (flag_list (af_capabilities f)))"

lemma profile_of_form:
  "enabled_capabilities (profile_of (assistant_config f)) = switched_on f"
  "default_language (profile_of (assistant_config f)) = lang_code (fst (af_languages f))"
  "fst (af_languages f) \<in> set (snd (af_languages f)) \<Longrightarrow>
     allowed_languages (profile_of (assistant_config f)) = map lang_code (snd (af_languages f))"
proof -
  have m: "List.map_filter the_str (map (\<lambda>l. JStr (lang_code l)) ls) = map lang_code ls" for ls
    by (induction ls) (simp_all add: List.map_filter_simps)
  show "enabled_capabilities (profile_of (assistant_config f)) = switched_on f"
    by (simp add: enabled_capabilities_def profile_of_def assistant_config_def write_capability_flags_def switched_on_def
        flag_list_def in_registry_def capability_registry_def)
  show d: "default_language (profile_of (assistant_config f)) = lang_code (fst (af_languages f))"
    by (simp add: default_language_def profile_of_def assistant_config_def)
  assume "fst (af_languages f) \<in> set (snd (af_languages f))"
  then show "allowed_languages (profile_of (assistant_config f)) = map lang_code (snd (af_languages f))"
    using d by (simp add: allowed_languages_def Let_def) (simp add: profile_of_def assistant_config_def m)
qed

lemma lang_codes: "inj lang_code" "lang_code l \<in> set supported_languages"
proof -
  show "inj lang_code" by (rule injI) (metis lang_of_code option.inject)
  show "lang_code l \<in> set supported_languages" by (cases l) (simp_all add: supported_languages_def)
qed

lemma switched_on_implemented: "k \<in> set (switched_on f) \<Longrightarrow> implemented k"
  by (auto simp: switched_on_def flag_list_def implemented_iff split: if_splits)

text \<open>C32. Every form the page can reach compiles, unless no capability is switched on: the capabilities of the compiled
profile are the switched ones, its languages are those of the form, and the only error is the missing capability.\<close>

theorem reachable_forms_compile:
  "let f = run af_step af_init es in
     case compile_company_capabilities pd (profile_of (assistant_config f)) of
       Inl m \<Rightarrow> switched_on f = [] \<and> m = ''Enable at least one supported company capability''
     | Inr r \<Rightarrow> switched_on f \<noteq> [] \<and> co_capabilities r = sort (switched_on f)
         \<and> co_defaultLanguage r = lang_code (fst (af_languages f))
         \<and> co_allowedLanguages r = map lang_code (snd (af_languages f))"
proof -
  define f where "f = run af_step af_init es"
  have p: "fst (af_languages f) \<in> set (snd (af_languages f))" "distinct (snd (af_languages f))"
    using form.inv_run [OF af_ok_init, of es] by (simp_all add: f_def af_ok_def policy_ok_def)
  have n: "find (\<lambda>k. \<not> implemented k) (switched_on f) = None"
    using switched_on_implemented by (simp add: find_None_iff)
  have "set (map lang_code (snd (af_languages f))) \<subseteq> set supported_languages" using lang_codes(2) by auto
  moreover have "distinct (map lang_code (snd (af_languages f)))"
    using p(2) inj_on_subset [OF lang_codes(1) subset_UNIV] by (simp add: distinct_map)
  ultimately show ?thesis using p n lang_codes(2)
    unfolding f_def [symmetric] Let_def
    by (auto simp: compile_company_capabilities_def profile_of_form(1,2) profile_of_form(3) [OF p(1)] Let_def)
qed

section \<open>Publication\<close>

text \<open>Every publication among the requests of a page comes after a validation that was accepted.\<close>

definition publishes :: "wreq \<Rightarrow> bool" where
  "publishes q \<longleftrightarrow> wq_method q = ''POST'' \<and> wq_url q = config_url
     \<and> (case wq_body q of Some b \<Rightarrow> get b ''is_deployed'' = JBool True | None \<Rightarrow> False)"

fun vetted :: "wnet \<Rightarrow> bool \<Rightarrow> wreq list \<Rightarrow> bool" where
  "vetted net v [] = True"
| "vetted net v (q # qs) =
     ((v \<or> \<not> publishes q) \<and> vetted net (v \<or> wq_url q = validate_url \<and> accepts (net q)) qs)"

lemma publishes_simps [simp]:
  "publishes (w_send ''POST'' validate_url b) = False" "publishes (w_get u) = False"
  "publishes (w_send ''POST'' config_url b) = (get b ''is_deployed'' = JBool True)"
  by (simp_all add: publishes_def w_send_def w_get_def validate_url_def config_url_def)

lemma get_deployed [simp]: "get (with_deployed c b) ''is_deployed'' = JBool b"
  by (simp add: with_deployed_def js_merge_def get_obj_fields del: get.simps)

lemma refresh_sent: "snd (refresh_published net) = [w_get ''/api/assistant-config/versions'']"
  by (simp add: refresh_published_def Let_def)

lemma save_answer_sent: "snd (save_answer deploy net res) \<in> {[], [w_get ''/api/assistant-config/versions'']}"
  using refresh_sent [of net]
  by (cases "refresh_published net") (auto simp: save_answer_def Let_def split: ext.split prod.split)

lemma save_answer_quiet: "list_all (\<lambda>q. \<not> publishes q) (snd (save_answer deploy net res))"
  using save_answer_sent [of deploy net res] by auto

lemma vetted_after [simp]: "vetted net True qs"
  by (induction qs) simp_all

lemma vetted_quiet: "list_all (\<lambda>q. \<not> publishes q) qs \<Longrightarrow> vetted net v qs"
  by (induction qs arbitrary: v) simp_all

text \<open>C31. The web app publishes no profile that was not validated: on the configuration page and in the onboarding, every
request that publishes comes after a validation request whose answer was ok with the status \<open>valid\<close>; a page that was refused
sends nothing else.\<close>

theorem web_publications_are_validated:
  "vetted net False (snd (handle_save fr deploy net f)) \<and> vetted net False (snd (save_onboarding fr deploy net draft))"
proof
  have u: "wq_url (w_send m u b) = u" for m u b by (simp add: w_send_def)
  show "vetted net False (snd (handle_save fr deploy net f))"
  proof (cases deploy)
    case True
    then show ?thesis by (auto simp: handle_save_def Let_def u split: prod.split)
  next
    case False
    show ?thesis using False save_answer_quiet [of deploy net] vetted_quiet
      by (auto simp: handle_save_def Let_def u split: prod.split) (metis snd_conv)
  qed
  show "vetted net False (snd (save_onboarding fr deploy net draft))"
    by (simp add: save_onboarding_def Let_def u js_merge_def get_obj_fields del: get.simps)
qed

end
