(* ===== verification/Web_Integrations.thy ===== *)
theory Web_Integrations
  imports Web_Assistant
begin

text \<open>
  The integrations page of the web app (\<open>frontend/src/App.tsx\<close>): the status both cards start from, the Google
  Calendar card and the 3CX card with its form. Values the server sends are JavaScript values; \<open>fr\<close> prints fractions.
  A save runs from the click to its answer; the form is disabled by \<open>busy\<close> meanwhile.
\<close>

section \<open>The status both cards start from\<close>

text \<open>The page's \<open>integrationStatus\<close> after its request: \<open>null\<close> until and unless an answer arrives.\<close>

definition integration_status :: "reply ext \<Rightarrow> jsval" where
  "integration_status res =
     (case (case res of Throw m \<Rightarrow> Throw m | Ret r \<Rightarrow> if reply_ok r then rp_json r else Ret JNull) of
        Ret v \<Rightarrow> v
      | Throw _ \<Rightarrow> JObj [(''google'', JNull), (''threeCx'', JNull)])"

text \<open>The property a card gets: \<open>undefined\<close> while there is no status.\<close>

definition initial_status :: "string \<Rightarrow> jsval \<Rightarrow> jsval" where
  "initial_status k st = (if truthy st then get st k else JUndef)"

section \<open>Google Calendar\<close>

record gc =
  gc_connected :: bool
  gc_state :: jsval
  gc_email :: jsval
  gc_loading :: bool
  gc_busy :: bool

definition gc_show :: "jsval \<Rightarrow> string \<Rightarrow> string \<Rightarrow> gc \<Rightarrow> gc" where
  "gc_show d first second g =
     g\<lparr>gc_connected := truthy (get d ''connected''),
       gc_state := js_or (get d ''connection_state'') (JStr (if truthy (get d ''connected'') then ''connected'' else ''disconnected'')),
       gc_email := js_or (get d first) (js_or (get d second) JNull)\<rparr>"

definition gc_initial :: "jsval \<Rightarrow> gc" where
  "gc_initial st = gc_show st ''google_email'' ''email''
     \<lparr>gc_connected = False, gc_state = JNull, gc_email = JNull, gc_loading = (st = JUndef), gc_busy = False\<rparr>"

text \<open>The effect that follows \<open>initialStatus\<close>.\<close>

definition gc_effect :: "jsval \<Rightarrow> gc \<Rightarrow> gc" where
  "gc_effect st g = (if st = JUndef then g else (gc_show st ''google_email'' ''email'' g)\<lparr>gc_loading := False\<rparr>)"

definition check_google :: "reply ext \<Rightarrow> gc \<Rightarrow> gc" where
  "check_google res g =
     (let off = g\<lparr>gc_connected := False, gc_email := JNull\<rparr> in
      (case ok_json [] res of
         Ret data \<Rightarrow> if nullish data then off else gc_show data ''email'' ''google_email'' g
       | Throw _ \<Rightarrow> off)\<lparr>gc_loading := False\<rparr>)"

text \<open>Where the popup of \<open>handleConnect\<close> is sent; the card is busy until it is closed.\<close>

definition google_popup :: "(rat \<Rightarrow> string) \<Rightarrow> reply ext \<Rightarrow> string" where
  "google_popup fr res =
     (case ok_json [] res of
        Ret data \<Rightarrow> if \<not> nullish data \<and> truthy (get data ''auth_url'') then js_string fr (get data ''auth_url'')
                    else ''/auth/google/login''
      | Throw _ \<Rightarrow> ''/auth/google/login'')"

definition google_popup_closed :: "reply ext \<Rightarrow> gc \<Rightarrow> gc" where
  "google_popup_closed res g = check_google res (g\<lparr>gc_busy := False\<rparr>)"

definition disconnect_google :: "unit ext \<Rightarrow> reply ext \<Rightarrow> gc \<Rightarrow> gc" where
  "disconnect_google posted res g = (case posted of Ret _ \<Rightarrow> check_google res g | Throw _ \<Rightarrow> g)\<lparr>gc_busy := False\<rparr>"

definition google_badge :: "gc \<Rightarrow> string" where
  "google_badge g =
     (if gc_loading g then ''Checking...''
      else if gc_state g = JStr ''refreshable'' then ''Connected - refresh on use''
      else if gc_connected g then ''Connected'' else ''Not Connected'')"

section \<open>The 3CX form\<close>

record tx =
  tx_name :: jsval
  tx_url :: string
  tx_app :: jsval
  tx_dn :: jsval
  tx_secret :: string
  tx_dids :: string
  tx_transfers :: string
  tx_action :: string
  tx_destination :: jsval
  tx_status :: jsval
  tx_busy :: bool
  tx_sent :: "wreq list"           \<comment> \<open>the requests of the card\<close>

definition tx_init :: tx where
  "tx_init = \<lparr>tx_name = JStr ''3CX PBX Connection'', tx_url = [], tx_app = JStr [], tx_dn = JStr [], tx_secret = [],
     tx_dids = [], tx_transfers = [], tx_action = ''disconnect'', tx_destination = JStr [], tx_status = JNull,
     tx_busy = False, tx_sent = []\<rparr>"

definition tx_send :: "wreq \<Rightarrow> tx \<Rightarrow> tx" where
  "tx_send q t = t\<lparr>tx_sent := tx_sent t @ [q]\<rparr>"

text \<open>\<open>applyStatus\<close>: reading a property of \<open>null\<close> throws after the status was set.\<close>

definition apply_status :: "(rat \<Rightarrow> string) \<Rightarrow> jsval \<Rightarrow> tx \<Rightarrow> tx \<times> unit ext" where
  "apply_status fr d t =
     (if nullish d then (t\<lparr>tx_status := d\<rparr>, Throw ''Cannot read properties'')
      else (t\<lparr>tx_status := d, tx_name := js_or (get d ''connectionName'') (JStr ''3CX PBX Connection''),
          tx_url := (if truthy (get d ''pbxHost'') then ''https://'' @ js_string fr (get d ''pbxHost'') else []),
          tx_app := js_or (get d ''appId'') (JStr []), tx_dn := js_or (get d ''routePointDn'') (JStr []),
          tx_dids := comma_text fr (get d ''dids''), tx_transfers := comma_text fr (get d ''transferDestinations''),
          tx_action := (if get d ''failureAction'' = JStr ''transfer'' then ''transfer'' else ''disconnect''),
          tx_destination := js_or (get d ''failureDestination'') (JStr []), tx_secret := []\<rparr>, Ret ()))"

text \<open>The mounting effect; an error in it takes the page down.\<close>

definition tx_effect :: "(rat \<Rightarrow> string) \<Rightarrow> jsval \<Rightarrow> tx \<Rightarrow> tx \<times> unit ext" where
  "tx_effect fr st t = (if st = JUndef then (t, Ret ()) else apply_status fr st t)"

definition normalized_url :: "string \<Rightarrow> string" where
  "normalized_url url =
     (let u = trim url in
      if u = [] then [] else if starts_with ''http://'' u \<or> starts_with ''https://'' u then u else ''https://'' @ u)"

definition tx_body :: "tx \<Rightarrow> string \<Rightarrow> string \<Rightarrow> jsval" where
  "tx_body t name dn =
     JObj [(''connection_name'', JStr (str_or name ''3CX PBX Connection'')), (''pbx_url'', JStr (normalized_url (tx_url t))),
       (''app_id'', tx_app t), (''route_point_dn'', JStr dn), (''client_secret'', JStr (tx_secret t)),
       (''dids'', JArr (map JStr (comma_list (tx_dids t)))),
       (''transfer_destinations'', JArr (map JStr (comma_list (tx_transfers t)))),
       (''failure_action'', JStr (tx_action t)),
       (''failure_destination'', if tx_action t = ''transfer'' then tx_destination t else JNull)]"

definition tx_payload :: "tx \<Rightarrow> jsval ext" where
  "tx_payload t =
     (case trim_of (tx_name t) of
        Throw m \<Rightarrow> Throw m
      | Ret name \<Rightarrow> (case trim_of (tx_dn t) of
            Throw m \<Rightarrow> Throw m
          | Ret dn \<Rightarrow> if dn \<noteq> [] then Ret (tx_body t name dn)
              else (case trim_of (tx_app t) of Throw m \<Rightarrow> Throw m | Ret a \<Rightarrow> Ret (tx_body t name a))))"

definition tx_failed :: "jsval \<Rightarrow> tx \<Rightarrow> tx" where
  "tx_failed m t = t\<lparr>tx_status := JObj (js_merge (spread (js_or (tx_status t) (JObj []))) [(''error'', m)])\<rparr>"

definition tx_refusal :: "(rat \<Rightarrow> string) \<Rightarrow> string \<Rightarrow> string \<Rightarrow> bool \<Rightarrow> reply \<Rightarrow> jsval" where
  "tx_refusal fr recent other limited r =
     (let f = json_or JNull r in
      JStr (if get f ''error_code'' = JStr ''RECENT_AUTHENTICATION_REQUIRED'' then recent
        else if limited \<and> rp_status r = 429 then ''Too many 3CX setup attempts. Wait before trying again.''
        else js_string fr (js_or (get f ''detail'') (js_or (get f ''error_message'') (JStr other)))))"

definition threecx_url :: string where
  "threecx_url = ''/api/integrations/3cx''"

definition load_threecx :: "(rat \<Rightarrow> string) \<Rightarrow> wnet \<Rightarrow> tx \<Rightarrow> tx" where
  "load_threecx fr net t =
     (let q = w_get threecx_url; t = tx_send q t in
      case ok_json ''Could not load the 3CX connection details'' (net q) of
        Throw m \<Rightarrow> tx_failed (JStr m) t
      | Ret d \<Rightarrow> (case apply_status fr d t of (t, Ret _) \<Rightarrow> t | (t, Throw m) \<Rightarrow> tx_failed (JStr m) t))"

definition save_threecx :: "(rat \<Rightarrow> string) \<Rightarrow> wnet \<Rightarrow> tx \<Rightarrow> tx" where
  "save_threecx fr net t =
     (case tx_payload t of
        Throw m \<Rightarrow> tx_failed (JStr m) t
      | Ret p \<Rightarrow> let q = w_send ''PUT'' threecx_url p; t = tx_send q t in
          (case net q of
             Throw m \<Rightarrow> tx_failed (JStr m) t
           | Ret r \<Rightarrow> if reply_ok r then load_threecx fr net (t\<lparr>tx_secret := []\<rparr>)
               else tx_failed (tx_refusal fr
                 ''For security, sign out and sign in again before testing or saving 3CX credentials.''
                 ''3CX connection test and save failed'' True r) t))
       \<lparr>tx_secret := [], tx_busy := False\<rparr>"

definition approved_destinations :: "tx \<Rightarrow> string list" where
  "approved_destinations t = comma_list (tx_transfers t)"

definition save_disabled :: "tx \<Rightarrow> bool" where
  "save_disabled t \<longleftrightarrow> tx_busy t \<or> tx_secret t = [] \<or> \<not> truthy (tx_app t) \<or> tx_url t = [] \<or> \<not> truthy (tx_dn t)
     \<or> tx_action t = []
     \<or> (tx_action t = ''transfer''
          \<and> (\<not> truthy (tx_destination t) \<or> tx_destination t \<notin> JStr ` set (approved_destinations t)))"

definition disconnect_threecx_card :: "(rat \<Rightarrow> string) \<Rightarrow> bool \<Rightarrow> wnet \<Rightarrow> tx \<Rightarrow> tx" where
  "disconnect_threecx_card fr confirmed net t =
     (if \<not> truthy (get (tx_status t) ''configured'') \<or> \<not> confirmed then t
      else let q = \<lparr>wq_method = ''DELETE'', wq_url = threecx_url, wq_body = None\<rparr>; t = tx_send q t in
        (case net q of
           Throw m \<Rightarrow> tx_failed (JStr m) t
         | Ret r \<Rightarrow>
             if \<not> reply_ok r
             then tx_failed (tx_refusal fr ''For security, sign out and sign in again before disconnecting 3CX.''
                    ''3CX could not be disconnected'' False r) t
             else t\<lparr>tx_status := JObj [(''configured'', JBool False), (''state'', JStr ''unconfigured'')],
                    tx_name := JStr [], tx_url := [], tx_app := JStr [], tx_dn := JStr [], tx_dids := [], tx_transfers := [],
                    tx_action := [], tx_destination := JStr [], tx_secret := []\<rparr>)\<lparr>tx_busy := False\<rparr>)"

datatype tx_field = Tx_Name | Tx_Url | Tx_App | Tx_Dn | Tx_Secret | Tx_Dids | Tx_Transfers

fun set_tx :: "tx_field \<Rightarrow> string \<Rightarrow> tx \<Rightarrow> tx" where
  "set_tx Tx_Name s t = t\<lparr>tx_name := JStr s\<rparr>"
| "set_tx Tx_Url s t = t\<lparr>tx_url := s\<rparr>"
| "set_tx Tx_App s t = t\<lparr>tx_app := JStr s\<rparr>"
| "set_tx Tx_Dn s t = t\<lparr>tx_dn := JStr s\<rparr>"
| "set_tx Tx_Secret s t = t\<lparr>tx_secret := s\<rparr>"
| "set_tx Tx_Dids s t = t\<lparr>tx_dids := s\<rparr>"
| "set_tx Tx_Transfers s t = t\<lparr>tx_transfers := s\<rparr>"

text \<open>The choice of the fall-back clears a destination it does not use; a destination is chosen from the approved ones.\<close>

definition pick_action :: "nat \<Rightarrow> tx \<Rightarrow> tx" where
  "pick_action i t =
     (if i < 3 then let a = [[], ''disconnect'', ''transfer''] ! i in
        t\<lparr>tx_action := a, tx_destination := (if a \<noteq> ''transfer'' then JStr [] else tx_destination t)\<rparr>
      else t)"

definition pick_destination :: "nat \<Rightarrow> tx \<Rightarrow> tx" where
  "pick_destination i t =
     (if tx_action t = ''transfer'' \<and> i \<le> length (approved_destinations t)
      then t\<lparr>tx_destination := JStr (([] # approved_destinations t) ! i)\<rparr> else t)"

datatype tx_event =
    Tx_Status jsval
  | Tx_Typed tx_field string
  | Tx_Action nat
  | Tx_Destination nat
  | Tx_Save wnet
  | Tx_Disconnect bool wnet

definition tx_step :: "(rat \<Rightarrow> string) \<Rightarrow> tx \<Rightarrow> tx_event \<Rightarrow> tx" where
  "tx_step fr t e =
     (case e of
        Tx_Status st \<Rightarrow> fst (tx_effect fr st t)
      | Tx_Typed f s \<Rightarrow> set_tx f s t
      | Tx_Action i \<Rightarrow> pick_action i t
      | Tx_Destination i \<Rightarrow> pick_destination i t
      | Tx_Save net \<Rightarrow> if save_disabled t then t else save_threecx fr net t
      | Tx_Disconnect c net \<Rightarrow> disconnect_threecx_card fr c net t)"

section \<open>What the 3CX card sends\<close>

text \<open>A complete request to save: a secret, an explicit fall-back, and a transfer only to one of the transfer
destinations of the same request; addresses are absolute and lists hold trimmed entries.\<close>

definition str_list :: "jsval \<Rightarrow> string list" where
  "str_list v = List.map_filter the_str (array_or v [])"

definition absolute_or_empty :: "jsval \<Rightarrow> bool" where
  "absolute_or_empty v =
     (case the_str v of Some u \<Rightarrow> u = [] \<or> starts_with ''http://'' u \<or> starts_with ''https://'' u | None \<Rightarrow> False)"

definition complete_save :: "jsval \<Rightarrow> bool" where
  "complete_save b \<longleftrightarrow> truthy (get b ''client_secret'') \<and> truthy (get b ''app_id'') \<and> truthy (get b ''connection_name'')
     \<and> absolute_or_empty (get b ''pbx_url'')
     \<and> list_all (entry_ok (CHR '','')) (str_list (get b ''dids''))
     \<and> list_all (entry_ok (CHR '','')) (str_list (get b ''transfer_destinations''))
     \<and> (get b ''failure_action'' = JStr ''disconnect'' \<and> get b ''failure_destination'' = JNull
        \<or> get b ''failure_action'' = JStr ''transfer''
          \<and> get b ''failure_destination'' \<in> JStr ` set (str_list (get b ''transfer_destinations'')))"

definition tx_request_ok :: "wreq \<Rightarrow> bool" where
  "tx_request_ok q \<longleftrightarrow> wq_url q = threecx_url
     \<and> (case wq_body q of Some b \<Rightarrow> wq_method q = ''PUT'' \<and> complete_save b | None \<Rightarrow> wq_method q \<in> {''GET'', ''DELETE''})"

definition tx_ok :: "tx \<Rightarrow> bool" where
  "tx_ok t \<longleftrightarrow> list_all tx_request_ok (tx_sent t) \<and> tx_action t \<in> {[], ''disconnect'', ''transfer''} \<and> \<not> tx_busy t"

lemma str_list_strs [simp]: "str_list (JArr (map JStr xs)) = xs"
  by (induction xs) (simp_all add: str_list_def List.map_filter_simps)

lemma comma_list_ok: "list_all (entry_ok (CHR '','')) (comma_list s)"
  by (simp add: comma_list_def trim_parts_ok)

lemma normalized_cases:
  "normalized_url u = [] \<or> starts_with ''http://'' (normalized_url u) \<or> starts_with ''https://'' (normalized_url u)"
  by (simp add: normalized_url_def Let_def starts_with_def)

lemma save_is_complete:
  assumes "\<not> save_disabled t" "tx_payload t = Ret p" "tx_action t \<in> {[], ''disconnect'', ''transfer''}"
  shows "complete_save p"
proof -
  obtain name dn where p: "p = tx_body t name dn"
    using assms(2) by (auto simp: tx_payload_def split: ext.splits if_splits)
  show ?thesis
    using assms(1,3) normalized_cases [of "tx_url t"] comma_list_ok
    by (auto simp: complete_save_def p tx_body_def save_disabled_def approved_destinations_def absolute_or_empty_def)
qed

lemma tx_ok_failed [simp]: "tx_ok (tx_failed m t) = tx_ok t"
  by (simp add: tx_ok_def tx_failed_def)

lemma tx_ok_send [simp]: "tx_ok (tx_send q t) \<longleftrightarrow> tx_ok t \<and> tx_request_ok q"
  by (auto simp: tx_ok_def tx_send_def)

lemma tx_ok_status: "tx_ok t \<Longrightarrow> tx_ok (fst (apply_status fr d t))"
  by (simp add: tx_ok_def apply_status_def)

lemma tx_ok_load: "tx_ok t \<Longrightarrow> tx_ok (load_threecx fr net t)"
  using tx_ok_status [of "tx_send (w_get threecx_url) t" fr]
  by (auto simp: load_threecx_def Let_def tx_request_ok_def w_get_def split: ext.split prod.split) (metis fst_conv)+

lemma tx_ok_save:
  assumes ok: "tx_ok t" and on: "\<not> save_disabled t"
  shows "tx_ok (save_threecx fr net t)"
proof -
  have c: "complete_save p" if "tx_payload t = Ret p" for p
    using save_is_complete [OF on that] ok by (simp add: tx_ok_def)
  have k: "tx_ok u \<Longrightarrow> tx_ok (u\<lparr>tx_secret := []\<rparr>)" "tx_ok u \<Longrightarrow> tx_ok (u\<lparr>tx_secret := [], tx_busy := False\<rparr>)" for u
    by (simp_all add: tx_ok_def)
  show ?thesis using ok c
    by (auto simp: save_threecx_def Let_def tx_request_ok_def w_send_def intro!: k tx_ok_load split: ext.split)
qed

lemma tx_ok_disconnect: "tx_ok t \<Longrightarrow> tx_ok (disconnect_threecx_card fr c net t)"
  by (auto simp: disconnect_threecx_card_def Let_def tx_ok_def tx_send_def tx_failed_def tx_request_ok_def split: ext.split)

interpretation threecx: machine "tx_step fr" tx_ok
proof
  fix t e
  assume ok: "tx_ok t"
  have "tx_ok (set_tx f s t)" for f s using ok by (cases f) (simp_all add: tx_ok_def)
  moreover have "tx_ok (pick_action i t)" for i
    using ok by (auto simp: tx_ok_def pick_action_def Let_def less_Suc_eq numeral_3_eq_3)
  moreover have "tx_ok (pick_destination i t)" for i using ok by (simp add: tx_ok_def pick_destination_def)
  ultimately show "tx_ok (tx_step fr t e)"
    using ok tx_ok_save [OF ok] tx_ok_disconnect [OF ok] tx_ok_status [OF ok]
    by (cases e) (simp_all add: tx_step_def tx_effect_def)
qed

text \<open>In every run of the 3CX card, each request it sends to save is complete: it carries a secret and an explicit
fall-back, a transfer only to one of the transfer destinations it declares itself, and lists of trimmed entries; and the
secret leaves the form with every save and every successful disconnect, whatever the server answers.\<close>

theorem threecx_saves_are_complete:
  "let t = run (tx_step fr) tx_init es in
     list_all tx_request_ok (tx_sent t) \<and> tx_secret (save_threecx fr net t) = []
     \<and> (tx_secret (disconnect_threecx_card fr c net t) = [] \<or> tx_secret (disconnect_threecx_card fr c net t) = tx_secret t)"
proof -
  have "tx_ok tx_init" by (simp add: tx_ok_def tx_init_def)
  from threecx.inv_run [OF this, of fr es] show ?thesis
    by (simp add: Let_def tx_ok_def save_threecx_def disconnect_threecx_card_def tx_send_def tx_failed_def split: ext.split)
qed

text \<open>The lists the server stores survive the form: a status whose numbers and destinations are trimmed, free of
commas and not empty is shown and saved again as the same lists.\<close>

theorem threecx_lists_read_back:
  assumes "get d ''dids'' = JArr (map JStr ds)" "get d ''transferDestinations'' = JArr (map JStr ts)"
    and "list_all (entry_ok (CHR '','')) ds" "list_all (entry_ok (CHR '','')) ts"
    and "tx_payload (fst (apply_status fr d t)) = Ret p"
  shows "str_list (get p ''dids'') = ds \<and> str_list (get p ''transfer_destinations'') = ts"
proof -
  have n: "\<not> nullish d" using assms(1) by (cases d) auto
  have j: "comma_list (comma_text fr (JArr (map JStr xs))) = xs" if "list_all (entry_ok (CHR '','')) xs" for xs
    using trim_parts_join [OF that, of "[CHR 0x20]"]
    by (simp add: comma_list_def comma_text_def comp_def is_space_def)
  obtain u name dn where "p = tx_body u name dn" and u: "u = fst (apply_status fr d t)"
    using assms(5) by (auto simp: tx_payload_def split: ext.splits if_splits)
  then have p: "str_list (get p ''dids'') = comma_list (tx_dids u)"
      "str_list (get p ''transfer_destinations'') = comma_list (tx_transfers u)"
    by (simp_all add: tx_body_def)
  have "tx_dids u = comma_text fr (get d ''dids'')" "tx_transfers u = comma_text fr (get d ''transferDestinations'')"
    using n by (simp_all add: u apply_status_def)
  then show ?thesis using p j [OF assms(3)] j [OF assms(4)] assms(1,2) by simp
qed

definition demo_status :: jsval where
  "demo_status = JObj [(''configured'', JBool True), (''connectionName'', JStr ''PBX''), (''pbxHost'', JStr ''pbx.example''),
     (''appId'', JStr ''app''), (''routePointDn'', JStr ''800''), (''dids'', JArr [JStr ''+230 111'', JStr ''+230 222'']),
     (''transferDestinations'', JArr [JStr ''100'']), (''failureAction'', JStr ''transfer''), (''failureDestination'', JStr ''100'')]"

theorem threecx_lists_read_back_witness:
  "\<exists>p. tx_payload (fst (apply_status (\<lambda>_. []) demo_status tx_init)) = Ret p
     \<and> str_list (get p ''dids'') = [''+230 111'', ''+230 222''] \<and> str_list (get p ''transfer_destinations'') = [''100'']"
proof -
  define q where "q = tx_payload (fst (apply_status (\<lambda>_. []) demo_status tx_init))"
  have "is_ret q" unfolding q_def by code_simp
  then obtain p where p: "q = Ret p" by (auto simp: is_ret_iff)
  have "str_list (get p ''dids'') = [''+230 111'', ''+230 222''] \<and> str_list (get p ''transfer_destinations'') = [''100'']"
  proof (rule threecx_lists_read_back [where d = demo_status and fr = "\<lambda>_. []" and t = tx_init])
    show "get demo_status ''dids'' = JArr (map JStr [''+230 111'', ''+230 222''])" by code_simp
    show "get demo_status ''transferDestinations'' = JArr (map JStr [''100''])" by code_simp
    show "list_all (entry_ok (CHR '','')) [''+230 111'', ''+230 222'']" by code_simp
    show "list_all (entry_ok (CHR '','')) [''100'']" by code_simp
    show "tx_payload (fst (apply_status (\<lambda>_. []) demo_status tx_init)) = Ret p" using p by (simp add: q_def)
  qed
  then show ?thesis using p by (auto simp: q_def)
qed

section \<open>What goes wrong\<close>

text \<open>When the status request of the page fails, the 3CX card is given \<open>null\<close>, which is not \<open>undefined\<close>: its mounting
effect throws and takes the page down.\<close>

lemma failed_status_takes_page_down:
  "\<not> is_ret (snd (tx_effect fr (initial_status ''threeCx'' (integration_status (Throw m))) t))"
  by (simp add: tx_effect_def integration_status_def initial_status_def apply_status_def)

text \<open>When it is refused, the Google card never stops checking.\<close>

lemma refused_status_keeps_checking:
  assumes "\<not> reply_ok r"
  shows "google_badge (gc_effect (initial_status ''google'' (integration_status (Ret r)))
      (gc_initial (initial_status ''google'' (integration_status (Ret r))))) = ''Checking...''"
  using assms by (simp add: google_badge_def gc_effect_def initial_status_def integration_status_def gc_initial_def gc_show_def)

text \<open>A check that fails disconnects a refreshable account without touching its state: the badge goes on to show it as
connected, above a button that offers to connect it.\<close>

lemma failed_check_keeps_badge:
  "google_badge (check_google (Throw m) (gc_initial (JObj [(''connected'', JBool True), (''connection_state'', JStr ''refreshable'')])))
     = ''Connected - refresh on use''
   \<and> \<not> gc_connected (check_google (Throw m) g)"
  by (simp add: google_badge_def check_google_def ok_json_def gc_initial_def gc_show_def js_or_def)

end
