(* ===== verification/Web_Pages.thy ===== *)
theory Web_Pages
  imports Web_Assistant
begin

text \<open>
  The other pages of the web app (\<open>frontend/src/App.tsx\<close>): dashboard, call history, phone numbers, company profile,
  the account footer and the routing of the root component, and the booking updates
  (\<open>components/tasks/BookingUpdateCenter.tsx\<close>). \<open>dp\<close> is \<open>Date.parse\<close> (\<open>None\<close> is \<open>NaN\<close>).
\<close>

section \<open>Dashboard\<close>

type_synonym date_parse = "jsval \<Rightarrow> int option"

definition get_json :: "reply ext \<Rightarrow> jsval" where
  "get_json res = (case res of
       Ret r \<Rightarrow> if reply_ok r then (case rp_json r of Ret v \<Rightarrow> v | Throw _ \<Rightarrow> JNull) else JNull
     | Throw _ \<Rightarrow> JNull)"

record summary =
  su_company :: "string option"
  su_threecx :: jsval
  su_google :: "bool option"
  su_published :: "jsval option"
  su_calls :: "jsval list option"

definition read_summary :: "(rat \<Rightarrow> string) \<Rightarrow> jsval \<Rightarrow> summary" where
  "read_summary fr s =
     (let name = trim (js_string fr (js_or (get (get s ''company'') ''company_name'') (JStr []))) in
      \<lparr>su_company = (if name = [] then None else Some name), su_threecx = js_or (get s ''threeCx'') JNull,
       su_google = (if truthy (get s ''google'') then Some (truthy (get (get s ''google'') ''connected'')) else None),
       su_published = (if is_number (get s ''publishedVersion'') then Some (get s ''publishedVersion'') else None),
       su_calls = the_arr (get s ''calls'')\<rparr>)"

definition call_seconds :: "date_parse \<Rightarrow> jsval \<Rightarrow> rat option" where
  "call_seconds dp c = (case (dp (get c ''endedAt''), dp (get c ''createdAt'')) of
       (Some e, Some s) \<Rightarrow> Some (of_int (e - s) / 1000) | _ \<Rightarrow> None)"

definition call_duration :: "date_parse \<Rightarrow> jsval \<Rightarrow> string" where
  "call_duration dp c =
     (if \<not> truthy (get c ''endedAt'') then [CHR 0x97]
      else case call_seconds dp c of
          None \<Rightarrow> ''NaNm NaNs''
        | Some q \<Rightarrow> let s = max 0 (js_round q) in
            if s < 60 then int_string s @ '' sec'' else int_string (s div 60) @ ''m '' @ int_string (s mod 60) @ ''s'')"

definition with_state :: "string \<Rightarrow> jsval list \<Rightarrow> jsval list" where
  "with_state st = filter (\<lambda>c. get c ''state'' = JStr st)"

text \<open>The average of the completed calls: none without a duration, \<open>NaN\<close> (\<open>Some None\<close>) with an invalid date.\<close>

definition average_duration :: "date_parse \<Rightarrow> jsval list \<Rightarrow> int option option" where
  "average_duration dp calls =
     (let ds = map (call_seconds dp) (filter (\<lambda>c. truthy (get c ''endedAt'')) (with_state ''ended'' calls)) in
      if ds = [] then None
      else Some (if None \<in> set ds then None
                 else Some (js_round (sum_list (map (\<lambda>d. max 0 (the d)) ds) / of_nat (length ds)))))"

text \<open>The chart: the calls in the 24 hours that follow each of the seven local midnights.\<close>

definition day_ms :: int where
  "day_ms = 86400000"

definition created_in :: "date_parse \<Rightarrow> int \<Rightarrow> int \<Rightarrow> jsval \<Rightarrow> bool" where
  "created_in dp lo hi c \<longleftrightarrow> (case dp (get c ''createdAt'') of Some t \<Rightarrow> lo \<le> t \<and> t < hi | None \<Rightarrow> False)"

definition per_day :: "date_parse \<Rightarrow> int list \<Rightarrow> jsval list \<Rightarrow> nat list" where
  "per_day dp days calls = map (\<lambda>d. length (filter (created_in dp d (d + day_ms)) calls)) days"

definition week_total :: "date_parse \<Rightarrow> int list \<Rightarrow> jsval list \<Rightarrow> nat" where
  "week_total dp days calls = sum_list (per_day dp days calls)"

definition checklist :: "summary \<Rightarrow> bool list" where
  "checklist s = [su_company s \<noteq> None, su_published s \<noteq> None, su_google s = Some True, truthy (get (su_threecx s) ''configured'')]"

definition setup_percent :: "summary \<Rightarrow> int" where
  "setup_percent s =
     js_round (of_nat (length (filter id (checklist s))) / of_nat (length (checklist s)) * 100)"

section \<open>Calls and phone numbers\<close>

definition load_calls :: "reply ext \<Rightarrow> jsval list ext" where
  "load_calls res =
     (case ok_json ''Call history could not be loaded'' res of
        Throw m \<Rightarrow> Throw m
      | Ret p \<Rightarrow> if nullish p then Throw ''Cannot read properties'' else Ret (array_or (get p ''calls'') []))"

definition visible_calls :: "string \<Rightarrow> jsval list \<Rightarrow> (jsval \<times> nat) list" where
  "visible_calls flt calls =
     filter (\<lambda>(c, i). flt = ''all'' \<or> get c ''direction'' = JStr flt) (zip calls [0..<length calls])"

definition phone_title :: "bool \<Rightarrow> jsval ext option \<Rightarrow> jsval" where
  "phone_title loading res =
     (if loading then JStr ''Loading your 3CX setup...''
      else case res of
          Some (Ret p) \<Rightarrow> if truthy (get p ''configured'') then js_or (get p ''connectionName'') (JStr ''3CX connection'')
                         else JStr ''No 3CX connection configured''
        | _ \<Rightarrow> JStr ''Could not load your 3CX setup'')"

section \<open>Company profile\<close>

record cform =
  cm_name :: jsval
  cm_website :: jsval
  cm_phone :: jsval
  cm_email :: jsval
  cm_timezone :: jsval

definition load_company :: "jsval \<Rightarrow> cform \<Rightarrow> cform" where
  "load_company d f =
     (if \<not> truthy d then f
      else \<lparr>cm_name = js_or (get d ''company_name'') (JStr []), cm_website = js_or (get d ''website_url'') (JStr []),
            cm_phone = js_or (get d ''company_phone'') (JStr []), cm_email = js_or (get d ''support_email'') (JStr []),
            cm_timezone = js_or (get d ''timezone'') (JStr ''Indian/Mauritius'')\<rparr>)"

definition company_body :: "cform \<Rightarrow> jsval" where
  "company_body f = JObj [(''company_name'', cm_name f), (''website_url'', cm_website f), (''company_phone'', cm_phone f),
     (''support_email'', cm_email f), (''timezone'', cm_timezone f)]"

text \<open>A save: the profile the cache is given, the message with its success, and the request.\<close>

definition save_company :: "wnet \<Rightarrow> cform \<Rightarrow> jsval option \<times> (string \<times> bool) \<times> wreq list" where
  "save_company net f =
     (let q = w_send ''POST'' ''/api/company-profile'' (company_body f) in
      case net q of
        Throw _ \<Rightarrow> (None, (''Network error saving company profile.'', False), [q])
      | Ret r \<Rightarrow> if reply_ok r then (Some (company_body f), (''Company profile saved to database successfully!'', True), [q])
                else (None, (''Failed to save company profile.'', False), [q]))"

text \<open>The onboarding page: the profile is spread over the draft; a save leads to the assistant.\<close>

definition load_company_draft :: "jsval \<Rightarrow> jsval \<Rightarrow> jsval" where
  "load_company_draft d draft = (if truthy d then JObj (js_merge (obj_fields draft) (spread d)) else draft)"

definition save_company_draft :: "wnet \<Rightarrow> jsval \<Rightarrow> (string + string) \<times> jsval option \<times> wreq list" where
  "save_company_draft net draft =
     (let q = w_send ''POST'' ''/api/company-profile'' draft in
      case net q of
        Throw m \<Rightarrow> (Inl m, None, [q])
      | Ret r \<Rightarrow> if reply_ok r then (Inr ''onboarding-ai'', Some draft, [q])
                else (Inl ''Company profile could not be saved.'', None, [q]))"

section \<open>Account\<close>

definition user_of :: "jsval \<Rightarrow> jsval" where
  "user_of s = js_or (get s ''user'') (get (get s ''session'') ''user'')"

definition account_of :: "jsval \<Rightarrow> (string option \<times> string option) option" where
  "account_of s = (if truthy s \<and> truthy (user_of s)
     then Some (the_str (get (user_of s) ''name''), the_str (get (user_of s) ''email'')) else None)"

definition account_label :: "(string option \<times> string option) option \<Rightarrow> string" where
  "account_label a = (case a of
       Some (n, m) \<Rightarrow> str_or (case n of Some s \<Rightarrow> s | None \<Rightarrow> []) (str_or (case m of Some s \<Rightarrow> s | None \<Rightarrow> []) ''Account unavailable'')
     | None \<Rightarrow> ''Account unavailable'')"

text \<open>Signing out clears the cache and leaves the app only after an ok answer.\<close>

definition sign_out_web :: "reply ext \<Rightarrow> bool" where
  "sign_out_web res \<longleftrightarrow> (case res of Ret r \<Rightarrow> reply_ok r | Throw _ \<Rightarrow> False)"

section \<open>Routing\<close>

datatype page =
    Landing | Signup | Onboarding_Goals | Onboarding_Company | Onboarding_Ai | Dashboard | Calls | Phone_Numbers
  | Integrations | Company_Setup | Assistant_Config | Testing_Sandbox

definition nav_items :: "page list" where
  "nav_items = [Dashboard, Calls, Phone_Numbers, Integrations, Company_Setup, Assistant_Config]"

text \<open>Where the elements of a page lead: the sidebar of the shell, and the page's own buttons.\<close>

definition leads_to :: "page \<Rightarrow> page list" where
  "leads_to p =
     (if p \<in> {Landing, Signup} then []
      else if p \<in> {Onboarding_Goals, Onboarding_Company} then [Onboarding_Ai]
      else if p = Onboarding_Ai then [Onboarding_Company, Dashboard, Assistant_Config]
      else if p = Assistant_Config then nav_items @ [Testing_Sandbox]
      else nav_items)"

datatype app_wait = Wait_Session | Wait_Profile | Wait_Nothing

record app =
  app_loading :: bool
  app_page :: page
  app_preview :: "int option"
  app_waits :: app_wait
  app_mounted :: bool
  app_user :: bool                \<comment> \<open>a session with a user was answered\<close>

definition app_init :: app where
  "app_init = \<lparr>app_loading = True, app_page = Landing, app_preview = None, app_waits = Wait_Session, app_mounted = True,
     app_user = False\<rparr>"

definition session_answered :: "jsval ext \<Rightarrow> app \<Rightarrow> app" where
  "session_answered res s =
     (let land = s\<lparr>app_page := Landing, app_loading := False, app_waits := Wait_Nothing\<rparr> in
      case res of
        Throw _ \<Rightarrow> land
      | Ret p \<Rightarrow> if \<not> truthy p \<or> \<not> truthy (user_of p) then land
          else s\<lparr>app_page := Onboarding_Goals, app_waits := Wait_Profile, app_user := True\<rparr>)"

definition profile_answered :: "(rat \<Rightarrow> string) \<Rightarrow> jsval ext \<Rightarrow> app \<Rightarrow> app" where
  "profile_answered fr res s =
     s\<lparr>app_page := (case res of
          Ret p \<Rightarrow> if trim (js_string fr (js_or (get p ''company_name'') (JStr []))) \<noteq> [] then Dashboard else Onboarding_Goals
        | Throw _ \<Rightarrow> Onboarding_Goals),
       app_loading := False, app_waits := Wait_Nothing\<rparr>"

datatype app_event =
    Session_Answered "jsval ext"
  | Profile_Answered "jsval ext"
  | Navigate page
  | Test_Draft int
  | Sandbox_Back
  | App_Unmounts

definition app_step :: "(rat \<Rightarrow> string) \<Rightarrow> app \<Rightarrow> app_event \<Rightarrow> app" where
  "app_step fr s e =
     (if \<not> app_mounted s then s
      else case e of
          Session_Answered res \<Rightarrow> if app_waits s = Wait_Session then session_answered res s else s
        | Profile_Answered res \<Rightarrow> if app_waits s = Wait_Profile then profile_answered fr res s else s
        | Navigate p \<Rightarrow> if \<not> app_loading s \<and> p \<in> set (leads_to (app_page s)) then s\<lparr>app_page := p\<rparr> else s
        | Test_Draft v \<Rightarrow> if \<not> app_loading s \<and> app_page s = Assistant_Config
            then s\<lparr>app_preview := Some v, app_page := Testing_Sandbox\<rparr> else s
        | Sandbox_Back \<Rightarrow> if \<not> app_loading s \<and> app_page s = Testing_Sandbox
            then s\<lparr>app_preview := None, app_page := Assistant_Config\<rparr> else s
        | App_Unmounts \<Rightarrow> s\<lparr>app_mounted := False\<rparr>)"

definition bookings_enabled :: "app \<Rightarrow> bool" where
  "bookings_enabled s \<longleftrightarrow> \<not> app_loading s \<and> app_page s \<noteq> Landing \<and> app_page s \<noteq> Signup"

section \<open>Booking updates\<close>

text \<open>
  The component's effect runs once per change of \<open>enabled\<close>; each run is an instance with its own \<open>stopped\<close>. The
  clean-up clears the timer the instance set last.
\<close>

record bk =
  bk_on :: bool
  bk_instance :: nat
  bk_delay :: int
  bk_requests :: "jsval list"
  bk_inflight :: "nat list"                       \<comment> \<open>instances of the refreshes that await their answer\<close>
  bk_timers :: "(nat \<times> nat \<times> int) list"          \<comment> \<open>id, instance, delay\<close>
  bk_timer :: nat                                  \<comment> \<open>the timer set last\<close>

definition bk_init :: bk where
  "bk_init = \<lparr>bk_on = False, bk_instance = 0, bk_delay = 4000, bk_requests = [], bk_inflight = [], bk_timers = [], bk_timer = 0\<rparr>"

definition refresh_bookings :: "nat \<Rightarrow> bk \<Rightarrow> bk" where
  "refresh_bookings i s = s\<lparr>bk_inflight := i # bk_inflight s\<rparr>"

definition enable_bookings :: "bool \<Rightarrow> bk \<Rightarrow> bk" where
  "enable_bookings on s =
     (if on = bk_on s then s
      else if on then refresh_bookings (bk_instance s + 1) (s\<lparr>bk_on := True, bk_instance := bk_instance s + 1, bk_delay := 4000\<rparr>)
      else s\<lparr>bk_on := False, bk_timers := filter (\<lambda>(t, i, d). \<not> (t = bk_timer s \<and> i = bk_instance s)) (bk_timers s)\<rparr>)"

definition booking_created :: "bk \<Rightarrow> bk" where
  "booking_created s = (if bk_on s then refresh_bookings (bk_instance s) (s\<lparr>bk_delay := 4000\<rparr>) else s)"

definition booking_active :: "jsval \<Rightarrow> bool" where
  "booking_active r \<longleftrightarrow> get r ''status'' \<in> {JStr ''pending'', JStr ''running'', JStr ''needs_reconnect''}"

text \<open>The bookings of an answer and whether one is active; any error is caught.\<close>

definition bookings_of :: "reply ext \<Rightarrow> (jsval list \<times> bool) option" where
  "bookings_of res =
     (case ok_json [] res of
        Throw _ \<Rightarrow> None
      | Ret body \<Rightarrow> if nullish body then None
          else let rs = array_or (get body ''requests'') [] in
            if list_ex nullish (takeWhile (\<lambda>r. \<not> booking_active r) rs) then None else Some (rs, list_ex booking_active rs))"

definition bookings_answered :: "nat \<Rightarrow> reply ext \<Rightarrow> bk \<Rightarrow> bk" where
  "bookings_answered i res s =
     (if \<not> bk_on s \<or> i \<noteq> bk_instance s then s
      else case bookings_of res of
          None \<Rightarrow> s
        | Some (rs, active) \<Rightarrow> let s = s\<lparr>bk_requests := rs\<rparr> in
            if active
            then s\<lparr>bk_timer := bk_timer s + 1, bk_timers := (bk_timer s + 1, i, bk_delay s) # bk_timers s,
                   bk_delay := min (bk_delay s * 2) 30000\<rparr>
            else s)"

datatype bk_event =
    Bookings_Enabled bool
  | Booking_Created
  | Bookings_Answered nat "reply ext"
  | Booking_Timer nat

definition bk_step :: "bk \<Rightarrow> bk_event \<Rightarrow> bk" where
  "bk_step s e =
     (case e of
        Bookings_Enabled on \<Rightarrow> enable_bookings on s
      | Booking_Created \<Rightarrow> booking_created s
      | Bookings_Answered i res \<Rightarrow> if i \<in> set (bk_inflight s)
          then bookings_answered i res (s\<lparr>bk_inflight := remove1 i (bk_inflight s)\<rparr>) else s
      | Booking_Timer t \<Rightarrow> (case find (\<lambda>(u, i, d). u = t) (bk_timers s) of
            None \<Rightarrow> s
          | Some (u, i, d) \<Rightarrow> refresh_bookings i (s\<lparr>bk_timers := filter (\<lambda>(v, i, d). v \<noteq> t) (bk_timers s)\<rparr>)))"

section \<open>What holds\<close>

text \<open>The chart of the dashboard counts every call of its week once: over seven days that start 24 hours apart, the
total of the bars is the number of calls created from the start of the first day to the end of the last.\<close>

theorem chart_counts_each_call_once:
  "week_total dp (map (\<lambda>i. d + int i * day_ms) [0..<7]) calls = length (filter (created_in dp d (d + 7 * day_ms)) calls)"
proof -
  have "week_total dp (map (\<lambda>i. d + int i * day_ms) [0..<n]) calls
      = length (filter (created_in dp d (d + int n * day_ms)) calls)" for n
  proof (induction n)
    case 0
    have "\<not> created_in dp d d c" for c by (simp add: created_in_def split: option.split)
    then show ?case by (simp add: week_total_def per_day_def)
  next
    case (Suc n)
    have "length (filter (created_in dp d (d + int (Suc n) * day_ms)) calls)
        = length (filter (created_in dp d (d + int n * day_ms)) calls)
        + length (filter (created_in dp (d + int n * day_ms) (d + int n * day_ms + day_ms)) calls)"
    proof (induction calls)
      case (Cons c cs)
      have "0 \<le> int n * day_ms" by (simp add: day_ms_def)
      then show ?case using Cons
        by (auto simp: created_in_def day_ms_def algebra_simps split: option.split)
    qed simp
    then show ?case using Suc by (simp add: week_total_def per_day_def)
  qed
  from this [of 7] show ?thesis by simp
qed

text \<open>The shares of the setup list are quarters.\<close>

lemma setup_percent_quarters: "setup_percent s \<in> {0, 25, 50, 75, 100}"
proof -
  have "setup_percent s = js_round (of_nat k / 4 * 100)" if "k = length (filter id (checklist s))" for k
    using that by (simp add: setup_percent_def checklist_def)
  moreover have "length (filter id (checklist s)) \<in> {0, 1, 2, 3, 4}" by (simp add: checklist_def)
  moreover have "\<lfloor>1 / 2 :: rat\<rfloor> = 0" by (simp add: floor_eq_iff)
  ultimately show ?thesis by (auto simp: js_round_def)
qed

text \<open>A row of the call list selects its own call.\<close>

lemma visible_calls_index: "(c, i) \<in> set (visible_calls flt calls) \<Longrightarrow> i < length calls \<and> calls ! i = c"
  by (auto simp: visible_calls_def set_zip)

definition app_ok :: "app \<Rightarrow> bool" where
  "app_ok s \<longleftrightarrow> (app_user s \<or> app_page s = Landing) \<and> app_loading s = (app_waits s \<noteq> Wait_Nothing)
     \<and> (app_waits s = Wait_Session \<longrightarrow> app_page s = Landing) \<and> (app_waits s = Wait_Profile \<longrightarrow> app_user s)
     \<and> app_page s \<noteq> Signup \<and> (app_waits s = Wait_Nothing \<and> app_user s \<longrightarrow> app_page s \<noteq> Landing)
     \<and> (app_waits s = Wait_Session \<longrightarrow> \<not> app_user s)"

lemma leads_to_workspace: "p \<in> set (leads_to q) \<Longrightarrow> p \<noteq> Landing \<and> p \<noteq> Signup \<and> q \<noteq> Landing"
  by (auto simp: leads_to_def nav_items_def split: if_splits)

interpretation app_machine: machine "app_step fr" app_ok
proof
  fix s e
  assume ok: "app_ok s"
  show "app_ok (app_step fr s e)"
    using ok leads_to_workspace
    by (cases e) (auto simp: app_step_def app_ok_def session_answered_def profile_answered_def Let_def split: ext.splits)
qed

text \<open>The workspace is for signed-in users, and they get there: in every run, a page other than the landing page is only
shown after a session with a user was answered, nobody else gets booking updates, the loading screen is shown exactly
while an answer is awaited, and a signed-in user whose answers arrived is not on the landing page.\<close>

theorem workspace_needs_session:
  "let s = run (app_step fr) app_init es in
     (app_user s \<or> app_page s = Landing \<and> bookings_enabled s = False)
     \<and> app_loading s = (app_waits s \<noteq> Wait_Nothing)
     \<and> (app_loading s \<or> app_user s = bookings_enabled s)"
proof -
  define s where "s = run (app_step fr) app_init es"
  have "app_ok app_init" by (simp add: app_ok_def app_init_def)
  then have "app_ok s" unfolding s_def by (rule app_machine.inv_run)
  then show ?thesis unfolding Let_def s_def [symmetric]
    by (cases "app_waits s") (auto simp: app_ok_def bookings_enabled_def)
qed

definition bk_ok :: "bk \<Rightarrow> bool" where
  "bk_ok s \<longleftrightarrow> 4000 \<le> bk_delay s \<and> bk_delay s \<le> 30000 \<and> list_all (\<lambda>(t, i, d). 4000 \<le> d \<and> d \<le> 30000) (bk_timers s)"

interpretation booking_updates: machine bk_step bk_ok
proof
  fix s e
  assume ok: "bk_ok s"
  have f: "list_all P xs \<Longrightarrow> list_all P (filter Q xs)" for P Q and xs :: "(nat \<times> nat \<times> int) list" by (simp add: list_all_iff)
  show "bk_ok (bk_step s e)" using ok
    by (cases e) (auto simp: bk_step_def bk_ok_def enable_bookings_def booking_created_def bookings_answered_def
        refresh_bookings_def Let_def intro!: f split: option.split)
qed

text \<open>Booking updates are asked for every 4 to 30 seconds while a booking is active.\<close>

lemma booking_delays: "bk_ok (run bk_step bk_init es)"
  by (rule booking_updates.inv_run) (simp add: bk_ok_def bk_init_def)

section \<open>What goes wrong\<close>

text \<open>A local day of 25 hours (the clocks go back) leaves its last hour without a bar; one of 23 hours puts the first hour
of the next day into two.\<close>

lemma long_day_hides_calls:
  "week_total (\<lambda>v. the_int v) [0, 25 * 3600000] [JObj [(''createdAt'', JNum (24 * 3600000))]] = 0
   \<and> week_total (\<lambda>v. the_int v) [0, 23 * 3600000] [JObj [(''createdAt'', JNum (23 * 3600000))]] = 2"
  by (simp add: week_total_def per_day_def created_in_def day_ms_def)

text \<open>The version of a tested draft survives the sandbox when it is left through the sidebar: the sandbox that is launched
next tests the old draft, although its button offers no version.\<close>

lemma launch_tests_stale_draft:
  "let s = run (app_step (\<lambda>_. [])) app_init
       [Session_Answered (Ret (JObj [(''user'', JObj [(''id'', JStr ''u'')])])),
        Profile_Answered (Ret (JObj [(''company_name'', JStr ''Acme'')])), Navigate Assistant_Config, Test_Draft 3,
        Navigate Dashboard, Navigate Assistant_Config, Navigate Testing_Sandbox] in
     app_page s = Testing_Sandbox \<and> app_preview s = Some 3"
  by code_simp

text \<open>One refresh that fails ends the updates of a booking that is still shown as pending: there is neither a timer nor a
request left.\<close>

lemma failed_refresh_ends_updates:
  "let s = run bk_step bk_init [Bookings_Enabled True,
       Bookings_Answered 1 (Ret \<lparr>rp_status = 200, rp_json = Ret (JObj [(''requests'', JArr [JObj [(''status'', JStr ''pending'')]])])\<rparr>),
       Booking_Timer 1, Bookings_Answered 1 (Throw ''offline'')] in
     list_ex booking_active (bk_requests s) \<and> bk_timers s = [] \<and> bk_inflight s = [] \<and> bk_on s"
  by code_simp

end
