(* ===== verification/Mobile_Account.thy ===== *)
theory Mobile_Account
  imports Mobile_Api
begin

text \<open>
  The account of the mobile app: the sign-in state (\<open>mobile/src/context/AuthContext.tsx\<close>), the sign-in form
  (\<open>screens/SignInScreen.tsx\<close>) and the routes that depend on both (\<open>app/index.tsx\<close>, \<open>app/(auth)/sign-in.tsx\<close>). The
  state holds the suspended calls of \<open>refreshSession\<close> and \<open>signOut\<close>; a call, the return of the app to the
  foreground and the settling of an awaited promise are one step each.
\<close>

section \<open>Sign-in state\<close>

datatype au_wait =
    Await_Session nat              \<comment> \<open>a refresh awaits \<open>checkSession\<close>\<close>
  | Await_Workspace nat            \<comment> \<open>a refresh awaits profile, configuration and versions\<close>
  | Await_Sign_Out nat

record au =
  au_user :: jsval
  au_profile :: jsval
  au_config :: jsval
  au_setup :: bool
  au_loading :: bool
  au_waits :: "au_wait list"
  au_calls :: nat

definition au_init :: au where
  "au_init = \<lparr>au_user = JNull, au_profile = JNull, au_config = JNull, au_setup = False, au_loading = True,
     au_waits = [Await_Session 0], au_calls = 1\<rparr>"

definition signed_out :: "au \<Rightarrow> au" where
  "signed_out s = s\<lparr>au_user := JNull, au_profile := JNull, au_config := JNull, au_setup := False\<rparr>"

text \<open>\<open>v?.trim()\<close> as a condition.\<close>

definition nonblank :: "jsval \<Rightarrow> bool ext" where
  "nonblank v = (if nullish v then Ret False else
     (case v of JStr s \<Rightarrow> Ret (trim s \<noteq> []) | _ \<Rightarrow> Throw ''trim is not a function''))"

definition and_then :: "bool ext \<Rightarrow> bool ext \<Rightarrow> bool ext" where
  "and_then a b = (case a of Ret True \<Rightarrow> b | _ \<Rightarrow> a)"

fun some_published :: "jsval list \<Rightarrow> bool ext" where
  "some_published [] = Ret False"
| "some_published (v # vs) =
     (if nullish v then Throw ''Cannot read properties''
      else if get v ''lifecycle_state'' = JStr ''published'' then Ret True else some_published vs)"

definition completed_setup :: "jsval \<Rightarrow> jsval \<Rightarrow> jsval list \<Rightarrow> bool ext" where
  "completed_setup profile assistant versions =
     and_then (nonblank (get profile ''company_name''))
       (and_then (nonblank (get assistant ''assistant_name''))
         (if get assistant ''is_deployed'' = JBool True then Ret True else some_published versions))"

definition session_settled :: "jsval ext \<Rightarrow> au \<Rightarrow> au" where
  "session_settled res s =
     (case res of
        Ret session \<Rightarrow>
          if truthy (get session ''authenticated'') \<and> truthy (get session ''user'')
          then s\<lparr>au_user := get session ''user'', au_waits := Await_Workspace (au_calls s) # au_waits s, au_calls := au_calls s + 1\<rparr>
          else (signed_out s)\<lparr>au_loading := False\<rparr>
      | Throw _ \<Rightarrow> (signed_out s)\<lparr>au_loading := False\<rparr>)"

definition workspace_settled :: "(jsval \<times> jsval \<times> jsval list) ext \<Rightarrow> au \<Rightarrow> au" where
  "workspace_settled res s =
     (case res of
        Throw _ \<Rightarrow> (signed_out s)\<lparr>au_loading := False\<rparr>
      | Ret (profile, assistant, versions) \<Rightarrow>
          (case completed_setup profile assistant versions of
             Throw _ \<Rightarrow> (signed_out s)\<lparr>au_loading := False\<rparr>
           | Ret b \<Rightarrow> s\<lparr>au_profile := profile, au_config := assistant, au_setup := b, au_loading := False\<rparr>))"

datatype au_event =
    Refresh_Session
  | Foreground bool                \<comment> \<open>the app changes its state; to active\<close>
  | Sign_Out_Called
  | Session_Settled nat "jsval ext"
  | Workspace_Settled nat "(jsval \<times> jsval \<times> jsval list) ext"
  | Sign_Out_Settled nat

definition au_call :: "(nat \<Rightarrow> au_wait) \<Rightarrow> au \<Rightarrow> au" where
  "au_call k s = s\<lparr>au_waits := k (au_calls s) # au_waits s, au_calls := au_calls s + 1\<rparr>"

definition au_take :: "au_wait \<Rightarrow> (au \<Rightarrow> au) \<Rightarrow> au \<Rightarrow> au" where
  "au_take k f s = (if k \<in> set (au_waits s) then f (s\<lparr>au_waits := remove1 k (au_waits s)\<rparr>) else s)"

definition au_step :: "au \<Rightarrow> au_event \<Rightarrow> au" where
  "au_step s e =
     (case e of
        Refresh_Session \<Rightarrow> au_call Await_Session s
      | Foreground active \<Rightarrow> if active then au_call Await_Session s else s
      | Sign_Out_Called \<Rightarrow> au_call Await_Sign_Out s
      | Session_Settled n res \<Rightarrow> au_take (Await_Session n) (session_settled res) s
      | Workspace_Settled n res \<Rightarrow> au_take (Await_Workspace n) (workspace_settled res) s
      | Sign_Out_Settled n \<Rightarrow> au_take (Await_Sign_Out n) signed_out s)"

definition is_authenticated :: "au \<Rightarrow> bool" where
  "is_authenticated s \<longleftrightarrow> truthy (au_user s)"

section \<open>Routes\<close>

definition home_route :: "bool \<Rightarrow> string" where
  "home_route setup = (if setup then ''/(tabs)'' else ''/setup'')"

definition index_route :: "au \<Rightarrow> string option" where
  "index_route s = (if au_loading s then None else Some (if is_authenticated s then home_route (au_setup s) else ''/splash''))"

text \<open>The sign-in page reads \<open>hasCompletedSetup\<close> when it renders, before the refresh its handler awaits.\<close>

definition after_sign_in :: "au \<Rightarrow> au \<Rightarrow> string" where
  "after_sign_in rendered refreshed = home_route (au_setup rendered)"

section \<open>The sign-in form\<close>

datatype sign_mode = Signing_In | Signing_Up

definition session_verified :: "string \<Rightarrow> api \<Rightarrow> net \<Rightarrow> (jsval + unit) call" where
  "session_verified msg a net =
     (case check_session a net of
        (session, sent) \<Rightarrow> (if truthy (get session ''authenticated'') then Inr () else Inl (JStr msg), sent))"

definition submit_sign_in :: "web \<Rightarrow> api \<Rightarrow> sign_mode \<Rightarrow> string \<Rightarrow> string \<Rightarrow> string \<Rightarrow> net \<Rightarrow> (jsval + unit) call" where
  "submit_sign_in w a mode name email password net =
     (if trim email = [] \<or> trim password = [] then (Inl (JStr ''Please provide both email and password.''), [])
      else if length password < 8 then (Inl (JStr ''Password must be at least 8 characters long.''), [])
      else case (case mode of
               Signing_In \<Rightarrow> sign_in_email w a (trim email) password net
             | Signing_Up \<Rightarrow> sign_up_email w a (trim email) password (trim name) net) of
          (res, sent) \<Rightarrow>
            if \<not> truthy (get res ''success'')
            then (Inl (js_or (get res ''error'') (JStr (if mode = Signing_In then ''Invalid email or password.'' else ''Failed to create account.''))), sent)
            else (case session_verified (if mode = Signing_In
                     then ''Sign-in succeeded, but the session could not be established. Please retry.''
                     else ''Authentication succeeded, but session could not be established. Please retry.'') a net of
                (r, sent2) \<Rightarrow> (r, sent @ sent2)))"

text \<open>Nobody gets past the sign-in form without a session: it reports success only when the server then answered that
the session of the user is authenticated, and a form with a blank or short password sends nothing at all.\<close>

theorem sign_in_needs_session:
  "case submit_sign_in w a mode name email password net of
     (Inr _, sent) \<Rightarrow> truthy (get (fst (check_session a net)) ''authenticated'') \<and> length sent = 2 \<and> 8 \<le> length password
   | (Inl _, sent) \<Rightarrow> sent = [] \<or> trim email \<noteq> [] \<and> trim password \<noteq> [] \<and> 8 \<le> length password"
proof -
  have "length (snd (sign_in_email w a e p net)) = 1" "length (snd (sign_up_email w a e p n net)) = 1"
    "length (snd (check_session a net)) = 1" for e p n
    by (simp_all add: sign_in_email_def sign_up_email_def check_session_def Let_def)
  then show ?thesis
    by (auto simp: submit_sign_in_def session_verified_def split: prod.splits sum.splits sign_mode.splits if_splits)
       (metis (no_types, lifting) One_nat_def snd_conv)+
qed

section \<open>What the state holds\<close>

text \<open>A setup that counts as completed belongs to the profile and configuration shown.\<close>

definition au_ok :: "au \<Rightarrow> bool" where
  "au_ok s \<longleftrightarrow> (au_setup s \<longrightarrow> nonblank (get (au_profile s) ''company_name'') = Ret True
                     \<and> nonblank (get (au_config s) ''assistant_name'') = Ret True)"

lemma completed_names:
  "completed_setup p a vs = Ret True \<Longrightarrow>
     nonblank (get p ''company_name'') = Ret True \<and> nonblank (get a ''assistant_name'') = Ret True"
  by (auto simp: completed_setup_def and_then_def split: ext.splits bool.splits)

interpretation account: machine au_step au_ok
proof
  fix s e
  assume ok: "au_ok s"
  have w: "au_ok (s\<lparr>au_waits := x, au_calls := y\<rparr>)" "au_ok (s\<lparr>au_waits := x\<rparr>)" for x y using ok by (simp_all add: au_ok_def)
  show "au_ok (au_step s e)"
    using ok completed_names
    by (cases e) (auto simp: au_step_def au_call_def au_take_def session_settled_def workspace_settled_def signed_out_def
        au_ok_def split: ext.split)
qed

text \<open>In every run of the sign-in state, a workspace counts as set up only while it shows a company and an assistant
whose names are not blank, so the start route leads to the tabs only for such a workspace.\<close>

theorem completed_setup_is_shown:
  assumes "s = run au_step au_init es" "index_route s = Some ''/(tabs)''"
  shows "is_authenticated s \<and> nonblank (get (au_profile s) ''company_name'') = Ret True
    \<and> nonblank (get (au_config s) ''assistant_name'') = Ret True"
proof -
  have "au_ok au_init" by (simp add: au_ok_def au_init_def)
  then have "au_ok s" unfolding assms(1) by (rule account.inv_run)
  moreover have "au_setup s" "is_authenticated s"
    using assms(2) by (auto simp: index_route_def home_route_def split: if_splits)
  ultimately show ?thesis by (simp add: au_ok_def)
qed

definition demo_user :: jsval where
  "demo_user = JObj [(''authenticated'', JBool True), (''user'', JObj [(''id'', JStr ''u1'')])]"

definition demo_workspace :: "(jsval \<times> jsval \<times> jsval list) ext" where
  "demo_workspace = Ret (JObj [(''company_name'', JStr ''Acme'')],
     JObj [(''assistant_name'', JStr ''Ada''), (''is_deployed'', JBool True)], [])"

definition demo_signed_in :: au where
  "demo_signed_in = run au_step au_init [Session_Settled 0 (Ret demo_user), Workspace_Settled 1 demo_workspace]"

theorem completed_setup_is_shown_witness:
  "index_route demo_signed_in = Some ''/(tabs)'' \<and> is_authenticated demo_signed_in
   \<and> nonblank (get (au_profile demo_signed_in) ''company_name'') = Ret True"
proof -
  have "index_route demo_signed_in = Some ''/(tabs)''" by code_simp
  then show ?thesis using completed_setup_is_shown [OF demo_signed_in_def] by simp
qed

section \<open>What goes wrong\<close>

text \<open>A sign-out that ends while a refresh is under way is undone by it: the company that was signed out comes back.\<close>

lemma refresh_undoes_sign_out:
  "let s = run au_step demo_signed_in [Foreground True, Sign_Out_Called, Sign_Out_Settled 3, Session_Settled 2 (Ret demo_user)] in
     is_authenticated s"
  "let s = run au_step demo_signed_in [Foreground True, Session_Settled 2 (Ret demo_user), Sign_Out_Called, Sign_Out_Settled 4,
       Workspace_Settled 3 demo_workspace] in
     \<not> is_authenticated s \<and> au_setup s \<and> truthy (au_profile s)"
  by code_simp+

text \<open>Whoever signs in on the sign-in page is sent to the setup, even when the refresh shows a completed one.\<close>

lemma sign_in_leads_to_setup:
  "after_sign_in (run au_step au_init [Session_Settled 0 (Ret not_authenticated)]) demo_signed_in = ''/setup''
   \<and> index_route demo_signed_in = Some ''/(tabs)''"
  by code_simp

end
