(* ===== verification/Mobile_Screens.thy ===== *)
theory Mobile_Screens
  imports Mobile_Api Web_Assistant "HOL-Library.Multiset"
begin

text \<open>
  The screens of the mobile app (\<open>mobile/src/screens\<close>, \<open>mobile/src/components/TaskDeck.tsx\<close>): onboarding, settings,
  integrations, task deck, dashboard figures and call list, over the operations of \<open>Mobile_Api\<close>. A handler yields
  its new state and the requests its calls sent; form values that come from the server are JavaScript values.
\<close>

section \<open>Onboarding\<close>

record ob =
  ob_company :: jsval
  ob_website :: jsval
  ob_phone :: jsval
  ob_email :: jsval
  ob_assistant :: jsval
  ob_model :: jsval
  ob_greeting :: jsval
  ob_tone :: string
  ob_capabilities :: "string list"

definition ob_init :: ob where
  "ob_init = \<lparr>ob_company = JStr [], ob_website = JStr [], ob_phone = JStr [], ob_email = JStr [], ob_assistant = JStr [],
     ob_model = JStr ''Aoede'', ob_greeting = JStr [], ob_tone = ''Professional'', ob_capabilities = [''receptionist'', ''faqs'']\<rparr>"

definition load_ob_company :: "jsval \<Rightarrow> ob \<Rightarrow> ob" where
  "load_ob_company c f =
     (if \<not> truthy c then f
      else f\<lparr>ob_company := js_or (get c ''company_name'') (ob_company f), ob_website := js_or (get c ''website_url'') (ob_website f),
             ob_phone := js_or (get c ''company_phone'') (ob_phone f), ob_email := js_or (get c ''support_email'') (ob_email f)\<rparr>)"

text \<open>A tone that is no string throws when its first letter is read; the error is swallowed.\<close>

definition capitalized :: "string \<Rightarrow> string" where
  "capitalized s = to_upper (take 1 s) @ drop 1 s"

definition load_ob_assistant :: "jsval \<Rightarrow> ob \<Rightarrow> ob" where
  "load_ob_assistant a f =
     (if \<not> truthy a then f
      else f\<lparr>ob_assistant := js_or (get a ''assistant_name'') (ob_assistant f), ob_model := js_or (get a ''voice_engine'') (ob_model f),
             ob_greeting := js_or (get a ''inbound_greeting'') (ob_greeting f),
             ob_tone := (case get a ''tone'' of JStr t \<Rightarrow> if t = [] then ob_tone f else capitalized t | _ \<Rightarrow> ob_tone f)\<rparr>)"

definition toggle_capability :: "string \<Rightarrow> ob \<Rightarrow> ob" where
  "toggle_capability i f = f\<lparr>ob_capabilities := (if i \<in> set (ob_capabilities f) then filter (\<lambda>x. x \<noteq> i) (ob_capabilities f)
     else ob_capabilities f @ [i])\<rparr>"

definition ob_profile :: "ob \<Rightarrow> jsval" where
  "ob_profile f = JObj [(''company_name'', ob_company f), (''website_url'', ob_website f), (''company_phone'', ob_phone f),
     (''support_email'', ob_email f)]"

definition ob_config :: "(rat \<Rightarrow> string) \<Rightarrow> ob \<Rightarrow> jsval" where
  "ob_config fr f =
     (let tone = to_lower (ob_tone f); on = (\<lambda>i. JBool (i \<in> set (ob_capabilities f))); day = JStr ''09:00 - 17:00'' in
      JObj [(''assistant_name'', ob_assistant f), (''voice_engine'', ob_model f), (''inbound_greeting'', ob_greeting f),
        (''system_prompt'', JStr (''You are '' @ js_string fr (ob_assistant f) @ '', a '' @ tone @ '' AI receptionist for ''
           @ js_string fr (ob_company f) @ ''.'')),
        (''knowledge_base_notes'', JStr []), (''tone'', JStr tone),
        (''business_hours'', JObj [(''monday'', day), (''tuesday'', day), (''wednesday'', day), (''thursday'', day), (''friday'', day)]),
        (''escalation_rules'', JArr [JStr ''Transfer to human support for account escalation.'']), (''faq_entries'', JArr []),
        (''capabilities'', JObj [(''company_receptionist'', on ''receptionist''), (''company_faq'', on ''faqs''),
           (''google_calendar'', on ''calendar'')])])"

text \<open>\<open>new Error(v).message\<close>.\<close>

definition error_text :: "(rat \<Rightarrow> string) \<Rightarrow> jsval \<Rightarrow> jsval" where
  "error_text fr v = JStr (js_string fr v)"

datatype setup_outcome = Setup_Missing | Setup_Crashed | Setup_Failed jsval | Setup_Done

definition blank_of :: "jsval \<Rightarrow> bool ext" where
  "blank_of v = (case trim_of v of Ret s \<Rightarrow> Ret (s = []) | Throw m \<Rightarrow> Throw m)"

definition or_else_blank :: "bool ext \<Rightarrow> bool ext \<Rightarrow> bool ext" where
  "or_else_blank a b = (case a of Ret False \<Rightarrow> b | _ \<Rightarrow> a)"

definition publish_setup :: "web \<Rightarrow> api \<Rightarrow> net \<Rightarrow> ob \<Rightarrow> setup_outcome call" where
  "publish_setup w a net f =
     (case or_else_blank (blank_of (ob_company f)) (or_else_blank (blank_of (ob_assistant f)) (blank_of (ob_greeting f))) of
        Throw _ \<Rightarrow> (Setup_Crashed, [])
      | Ret True \<Rightarrow> (Setup_Missing, [])
      | Ret False \<Rightarrow> (case save_company_profile w a (ob_profile f) net of
          (company, sent) \<Rightarrow>
            if \<not> truthy (get company ''success'')
            then (Setup_Failed (error_text (wb_frac w) (js_or (get company ''message'') (JStr ''Company profile could not be saved.''))), sent)
            else (case save_assistant_config w a (ob_config (wb_frac w) f) True net of
                (res, sent2) \<Rightarrow>
                  ((case res of
                      Throw m \<Rightarrow> Setup_Failed (JStr m)
                    | Ret v \<Rightarrow> if truthy (get v ''success'') then Setup_Done
                        else Setup_Failed (error_text (wb_frac w)
                            (js_or (get v ''message'') (JStr ''Assistant configuration could not be published.'')))),
                   sent @ sent2))))"

section \<open>Settings\<close>

record settings =
  se_company :: jsval
  se_config :: jsval
  se_published :: jsval
  se_escalation :: string

definition se_init :: settings where
  "se_init = \<lparr>se_company = JObj [(''company_name'', JStr []), (''website_url'', JStr []), (''company_phone'', JStr []),
       (''support_email'', JStr []), (''timezone'', JStr [])],
     se_config = JObj [(''assistant_name'', JStr []), (''voice_engine'', JStr ''Aoede''), (''inbound_greeting'', JStr []),
       (''system_prompt'', JStr []), (''knowledge_base_notes'', JStr []), (''tone'', JStr ''friendly''),
       (''business_hours'', JObj []), (''escalation_rules'', JArr []), (''faq_entries'', JArr []),
       (''capabilities'', JObj [(''company_receptionist'', JBool True), (''company_faq'', JBool True), (''google_calendar'', JBool True)]),
       (''is_deployed'', JBool False)],
     se_published = JNull, se_escalation = []\<rparr>"

text \<open>The load runs step by step; an error ends it and keeps what was loaded.\<close>

definition load_se_company :: "jsval \<Rightarrow> settings \<Rightarrow> settings" where
  "load_se_company c s = (if truthy (get c ''company_name'') then s\<lparr>se_company := c\<rparr> else s)"

definition load_se_versions :: "jsval list \<Rightarrow> settings \<Rightarrow> settings" where
  "load_se_versions vs s =
     (case find_published vs of Ret v \<Rightarrow> if truthy v then s\<lparr>se_published := get v ''version''\<rparr> else s | Throw _ \<Rightarrow> s)"

definition load_settings :: "(rat \<Rightarrow> string) \<Rightarrow> jsval \<Rightarrow> jsval \<Rightarrow> jsval list \<Rightarrow> settings \<Rightarrow> settings" where
  "load_settings fr company assistant versions s =
     (let s = load_se_company company s in
      if \<not> truthy (get assistant ''assistant_name'') then load_se_versions versions s
      else let s = s\<lparr>se_config := assistant\<rparr>; rules = get assistant ''escalation_rules'' in
        if \<not> truthy rules then load_se_versions versions s
        else (case rules of
            JArr rs \<Rightarrow> load_se_versions versions
              (s\<lparr>se_escalation := js_join [newline] (map (\<lambda>r. if nullish r then [] else js_string fr r) rs)\<rparr>)
          | _ \<Rightarrow> s))"

text \<open>The message and its success; \<open>None\<close> where nothing was attempted.\<close>

definition save_se_company :: "web \<Rightarrow> api \<Rightarrow> net \<Rightarrow> settings \<Rightarrow> (jsval \<times> bool) option call" where
  "save_se_company w a net s =
     (if blank_of (get (se_company s) ''company_name'') \<noteq> Ret False then (None, [])
      else (case save_company_profile w a (se_company s) net of
          (res, sent) \<Rightarrow>
            (Some (if truthy (get res ''success'') then (JStr ''Company profile saved to database successfully!'', True)
                   else (js_or (get res ''message'') (JStr ''Company profile could not be saved.''), False)), sent)))"

definition se_rules :: "settings \<Rightarrow> string list" where
  "se_rules s = trim_parts newline (se_escalation s)"

definition se_payload :: "settings \<Rightarrow> jsval" where
  "se_payload s = JObj (js_merge (spread (se_config s)) [(''escalation_rules'', JArr (map JStr (se_rules s)))])"

fun next_version :: "(rat \<Rightarrow> string) \<Rightarrow> jsval \<Rightarrow> jsval" where
  "next_version fr (JNum n) = JNum (if n = 0 then 1 else n + 1)"
| "next_version fr (JFrac q) = JFrac (q + 1)"
| "next_version fr (JInf neg) = JInf neg"
| "next_version fr (JBool b) = JNum (if b then 2 else 1)"
| "next_version fr v = (if truthy v then JStr (js_string fr v @ ''1'') else JNum 1)"

definition save_se_assistant :: "web \<Rightarrow> api \<Rightarrow> bool \<Rightarrow> net \<Rightarrow> settings \<Rightarrow> (settings \<times> (jsval \<times> bool) option) call" where
  "save_se_assistant w a deploy net s =
     (if blank_of (get (se_config s) ''assistant_name'') \<noteq> Ret False then ((s, None), [])
      else (case save_assistant_config w a (se_payload s) deploy net of
          (Throw m, sent) \<Rightarrow> ((s, Some (js_or (JStr m) (JStr ''Configuration could not be saved.''), False)), sent)
        | (Ret res, sent) \<Rightarrow>
            if \<not> truthy (get res ''success'')
            then ((s, Some (js_or (error_text (wb_frac w) (js_or (get res ''message'') (JStr ''Assistant configuration could not be saved.'')))
                (JStr ''Configuration could not be saved.''), False)), sent)
            else ((if deploy then s\<lparr>se_published := js_or (get res ''version'') (next_version (wb_frac w) (se_published s))\<rparr> else s,
                   Some (JStr (if deploy then ''Assistant profile published. New sessions will use this version.''
                               else ''Assistant draft saved.''), True)), sent)))"

text \<open>\<open>[...v]\<close>; the removal filters a list.\<close>

fun spread_list :: "jsval \<Rightarrow> jsval list ext" where
  "spread_list (JArr vs) = Ret vs"
| "spread_list (JStr s) = Ret (map (\<lambda>c. JStr [c]) s)"
| "spread_list _ = Throw ''not iterable''"

definition se_set_faqs :: "jsval list \<Rightarrow> settings \<Rightarrow> settings" where
  "se_set_faqs es s = s\<lparr>se_config := JObj (js_merge (spread (se_config s)) [(''faq_entries'', JArr es)])\<rparr>"

definition se_add_faq :: "settings \<Rightarrow> settings ext" where
  "se_add_faq s = (case spread_list (get (se_config s) ''faq_entries'') of
     Ret es \<Rightarrow> Ret (if length es \<ge> 20 then s else se_set_faqs (add_faq es) s) | Throw m \<Rightarrow> Throw m)"

definition se_update_faq :: "nat \<Rightarrow> string \<Rightarrow> string \<Rightarrow> settings \<Rightarrow> settings ext" where
  "se_update_faq i k v s = (case spread_list (get (se_config s) ''faq_entries'') of
     Ret es \<Rightarrow> Ret (se_set_faqs (edit_faq i k v es) s) | Throw m \<Rightarrow> Throw m)"

definition se_remove_faq :: "nat \<Rightarrow> settings \<Rightarrow> settings ext" where
  "se_remove_faq i s = (case get (se_config s) ''faq_entries'' of
     JArr es \<Rightarrow> Ret (se_set_faqs (remove_faq i es) s) | _ \<Rightarrow> Throw ''filter is not a function'')"

section \<open>Integrations\<close>

record mx =
  mx_name :: jsval
  mx_url :: string
  mx_app :: jsval
  mx_dn :: jsval
  mx_secret :: string
  mx_dids :: string
  mx_transfers :: string
  mx_action :: string
  mx_destination :: jsval
  mx_status :: jsval

definition mx_init :: mx where
  "mx_init = \<lparr>mx_name = JStr [], mx_url = [], mx_app = JStr [], mx_dn = JStr [], mx_secret = [], mx_dids = [],
     mx_transfers = [], mx_action = [], mx_destination = JStr [], mx_status = JNull\<rparr>"

definition load_mx_rest :: "(rat \<Rightarrow> string) \<Rightarrow> jsval \<Rightarrow> mx \<Rightarrow> mx" where
  "load_mx_rest fr d f =
     f\<lparr>mx_app := js_or (get d ''appId'') (mx_app f), mx_dn := js_or (get d ''routePointDn'') (mx_dn f),
       mx_dids := (case get d ''dids'' of JArr vs \<Rightarrow> comma_text fr (JArr vs) | _ \<Rightarrow> mx_dids f),
       mx_transfers := (case get d ''transferDestinations'' of JArr vs \<Rightarrow> comma_text fr (JArr vs) | _ \<Rightarrow> mx_transfers f),
       mx_action := (if get d ''failureAction'' = JStr ''disconnect'' then ''disconnect''
                     else if get d ''failureAction'' = JStr ''transfer'' then ''transfer'' else mx_action f),
       mx_destination := js_or (get d ''failureDestination'') (mx_destination f), mx_secret := []\<rparr>"

text \<open>A status that is not an object, or whose host is not a string, throws into the error status.\<close>

definition load_mx :: "(rat \<Rightarrow> string) \<Rightarrow> jsval \<Rightarrow> mx \<Rightarrow> mx" where
  "load_mx fr d f =
     (let failed = JObj [(''configured'', JBool False), (''error'', JStr ''Could not load the 3CX connection details'')];
          f1 = f\<lparr>mx_status := d, mx_name := js_or (get d ''connectionName'') (mx_name f)\<rparr> in
      if nullish d then f\<lparr>mx_status := failed\<rparr>
      else case (truthy (get d ''pbxHost''), get d ''pbxHost'') of
          (True, JStr h) \<Rightarrow> load_mx_rest fr d (f1\<lparr>mx_url := (if starts_with ''http'' h then h else ''https://'' @ h)\<rparr>)
        | (False, _) \<Rightarrow> load_mx_rest fr d f1
        | _ \<Rightarrow> f1\<lparr>mx_status := failed\<rparr>)"

definition mx_payload :: "mx \<Rightarrow> jsval" where
  "mx_payload f =
     JObj [(''connection_name'', mx_name f), (''pbx_url'', JStr (mx_url f)), (''app_id'', mx_app f), (''route_point_dn'', mx_dn f),
       (''client_secret'', JStr (mx_secret f)), (''dids'', JArr (map JStr (comma_list (mx_dids f)))),
       (''transfer_destinations'', JArr (map JStr (comma_list (mx_transfers f)))), (''failure_action'', JStr (mx_action f)),
       (''failure_destination'', if mx_action f = ''transfer'' then mx_destination f else JNull)]"

definition mx_missing :: "mx \<Rightarrow> bool" where
  "mx_missing f \<longleftrightarrow> \<not> truthy (mx_app f) \<or> mx_url f = [] \<or> \<not> truthy (mx_dn f) \<or> mx_secret f = [] \<or> mx_action f = []"

definition mx_failed :: "jsval \<Rightarrow> mx \<Rightarrow> mx" where
  "mx_failed m f = f\<lparr>mx_status := JObj (js_merge (spread (js_or (mx_status f) (JObj []))) [(''error'', m)])\<rparr>"

definition save_mx :: "web \<Rightarrow> api \<Rightarrow> net \<Rightarrow> mx \<Rightarrow> mx call" where
  "save_mx w a net f =
     (if mx_missing f then (f, [])
      else case save_threecx_config w a (mx_payload f) net of
          (res, sent) \<Rightarrow>
            if \<not> truthy (get res ''success'')
            then ((mx_failed (js_or (error_text (wb_frac w) (js_or (get res ''message'') (JStr ''3CX connection test and save failed'')))
                (JStr ''3CX connection failed'')) f)\<lparr>mx_secret := []\<rparr>, sent)
            else (case threecx_status a net of
                (d, sent2) \<Rightarrow> ((load_mx (wb_frac w) d (f\<lparr>mx_secret := [],
                    mx_status := JObj [(''configured'', JBool True), (''state'', JStr ''active'')]\<rparr>))\<lparr>mx_secret := []\<rparr>, sent @ sent2)))"

definition disconnect_mx :: "web \<Rightarrow> api \<Rightarrow> net \<Rightarrow> mx \<Rightarrow> mx call" where
  "disconnect_mx w a net f =
     (case disconnect_threecx w a net of
        (res, sent) \<Rightarrow>
          (if truthy (get res ''success'')
           then mx_init\<lparr>mx_status := JObj [(''configured'', JBool False), (''state'', JStr ''unconfigured'')]\<rparr>
           else mx_failed (js_or (error_text (wb_frac w) (js_or (get res ''message'') (JStr ''3CX could not be disconnected.'')))
             (JStr ''3CX could not be disconnected'')) f, sent))"

text \<open>The Google card: connection and e-mail. Connecting is switched off in this release.\<close>

definition google_oauth_enabled :: bool where
  "google_oauth_enabled = False"

definition check_google_mobile :: "web \<Rightarrow> api \<Rightarrow> net \<Rightarrow> (bool \<times> jsval) call" where
  "check_google_mobile w a net =
     (case google_auth_status w a net of
        (d, sent) \<Rightarrow> (if truthy (get d ''connected'')
            then (True, js_or (get d ''google_email'') (js_or (get d ''email'') JNull)) else (False, JNull), sent))"

definition disconnect_google_mobile :: "web \<Rightarrow> api \<Rightarrow> net \<Rightarrow> bool \<times> jsval \<Rightarrow> (bool \<times> jsval) call" where
  "disconnect_google_mobile w a net g =
     (case disconnect_google_auth w a net of
        (res, sent) \<Rightarrow> (if get res ''status'' = JStr ''error'' then g else (False, JNull), sent))"

section \<open>Task deck\<close>

record deck_task =
  dt_id :: string
  dt_title :: jsval
  dt_tool :: string
  dt_status :: jsval
  dt_output :: jsval
  dt_error :: jsval
  dt_category :: string

definition task_category :: "string \<Rightarrow> string" where
  "task_category tool =
     (if includes_str ''calendar'' tool then ''calendar''
      else if includes_str ''3cx'' tool \<or> includes_str ''telephony'' tool then ''telephony'' else ''general'')"

definition read_deck_task :: "(rat \<Rightarrow> string) \<Rightarrow> jsval \<Rightarrow> deck_task ext" where
  "read_deck_task fr t =
     (case get t ''tool_name'' of
        JStr tool \<Rightarrow> Ret \<lparr>dt_id = js_string fr (get t ''id''), dt_title = js_or (get t ''title'') (JStr tool), dt_tool = tool,
          dt_status = js_or (get t ''status'') (JStr ''completed''), dt_output = get t ''output_result'',
          dt_error = get t ''error_message'', dt_category = task_category tool\<rparr>
      | _ \<Rightarrow> Throw ''includes is not a function'')"

record deck =
  dk_tasks :: "deck_task list"
  dk_dismissed :: "deck_task option"

definition deck_init :: deck where
  "deck_init = \<lparr>dk_tasks = [], dk_dismissed = None\<rparr>"

definition deck_fetched :: "(rat \<Rightarrow> string) \<Rightarrow> jsval list \<Rightarrow> deck \<Rightarrow> deck" where
  "deck_fetched fr raw d = d\<lparr>dk_tasks := (case map_ext (read_deck_task fr) raw of Ret ts \<Rightarrow> ts | Throw _ \<Rightarrow> [])\<rparr>"

definition dismiss_task :: "string \<Rightarrow> deck \<Rightarrow> deck" where
  "dismiss_task i d =
     (case find (\<lambda>t. dt_id t = i) (dk_tasks d) of
        None \<Rightarrow> d
      | Some t \<Rightarrow> d\<lparr>dk_dismissed := Some t, dk_tasks := filter (\<lambda>t. dt_id t \<noteq> i) (dk_tasks d)\<rparr>)"

definition undo_dismissal :: "deck \<Rightarrow> deck" where
  "undo_dismissal d =
     (case dk_dismissed d of None \<Rightarrow> d | Some t \<Rightarrow> d\<lparr>dk_tasks := t # dk_tasks d, dk_dismissed := None\<rparr>)"

text \<open>The state after the awaited cancellation, whose answer is not read.\<close>

definition cancel_deck_task :: "web \<Rightarrow> api \<Rightarrow> net \<Rightarrow> jsval \<Rightarrow> string \<Rightarrow> deck \<Rightarrow> deck call" where
  "cancel_deck_task w a net now i d =
     (case cancel_task w a i net of
        (_, sent) \<Rightarrow> (d\<lparr>dk_tasks := map (\<lambda>t. if dt_id t = i
            then t\<lparr>dt_status := JStr ''cancelled'',
                   dt_output := JObj [(''cancelledAt'', now), (''reason'', JStr ''User requested cancellation'')]\<rparr>
            else t) (dk_tasks d)\<rparr>, sent))"

definition shown_tasks :: "string \<Rightarrow> deck \<Rightarrow> deck_task list" where
  "shown_tasks flt d = (if flt \<in> {''calendar'', ''telephony''} then filter (\<lambda>t. dt_category t = flt) (dk_tasks d) else dk_tasks d)"

section \<open>Dashboard and calls\<close>

record md =
  md_company :: jsval
  md_assistant :: jsval
  md_google :: jsval
  md_threecx :: jsval
  md_calls :: jsval

definition md_init :: md where
  "md_init = \<lparr>md_company = JNull, md_assistant = JNull, md_google = JObj [(''connected'', JBool False)],
     md_threecx = JObj [(''configured'', JBool False), (''state'', JStr ''unconfigured'')], md_calls = JArr []\<rparr>"

definition settled_or :: "jsval ext \<Rightarrow> jsval \<Rightarrow> jsval" where
  "settled_or res old = (case res of Ret v \<Rightarrow> js_or v old | Throw _ \<Rightarrow> old)"

definition load_dashboard :: "jsval ext \<Rightarrow> jsval ext \<Rightarrow> jsval ext \<Rightarrow> jsval ext \<Rightarrow> jsval ext \<Rightarrow> md \<Rightarrow> md" where
  "load_dashboard company assistant google threecx calls d =
     \<lparr>md_company = settled_or company (md_company d), md_assistant = settled_or assistant (md_assistant d),
      md_google = settled_or google (md_google d), md_threecx = settled_or threecx (md_threecx d),
      md_calls = settled_or calls (md_calls d)\<rparr>"

text \<open>The records of \<open>getCallHistory\<close> hold whole, non-negative seconds.\<close>

definition seconds_of :: "jsval \<Rightarrow> int" where
  "seconds_of c = (case get c ''durationSeconds'' of JNum n \<Rightarrow> n | _ \<Rightarrow> 0)"

definition mobile_average :: "jsval list \<Rightarrow> string" where
  "mobile_average calls =
     (if calls = [] then ''0s''
      else let avg = js_round (of_int (sum_list (map seconds_of calls)) / of_nat (length calls)) in
        int_string (avg div 60) @ ''m '' @ pad2 (int_string (avg mod 60)) @ ''s'')"

text \<open>\<open>day c\<close> is \<open>getDay()\<close> of the call's start, 0 for Sunday, or nothing for an invalid date; the buckets start on Monday.\<close>

definition week_buckets :: "(jsval \<Rightarrow> nat option) \<Rightarrow> jsval list \<Rightarrow> nat list" where
  "week_buckets day calls =
     fold (\<lambda>c bs. case day (get c ''createdAt'') of
         Some d \<Rightarrow> let i = (if d = 0 then 6 else d - 1) in bs[i := bs ! i + 1] | None \<Rightarrow> bs) calls (replicate 7 0)"

definition day_greeting :: "nat \<Rightarrow> string" where
  "day_greeting hour = (if hour < 12 then ''Good morning'' else if hour < 18 then ''Good afternoon'' else ''Good evening'')"

definition filtered_calls :: "string \<Rightarrow> jsval list \<Rightarrow> jsval list" where
  "filtered_calls flt calls =
     filter (\<lambda>c. if flt = ''Inbound'' then get c ''direction'' = JStr ''inbound''
        else if flt = ''Outbound'' then get c ''direction'' = JStr ''outbound''
        else if flt = ''Completed'' then get c ''status'' = JStr ''Ended''
        else if flt = ''Failed'' then get c ''status'' = JStr ''Failed'' else True) calls"

section \<open>What holds\<close>

lemma saved_by_answer:
  assumes "truthy (get (fst (or_else (message_failure m) (try_endpoints net save_handler [q]))) ''success'')"
  shows "\<exists>r. net q = Ret r \<and> reply_ok r"
  using assms
  by (auto simp: or_else_def save_handler_def message_failure_def split: ext.splits if_splits)

lemma company_saved:
  assumes "truthy (get (fst (save_company_profile w a p net)) ''success'')"
  shows "\<exists>r. net (json_req w a ''POST'' (web_base a @ ''/api/company-profile'') p 5000) = Ret r \<and> reply_ok r"
  using assms unfolding save_company_profile_def by (rule saved_by_answer)

lemma assistant_saved:
  assumes "fst (save_assistant_config w a c True net) = Ret v" "truthy (get v ''success'')"
  shows "\<exists>r. net (json_req w a ''POST'' (web_base a @ ''/api/assistant-config'') (config_payload c True) 6000) = Ret r \<and> reply_ok r"
  using assms
  by (auto simp: save_assistant_config_def Let_def or_else_def message_failure_def split: if_splits ext.splits)

text \<open>The mobile setup is only done when it is stored: it ends as done only if the server accepted both the company profile
and the published assistant configuration of the form, and a form without company, assistant or greeting sends nothing.\<close>

theorem setup_done_means_stored:
  "case publish_setup w a net f of
     (Setup_Done, sent) \<Rightarrow>
       list_all (\<lambda>q. q \<in> set sent \<and> (case net q of Ret r \<Rightarrow> reply_ok r | Throw _ \<Rightarrow> False))
         [json_req w a ''POST'' (web_base a @ ''/api/company-profile'') (ob_profile f) 5000,
          json_req w a ''POST'' (web_base a @ ''/api/assistant-config'') (config_payload (ob_config (wb_frac w) f) True) 6000]
   | (Setup_Failed m, sent) \<Rightarrow> sent \<noteq> []
   | (_, sent) \<Rightarrow> sent = []"
proof -
  have s1: "snd (save_company_profile w a p net) = [json_req w a ''POST'' (web_base a @ ''/api/company-profile'') p 5000]" for p
    by (simp add: save_company_profile_def split: option.split)
  have s2: "json_req w a ''POST'' (web_base a @ ''/api/assistant-config'') (config_payload (ob_config (wb_frac w) f) True) 6000
      \<in> set (snd (save_assistant_config w a (ob_config (wb_frac w) f) True net))"
    by (simp add: save_assistant_config_def ob_config_def Let_def split: option.split)
  obtain company sent where c: "save_company_profile w a (ob_profile f) net = (company, sent)" by fastforce
  obtain res sent2 where r: "save_assistant_config w a (ob_config (wb_frac w) f) True net = (res, sent2)" by fastforce
  show ?thesis
    using s1 [of "ob_profile f"] s2 company_saved [of w a "ob_profile f" net] assistant_saved [of w a "ob_config (wb_frac w) f" net]
    by (auto simp: publish_setup_def c r split: ext.split bool.split)
qed

text \<open>The secret leaves the form with every attempt to save it that is sent.\<close>

lemma mobile_secret_cleared: "mx_missing f \<or> mx_secret (fst (save_mx w a net f)) = []"
  by (auto simp: save_mx_def split: prod.split)

text \<open>Undoing a dismissal restores the tasks, the dismissed one in front.\<close>

lemma filter_other_keys:
  "distinct (map f xs) \<Longrightarrow> find (\<lambda>x. f x = i) xs = Some t \<Longrightarrow> filter (\<lambda>x. f x \<noteq> i) xs = remove1 t xs \<and> t \<in> set xs"
proof (induction xs)
  case (Cons x xs)
  show ?case
  proof (cases "f x = i")
    case True
    then have "i \<notin> f ` set xs" using Cons.prems(1) by simp
    then have "filter (\<lambda>y. f y \<noteq> i) xs = xs" by (metis (mono_tags, lifting) filter_True image_eqI)
    with True Cons.prems(2) show ?thesis by simp
  next
    case False
    then have "f t = i" using Cons.prems(2) by (auto simp: find_Some_iff)
    then show ?thesis using Cons False by auto
  qed
qed simp

lemma undo_restores:
  assumes "distinct (map dt_id (dk_tasks d))" "i \<in> dt_id ` set (dk_tasks d)"
  shows "mset (dk_tasks (undo_dismissal (dismiss_task i d))) = mset (dk_tasks d)"
proof -
  obtain t where t: "find (\<lambda>t. dt_id t = i) (dk_tasks d) = Some t"
    using assms(2) by (cases "find (\<lambda>t. dt_id t = i) (dk_tasks d)") (auto simp: find_None_iff)
  from filter_other_keys [OF assms(1) t] show ?thesis
    by (simp add: undo_dismissal_def dismiss_task_def t)
qed

text \<open>Every call with a valid date is in one bar of the mobile dashboard.\<close>

lemma bucket_counts_call: "i < length bs \<Longrightarrow> sum_list (bs[i := bs ! i + (1::nat)]) = sum_list bs + 1"
  by (simp add: sum_list_update)

lemma week_buckets_total:
  assumes "\<And>v d. day v = Some d \<Longrightarrow> d < 7"
  shows "length (week_buckets day calls) = 7 \<and>
    sum_list (week_buckets day calls) = length (filter (\<lambda>c. day (get c ''createdAt'') \<noteq> None) calls)"
proof -
  have "length bs = 7 \<Longrightarrow>
      (let r = fold (\<lambda>c bs. case day (get c ''createdAt'') of
         Some d \<Rightarrow> let i = (if d = 0 then 6 else d - 1) in bs[i := bs ! i + 1] | None \<Rightarrow> bs) calls bs
       in length r = 7 \<and> sum_list r = sum_list bs + length (filter (\<lambda>c. day (get c ''createdAt'') \<noteq> None) calls))" for bs
  proof (induction calls arbitrary: bs)
    case (Cons c cs)
    show ?case
    proof (cases "day (get c ''createdAt'')")
      case (Some d)
      then have "(if d = 0 then 6 else d - 1) < length bs" using assms [OF Some] Cons.prems by auto
      from bucket_counts_call [OF this] show ?thesis using Cons.prems Some
        Cons.IH [of "bs[(if d = 0 then 6 else d - 1) := bs ! (if d = 0 then 6 else d - 1) + 1]"]
        by (simp add: Let_def del: sum_list_update split del: if_split)
    qed (use Cons in \<open>simp add: Let_def\<close>)
  qed simp
  from this [of "replicate 7 0"] show ?thesis by (simp add: week_buckets_def Let_def sum_list_replicate)
qed

section \<open>What goes wrong\<close>

text \<open>The setup overwrites what the web app configured: whatever the form shows and the server holds, it publishes no FAQs,
no reference notes and fixed business hours.\<close>

lemma setup_overwrites_configuration:
  "get (config_payload (ob_config fr (load_ob_assistant cfg f)) True) ''faq_entries'' = JArr []
   \<and> get (config_payload (ob_config fr (load_ob_assistant cfg f)) True) ''knowledge_base_notes'' = JStr []
   \<and> get (config_payload (ob_config fr (load_ob_assistant cfg f)) True) ''is_deployed'' = JBool True"
  by (simp add: config_payload_def ob_config_def Let_def js_merge_def jm_set_def)

text \<open>A cancellation that the server refuses is shown as a cancelled task.\<close>

lemma refused_cancellation_is_shown:
  assumes "t \<in> set (dk_tasks d)"
  shows "\<exists>u \<in> set (dk_tasks (fst (cancel_deck_task w a (\<lambda>_. Throw m) now (dt_id t) d))).
    dt_id u = dt_id t \<and> dt_status u = JStr ''cancelled''"
  proof -
  let ?u = "t\<lparr>dt_status := JStr ''cancelled'',
    dt_output := JObj [(''cancelledAt'', now), (''reason'', JStr ''User requested cancellation'')]\<rparr>"
  have "?u \<in> set (dk_tasks (fst (cancel_deck_task w a (\<lambda>_. Throw m) now (dt_id t) d)))"
    using assms by (auto simp: cancel_deck_task_def split: prod.split intro!: image_eqI [of _ _ t])
  then show ?thesis by (intro bexI) simp_all
qed

text \<open>A task that is dismissed, fetched again and restored is in the deck twice.\<close>

lemma undo_after_refresh_duplicates:
  "let raw = [JObj [(''id'', JStr ''t1''), (''tool_name'', JStr ''list_events'')]];
       d = undo_dismissal (deck_fetched (\<lambda>_. []) raw (dismiss_task ''t1'' (deck_fetched (\<lambda>_. []) raw deck_init))) in
     map dt_id (dk_tasks d) = [''t1'', ''t1'']"
  by code_simp

text \<open>The mobile card saves a transfer without a destination, which the web form refuses.\<close>

lemma transfer_without_destination:
  "let f = mx_init\<lparr>mx_app := JStr ''app'', mx_url := ''https://pbx'', mx_dn := JStr ''800'', mx_secret := ''key'', mx_action := ''transfer''\<rparr> in
     \<not> mx_missing f \<and> get (mx_payload f) ''failure_destination'' = JStr []
     \<and> get (mx_payload f) ''transfer_destinations'' = JArr []"
  by code_simp

text \<open>The chart that claims seven days counts every call of the history: two calls a week apart share a bar.\<close>

lemma week_buckets_mix_weeks:
  "week_buckets (\<lambda>v. case v of JNum n \<Rightarrow> Some (nat (n mod 7)) | _ \<Rightarrow> None)
     [JObj [(''createdAt'', JNum 1)], JObj [(''createdAt'', JNum 8)]] = [2, 0, 0, 0, 0, 0, 0]"
  by code_simp

end
