(* ===== verification/Mobile_Release.thy ===== *)
theory Mobile_Release
  imports Mobile_Account Mobile_Voice
begin

text \<open>
  What surrounds the mobile app: the check of its public build configuration (\<open>mobile/scripts/validate-public-env.mjs\<close>),
  the guards of its routes (\<open>mobile/app\<close>), the call screen (\<open>components/VoiceAssistant.tsx\<close>,
  \<open>types/voiceBot.ts\<close>) and the theme (\<open>context/ThemeContext.tsx\<close>). The parser of \<open>new URL\<close> is a parameter.
\<close>

section \<open>The build configuration\<close>

record url_parts =
  ur_protocol :: string
  ur_hostname :: string
  ur_username :: string
  ur_password :: string
  ur_pathname :: string
  ur_search :: string
  ur_hash :: string

type_synonym url_parser = "string \<Rightarrow> url_parts option"

definition required_vars :: "string list" where
  "required_vars = [''EXPO_PUBLIC_APP_URL'', ''EXPO_PUBLIC_BACKEND_URL'']"

definition loopback_host :: "string \<Rightarrow> bool" where
  "loopback_host h \<longleftrightarrow> list_ex (\<lambda>p. includes_str p (to_lower h)) [''localhost'', ''127.0.0.1'', ''0.0.0.0'']"

definition secret_name :: "string \<Rightarrow> bool" where
  "secret_name n \<longleftrightarrow> list_ex (\<lambda>p. includes_str p (to_upper n)) [''SECRET'', ''PASSWORD'', ''DATABASE_URL'', ''PRIVATE_KEY'', ''API_KEY'']"

definition not_origin :: "url_parts \<Rightarrow> bool" where
  "not_origin u \<longleftrightarrow> ur_pathname u \<noteq> ''/'' \<or> ur_search u \<noteq> [] \<or> ur_hash u \<noteq> []"

definition has_credentials :: "url_parts \<Rightarrow> bool" where
  "has_credentials u \<longleftrightarrow> ur_username u \<noteq> [] \<or> ur_password u \<noteq> []"

definition guard_msg :: "bool \<Rightarrow> string \<Rightarrow> string list" where
  "guard_msg b m = (if b then [m] else [])"

definition check_required :: "url_parser \<Rightarrow> bool \<Rightarrow> (string \<Rightarrow> string option) \<Rightarrow> string \<Rightarrow> string list" where
  "check_required parse insecure env n =
     (case map_option trim (env n) of
        None \<Rightarrow> [n @ '' is required for a packaged build.'']
      | Some v \<Rightarrow>
          if v = [] then [n @ '' is required for a packaged build.'']
          else case parse v of
              None \<Rightarrow> [n @ '' must be an absolute URL.'']
            | Some u \<Rightarrow>
                guard_msg (ur_protocol u \<notin> {''http:'', ''https:''}) (n @ '' must use http or https.'')
                @ guard_msg (\<not> insecure \<and> ur_protocol u \<noteq> ''https:'') (n @ '' must use HTTPS for a release build.'')
                @ guard_msg (\<not> insecure \<and> loopback_host (ur_hostname u))
                    (n @ '' cannot point to localhost or loopback in a release build.'')
                @ guard_msg (has_credentials u) (n @ '' must not contain URL credentials.'')
                @ guard_msg (not_origin u) (n @ '' must be an origin without a path, query, or hash.''))"

definition check_token_endpoint :: "url_parser \<Rightarrow> bool \<Rightarrow> string \<Rightarrow> string list" where
  "check_token_endpoint parse insecure v =
     (case parse v of
        None \<Rightarrow> [''EXPO_PUBLIC_LIVEKIT_TOKEN_ENDPOINT must be an absolute URL.'']
      | Some u \<Rightarrow>
          guard_msg (\<not> insecure \<and> ur_protocol u \<noteq> ''https:'') ''EXPO_PUBLIC_LIVEKIT_TOKEN_ENDPOINT must use HTTPS for a release build.''
          @ guard_msg (has_credentials u) ''EXPO_PUBLIC_LIVEKIT_TOKEN_ENDPOINT must not contain URL credentials.''
          @ guard_msg (\<not> insecure \<and> loopback_host (ur_hostname u))
              ''EXPO_PUBLIC_LIVEKIT_TOKEN_ENDPOINT cannot point to localhost or loopback in a release build.'')"

definition check_livekit_url :: "url_parser \<Rightarrow> string \<Rightarrow> string list" where
  "check_livekit_url parse v =
     (case parse v of
        None \<Rightarrow> [''EXPO_PUBLIC_LIVEKIT_URL must be an absolute WebSocket URL.'']
      | Some u \<Rightarrow>
          guard_msg (ur_protocol u \<noteq> ''wss:'') ''EXPO_PUBLIC_LIVEKIT_URL must use wss://.''
          @ guard_msg (has_credentials u) ''EXPO_PUBLIC_LIVEKIT_URL must not contain URL credentials.''
          @ guard_msg (not_origin u) ''EXPO_PUBLIC_LIVEKIT_URL must be a WebSocket origin without a path, query, or hash.'')"

definition check_entry :: "url_parser \<Rightarrow> bool \<Rightarrow> string \<times> string \<Rightarrow> string list" where
  "check_entry parse insecure nv =
     (case nv of (n, v) \<Rightarrow>
        guard_msg (starts_with ''EXPO_PUBLIC_'' n \<and> secret_name n) (n @ '' looks like a secret and must not be embedded in the APK.'')
        @ (if n = ''EXPO_PUBLIC_LIVEKIT_TOKEN_ENDPOINT'' \<and> v \<noteq> [] then check_token_endpoint parse insecure v else [])
        @ (if n = ''EXPO_PUBLIC_LIVEKIT_URL'' \<and> v \<noteq> [] then check_livekit_url parse v else []))"

definition validate_public_env :: "url_parser \<Rightarrow> (string \<times> string) list \<Rightarrow> string list" where
  "validate_public_env parse env =
     (let insecure = (map_of env ''ALLOW_INSECURE_LOCAL_URLS'' = Some ''1'') in
      concat (map (check_required parse insecure (map_of env)) required_vars) @ concat (map (check_entry parse insecure) env))"

lemma guard_msg_Nil [simp]: "guard_msg b m = [] \<longleftrightarrow> \<not> b"
  by (simp add: guard_msg_def)

definition secure_origin :: "url_parser \<Rightarrow> string \<Rightarrow> bool" where
  "secure_origin parse v \<longleftrightarrow> (case parse (trim v) of
     Some u \<Rightarrow> ur_protocol u = ''https:'' \<and> \<not> loopback_host (ur_hostname u) \<and> \<not> has_credentials u \<and> \<not> not_origin u | None \<Rightarrow> False)"

lemma required_ok:
  "check_required parse False env n = [] \<longleftrightarrow> (\<exists>v. env n = Some v \<and> trim v \<noteq> [] \<and> secure_origin parse v)"
  by (auto simp: check_required_def secure_origin_def split: option.splits)

text \<open>What a release that passes the check ships: both servers of the app are secure, remote origins, the token endpoint, where one
is set, is secure, remote and without credentials, voice runs over \<open>wss:\<close>, and no public variable has the name of a secret.\<close>

theorem checked_release_is_secure:
  assumes "validate_public_env parse env = []" "map_of env ''ALLOW_INSECURE_LOCAL_URLS'' \<noteq> Some ''1''"
  shows "list_all (\<lambda>n. \<exists>v. map_of env n = Some v \<and> secure_origin parse v) required_vars
    \<and> (\<forall>v. map_of env ''EXPO_PUBLIC_LIVEKIT_TOKEN_ENDPOINT'' = Some v \<longrightarrow> v \<noteq> [] \<longrightarrow>
        (\<exists>u. parse v = Some u \<and> ur_protocol u = ''https:'' \<and> \<not> has_credentials u \<and> \<not> loopback_host (ur_hostname u)))
    \<and> (\<forall>v. map_of env ''EXPO_PUBLIC_LIVEKIT_URL'' = Some v \<longrightarrow> v \<noteq> [] \<longrightarrow> (\<exists>u. parse v = Some u \<and> ur_protocol u = ''wss:''))
    \<and> list_all (\<lambda>n. \<not> (starts_with ''EXPO_PUBLIC_'' n \<and> secret_name n)) (map fst env)"
proof -
  have r: "check_required parse False (map_of env) n = []" if "n \<in> set required_vars" for n
    using assms(1,2) that by (simp add: validate_public_env_def Let_def)
  have e: "check_entry parse False nv = []" if "nv \<in> set env" for nv
    using assms(1,2) that by (simp add: validate_public_env_def Let_def)
  have n: "\<not> (starts_with ''EXPO_PUBLIC_'' n \<and> secret_name n)" if "(n, v) \<in> set env" for n v
    using e [OF that] by (simp add: check_entry_def)
  have o: "\<exists>v. map_of env n = Some v \<and> secure_origin parse v" if "n \<in> set required_vars" for n
    using r [OF that] by (auto simp: required_ok)
  have t: "\<exists>u. parse v = Some u \<and> ur_protocol u = ''https:'' \<and> \<not> has_credentials u \<and> \<not> loopback_host (ur_hostname u)"
    if "map_of env ''EXPO_PUBLIC_LIVEKIT_TOKEN_ENDPOINT'' = Some v" "v \<noteq> []" for v
    using e [OF map_of_SomeD [OF that(1)]] that(2) by (simp add: check_entry_def check_token_endpoint_def split: option.splits)
  have l: "\<exists>u. parse v = Some u \<and> ur_protocol u = ''wss:''" if "map_of env ''EXPO_PUBLIC_LIVEKIT_URL'' = Some v" "v \<noteq> []" for v
    using e [OF map_of_SomeD [OF that(1)]] that(2) by (simp add: check_entry_def check_livekit_url_def split: option.splits)
  show ?thesis
    unfolding list_all_iff by (intro conjI ballI allI impI) (erule o, erule (1) t, erule (1) l, use n in auto)
qed

section \<open>Guarded routes\<close>

text \<open>The pages behind the sign-in: nothing while the state loads, and the splash page without a user.\<close>

datatype page = Blank | Redirected string | Page_Shown

definition guarded_page :: "au \<Rightarrow> page" where
  "guarded_page s = (if au_loading s then Blank else if \<not> is_authenticated s then Redirected ''/splash'' else Page_Shown)"

text \<open>\<open>NaN\<close> is no step.\<close>

definition setup_step :: "int option option \<Rightarrow> int" where
  "setup_step param = (case param of Some (Some n) \<Rightarrow> max n 2 | _ \<Rightarrow> 2)"

definition after_sign_up :: "au \<Rightarrow> string" where
  "after_sign_up refreshed = ''/setup''"

definition setup_done_route :: "au \<Rightarrow> string" where
  "setup_done_route refreshed = ''/(tabs)''"

text \<open>Pages are shown only for a user; leaving the setup undone leads into the tabs, whose guard does not look at the setup.\<close>

lemma shown_pages_have_user: "guarded_page s = Page_Shown \<longleftrightarrow> \<not> au_loading s \<and> truthy (au_user s)"
  by (simp add: guarded_page_def is_authenticated_def)

section \<open>The call screen\<close>

record badge =
  bg_label :: string
  bg_color :: string
  bg_pulsing :: bool

fun voice_badge :: "voice_status \<Rightarrow> badge" where
  "voice_badge V_Disconnected = \<lparr>bg_label = ''Offline'', bg_color = ''gray'', bg_pulsing = False\<rparr>"
| "voice_badge V_Connecting = \<lparr>bg_label = ''Connecting...'', bg_color = ''yellow'', bg_pulsing = True\<rparr>"
| "voice_badge V_Waiting = \<lparr>bg_label = ''Waiting for Agent...'', bg_color = ''blue'', bg_pulsing = True\<rparr>"
| "voice_badge V_Connected = \<lparr>bg_label = ''Live Call'', bg_color = ''green'', bg_pulsing = True\<rparr>"
| "voice_badge V_Reconnecting = \<lparr>bg_label = ''Reconnecting...'', bg_color = ''orange'', bg_pulsing = True\<rparr>"
| "voice_badge V_Error = \<lparr>bg_label = ''Connection Error'', bg_color = ''red'', bg_pulsing = False\<rparr>"

definition participant_name :: "jsval \<Rightarrow> jsval" where
  "participant_name user = js_or (get user ''name'') (js_or (get user ''email'') (JStr ''Mobile user''))"

definition timer_runs :: "voice_status \<Rightarrow> bool" where
  "timer_runs st \<longleftrightarrow> st \<in> {V_Connected, V_Waiting, V_Reconnecting}"

definition call_active :: "voice_status \<Rightarrow> bool" where
  "call_active st \<longleftrightarrow> st \<in> {V_Connecting, V_Waiting, V_Connected, V_Reconnecting}"

definition session_clock :: "nat \<Rightarrow> string" where
  "session_clock n = pad2 (decimal (n div 60)) @ '':'' @ pad2 (decimal (n mod 60))"

record vs =
  vs_status :: voice_status
  vs_seconds :: nat
  vs_started :: bool
  vs_starts :: nat                 \<comment> \<open>the calls of \<open>initiateCall\<close>\<close>

datatype vs_event = Vs_Effect bool | Vs_Status voice_status | Vs_Second | Vs_Start | Vs_End

definition vs_step :: "vs \<Rightarrow> vs_event \<Rightarrow> vs" where
  "vs_step s e =
     (case e of
        Vs_Effect autoStart \<Rightarrow> if \<not> autoStart \<or> vs_started s then s else s\<lparr>vs_started := True, vs_starts := vs_starts s + 1\<rparr>
      | Vs_Status st \<Rightarrow> s\<lparr>vs_status := st\<rparr>
      | Vs_Second \<Rightarrow> if timer_runs (vs_status s) then s\<lparr>vs_seconds := vs_seconds s + 1\<rparr> else s
      | Vs_Start \<Rightarrow> if call_active (vs_status s) then s else s\<lparr>vs_starts := vs_starts s + 1\<rparr>
      | Vs_End \<Rightarrow> s\<lparr>vs_seconds := 0\<rparr>)"

definition vs_init :: vs where
  "vs_init = \<lparr>vs_status = V_Disconnected, vs_seconds = 0, vs_started = False, vs_starts = 0\<rparr>"

text \<open>The ellipsis character is written as three dots.\<close>

definition activity_text :: "bool \<Rightarrow> bool \<Rightarrow> voice_status \<Rightarrow> string" where
  "activity_text botSpeaking userSpeaking st =
     (if botSpeaking then ''Assistant is speaking'' else if userSpeaking then ''Interrupting assistant...''
      else if st = V_Waiting then ''Waiting for assistant audio...'' else if st = V_Connected then ''Listening''
      else ''Ready for a secure voice session'')"

text \<open>The clock of a call that was lost goes on in the next one: only hanging up resets it.\<close>

lemma clock_survives_lost_call:
  "let s = run vs_step vs_init ([Vs_Start, Vs_Status V_Connected] @ replicate 61 Vs_Second @ [Vs_Status V_Disconnected, Vs_Start,
       Vs_Status V_Connected]) in vs_starts s = 2 \<and> session_clock (vs_seconds s) = ''01:01''"
  by code_simp

section \<open>The theme\<close>

definition initial_theme :: "string option ext \<Rightarrow> string option \<Rightarrow> string" where
  "initial_theme saved scheme =
     (case saved of
        Ret (Some t) \<Rightarrow> if t \<in> {''dark'', ''light''} then t else if scheme = Some ''light'' then ''light'' else ''dark''
      | _ \<Rightarrow> if scheme = Some ''light'' then ''light'' else ''dark'')"

definition toggled_theme :: "string \<Rightarrow> string" where
  "toggled_theme t = (if t = ''dark'' then ''light'' else ''dark'')"

lemma theme_toggles_back: "toggled_theme (toggled_theme (initial_theme saved scheme)) = initial_theme saved scheme"
  by (auto simp: toggled_theme_def initial_theme_def split: ext.split option.split)

end
