(* ===== verification/Client_Vad.thy ===== *)
theory Client_Vad
  imports Prelude
begin

text \<open>
  Barge-in of the web app: the voice detector (\<open>frontend/public/worklets/vad-processor.js\<close>) and the hook that
  mutes the assistant and reports an interruption (\<open>frontend/src/hooks/useClientVAD.ts\<close>). The detector processes
  one frame per step and its messages are handled at once: a message of the detector that is still on its way when the
  clean-up of the effect runs (the source leaves \<open>port.onmessage\<close> in place) is not modelled. The clock, the timer,
  the microphone stream, the loading of the worklet and the assistant's gain node are the environment. Samples and times
  are rationals: the rounding of the square root of the mean energy is not modelled.
\<close>

section \<open>The detector\<close>

record det =
  vd_loud :: nat                   \<comment> \<open>\<open>consecutiveSpeechFrames\<close>\<close>
  vd_silent :: nat                 \<comment> \<open>\<open>silentFramesCount\<close>\<close>
  vd_speaking :: bool

definition det_init :: det where
  "det_init = \<lparr>vd_loud = 0, vd_silent = 0, vd_speaking = False\<rparr>"

definition onset_frames :: nat where
  "onset_frames = 4"

definition hangover_frames :: "nat \<Rightarrow> nat" where
  "hangover_frames rate = (let n = nat (js_round (of_nat rate / 1280)) in if n = 0 then 38 else n)"

text \<open>The mean energy of the frame is above that of the threshold 0.025.\<close>

definition is_loud :: "rat list \<Rightarrow> bool" where
  "is_loud xs \<longleftrightarrow> sum_list (map (\<lambda>x. x * x) xs) / of_nat (length xs) > (25 / 1000) * (25 / 1000)"

datatype vad_msg = Speech_Start | Speech_End

definition process_frame :: "nat \<Rightarrow> rat list option \<Rightarrow> det \<Rightarrow> det \<times> vad_msg list" where
  "process_frame rate inp d =
     (case inp of
        None \<Rightarrow> (d, [])
      | Some xs \<Rightarrow>
          if is_loud xs
          then let d = d\<lparr>vd_silent := 0, vd_loud := vd_loud d + 1\<rparr> in
            if \<not> vd_speaking d \<and> onset_frames \<le> vd_loud d then (d\<lparr>vd_speaking := True\<rparr>, [Speech_Start]) else (d, [])
          else let d = d\<lparr>vd_loud := 0\<rparr> in
            if \<not> vd_speaking d then (d, [])
            else let d = d\<lparr>vd_silent := vd_silent d + 1\<rparr> in
              if hangover_frames rate < vd_silent d then (d\<lparr>vd_speaking := False\<rparr>, [Speech_End]) else (d, []))"

section \<open>The hook\<close>

datatype vad_out = Speech_Started bool | Speech_Ended | Interrupted

record vad =
  va_now :: rat                    \<comment> \<open>the clock, in milliseconds\<close>
  va_bot :: bool                   \<comment> \<open>\<open>isBotSpeakingRef\<close>\<close>
  va_gain :: "rat option"          \<comment> \<open>the value of the assistant's gain node, where there is one\<close>
  va_timer :: "rat option"         \<comment> \<open>when the interruption timer is due\<close>
  va_loading :: "nat option"       \<comment> \<open>the start that awaits its worklet\<close>
  va_starts :: nat
  va_node :: "det option"          \<comment> \<open>the installed worklet\<close>
  va_log :: "(rat \<times> vad_out) list" \<comment> \<open>the callbacks called, newest first\<close>

definition vad_init :: vad where
  "vad_init = \<lparr>va_now = 0, va_bot = False, va_gain = None, va_timer = None, va_loading = None, va_starts = 0,
     va_node = None, va_log = []\<rparr>"

definition interruption_threshold :: rat where
  "interruption_threshold = 320"

definition vad_call :: "vad_out \<Rightarrow> vad \<Rightarrow> vad" where
  "vad_call e s = s\<lparr>va_log := (va_now s, e) # va_log s\<rparr>"

definition set_gain :: "rat \<Rightarrow> vad \<Rightarrow> vad" where
  "set_gain g s = (if va_gain s = None then s else s\<lparr>va_gain := Some g\<rparr>)"

definition on_speech_start :: "vad \<Rightarrow> vad" where
  "on_speech_start s =
     (let s = vad_call (Speech_Started (va_bot s)) s in
      if va_bot s then s\<lparr>va_timer := Some (va_now s + interruption_threshold)\<rparr> else s)"

definition on_timer :: "vad \<Rightarrow> vad" where
  "on_timer s = vad_call Interrupted (set_gain 0 (s\<lparr>va_timer := None\<rparr>))"

definition on_speech_end :: "vad \<Rightarrow> vad" where
  "on_speech_end s = vad_call Speech_Ended (if va_timer s \<noteq> None then s\<lparr>va_timer := None\<rparr> else set_gain 1 s)"

fun on_vad_msg :: "vad_msg \<Rightarrow> vad \<Rightarrow> vad" where
  "on_vad_msg Speech_Start s = on_speech_start s"
| "on_vad_msg Speech_End s = on_speech_end s"

text \<open>The clean-up of the effect; the gain stays as it is.\<close>

definition vad_cleanup :: "vad \<Rightarrow> vad" where
  "vad_cleanup s = s\<lparr>va_timer := None, va_loading := None, va_node := None\<rparr>"

datatype vad_event =
    Time_Passes rat
  | Timer_Fires
  | Bot_Speaking bool
  | Gain_Node bool                 \<comment> \<open>a new gain node, at full volume, or none\<close>
  | Stream_Changed bool            \<comment> \<open>to another stream or to none, and on unmounting\<close>
  | Worklet_Loaded nat bool
  | Audio_Frame "rat list option"

definition vad_step :: "nat \<Rightarrow> vad \<Rightarrow> vad_event \<Rightarrow> vad" where
  "vad_step rate s e =
     (case e of
        Time_Passes t \<Rightarrow> if 0 \<le> t then s\<lparr>va_now := va_now s + t\<rparr> else s
      | Timer_Fires \<Rightarrow> (case va_timer s of Some d \<Rightarrow> if d \<le> va_now s then on_timer s else s | None \<Rightarrow> s)
      | Bot_Speaking b \<Rightarrow> s\<lparr>va_bot := b\<rparr>
      | Gain_Node b \<Rightarrow> s\<lparr>va_gain := (if b then Some 1 else None)\<rparr>
      | Stream_Changed b \<Rightarrow>
          let s = vad_cleanup s in
          if b then s\<lparr>va_loading := Some (va_starts s), va_starts := va_starts s + 1\<rparr> else s
      | Worklet_Loaded n ok \<Rightarrow>
          if va_loading s = Some n then s\<lparr>va_loading := None, va_node := (if ok then Some det_init else None)\<rparr> else s
      | Audio_Frame inp \<Rightarrow> (case va_node s of
            None \<Rightarrow> s
          | Some d \<Rightarrow> (case process_frame rate inp d of (d', ms) \<Rightarrow> fold on_vad_msg ms (s\<lparr>va_node := Some d'\<rparr>))))"

section \<open>Interruptions\<close>

text \<open>The speech that is under way over the assistant and has interrupted nothing yet, and the calls every interruption needs.\<close>

fun open_speech :: "(rat \<times> vad_out) list \<Rightarrow> rat option" where
  "open_speech ((t, Speech_Started b) # es) = (if b then Some t else None)"
| "open_speech _ = None"

fun sustained :: "(rat \<times> vad_out) list \<Rightarrow> bool" where
  "sustained ((t, Interrupted) # es) \<longleftrightarrow>
     (case open_speech es of Some t0 \<Rightarrow> t0 + interruption_threshold \<le> t | None \<Rightarrow> False) \<and> sustained es"
| "sustained (_ # es) \<longleftrightarrow> sustained es"
| "sustained [] \<longleftrightarrow> True"

definition vad_speaking :: "vad \<Rightarrow> bool" where
  "vad_speaking s \<longleftrightarrow> (case va_node s of Some d \<Rightarrow> vd_speaking d | None \<Rightarrow> False)"

definition vad_ok :: "vad \<Rightarrow> bool" where
  "vad_ok s \<longleftrightarrow> sustained (va_log s) \<and> (va_loading s \<noteq> None \<longrightarrow> va_node s = None)
     \<and> (\<forall>d. va_timer s = Some d \<longrightarrow> vad_speaking s \<and> open_speech (va_log s) = Some (d - interruption_threshold))"

lemma process_frame_cases:
  obtains d' where "process_frame rate inp d = (d', [])" "vd_speaking d' = vd_speaking d"
  | d' where "process_frame rate inp d = (d', [Speech_Start])" "\<not> vd_speaking d" "vd_speaking d'"
  | d' where "process_frame rate inp d = (d', [Speech_End])" "vd_speaking d" "\<not> vd_speaking d'"
proof -
  have "case process_frame rate inp d of (d', ms) \<Rightarrow>
      ms = [] \<and> vd_speaking d' = vd_speaking d \<or> ms = [Speech_Start] \<and> \<not> vd_speaking d \<and> vd_speaking d'
      \<or> ms = [Speech_End] \<and> vd_speaking d \<and> \<not> vd_speaking d'"
    by (simp add: process_frame_def Let_def split: option.split)
  then show thesis using that by (auto split: prod.splits)
qed

lemmas vad_handlers = on_speech_start_def on_speech_end_def on_timer_def vad_call_def set_gain_def vad_cleanup_def Let_def

interpretation barge_in: machine "vad_step rate" vad_ok for rate
proof
  fix s e
  assume ok: "vad_ok s"
  show "vad_ok (vad_step rate s e)"
  proof (cases e)
    case (Audio_Frame inp)
    show ?thesis
    proof (cases "va_node s")
      case (Some d)
      show ?thesis
        by (rule process_frame_cases [of rate inp d])
           (use ok Some Audio_Frame in \<open>auto simp: vad_step_def vad_ok_def vad_speaking_def vad_handlers\<close>)
    qed (use ok Audio_Frame in \<open>simp add: vad_step_def\<close>)
  next
    case Timer_Fires
    then show ?thesis using ok
      by (auto simp: vad_step_def vad_ok_def vad_speaking_def vad_handlers split: option.split)
  qed (use ok in \<open>auto simp: vad_step_def vad_ok_def vad_speaking_def vad_handlers\<close>)
qed

text \<open>C36. An interruption needs a speech that the detector reported over the assistant 320 milliseconds before: in every
run of the detector and the hook, the callback before each interruption is the report that a speech began while the assistant
spoke, made at least 320 milliseconds earlier; so that speech was not reported as ended and interrupted nothing before.
(The report comes with the fourth loud frame and the end only after the hangover of the detector, see
\<open>medium_speech_interrupts\<close>: what has to go on for 320 milliseconds is the speech as the detector reports it.)\<close>

theorem interruptions_follow_reported_speech: "sustained (va_log (run (vad_step rate) vad_init es))"
proof -
  have "vad_ok vad_init" by (simp add: vad_ok_def vad_init_def)
  from barge_in.inv_run [OF this] show ?thesis by (simp add: vad_ok_def)
qed

section \<open>The gain\<close>

definition keeps_stream :: "vad_event \<Rightarrow> bool" where
  "keeps_stream e \<longleftrightarrow> (case e of Stream_Changed _ \<Rightarrow> False | Worklet_Loaded _ _ \<Rightarrow> False | _ \<Rightarrow> True)"

definition gain_ok :: "vad \<Rightarrow> bool" where
  "gain_ok s \<longleftrightarrow> va_gain s \<in> {None, Some 0, Some 1} \<and> (va_gain s = Some 0 \<longrightarrow> vad_speaking s \<and> va_timer s = None)"

lemma gain_ok_step: "gain_ok s \<Longrightarrow> vad_ok s \<Longrightarrow> keeps_stream e \<Longrightarrow> gain_ok (vad_step rate s e)"
proof (cases e)
  case (Audio_Frame inp)
  assume ok: "gain_ok s" "vad_ok s"
  show ?thesis
  proof (cases "va_node s")
    case (Some d)
    show ?thesis
      by (rule process_frame_cases [of rate inp d])
         (use ok Some Audio_Frame in \<open>auto simp: vad_step_def gain_ok_def vad_ok_def vad_speaking_def vad_handlers\<close>)
  qed (use ok Audio_Frame in \<open>simp add: vad_step_def\<close>)
next
  case Timer_Fires
  assume "gain_ok s" "vad_ok s"
  then show ?thesis using Timer_Fires
    by (auto simp: vad_step_def gain_ok_def vad_ok_def vad_speaking_def vad_handlers split: option.split)
qed (auto simp: vad_step_def gain_ok_def vad_speaking_def vad_handlers keeps_stream_def)

lemma gain_ok_run: "gain_ok s \<Longrightarrow> vad_ok s \<Longrightarrow> list_all keeps_stream es \<Longrightarrow> gain_ok (run (vad_step rate) s es)"
  by (induction es arbitrary: s) (simp_all add: gain_ok_step barge_in.inv_step)

text \<open>Muting the assistant is not permanent: while the microphone stream stays, the assistant is muted only during
a speech that interrupted it, whatever the bot, the gain node, the clock and the audio do; once the speech has ended it is
at full volume again.\<close>

theorem muted_only_while_interrupted:
  assumes "list_all keeps_stream es" "s = run (vad_step rate) vad_init ([Stream_Changed True, Worklet_Loaded 0 True] @ es)"
  shows "va_gain s \<in> {None, Some 0, Some 1} \<and> (va_gain s = Some 0 \<longrightarrow> vad_speaking s)"
proof -
  let ?s = "run (vad_step rate) vad_init [Stream_Changed True, Worklet_Loaded 0 True]"
  have "gain_ok ?s" "vad_ok ?s"
    by (simp_all add: gain_ok_def vad_ok_def vad_step_def vad_init_def vad_cleanup_def vad_speaking_def det_init_def)
  then have "gain_ok s" using gain_ok_run assms by (simp add: run_append)
  then show ?thesis by (simp add: gain_ok_def)
qed

section \<open>Short speech\<close>

text \<open>The frames of a stream as they arrive, the timer being served on time.\<close>

definition frame_ms :: "nat \<Rightarrow> rat" where
  "frame_ms rate = 128000 / of_nat rate"

definition frame_events :: "nat \<Rightarrow> rat list \<Rightarrow> vad_event list" where
  "frame_events rate xs = [Time_Passes (frame_ms rate), Timer_Fires, Audio_Frame (Some xs)]"

definition feed_frames :: "nat \<Rightarrow> rat list list \<Rightarrow> vad \<Rightarrow> vad" where
  "feed_frames rate frames s = run (vad_step rate) s (concat (map (frame_events rate) frames))"

lemma feed_frames_Nil [simp]: "feed_frames rate [] s = s"
  by (simp add: feed_frames_def)

lemma feed_frames_Cons [simp]: "feed_frames rate (x # xs) s = feed_frames rate xs (run (vad_step rate) s (frame_events rate x))"
  by (simp add: feed_frames_def run_append)

lemma feed_frames_append: "feed_frames rate (xs @ ys) s = feed_frames rate ys (feed_frames rate xs s)"
  by (simp add: feed_frames_def run_append)

text \<open>A speech under way, with its timer pending.\<close>

definition in_speech :: "rat \<Rightarrow> nat \<Rightarrow> nat \<Rightarrow> rat \<Rightarrow> vad \<Rightarrow> vad" where
  "in_speech t n k d s = s\<lparr>va_now := t, va_node := Some \<lparr>vd_loud = n, vd_silent = k, vd_speaking = True\<rparr>, va_timer := Some d\<rparr>"

lemma frame_ms_pos: "0 \<le> frame_ms rate"
  by (simp add: frame_ms_def)

lemma loud_frame:
  assumes "is_loud x" "t + frame_ms rate < d"
  shows "run (vad_step rate) (in_speech t n k d s) (frame_events rate x) = in_speech (t + frame_ms rate) (n + 1) 0 d s"
  using assms frame_ms_pos [of rate]
  by (simp add: frame_events_def vad_step_def in_speech_def process_frame_def Let_def)

lemma quiet_frame:
  assumes "\<not> is_loud x" "t + frame_ms rate < d" "k < hangover_frames rate"
  shows "run (vad_step rate) (in_speech t n k d s) (frame_events rate x) = in_speech (t + frame_ms rate) 0 (k + 1) d s"
  using assms frame_ms_pos [of rate]
  by (simp add: frame_events_def vad_step_def in_speech_def process_frame_def Let_def)

lemma time_left: "t + of_nat (Suc m) * frame_ms rate < d \<Longrightarrow> t + frame_ms rate < d"
  using mult_nonneg_nonneg [OF of_nat_0_le_iff [of m] frame_ms_pos [of rate]] by (simp add: distrib_right)

lemma loud_frames:
  "is_loud x \<Longrightarrow> t + of_nat m * frame_ms rate < d \<Longrightarrow>
     feed_frames rate (replicate m x) (in_speech t n 0 d s) = in_speech (t + of_nat m * frame_ms rate) (n + m) 0 d s"
proof (induction m arbitrary: t n)
  case (Suc m)
  show ?case
    using loud_frame [OF Suc.prems(1) time_left [OF Suc.prems(2)], of n 0 s] Suc.IH [of "t + frame_ms rate" "n + 1"] Suc.prems
    by (simp add: algebra_simps)
qed simp

lemma quiet_frames:
  "\<not> is_loud y \<Longrightarrow> t + of_nat m * frame_ms rate < d \<Longrightarrow> k + m \<le> hangover_frames rate \<Longrightarrow>
     \<exists>n'. feed_frames rate (replicate m y) (in_speech t n k d s) = in_speech (t + of_nat m * frame_ms rate) n' (k + m) d s"
proof (induction m arbitrary: t n k)
  case (Suc m)
  show ?case
    using quiet_frame [OF Suc.prems(1) time_left [OF Suc.prems(2)], of k n s] Suc.IH [of "t + frame_ms rate" "k + 1" 0] Suc.prems
    by (simp add: algebra_simps)
qed auto

text \<open>The detector is idle and the assistant speaks.\<close>

definition bot_turn :: "vad \<Rightarrow> bool" where
  "bot_turn s \<longleftrightarrow> va_bot s \<and> va_timer s = None \<and> (\<exists>k. va_node s = Some \<lparr>vd_loud = 0, vd_silent = k, vd_speaking = False\<rparr>)"

lemma onset:
  assumes "bot_turn s" "is_loud x"
  shows "feed_frames rate (replicate 4 x) s =
    (let t = va_now s + 4 * frame_ms rate in
     in_speech t 4 0 (t + interruption_threshold) (s\<lparr>va_log := (t, Speech_Started True) # va_log s\<rparr>))"
  using assms frame_ms_pos [of rate]
  by (auto simp: numeral_eq_Suc bot_turn_def feed_frames_def frame_events_def vad_step_def process_frame_def in_speech_def
      vad_handlers onset_frames_def algebra_simps)

text \<open>After \<open>n\<close> frames over the assistant: any speech under way was reported after the fourth of them, its timer
is pending, and nothing was interrupted.\<close>

definition reports :: "vad_out \<Rightarrow> (rat \<times> vad_out) list \<Rightarrow> nat" where
  "reports e es = length (filter (\<lambda>(_, e'). e' = e) es)"

lemma reports_simps [simp]: "reports e [] = 0" "reports e ((t, e') # es) = (if e' = e then 1 else 0) + reports e es"
  by (simp_all add: reports_def)

definition spoken :: "det \<Rightarrow> (rat \<times> vad_out) list \<Rightarrow> bool" where
  "spoken d es \<longleftrightarrow> reports Interrupted es = 0 \<and> reports (Speech_Started False) es = 0
     \<and> reports (Speech_Started True) es = reports Speech_Ended es + (if vd_speaking d then 1 else 0)"

definition turn_ok :: "nat \<Rightarrow> vad \<Rightarrow> nat \<Rightarrow> vad \<Rightarrow> bool" where
  "turn_ok rate s n u \<longleftrightarrow> va_now u = va_now s + of_nat n * frame_ms rate \<and> va_bot u \<and> va_gain u = va_gain s
     \<and> (\<exists>d es. va_node u = Some d \<and> va_log u = es @ va_log s \<and> spoken d es \<and> vd_loud d \<le> n
          \<and> (vd_speaking d \<longrightarrow> vd_silent d \<le> hangover_frames rate)
          \<and> (case va_timer u of Some w \<Rightarrow> vd_speaking d \<and> va_now s + 4 * frame_ms rate + interruption_threshold \<le> w
               | None \<Rightarrow> \<not> vd_speaking d))"

lemma turn_ok_start:
  assumes "bot_turn s"
  shows "turn_ok rate s 0 s"
proof -
  obtain d where "va_node s = Some d" "\<not> vd_speaking d" "vd_loud d = 0" using assms by (auto simp: bot_turn_def)
  then show ?thesis using assms unfolding turn_ok_def
    by (intro conjI exI [of _ d] exI [of _ "[]"]) (simp_all add: bot_turn_def spoken_def)
qed

text \<open>One frame before the timer is due.\<close>

lemma frame_before_timer:
  assumes "va_node u = Some d" "\<And>w. va_timer u = Some w \<Longrightarrow> va_now u + frame_ms rate < w"
  shows "run (vad_step rate) u (frame_events rate x) =
    (case process_frame rate (Some x) d of (d', ms) \<Rightarrow> fold on_vad_msg ms (u\<lparr>va_now := va_now u + frame_ms rate, va_node := Some d'\<rparr>))"
  using assms frame_ms_pos [of rate] by (cases "va_timer u") (auto simp: frame_events_def vad_step_def)

lemma turn_ok_frame:
  assumes ok: "turn_ok rate s n u" and due: "of_nat (Suc n) * frame_ms rate < interruption_threshold + 4 * frame_ms rate"
  shows "turn_ok rate s (Suc n) (run (vad_step rate) u (frame_events rate x))"
proof -
  let ?f = "frame_ms rate"
  define now where "now = va_now s + of_nat (Suc n) * ?f"
  obtain d es where u: "va_now u + ?f = now" "va_bot u" "va_gain u = va_gain s" "va_node u = Some d"
    "va_log u = es @ va_log s" "spoken d es" "vd_loud d \<le> n" "vd_speaking d \<longrightarrow> vd_silent d \<le> hangover_frames rate"
    and timer: "case va_timer u of Some w \<Rightarrow> vd_speaking d \<and> va_now s + 4 * ?f + interruption_threshold \<le> w | None \<Rightarrow> \<not> vd_speaking d"
    using ok by (auto simp: turn_ok_def now_def algebra_simps)
  have "va_now u + ?f < w" if "va_timer u = Some w" for w using timer that due u(1) by (simp add: now_def)
  from frame_before_timer [OF u(4) this, of x]
  have step: "run (vad_step rate) u (frame_events rate x) =
    (case process_frame rate (Some x) d of (d', ms) \<Rightarrow> fold on_vad_msg ms (u\<lparr>va_now := now, va_node := Some d'\<rparr>))"
    by (simp add: u(1))
  have late: "va_now s + 4 * ?f \<le> now" if "4 \<le> Suc n"
    using mult_right_mono [of 4 "of_nat (Suc n)" ?f] that frame_ms_pos [of rate] of_nat_mono [OF that] by (simp add: now_def)
  consider d' where "process_frame rate (Some x) d = (d', [])" "vd_speaking d' = vd_speaking d" "vd_loud d' \<le> Suc n"
      "vd_speaking d' \<longrightarrow> vd_silent d' \<le> hangover_frames rate"
    | d' where "process_frame rate (Some x) d = (d', [Speech_Start])" "\<not> vd_speaking d" "vd_speaking d'" "4 \<le> Suc n"
      "vd_silent d' = 0" "vd_loud d' \<le> Suc n"
    | d' where "process_frame rate (Some x) d = (d', [Speech_End])" "vd_speaking d" "\<not> vd_speaking d'" "vd_loud d' = 0"
  proof -
    obtain d' ms where p: "process_frame rate (Some x) d = (d', ms)" by fastforce
    then show thesis using u(7,8) that [of d']
      by (cases "is_loud x"; cases "vd_speaking d") (auto simp: process_frame_def Let_def onset_frames_def split: if_splits)
  qed
  then show ?thesis
  proof cases
    case (1 d')
    then show ?thesis using step u timer unfolding turn_ok_def now_def [symmetric]
      by (intro conjI exI [of _ d'] exI [of _ es]) (auto simp: spoken_def split: option.split option.split_asm)
  next
    case (2 d')
    then show ?thesis using step u timer late unfolding turn_ok_def now_def [symmetric]
      by (intro conjI exI [of _ d'] exI [of _ "(now, Speech_Started True) # es"]) (auto simp: spoken_def vad_handlers)
  next
    case (3 d')
    then show ?thesis using step u timer unfolding turn_ok_def now_def [symmetric]
      by (intro conjI exI [of _ d'] exI [of _ "(now, Speech_Ended) # es"])
        (auto simp: spoken_def vad_handlers split: option.splits)
  qed
qed

lemma turn_ok_frames:
  "turn_ok rate s n u \<Longrightarrow> of_nat (n + length zs) * frame_ms rate < interruption_threshold + 4 * frame_ms rate \<Longrightarrow>
     turn_ok rate s (n + length zs) (feed_frames rate zs u)"
proof (induction zs arbitrary: n u)
  case (Cons z zs)
  have "of_nat (Suc n) * frame_ms rate \<le> of_nat (n + length (z # zs)) * frame_ms rate"
    by (intro mult_right_mono frame_ms_pos) simp
  then have "turn_ok rate s (Suc n) (run (vad_step rate) u (frame_events rate z))"
    using turn_ok_frame [OF Cons.prems(1)] Cons.prems(2) by simp
  from Cons.IH [OF this] show ?case using Cons.prems(2) by simp
qed simp

text \<open>Quiet frames end the speech.\<close>

definition quieting :: "nat \<Rightarrow> vad \<Rightarrow> bool" where
  "quieting k u \<longleftrightarrow> (\<exists>d. va_node u = Some d \<and> (vd_speaking d \<longrightarrow> k \<le> vd_silent d) \<and> (0 < k \<longrightarrow> vd_loud d = 0))"

lemma fold_msg_node [simp]: "va_node (fold on_vad_msg ms u) = va_node u"
proof (induction ms arbitrary: u)
  case (Cons m ms)
  then show ?case by (cases m) (simp_all add: vad_handlers)
qed simp

lemma quieting_frame:
  assumes "quieting k u" "\<not> is_loud y"
  shows "quieting (Suc k) (run (vad_step rate) u (frame_events rate y))"
proof -
  obtain d where d: "va_node u = Some d" "vd_speaking d \<longrightarrow> k \<le> vd_silent d" using assms(1) by (auto simp: quieting_def)
  define v where "v = run (vad_step rate) u [Time_Passes (frame_ms rate), Timer_Fires]"
  have "va_node v = Some d" using d(1) by (simp add: v_def vad_step_def vad_handlers split: option.split)
  then have "va_node (run (vad_step rate) u (frame_events rate y)) = Some (fst (process_frame rate (Some y) d))"
    by (simp add: frame_events_def v_def) (simp add: vad_step_def split: prod.split)
  then show ?thesis using d(2) assms(2) by (simp add: quieting_def process_frame_def Let_def)
qed

lemma quieting_frames:
  "quieting k u \<Longrightarrow> list_all (\<lambda>y. \<not> is_loud y) ys \<Longrightarrow> quieting (k + length ys) (feed_frames rate ys u)"
proof (induction ys arbitrary: k u)
  case (Cons y ys)
  from Cons.IH [OF quieting_frame [OF Cons.prems(1), of y rate]] Cons.prems(2) show ?case by simp
qed simp

text \<open>C37. A backchannel leaves the assistant alone: whatever the microphone picks up while the assistant speaks, when it
falls silent for longer than the hangover of the detector and all of that is over before 320 milliseconds have passed since
the fourth frame, then the detector is idle again, every speech it reported it also reported as ended, nothing was
interrupted and the gain is as it was.\<close>

theorem short_speech_is_ignored:
  assumes "bot_turn s" "list_all (\<lambda>y. \<not> is_loud y) ys" "hangover_frames rate < length ys"
    and "of_nat (length (xs @ ys)) * frame_ms rate < interruption_threshold + 4 * frame_ms rate"
  shows "let s' = feed_frames rate (xs @ ys) s in
    bot_turn s' \<and> va_gain s' = va_gain s
    \<and> (\<exists>es. va_log s' = es @ va_log s \<and> reports Interrupted es = 0 \<and> reports (Speech_Started True) es = reports Speech_Ended es)"
proof -
  define u where "u = feed_frames rate xs s"
  define s' where "s' = feed_frames rate (xs @ ys) s"
  have ok: "turn_ok rate s (length (xs @ ys)) s'"
    using turn_ok_frames [OF turn_ok_start [OF assms(1)], of "xs @ ys" rate] assms(4) by (simp add: s'_def)
  have "of_nat (length xs) * frame_ms rate \<le> of_nat (length (xs @ ys)) * frame_ms rate"
    by (intro mult_right_mono frame_ms_pos) simp
  then have "turn_ok rate s (length xs) u"
    using turn_ok_frames [OF turn_ok_start [OF assms(1)], of xs rate] assms(4) by (simp add: u_def)
  then have "quieting 0 u" by (auto simp: turn_ok_def quieting_def)
  from quieting_frames [OF this assms(2), of rate] have "quieting (length ys) s'"
    by (simp add: s'_def u_def feed_frames_append)
  then obtain d where d: "va_node s' = Some d" "vd_speaking d \<longrightarrow> length ys \<le> vd_silent d" "vd_loud d = 0"
    using assms(3) by (auto simp: quieting_def)
  have "\<not> vd_speaking d" using ok d(1,2) assms(3) by (auto simp: turn_ok_def)
  then have "bot_turn s' \<and> va_gain s' = va_gain s
    \<and> (\<exists>es. va_log s' = es @ va_log s \<and> reports Interrupted es = 0 \<and> reports (Speech_Started True) es = reports Speech_Ended es)"
    using ok d(1,3) by (cases d) (auto simp: turn_ok_def bot_turn_def spoken_def split: option.splits)
  then show ?thesis by (simp add: s'_def Let_def)
qed

text \<open>At 48 kHz and with a hangover of 38 frames the bound leaves 84 frames for the sound, 224 milliseconds; here they are
seven syllables of eight loud frames with four quiet ones after each.\<close>

lemma hangover_48k: "hangover_frames 48000 = 38"
  by (simp add: hangover_frames_def js_round_def Let_def)

definition bot_turn_48k :: vad where
  "bot_turn_48k = run (vad_step 48000) vad_init [Stream_Changed True, Worklet_Loaded 0 True, Gain_Node True, Bot_Speaking True]"

definition syllables :: "rat list list" where
  "syllables = concat (replicate 7 (replicate 8 [1] @ replicate 4 [0]))"

theorem short_speech_is_ignored_witness:
  "let s' = feed_frames 48000 (syllables @ replicate 39 [0]) bot_turn_48k in
     va_gain s' = Some 1 \<and> bot_turn s' \<and> length syllables = 84"
proof -
  have "bot_turn bot_turn_48k" "va_gain bot_turn_48k = Some 1"
    by (simp_all add: bot_turn_def bot_turn_48k_def vad_init_def vad_step_def vad_cleanup_def Let_def det_init_def)
  moreover have "list_all (\<lambda>y. \<not> is_loud y) (replicate 39 [0])" by (simp add: is_loud_def list_all_iff)
  moreover have "length syllables = 84" by (simp add: syllables_def numeral_eq_Suc)
  ultimately show ?thesis
    using short_speech_is_ignored [of bot_turn_48k "replicate 39 [0]" 48000 syllables]
    by (simp add: hangover_48k frame_ms_def interruption_threshold_def Let_def)
qed

section \<open>What goes wrong\<close>

text \<open>A speech of 267 milliseconds, shorter than the 320 of the comment, interrupts: the end of a speech is reported only
after the hangover of the detector.\<close>

lemma due_frame:
  assumes "\<not> is_loud y" "d \<le> t + frame_ms rate" "k < hangover_frames rate"
  shows "va_log (run (vad_step rate) (in_speech t n k d s) (frame_events rate y)) = (t + frame_ms rate, Interrupted) # va_log s"
  using assms frame_ms_pos [of rate]
  by (simp add: frame_events_def vad_step_def in_speech_def process_frame_def vad_handlers)

lemma medium_speech_interrupts:
  assumes "bot_turn s" "is_loud x" "\<not> is_loud y"
  shows "hd (map snd (va_log (feed_frames 48000 (replicate 100 x @ replicate 24 y) s))) = Interrupted"
proof -
  have f: "frame_ms 48000 = 8 / 3" by (simp add: frame_ms_def)
  have split: "replicate 100 x @ replicate 24 y = replicate 4 x @ replicate 96 x @ replicate 23 y @ [y]"
    using replicate_add [of 4 96 x] replicate_add [of 23 1 y] by simp
  define t where "t = va_now s + 4 * (8 / 3)"
  define u where "u = s\<lparr>va_log := (t, Speech_Started True) # va_log s\<rparr>"
  have "feed_frames 48000 (replicate 4 x @ replicate 96 x) s = in_speech (t + 256) 100 0 (t + 320) u"
    using onset [OF assms(1,2), of 48000] loud_frames [OF assms(2), of t 96 48000 "t + 320" 4 u]
    by (simp add: feed_frames_append f Let_def t_def u_def interruption_threshold_def)
  moreover obtain n' where "feed_frames 48000 (replicate 23 y) (in_speech (t + 256) 100 0 (t + 320) u)
      = in_speech (t + 256 + 184 / 3) n' 23 (t + 320) u"
    using quiet_frames [OF assms(3), of "t + 256" 23 48000 "t + 320" 0 100 u] by (auto simp: f hangover_48k)
  ultimately show ?thesis
    using due_frame [OF assms(3), of "t + 320" "t + 256 + 184 / 3" 48000 23 n' u]
    by (simp only: split append_assoc [symmetric] feed_frames_append) (simp add: f hangover_48k)
qed

text \<open>Nor is the assistant muted within 20 milliseconds of detected speech, as the architecture documents ask: whatever is
said over it, nothing is muted or cancelled before 320 milliseconds after the fourth frame (328 after the first, at 48 kHz).\<close>

lemma speech_is_not_muted_at_once:
  assumes "bot_turn s" "of_nat (length zs) * frame_ms rate < interruption_threshold + 4 * frame_ms rate"
  shows "va_gain (feed_frames rate zs s) = va_gain s
    \<and> (\<exists>es. va_log (feed_frames rate zs s) = es @ va_log s \<and> reports Interrupted es = 0)"
  using turn_ok_frames [OF turn_ok_start [OF assms(1)], of zs rate] assms(2) by (auto simp: turn_ok_def spoken_def)

text \<open>A change of the microphone during an interruption leaves the assistant muted, however long the silence.\<close>

lemma quiet_keeps_gain:
  assumes "\<not> is_loud y" "va_timer s = None" "va_node s = Some d" "\<not> vd_speaking d"
  shows "va_gain (feed_frames rate (replicate m y) s) = va_gain s"
  using assms(2-)
proof (induction m arbitrary: s d)
  case (Suc m)
  then show ?case using assms(1) by (simp add: frame_events_def vad_step_def process_frame_def Let_def)
qed simp

lemma stream_change_keeps_mute:
  assumes "va_gain s = Some 0" "\<not> is_loud y"
  shows "va_gain (feed_frames rate (replicate m y) (run (vad_step rate) s [Stream_Changed True, Worklet_Loaded (va_starts s) True])) = Some 0"
  using assms by (subst quiet_keeps_gain [where d = det_init]) (simp_all add: vad_step_def vad_cleanup_def det_init_def)

end
