(* ===== verification/Voice_Codec.thy ===== *)
theory Voice_Codec
  imports Pcm_Audio
begin

text \<open>
  The audio encoding of the browser-to-Gemini session (\<open>frontend/src/hooks/useGeminiLiveSession.ts\<close>:
  \<open>float32ToBase64PCM\<close>, \<open>base64ToInt16\<close> and the conversion in \<open>playAudioChunk\<close>), with \<open>btoa\<close> and \<open>atob\<close> of the
  platform written out. Samples of the audio graph are exact rationals (a float times 32768 or 32767 is exact in
  double precision); bytes and 16-bit samples are the words of \<open>Pcm_Audio\<close>, an \<open>Int16Array\<close> being little endian.
\<close>

section \<open>Base64\<close>

definition b64_alphabet :: string where
  "b64_alphabet = ''ABCDEFGHIJKLMNOPQRSTUVWXYZabcdefghijklmnopqrstuvwxyz0123456789+/''"

definition b64_char :: "nat \<Rightarrow> char" where
  "b64_char n = b64_alphabet ! n"

definition b64_value :: "char \<Rightarrow> nat option" where
  "b64_value c = map_of (zip b64_alphabet [0..<64]) c"

fun b64_digits :: "nat list \<Rightarrow> nat list" where
  "b64_digits [] = []"
| "b64_digits [a] = [a div 4, a mod 4 * 16]"
| "b64_digits [a, b] = [a div 4, a mod 4 * 16 + b div 16, b mod 16 * 4]"
| "b64_digits (a # b # c # r) =
     a div 4 # (a mod 4 * 16 + b div 16) # (b mod 16 * 4 + c div 64) # c mod 64 # b64_digits r"

fun b64_bytes :: "nat list \<Rightarrow> nat list" where
  "b64_bytes (w # x # y # z # r) = (w * 4 + x div 16) # (x mod 16 * 16 + y div 4) # (y mod 4 * 64 + z) # b64_bytes r"
| "b64_bytes [w, x, y] = [w * 4 + x div 16, x mod 16 * 16 + y div 4]"
| "b64_bytes [w, x] = [w * 4 + x div 16]"
| "b64_bytes _ = []"

definition btoa :: "byte list \<Rightarrow> string" where
  "btoa bs = map b64_char (b64_digits (map unat bs)) @ replicate ((3 - length bs mod 3) mod 3) (CHR ''='')"

definition ascii_space :: "char \<Rightarrow> bool" where
  "ascii_space c \<longleftrightarrow> c \<in> {CHR 0x09, CHR 0x0A, CHR 0x0C, CHR 0x0D, CHR '' ''}"

text \<open>One or two closing \<open>=\<close> are dropped from a text whose length is a multiple of four.\<close>

definition drop_pad :: "string \<Rightarrow> string" where
  "drop_pad s =
     (if length s mod 4 \<noteq> 0 \<or> s = [] \<or> last s \<noteq> CHR ''='' then s
      else if butlast s \<noteq> [] \<and> last (butlast s) = CHR ''='' then butlast (butlast s) else butlast s)"

definition atob :: "string \<Rightarrow> byte list ext" where
  "atob s =
     (let t = drop_pad (filter (\<lambda>c. \<not> ascii_space c) s); vs = map b64_value t in
      if length t mod 4 = 1 \<or> None \<in> set vs then Throw ''InvalidCharacterError''
      else Ret (map of_nat (b64_bytes (map the vs))))"

section \<open>Samples\<close>

definition clamp_sample :: "rat \<Rightarrow> rat" where
  "clamp_sample x = max (- 1) (min 1 x)"

text \<open>Storing a number in an \<open>Int16Array\<close> truncates it and keeps its low 16 bits.\<close>

definition to_int16 :: "rat \<Rightarrow> sample" where
  "to_int16 q = word_of_int (if q < 0 then \<lceil>q\<rceil> else \<lfloor>q\<rfloor>)"

definition pcm_sample :: "rat \<Rightarrow> sample" where
  "pcm_sample x = (let s = clamp_sample x in to_int16 (if s < 0 then s * 32768 else s * 32767))"

definition float32_to_base64_pcm :: "rat list \<Rightarrow> string" where
  "float32_to_base64_pcm xs = btoa (int16_to_pcm16le (map pcm_sample xs))"

definition base64_to_int16 :: "string \<Rightarrow> sample list ext" where
  "base64_to_int16 s =
     (case atob s of
        Throw m \<Rightarrow> Throw m
      | Ret bs \<Rightarrow> if odd (length bs) then Throw ''RangeError'' else Ret (read_samples bs))"

definition channel_sample :: "sample \<Rightarrow> rat" where
  "channel_sample w = of_int (sint w) / 32768"

section \<open>What holds\<close>

lemma b64_value_char: "n < 64 \<Longrightarrow> b64_value (b64_char n) = Some n"
proof -
  have "list_all (\<lambda>n. b64_value (b64_char n) = Some n) [0..<64]" by code_simp
  then show "n < 64 \<Longrightarrow> b64_value (b64_char n) = Some n" by (simp add: list_all_iff)
qed

lemma b64_char_plain: "n < 64 \<Longrightarrow> \<not> ascii_space (b64_char n) \<and> b64_char n \<noteq> CHR ''=''"
proof -
  have "list_all (\<lambda>n. \<not> ascii_space (b64_char n) \<and> b64_char n \<noteq> CHR ''='') [0..<64]" by code_simp
  then show "n < 64 \<Longrightarrow> \<not> ascii_space (b64_char n) \<and> b64_char n \<noteq> CHR ''=''" by (simp add: list_all_iff)
qed

lemma join_div: "y < n \<Longrightarrow> (x * n + y) div n = (x::nat)"
  using div_mult_self3 [of n x y] by (cases "n = 0") simp_all

lemma join_mod: "y < n \<Longrightarrow> (x * n + y) mod n = (y::nat)"
  using mod_mult_self3 [of x n y] by simp

lemma byte_parts: "b < (256::nat) \<Longrightarrow> b div 16 < 16" "b < (256::nat) \<Longrightarrow> b div 64 < 4"
  by (simp_all add: less_mult_imp_div_less)

lemma digit_parts:
  "a < (256::nat) \<Longrightarrow> a div 4 < 64" "b < (256::nat) \<Longrightarrow> a mod 4 * 16 + b div 16 < 64"
  "c < (256::nat) \<Longrightarrow> b mod 16 * 4 + c div 64 < 64"
  using byte_parts(1) [of b] byte_parts(2) [of c] mod_less_divisor [of 4 a] mod_less_divisor [of 16 b]
  by (simp_all add: less_mult_imp_div_less)

lemma b64_digits_bound: "\<forall>b \<in> set bs. b < 256 \<Longrightarrow> \<forall>d \<in> set (b64_digits bs). d < 64"
proof (induction bs rule: b64_digits.induct)
  case (2 a)
  then show ?case using digit_parts(2) [of 0 a] by (simp add: digit_parts(1))
next
  case (3 a b)
  then show ?case using digit_parts(3) [of 0 b] by (simp add: digit_parts)
qed (simp_all add: digit_parts)

lemma b64_first: "b < (256::nat) \<Longrightarrow> a div 4 * 4 + (a mod 4 * 16 + b div 16) div 16 = a"
  using join_div [OF byte_parts(1), of b "a mod 4"] by simp

lemma b64_second: "c < (256::nat) \<Longrightarrow> b < 256 \<Longrightarrow> (a mod 4 * 16 + b div 16) mod 16 * 16 + (b mod 16 * 4 + c div 64) div 4 = b"
  using join_mod [OF byte_parts(1), of b "a mod 4"] join_div [OF byte_parts(2), of c "b mod 16"] by simp

lemma b64_third: "c < (256::nat) \<Longrightarrow> (b mod 16 * 4 + c div 64) mod 4 * 64 + c mod 64 = c"
  using join_mod [OF byte_parts(2), of c "b mod 16"] by simp

lemma b64_bytes_digits: "\<forall>b \<in> set bs. b < 256 \<Longrightarrow> b64_bytes (b64_digits bs) = bs"
proof (induction bs rule: b64_digits.induct)
  case (2 a)
  then show ?case using b64_first [of 0 a] by simp
next
  case (3 a b)
  then show ?case using b64_first [of b a] b64_second [of 0 b a] by simp
next
  case (4 a b c r)
  then show ?case using b64_first [of b a] b64_second [of c b a] b64_third [of c b] by simp
qed simp

lemma length_b64_digits: "length (b64_digits bs) mod 4 = (if length bs mod 3 = 0 then 0 else length bs mod 3 + 1)"
  by (induction bs rule: b64_digits.induct) (auto simp: mod_Suc)

lemma drop_pad_padded:
  assumes "\<forall>c \<in> set s. c \<noteq> CHR ''=''" "length s mod 4 = (if k = 0 then 0 else 4 - k)" "k \<le> 2"
  shows "drop_pad (s @ replicate k (CHR ''='')) = s"
proof -
  have l: "last s \<noteq> CHR ''=''" if "s \<noteq> []" using that assms(1) by simp
  consider "k = 0" | "k = 1" | "k = 2" using assms(3) by linarith
  then show ?thesis
  proof cases
    case 1
    then show ?thesis using l by (auto simp: drop_pad_def)
  next
    case 2
    then have "length s mod 4 = 3" "s \<noteq> []" using assms(2) by auto
    then show ?thesis using 2 l by (simp add: drop_pad_def mod_Suc)
  next
    case 3
    then have "length s mod 4 = 2" "replicate k (CHR ''='') = [CHR ''='', CHR ''='']" using assms(2) by (simp_all add: numeral_2_eq_2)
    then show ?thesis by (simp add: drop_pad_def mod_Suc butlast_append)
  qed
qed

theorem atob_btoa: "atob (btoa bs) = Ret bs"
proof -
  let ?ds = "b64_digits (map unat bs)" and ?k = "(3 - length bs mod 3) mod 3"
  have u: "\<forall>b \<in> set (map unat bs). b < 256" using unsigned_less [where 'a = nat and 'b = 8] by fastforce
  note d = b64_digits_bound [OF u]
  have "filter (\<lambda>c. \<not> ascii_space c) (btoa bs) = btoa bs"
    using d b64_char_plain by (intro filter_True) (auto simp: btoa_def ascii_space_def)
  moreover have "drop_pad (btoa bs) = map b64_char ?ds"
    unfolding btoa_def
  proof (rule drop_pad_padded)
    show "\<forall>c \<in> set (map b64_char ?ds). c \<noteq> CHR ''=''" using d b64_char_plain by auto
    consider "length bs mod 3 = 0" | "length bs mod 3 = 1" | "length bs mod 3 = 2" by linarith
    then show "length (map b64_char ?ds) mod 4 = (if ?k = 0 then 0 else 4 - ?k)" "?k \<le> 2"
      using length_b64_digits [of "map unat bs"] by (cases; simp)+
  qed
  moreover have "map b64_value (map b64_char ?ds) = map Some ?ds" using d b64_value_char by simp
  moreover have "length ?ds mod 4 \<noteq> 1" using length_b64_digits [of "map unat bs"] by auto
  moreover have "map (of_nat \<circ> unat) bs = bs" by (simp add: map_idI)
  moreover have "map (the \<circ> (b64_value \<circ> b64_char)) ?ds = ?ds" using d b64_value_char by (simp add: map_idI)
  moreover have "None \<notin> b64_value ` b64_char ` set ?ds" using d b64_value_char by force
  ultimately show ?thesis
    by (simp add: atob_def Let_def b64_bytes_digits [OF u])
qed

lemma pcm_sample_value: "\<bar>channel_sample (pcm_sample y) - clamp_sample y\<bar> \<le> 1 / 16384"
proof -
  define x where "x = clamp_sample y"
  have x: "- 1 \<le> x" "x \<le> 1" by (auto simp: x_def clamp_sample_def)
  define q where "q = (if x < 0 then x * 32768 else x * 32767)"
  define i where "i = (if q < 0 then \<lceil>q\<rceil> else \<lfloor>q\<rfloor>)"
  have q: "- 32768 \<le> q" "q \<le> 32767" using x by (auto simp: q_def)
  have "- 32768 \<le> i" "i \<le> 32767" using q by (auto simp: i_def floor_le_iff le_floor_iff ceiling_le_iff le_ceiling_iff)
  then have w: "sint (word_of_int i :: sample) = i" by (simp add: signed_of_int signed_take_bit_int_eq_self)
  have "pcm_sample y = word_of_int i" by (simp add: pcm_sample_def to_int16_def Let_def i_def q_def flip: x_def)
  then have v: "channel_sample (pcm_sample y) = of_int i / 32768"
    by (simp only: channel_sample_def w)
  have "\<bar>of_int i - q\<bar> \<le> 1" unfolding i_def by (simp add: abs_le_iff) linarith
  moreover have "\<bar>q - x * 32768\<bar> \<le> 1" using x by (auto simp: q_def)
  ultimately have "\<bar>of_int i - x * 32768\<bar> \<le> 2" by linarith
  then have "\<bar>(of_int i - x * 32768) / 32768\<bar> \<le> 2 / 32768" by simp
  then show ?thesis by (simp add: v diff_divide_distrib flip: x_def)
qed

text \<open>C35. What the microphone records is what the other side would play: the text a frame of the microphone is sent as
decodes to one sample per recorded sample, and each is the recorded one, clipped to the range from -1 to 1, up to two steps of
16 bits.\<close>

theorem voice_frame_survives:
  "base64_to_int16 (float32_to_base64_pcm xs) = Ret (map pcm_sample xs)
   \<and> list_all (\<lambda>x. \<bar>channel_sample (pcm_sample x) - clamp_sample x\<bar> \<le> 1 / 16384) xs"
proof (intro conjI)
  show "base64_to_int16 (float32_to_base64_pcm xs) = Ret (map pcm_sample xs)"
    by (simp add: base64_to_int16_def float32_to_base64_pcm_def atob_btoa length_written read_written)
  show "list_all (\<lambda>x. \<bar>channel_sample (pcm_sample x) - clamp_sample x\<bar> \<le> 1 / 16384) xs"
    unfolding list_all_iff by (intro ballI pcm_sample_value)
qed

end
