(* ===== verification/Gemini_Session.thy ===== *)
theory Gemini_Session
  imports Assistant_Policy Voice_Codec
begin

text \<open>
  \<open>frontend/src/hooks/useGeminiLiveSession.ts\<close>, the voice session of the browser with Gemini Live, which the
  source keeps as a dormant path beside the LiveKit session. The state is the hook's React state and refs and its
  suspended calls; a callback of the page, a callback of the SDK, a block of microphone audio and the settling of an
  awaited promise are one step each. Each call of \<open>connect\<close> has a number, which also names the audio context,
  the session, the microphone and the processor it opens. What the hook does to the platform is in \<open>gs_log\<close>,
  newest first. Time stamps shown to the user and the random part of task ids (here fresh numbers) are left out.
\<close>

section \<open>Idempotency keys\<close>

definition hex_digit :: "nat \<Rightarrow> char" where
  "hex_digit n = ''0123456789abcdef'' ! n"

text \<open>The escapes of \<open>JSON.stringify\<close>.\<close>

definition json_char :: "char \<Rightarrow> string" where
  "json_char c =
     (if c = CHR 0x22 \<or> c = CHR 0x5C then [CHR 0x5C, c]
      else if c = CHR 0x08 then [CHR 0x5C, CHR ''b'']
      else if c = CHR 0x09 then [CHR 0x5C, CHR ''t'']
      else if c = CHR 0x0A then [CHR 0x5C, CHR ''n'']
      else if c = CHR 0x0C then [CHR 0x5C, CHR ''f'']
      else if c = CHR 0x0D then [CHR 0x5C, CHR ''r'']
      else if of_char c < (32 :: nat) then CHR 0x5C # ''u00'' @ [hex_digit (of_char c div 16), hex_digit (of_char c mod 16)]
      else [c])"

definition json_quote :: "string \<Rightarrow> string" where
  "json_quote s = CHR 0x22 # concat (map json_char s) @ [CHR 0x22]"

text \<open>\<open>JSON.stringify(v, ks)\<close>: objects at every depth keep only the fields of the list \<open>ks\<close>, in its order.\<close>

primrec json_text :: "(rat \<Rightarrow> string) \<Rightarrow> string list \<Rightarrow> jsval \<Rightarrow> string option" where
  "json_text fr ks JUndef = None"
| "json_text fr ks JNull = Some ''null''"
| "json_text fr ks (JBool b) = Some (if b then ''true'' else ''false'')"
| "json_text fr ks (JNum n) = Some (int_string n)"
| "json_text fr ks (JFrac q) = Some (fr q)"
| "json_text fr ks JNaN = Some ''null''"
| "json_text fr ks (JInf neg) = Some ''null''"
| "json_text fr ks (JStr s) = Some (json_quote s)"
| "json_text fr ks (JArr vs) =
     Some (''['' @ js_join '','' (map (case_option ''null'' (\<lambda>t. t)) (map (json_text fr ks) vs)) @ '']'')"
| "json_text fr ks (JObj kvs) =
     (let ts = map (map_prod id (json_text fr ks)) kvs in
      Some (''{'' @ js_join '',''
        (concat (map (\<lambda>k. case map_of ts k of Some (Some t) \<Rightarrow> [json_quote k @ '':'' @ t] | _ \<Rightarrow> []) ks)) @ ''}''))"

text \<open>\<open>Object.keys\<close>.\<close>

fun object_keys :: "jsval \<Rightarrow> string list" where
  "object_keys (JObj kvs) = js_uniq (map fst kvs)"
| "object_keys (JArr vs) = map decimal [0..<length vs]"
| "object_keys (JStr s) = map decimal [0..<length s]"
| "object_keys _ = []"

definition logical_action :: "(rat \<Rightarrow> string) \<Rightarrow> string \<Rightarrow> jsval \<Rightarrow> jsval \<Rightarrow> string" where
  "logical_action fr tool args callId =
     tool @ '':'' @ (case json_text fr (sort (object_keys args)) args of Some t \<Rightarrow> t | None \<Rightarrow> ''undefined'')
       @ '':'' @ js_string fr callId"

section \<open>State\<close>

datatype gs_status = Gs_Disconnected | Gs_Connecting | Gs_Connected | Gs_Error

datatype gs_effect =
    Gs_Fetch_Token
  | Gs_Open_Context nat
  | Gs_Close_Context nat
  | Gs_Open_Session nat
  | Gs_Close_Session nat
  | Gs_Open_Microphone nat
  | Gs_Stop_Microphone nat
  | Gs_Enable_Track nat bool
  | Gs_Send_Audio nat string
  | Gs_Post_Tool string jsval jsval "string option"   \<comment> \<open>tool, arguments, call id, idempotency key\<close>
  | Gs_Tool_Response nat jsval jsval jsval            \<comment> \<open>session, call id, tool, result\<close>
  | Gs_Play "rat list" rat
  | Gs_Booking_Created

record gs_task =
  gk_id :: nat
  gk_title :: string
  gk_tool :: jsval
  gk_status :: string
  gk_output :: jsval
  gk_error :: jsval
  gk_ms :: jsval

record gs_exec =
  gx_task :: nat
  gx_call :: jsval
  gx_tool :: jsval
  gx_args :: jsval
  gx_key :: "string option"
  gx_denied :: bool
  gx_start :: int

datatype gs_wait =
    Await_Gemini_Token nat bool    \<comment> \<open>a connect, and \<open>isMuted\<close> of the render it was created in\<close>
  | Await_Context nat bool
  | Await_Live nat bool
  | Await_Microphone nat bool
  | Await_Tool gs_exec

record gs =
  gs_status :: gs_status
  gs_muted :: bool
  gs_handsFree :: bool
  gs_bot :: bool
  gs_user :: bool
  gs_messages :: "(string \<times> jsval) list"
  gs_tasks :: "gs_task list"
  gs_session :: "nat option"
  gs_ctx :: "nat option"
  gs_mic :: "nat option"
  gs_proc :: "nat option"
  gs_procs :: "(nat \<times> bool) list" \<comment> \<open>the connected processors\<close>
  gs_keys :: "(string, string) jsmap"
  gs_drawn :: nat
  gs_scope :: "scope_decision option"
  gs_next :: rat
  gs_connects :: nat
  gs_taskIds :: nat
  gs_waits :: "gs_wait list"
  gs_log :: "gs_effect list"

definition gs_init :: gs where
  "gs_init = \<lparr>gs_status = Gs_Disconnected, gs_muted = False, gs_handsFree = True, gs_bot = False, gs_user = False,
     gs_messages = [], gs_tasks = [], gs_session = None, gs_ctx = None, gs_mic = None, gs_proc = None, gs_procs = [],
     gs_keys = [], gs_drawn = 0, gs_scope = None, gs_next = 0, gs_connects = 0, gs_taskIds = 0, gs_waits = [], gs_log = []\<rparr>"

text \<open>The policy document, the text of fractions, and \<open>crypto.randomUUID\<close> as a sequence.\<close>

record 'r gemini_env =
  ge_policy :: "'r policy_doc"
  ge_frac :: "rat \<Rightarrow> string"
  ge_uuid :: "nat \<Rightarrow> string"

definition gs_emit :: "gs_effect \<Rightarrow> gs \<Rightarrow> gs" where
  "gs_emit e s = s\<lparr>gs_log := e # gs_log s\<rparr>"

definition gs_wait_for :: "gs_wait \<Rightarrow> gs \<Rightarrow> gs" where
  "gs_wait_for k s = s\<lparr>gs_waits := k # gs_waits s\<rparr>"

definition gs_resume :: "gs_wait \<Rightarrow> (gs \<Rightarrow> gs) \<Rightarrow> gs \<Rightarrow> gs" where
  "gs_resume k f s = (if k \<in> set (gs_waits s) then f (s\<lparr>gs_waits := remove1 k (gs_waits s)\<rparr>) else s)"

section \<open>Tool calls\<close>

definition keyed_tools :: "string list" where
  "keyed_tools = [''book_event'', ''cancel_event'']"

definition stable_key :: "'r gemini_env \<Rightarrow> jsval \<Rightarrow> jsval \<Rightarrow> jsval \<Rightarrow> gs \<Rightarrow> string option \<times> gs" where
  "stable_key env tool args callId s =
     (case tool of
        JStr t \<Rightarrow>
          if t \<notin> set keyed_tools then (None, s)
          else let a = logical_action (ge_frac env) t args callId in
            (case jm_get (gs_keys s) a of
               Some (c # cs) \<Rightarrow> (Some (c # cs), s)
             | _ \<Rightarrow> let key = ge_uuid env (gs_drawn s) in
                 (Some key, s\<lparr>gs_drawn := gs_drawn s + 1, gs_keys := jm_set a key (gs_keys s)\<rparr>))
      | _ \<Rightarrow> (None, s))"

definition tool_allowed :: "jsval \<Rightarrow> bool" where
  "tool_allowed v = (case v of JStr t \<Rightarrow> is_allowed_calendar_tool t | _ \<Rightarrow> False)"

definition add_gs_task :: "(rat \<Rightarrow> string) \<Rightarrow> jsval \<Rightarrow> gs \<Rightarrow> gs" where
  "add_gs_task fr fc s =
     (let args = get fc ''args'';
          p = js_or (get args ''title'') (js_or (get args ''start_date'') (js_or (get args ''start_time'') (JStr ''Executing'')))
      in s\<lparr>gs_tasks := \<lparr>gk_id = gs_taskIds s, gk_title = js_string fr (get fc ''name'') @ '': '' @ js_string fr p,
              gk_tool = get fc ''name'', gk_status = ''running'', gk_output = JUndef, gk_error = JUndef, gk_ms = JUndef\<rparr> # gs_tasks s,
            gs_taskIds := gs_taskIds s + 1\<rparr>)"

definition start_tool :: "gs_exec \<Rightarrow> gs \<Rightarrow> gs" where
  "start_tool x s =
     (case gx_tool x of
        JStr t \<Rightarrow> if gx_denied x then s else gs_emit (Gs_Post_Tool t (gx_args x) (gx_call x) (gx_key x)) s
      | _ \<Rightarrow> s)"

definition handle_call :: "'r gemini_env \<Rightarrow> int \<Rightarrow> jsval \<Rightarrow> gs \<Rightarrow> gs" where
  "handle_call env now fc s =
     (let tool = get fc ''name''; args = js_or (get fc ''args'') (JObj []);
          callId = js_or (get fc ''id'') (JStr (''call_'' @ int_string now)); denied = \<not> tool_allowed tool in
      if \<not> truthy tool then s
      else let s1 = (if denied then s else s\<lparr>gs_scope := Some (decision Allow Calendar_intent True)\<rparr>) in
        (case stable_key env tool args callId s1 of
           (key, s2) \<Rightarrow>
             let x = \<lparr>gx_task = gs_taskIds s2, gx_call = callId, gx_tool = tool, gx_args = args, gx_key = key,
                   gx_denied = denied, gx_start = now\<rparr>
             in gs_wait_for (Await_Tool x) (start_tool x (add_gs_task (ge_frac env) fc s2))))"

text \<open>A call that is \<open>null\<close> throws out of the loop.\<close>

fun handle_calls :: "'r gemini_env \<Rightarrow> int \<Rightarrow> jsval list \<Rightarrow> gs \<Rightarrow> gs" where
  "handle_calls env now [] s = s"
| "handle_calls env now (fc # fcs) s = (if nullish fc then s else handle_calls env now fcs (handle_call env now fc s))"

definition tool_result :: "gs_exec \<Rightarrow> jsval ext \<Rightarrow> jsval \<times> bool" where
  "tool_result x res =
     (case gx_tool x of
        JStr t \<Rightarrow>
          if gx_denied x then (tool_error ''POLICY_TOOL_DENIED'' ''That tool is not available.'', False)
          else (case execute_backend_tool (\<lambda>_. res) t (gx_args x) (gx_key x) of (r, _, created) \<Rightarrow> (r, created))
      | _ \<Rightarrow> (tool_error ''POLICY_TOOL_DENIED'' ''That tool is not available.'', False))"

definition finish_task :: "(rat \<Rightarrow> string) \<Rightarrow> jsval \<Rightarrow> int \<Rightarrow> gs_task \<Rightarrow> gs_task" where
  "finish_task fr r ms k =
     (let st = get r ''status''; conflict = (st = JStr ''conflict'') in
      k\<lparr>gk_status := (if st = JStr ''success'' then ''completed''
           else if conflict \<or> st = JStr ''confirmation_required'' then ''pending'' else ''failed''),
         gk_output := js_or (get r ''data'') r,
         gk_error := js_or (get r ''error_message'')
           (if conflict then JStr (''Slot Conflict: '' @ js_string fr (get r ''error'')) else JNull),
         gk_ms := js_or (get r ''execution_time_ms'') (JNum ms)\<rparr>)"

text \<open>A result that is \<open>null\<close> throws before the task is finished and answered.\<close>

definition tool_settled :: "'r gemini_env \<Rightarrow> int \<Rightarrow> gs_exec \<Rightarrow> jsval ext \<Rightarrow> gs \<Rightarrow> gs" where
  "tool_settled env now x res s =
     (case tool_result x res of
        (r, created) \<Rightarrow>
          let s = (if created then gs_emit Gs_Booking_Created s else s) in
          if nullish r then s
          else let s = s\<lparr>gs_tasks := map (\<lambda>k. if gk_id k = gx_task x then finish_task (ge_frac env) r (now - gx_start x) k else k)
                  (gs_tasks s)\<rparr> in
            (case gs_session s of
               Some n \<Rightarrow> gs_emit (Gs_Tool_Response n (gx_call x) (gx_tool x) r) s | None \<Rightarrow> s))"

section \<open>Messages of the model\<close>

text \<open>\<open>playAudioChunk\<close>; the flag is false where it throws.\<close>

definition play_audio_chunk :: "(rat \<Rightarrow> string) \<Rightarrow> rat \<Rightarrow> jsval \<Rightarrow> gs \<Rightarrow> gs \<times> bool" where
  "play_audio_chunk fr t data s =
     (if gs_ctx s = None then (s, True)
      else case base64_to_int16 (js_string fr data) of
          Throw _ \<Rightarrow> (s, False)
        | Ret ws \<Rightarrow>
            if ws = [] then (s, False)
            else let start = max t (gs_next s) in
              (gs_emit (Gs_Play (map channel_sample ws) start)
                 (s\<lparr>gs_next := start + of_nat (length ws) / 24000, gs_bot := True\<rparr>), True))"

fun play_parts :: "(rat \<Rightarrow> string) \<Rightarrow> rat \<Rightarrow> jsval list \<Rightarrow> gs \<Rightarrow> gs \<times> bool" where
  "play_parts fr t [] s = (s, True)"
| "play_parts fr t (p # ps) s =
     (if nullish p then (s, False)
      else let data = get (get p ''inlineData'') ''data'' in
        if \<not> truthy data then play_parts fr t ps s
        else (case play_audio_chunk fr t data s of
            (s', False) \<Rightarrow> (s', False) | (s', True) \<Rightarrow> play_parts fr t ps s'))"

definition user_transcript :: "'r gemini_env \<Rightarrow> jsval \<Rightarrow> gs \<Rightarrow> gs \<times> bool" where
  "user_transcript env text s =
     (case text of
        JStr t \<Rightarrow>
          let d = classify_turn (ge_policy env) t (case gs_scope s of Some d \<Rightarrow> sd_context d | None \<Rightarrow> False) in
          (s\<lparr>gs_scope := Some d, gs_messages := gs_messages s @ [(''user'', text)], gs_user := False\<rparr>, True)
      | _ \<Rightarrow> (s, False))"

definition server_content :: "'r gemini_env \<Rightarrow> rat \<Rightarrow> jsval \<Rightarrow> gs \<Rightarrow> gs" where
  "server_content env t c s =
     (let inp = get (get c ''inputTranscription'') ''text''; out = get (get c ''outputTranscription'') ''text'' in
      case (if truthy inp then user_transcript env inp s else (s, True)) of
        (s, False) \<Rightarrow> s
      | (s, True) \<Rightarrow>
          let s = (if truthy out then s\<lparr>gs_messages := gs_messages s @ [(''assistant'', out)]\<rparr> else s) in
          (case js_or (get (get c ''modelTurn'') ''parts'') (JArr []) of
             JArr ps \<Rightarrow> (case play_parts (ge_frac env) t ps s of
                 (s, ok) \<Rightarrow> if ok \<and> truthy (get c ''turnComplete'') then s\<lparr>gs_bot := False\<rparr> else s)
           | JStr _ \<Rightarrow> if truthy (get c ''turnComplete'') then s\<lparr>gs_bot := False\<rparr> else s
           | _ \<Rightarrow> s))"

definition on_gemini_message :: "'r gemini_env \<Rightarrow> int \<Rightarrow> rat \<Rightarrow> jsval \<Rightarrow> gs \<Rightarrow> gs" where
  "on_gemini_message env now t msg s =
     (let calls = get (get msg ''toolCall'') ''functionCalls'' in
      if truthy calls then (case calls of JArr fcs \<Rightarrow> handle_calls env now fcs s | _ \<Rightarrow> s)
      else if truthy (get (get msg ''toolCallCancellation'') ''ids'') then s
      else if \<not> truthy (get msg ''serverContent'') then s
      else server_content env t (get msg ''serverContent'') s)"

section \<open>Connecting\<close>

definition gs_connect :: "gs \<Rightarrow> gs" where
  "gs_connect s = gs_emit Gs_Fetch_Token (gs_wait_for (Await_Gemini_Token (gs_connects s) (gs_muted s))
     (s\<lparr>gs_status := Gs_Connecting, gs_connects := gs_connects s + 1\<rparr>))"

definition gs_failed :: "gs \<Rightarrow> gs" where
  "gs_failed s = s\<lparr>gs_status := Gs_Error\<rparr>"

definition gemini_token_settled :: "nat \<Rightarrow> bool \<Rightarrow> reply ext \<Rightarrow> gs \<Rightarrow> gs" where
  "gemini_token_settled n m res s =
     (case res of
        Throw _ \<Rightarrow> gs_failed s
      | Ret r \<Rightarrow>
          if \<not> reply_ok r then gs_failed s
          else (case rp_json r of
              Throw _ \<Rightarrow> gs_failed s
            | Ret v \<Rightarrow> if nullish v then gs_failed s
                else gs_emit (Gs_Open_Context n) (gs_wait_for (Await_Context n m) (s\<lparr>gs_ctx := Some n\<rparr>))))"

definition context_settled :: "nat \<Rightarrow> bool \<Rightarrow> bool \<Rightarrow> gs \<Rightarrow> gs" where
  "context_settled n m ok s = (if ok then gs_wait_for (Await_Live n m) s else gs_failed s)"

definition live_settled :: "nat \<Rightarrow> bool \<Rightarrow> bool \<Rightarrow> gs \<Rightarrow> gs" where
  "live_settled n m ok s =
     (if ok then gs_emit (Gs_Open_Session n) (gs_wait_for (Await_Microphone n m) (s\<lparr>gs_session := Some n\<rparr>)) else gs_failed s)"

text \<open>The microphone is refused, granted, or granted while the nodes cannot be made.\<close>

datatype mic_answer = Mic_Refused | Mic_Granted bool

definition gemini_mic_settled :: "nat \<Rightarrow> bool \<Rightarrow> mic_answer \<Rightarrow> gs \<Rightarrow> gs" where
  "gemini_mic_settled n m ans s =
     (case ans of
        Mic_Refused \<Rightarrow> gs_failed s
      | Mic_Granted nodes \<Rightarrow>
          let s = gs_emit (Gs_Open_Microphone n) (s\<lparr>gs_mic := Some n\<rparr>) in
          if nodes then s\<lparr>gs_proc := Some n, gs_procs := (n, m) # gs_procs s, gs_status := Gs_Connected\<rparr> else gs_failed s)"

definition audio_process :: "nat \<Rightarrow> rat list \<Rightarrow> gs \<Rightarrow> gs" where
  "audio_process n xs s =
     (case map_of (gs_procs s) n of
        Some False \<Rightarrow>
          (case gs_session s of Some k \<Rightarrow> gs_emit (Gs_Send_Audio k (float32_to_base64_pcm xs)) s | None \<Rightarrow> s)
      | _ \<Rightarrow> s)"

definition close_ref :: "(nat \<Rightarrow> gs_effect) \<Rightarrow> nat option \<Rightarrow> gs \<Rightarrow> gs" where
  "close_ref e r s = (case r of Some n \<Rightarrow> gs_emit (e n) s | None \<Rightarrow> s)"

definition gs_disconnect :: "gs \<Rightarrow> gs" where
  "gs_disconnect s =
     (close_ref Gs_Close_Context (gs_ctx s) (close_ref Gs_Close_Session (gs_session s) (close_ref Gs_Stop_Microphone (gs_mic s) s)))
       \<lparr>gs_procs := filter (\<lambda>(n, m). gs_proc s \<noteq> Some n) (gs_procs s), gs_proc := None, gs_mic := None, gs_session := None,
        gs_ctx := None, gs_bot := False, gs_user := False, gs_status := Gs_Disconnected\<rparr>"

definition gs_toggle_mute :: "gs \<Rightarrow> gs" where
  "gs_toggle_mute s =
     (case gs_mic s of Some n \<Rightarrow> gs_emit (Gs_Enable_Track n (gs_muted s)) s | None \<Rightarrow> s)\<lparr>gs_muted := \<not> gs_muted s\<rparr>"

section \<open>Steps\<close>

datatype gs_event =
    Connect_Called
  | Disconnect_Called              \<comment> \<open>also the clean-up on unmounting\<close>
  | Mute_Toggled
  | Hands_Free_Toggled
  | Interruption_Heard
  | Speech_Heard bool
  | Gemini_Open
  | Gemini_Error
  | Gemini_Close
  | Gemini_Message int rat jsval   \<comment> \<open>at a time, and at a time of the audio context\<close>
  | Chunk_Ended rat
  | Audio_Block nat "rat list"
  | Gemini_Token_Settled nat bool "reply ext"
  | Context_Settled nat bool bool
  | Live_Settled nat bool bool
  | Microphone_Settled nat bool mic_answer
  | Tool_Settled int gs_exec "jsval ext"

definition gs_step :: "'r gemini_env \<Rightarrow> gs \<Rightarrow> gs_event \<Rightarrow> gs" where
  "gs_step env s e =
     (case e of
        Connect_Called \<Rightarrow> gs_connect s
      | Disconnect_Called \<Rightarrow> gs_disconnect s
      | Mute_Toggled \<Rightarrow> gs_toggle_mute s
      | Hands_Free_Toggled \<Rightarrow> s\<lparr>gs_handsFree := \<not> gs_handsFree s\<rparr>
      | Interruption_Heard \<Rightarrow> s\<lparr>gs_bot := False\<rparr>
      | Speech_Heard b \<Rightarrow> s\<lparr>gs_user := b\<rparr>
      | Gemini_Open \<Rightarrow> s\<lparr>gs_status := Gs_Connected\<rparr>
      | Gemini_Error \<Rightarrow> s\<lparr>gs_status := Gs_Error\<rparr>
      | Gemini_Close \<Rightarrow> s\<lparr>gs_status := Gs_Disconnected\<rparr>
      | Gemini_Message now t msg \<Rightarrow> on_gemini_message env now t msg s
      | Chunk_Ended t \<Rightarrow> if gs_next s - 5 / 100 \<le> t then s\<lparr>gs_bot := False\<rparr> else s
      | Audio_Block n xs \<Rightarrow> audio_process n xs s
      | Gemini_Token_Settled n m res \<Rightarrow> gs_resume (Await_Gemini_Token n m) (gemini_token_settled n m res) s
      | Context_Settled n m ok \<Rightarrow> gs_resume (Await_Context n m) (context_settled n m ok) s
      | Live_Settled n m ok \<Rightarrow> gs_resume (Await_Live n m) (live_settled n m ok) s
      | Microphone_Settled n m ans \<Rightarrow> gs_resume (Await_Microphone n m) (gemini_mic_settled n m ans) s
      | Tool_Settled now x res \<Rightarrow> gs_resume (Await_Tool x) (tool_settled env now x res) s)"

end
