(* ===== verification/Logical_Action.thy ===== *)
theory Logical_Action
  imports Gemini_Session
begin

text \<open>
  Reading back the text under which \<open>useGeminiLiveSession.ts\<close> files the key of a tool call: what
  \<open>JSON.stringify\<close> writes for the arguments the declared tools take (\<open>lib/tools.ts\<close>: strings, integers,
  booleans and lists of them) can be read in one way only, so that two calls with the same text are the
  same call.
\<close>

section \<open>Texts that can be read in one way\<close>

definition delims :: "string" where
  "delims = '',:]}''"

definition delimited :: "string \<Rightarrow> bool" where
  "delimited x \<longleftrightarrow> (case x of [] \<Rightarrow> False | c # _ \<Rightarrow> c \<in> set delims)"

lemma delimited_simps [simp]: "\<not> delimited []" "delimited (c # x) \<longleftrightarrow> c \<in> set delims"
  by (simp_all add: delimited_def)

definition readable :: "('a \<Rightarrow> string) \<Rightarrow> 'a set \<Rightarrow> bool" where
  "readable f A \<longleftrightarrow>
     (\<forall>a\<in>A. f a \<noteq> [] \<and> hd (f a) \<notin> set delims
        \<and> (\<forall>b\<in>A. \<forall>x y. delimited x \<longrightarrow> delimited y \<longrightarrow> f a @ x = f b @ y \<longrightarrow> a = b \<and> x = y))"

lemma readableD:
  "readable f A \<Longrightarrow> a \<in> A \<Longrightarrow> b \<in> A \<Longrightarrow> delimited x \<Longrightarrow> delimited y \<Longrightarrow> f a @ x = f b @ y \<Longrightarrow> a = b \<and> x = y"
  by (simp add: readable_def)

lemma readable_head: "readable f A \<Longrightarrow> a \<in> A \<Longrightarrow> f a @ x = c # y \<Longrightarrow> c \<notin> set delims"
  by (cases "f a") (auto simp: readable_def)

text \<open>A list in its brackets: the elements with commas between them, up to the closing bracket.\<close>

lemma join_Cons: "js_join [c] (x # xs) = x @ (if xs = [] then [] else c # js_join [c] xs)"
  by (cases xs) simp_all

lemma join_readable:
  assumes "readable f A" "e = CHR '']'' \<or> e = CHR ''}''"
  shows "set as \<subseteq> A \<Longrightarrow> set bs \<subseteq> A \<Longrightarrow> js_join '','' (map f as) @ e # x = js_join '','' (map f bs) @ e # y \<Longrightarrow> as = bs \<and> x = y"
proof (induction as arbitrary: bs)
  case Nil
  have e: "e \<in> set delims" using assms(2) by (auto simp: delims_def)
  show ?case
  proof (cases bs)
    case (Cons b bs')
    then have "f b @ (if bs' = [] then [] else CHR '','' # js_join '','' (map f bs')) @ e # y = e # x"
      using Nil.prems(3) by (simp add: join_Cons)
    then show ?thesis using readable_head [OF assms(1)] Nil.prems(2) Cons e by (metis list.set_intros(1) subsetD)
  qed (use Nil in simp)
next
  case (Cons a as)
  have e: "e \<in> set delims" "CHR '','' \<in> set delims" "e \<noteq> CHR '',''" using assms(2) by (auto simp: delims_def)
  let ?rest = "\<lambda>zs z. (if zs = [] then [] else CHR '','' # js_join '','' (map f zs)) @ e # z"
  have eq: "f a @ ?rest as x = js_join '','' (map f bs) @ e # y" using Cons.prems(3) by (simp add: join_Cons)
  show ?case
  proof (cases bs)
    case Nil
    then show ?thesis using eq readable_head [OF assms(1)] Cons.prems(1) e(1) by (metis append_Nil js_join.simps(1) list.set_intros(1) list.simps(8) subsetD)
  next
    case bs: (Cons b bs')
    then have "f a @ ?rest as x = f b @ ?rest bs' y" using eq by (simp add: join_Cons)
    then have ab: "a = b" "?rest as x = ?rest bs' y"
      using readableD [OF assms(1), of a b "?rest as x" "?rest bs' y"] Cons.prems(1,2) bs e(1,2) by auto
    then have "js_join '','' (map f as) @ e # x = js_join '','' (map f bs') @ e # y"
      using e(3) by (auto split: if_splits)
    then show ?thesis using Cons.IH [of bs'] Cons.prems(1,2) bs ab(1) by simp
  qed
qed

section \<open>Strings\<close>

fun read_char :: "string \<Rightarrow> char \<times> string" where
  "read_char (c # r) =
     (if c \<noteq> CHR 0x5C then (c, r)
      else case r of
        d # r' \<Rightarrow>
          if d = CHR ''b'' then (CHR 0x08, r') else if d = CHR ''t'' then (CHR 0x09, r')
          else if d = CHR ''n'' then (CHR 0x0A, r') else if d = CHR ''f'' then (CHR 0x0C, r')
          else if d = CHR ''r'' then (CHR 0x0D, r')
          else if d = CHR ''u'' then
            (char_of (16 * (if nth r' 2 = CHR ''1'' then 1 else 0 :: nat)
               + length (takeWhile (\<lambda>h. h \<noteq> nth r' 3) ''0123456789abcdef'')), drop 4 r')
          else (d, r')
      | [] \<Rightarrow> (c, r))"
| "read_char [] = (CHR 0x00, [])"

lemma hex_digit_read:
  assumes "d < 16"
  shows "length (takeWhile (\<lambda>h. h \<noteq> hex_digit d) ''0123456789abcdef'') = d"
    and "d < 2 \<Longrightarrow> (if hex_digit d = CHR ''1'' then 1 else 0) = d"
proof -
  let ?hs = "''0123456789abcdef''"
  have d: "distinct ?hs" "length ?hs = 16" by simp_all
  have "takeWhile (\<lambda>h. h \<noteq> ?hs ! d) ?hs = take d ?hs"
  proof (rule takeWhile_eq_take_P_nth)
    fix i
    assume "i < d" "i < length ?hs"
    then show "?hs ! i \<noteq> ?hs ! d" using nth_eq_iff_index_eq [OF d(1), of i d] assms unfolding d(2) by blast
  qed blast
  then show "length (takeWhile (\<lambda>h. h \<noteq> hex_digit d) ?hs) = d"
    using d(2) assms by (simp only: hex_digit_def length_take)
  assume "d < 2"
  then have "d = 0 \<or> d = 1" by arith
  then show "(if hex_digit d = CHR ''1'' then 1 else 0) = d" by (auto simp: hex_digit_def)
qed

lemma read_json_char: "read_char (json_char c @ r) = (c, r)"
proof (cases "c \<in> set [CHR 0x22, CHR 0x5C, CHR 0x08, CHR 0x09, CHR 0x0A, CHR 0x0C, CHR 0x0D] \<or> \<not> of_char c < (32 :: nat)")
  case True
  show ?thesis
  proof (cases "of_char c < (32 :: nat)")
    case low: True
    then have "c = CHR 0x22 \<or> c = CHR 0x5C \<or> c = CHR 0x08 \<or> c = CHR 0x09 \<or> c = CHR 0x0A \<or> c = CHR 0x0C \<or> c = CHR 0x0D"
      using True by simp
    then show ?thesis by (elim disjE) (simp_all add: json_char_def)
  next
    case False
    then have "json_char c = (if c = CHR 0x22 \<or> c = CHR 0x5C then [CHR 0x5C, c] else [c])"
      by (cases "c \<in> set [CHR 0x08, CHR 0x09, CHR 0x0A, CHR 0x0C, CHR 0x0D]") (auto simp: json_char_def)
    then show ?thesis by (simp split: if_splits)
  qed
next
  case False
  define n :: nat where "n = of_char c"
  have n: "n < 32" "c = char_of n" using False by (simp_all add: n_def)
  have "json_char c = CHR 0x5C # ''u00'' @ [hex_digit (n div 16), hex_digit (n mod 16)]"
    using False by (simp add: json_char_def n_def)
  then have "json_char c @ r = CHR 0x5C # CHR ''u'' # CHR ''0'' # CHR ''0'' # hex_digit (n div 16) # hex_digit (n mod 16) # r"
    by simp
  then have "read_char (json_char c @ r) = (char_of (16 * (if hex_digit (n div 16) = CHR ''1'' then 1 else 0)
      + length (takeWhile (\<lambda>h. h \<noteq> hex_digit (n mod 16)) ''0123456789abcdef'')), r)"
    by (simp del: takeWhile.simps)
  also have "\<dots> = (char_of (16 * (n div 16) + n mod 16), r)"
    by (subst hex_digit_read(1), simp, subst hex_digit_read(2)) (use n(1) in simp_all)
  finally show ?thesis using n(2) by simp
qed

lemma json_char_inj: "json_char c @ x = json_char d @ y \<Longrightarrow> c = d \<and> x = y"
  by (metis Pair_inject read_json_char)

lemma json_char_head: "json_char c @ x \<noteq> CHR 0x22 # y"
  by (auto simp: json_char_def)

lemma json_quote_inj: "json_quote s @ x = json_quote t @ y \<Longrightarrow> s = t \<and> x = y"
proof (induction s arbitrary: t)
  case Nil
  then show ?case using json_char_head by (cases t) (auto simp: json_quote_def dest: sym)
next
  case (Cons c s)
  then show ?case
  proof (cases t)
    case Nil
    then show ?thesis using Cons.prems json_char_head by (auto simp: json_quote_def)
  next
    case t: (Cons d t')
    then have "json_char c @ concat (map json_char s) @ CHR 0x22 # x = json_char d @ concat (map json_char t') @ CHR 0x22 # y"
      using Cons.prems by (simp add: json_quote_def)
    from json_char_inj [OF this] show ?thesis using Cons.IH [of t'] t by (simp add: json_quote_def)
  qed
qed

section \<open>Integers\<close>

definition numeral_char :: "char \<Rightarrow> bool" where
  "numeral_char c \<longleftrightarrow> c \<in> set ''-0123456789''"

lemma digit_char: "(n :: nat) < 10 \<Longrightarrow> char_of (48 + n) \<in> set ''0123456789''"
proof -
  assume *: "n < 10"
  have "\<forall>n\<in>set [48..<58 :: nat]. char_of n \<in> set ''0123456789''" by code_simp
  moreover have "48 + n \<in> set [48..<58]" unfolding set_upt using * by simp
  ultimately show ?thesis by blast
qed

lemma decimal_digits: "set (decimal n) \<subseteq> set ''0123456789''"
proof (induction n rule: decimal.induct)
  case (1 n)
  then show ?case using digit_char [of n] digit_char [of "n mod 10"] by (subst decimal.simps) auto
qed

lemma decimal_not_Nil [simp]: "decimal n \<noteq> []"
  by (subst decimal.simps) simp

lemma decimal_value: "foldl (\<lambda>m c. 10 * m + (of_char c - 48)) 0 (decimal n) = n"
proof (induction n rule: decimal.induct)
  case (1 n)
  have "of_char (char_of (48 + d) :: char) = 48 + d" if "d < 10" for d :: nat
    using that by (simp add: of_char_of)
  then show ?case using 1 by (subst decimal.simps) auto
qed

lemma decimal_inj: "decimal n = decimal m \<Longrightarrow> n = m"
  by (metis decimal_value)

lemma int_string_inj:
  assumes "int_string i = int_string j"
  shows "i = j"
proof -
  have no: "decimal n \<noteq> CHR ''-'' # x" for n x using decimal_digits [of n] by auto
  show ?thesis using assms no no [symmetric] decimal_inj [of "nat i" "nat j"] decimal_inj [of "nat (- i)" "nat (- j)"]
    by (auto simp: int_string_def split: if_splits)
qed

lemma decimal_chars: "list_all numeral_char (decimal n)"
  unfolding list_all_iff numeral_char_def
proof
  fix c
  assume "c \<in> set (decimal n)"
  then have "c \<in> set ''0123456789''" using decimal_digits by blast
  then show "c \<in> set ''-0123456789''" by (simp only: list.set insert_iff) blast
qed

lemma int_string_chars: "list_all numeral_char (int_string i)" and int_string_not_Nil [simp]: "int_string i \<noteq> []"
  by (simp_all add: int_string_def decimal_chars) (simp add: numeral_char_def)

lemma int_string_read: "delimited x \<Longrightarrow> delimited y \<Longrightarrow> int_string i @ x = int_string j @ y \<Longrightarrow> i = j \<and> x = y"
proof -
  assume *: "delimited x" "delimited y" "int_string i @ x = int_string j @ y"
  have stop: "takeWhile numeral_char z = []" if "delimited z" for z
    using that by (cases z) (auto simp: numeral_char_def delims_def)
  have "takeWhile numeral_char (int_string k @ z) = int_string k" if "delimited z" for k z
    using int_string_chars [of k] stop [OF that] by (simp add: list_all_iff takeWhile_append2)
  then have "int_string i = int_string j" using * by metis
  then show ?thesis using int_string_inj *(3) by simp
qed

section \<open>The arguments of a tool\<close>

fun scalar :: "jsval \<Rightarrow> bool" where
  "scalar JNull = True"
| "scalar (JBool _) = True"
| "scalar (JNum _) = True"
| "scalar (JStr _) = True"
| "scalar _ = False"

fun flat_value :: "jsval \<Rightarrow> bool" where
  "flat_value (JArr vs) = list_all scalar vs"
| "flat_value v = scalar v"

fun flat_text :: "jsval \<Rightarrow> string" where
  "flat_text JNull = ''null''"
| "flat_text (JBool b) = (if b then ''true'' else ''false'')"
| "flat_text (JNum n) = int_string n"
| "flat_text (JStr s) = json_quote s"
| "flat_text (JArr vs) = ''['' @ js_join '','' (map flat_text vs) @ '']''"
| "flat_text _ = []"

lemma scalar_text: "scalar v \<Longrightarrow> json_text fr ks v = Some (flat_text v)"
  by (cases v) simp_all

lemma flat_value_text: "flat_value v \<Longrightarrow> json_text fr ks v = Some (flat_text v)"
proof (cases v)
  case (JArr vs)
  assume "flat_value v"
  then have "map (case_option ''null'' (\<lambda>t. t)) (map (json_text fr ks) vs) = map flat_text vs"
    using JArr by (simp add: list_all_iff scalar_text)
  then show ?thesis using JArr by (simp del: map_map)
qed simp_all

lemma int_string_head: "int_string i @ x = c # y \<Longrightarrow> numeral_char c"
  using int_string_chars [of i] by (cases "int_string i") auto

text \<open>The first character tells what a value is.\<close>

definition text_kind :: "string \<Rightarrow> nat" where
  "text_kind x = (if x = [] then 6 else if hd x = CHR ''n'' then 0 else if hd x = CHR ''t'' then 1 else if hd x = CHR ''f'' then 2
     else if hd x = CHR 0x22 then 3 else if numeral_char (hd x) then 4 else if hd x = CHR ''['' then 5 else 6)"

fun value_kind :: "jsval \<Rightarrow> nat" where
  "value_kind JNull = 0"
| "value_kind (JBool b) = (if b then 1 else 2)"
| "value_kind (JStr _) = 3"
| "value_kind (JNum _) = 4"
| "value_kind (JArr _) = 5"
| "value_kind _ = 7"

lemma numeral_chars: "\<not> numeral_char CHR ''n''" "\<not> numeral_char CHR ''t''" "\<not> numeral_char CHR ''f''" "\<not> numeral_char CHR 0x22"
    "\<not> numeral_char CHR ''[''"
  by (simp_all add: numeral_char_def)

lemma flat_text_kind: "flat_value v \<Longrightarrow> text_kind (flat_text v @ x) = value_kind v"
proof (cases v)
  case (JNum n)
  obtain c y where "int_string n = c # y" by (cases "int_string n") auto
  then show ?thesis using JNum int_string_head [of n "[]" c y] numeral_chars by (auto simp: text_kind_def)
qed (simp_all add: text_kind_def json_quote_def numeral_chars)

lemma scalar_flat: "scalar v \<Longrightarrow> flat_value v"
  by (cases v) simp_all

lemma scalar_read:
  assumes "scalar v" "scalar w" "delimited x" "delimited y" "flat_text v @ x = flat_text w @ y"
  shows "v = w \<and> x = y"
proof -
  have "value_kind v = value_kind w" using flat_text_kind [of v x] flat_text_kind [of w y] scalar_flat assms by simp
  then consider "v = w \<and> value_kind v < 3" | s t where "v = JStr s" "w = JStr t" | m n where "v = JNum m" "w = JNum n"
    using assms(1,2) by (cases v; cases w) (simp_all split: if_splits)
  then show ?thesis
  proof cases
    case 1
    then show ?thesis using assms(5) by simp
  next
    case 2
    then show ?thesis using assms(5) json_quote_inj [of s x t y] by simp
  next
    case 3
    then show ?thesis using assms(5) int_string_read [OF assms(3,4), of m n] by simp
  qed
qed

lemma text_kind_head: "text_kind x < 6 \<Longrightarrow> x \<noteq> [] \<and> hd x \<notin> set delims"
proof -
  have "text_kind x = 6" if "hd x \<in> set delims"
  proof -
    have "hd x = CHR '','' \<or> hd x = CHR '':'' \<or> hd x = CHR '']'' \<or> hd x = CHR ''}''" using that by (simp add: delims_def)
    then show ?thesis by (elim disjE) (simp_all add: text_kind_def numeral_char_def)
  qed
  moreover have "x \<noteq> []" if "text_kind x < 6" using that by (cases x) (simp_all add: text_kind_def)
  ultimately show "text_kind x < 6 \<Longrightarrow> x \<noteq> [] \<and> hd x \<notin> set delims" by force
qed

lemma scalar_readable: "readable flat_text {v. scalar v}"
proof -
  have "flat_text v \<noteq> [] \<and> hd (flat_text v) \<notin> set delims" if "scalar v" for v
    using flat_text_kind [OF scalar_flat [OF that], of "[]"] that text_kind_head [of "flat_text v"] by (cases v) simp_all
  then show ?thesis using scalar_read unfolding readable_def by blast
qed

lemma flat_read:
  assumes "flat_value v" "flat_value w" "delimited x" "delimited y" "flat_text v @ x = flat_text w @ y"
  shows "v = w \<and> x = y"
proof -
  have kind: "value_kind v = value_kind w" using flat_text_kind [of v x] flat_text_kind [of w y] assms by simp
  show ?thesis
  proof (cases "\<exists>vs. v = JArr vs")
    case True
    then obtain vs where JArr: "v = JArr vs" by blast
    then obtain ws where w: "w = JArr ws" using kind by (cases w) (simp_all split: if_splits)
    show ?thesis using assms JArr w join_readable [OF scalar_readable, of "CHR '']''" vs ws x y] by (simp add: list_all_iff subset_iff)
  next
    case False
    then have v: "scalar v" using assms(1) by (cases v) simp_all
    then have "value_kind v < 5" by (cases v) simp_all
    then have "scalar w" using kind assms(2) by (cases w) simp_all
    from scalar_read [OF v this assms(3-5)] show ?thesis .
  qed
qed

text \<open>One field of the arguments.\<close>

definition field_text :: "string \<times> jsval \<Rightarrow> string" where
  "field_text kv = json_quote (fst kv) @ '':'' @ flat_text (snd kv)"

lemma field_readable: "readable field_text {kv. flat_value (snd kv)}"
  unfolding readable_def
proof (intro ballI conjI allI impI)
  fix kv
  show "field_text kv \<noteq> []" "hd (field_text kv) \<notin> set delims" by (simp_all add: field_text_def json_quote_def delims_def)
next
  fix kv lw :: "string \<times> jsval" and x y
  assume *: "kv \<in> {kv. flat_value (snd kv)}" "lw \<in> {kv. flat_value (snd kv)}" "delimited x" "delimited y"
    "field_text kv @ x = field_text lw @ y"
  then have "fst kv = fst lw \<and> CHR '':'' # flat_text (snd kv) @ x = CHR '':'' # flat_text (snd lw) @ y"
    using json_quote_inj [of "fst kv" "CHR '':'' # flat_text (snd kv) @ x" "fst lw" "CHR '':'' # flat_text (snd lw) @ y"]
    by (simp add: field_text_def)
  then show "kv = lw" "x = y" using * flat_read [of "snd kv" "snd lw" x y] by (auto simp: prod_eq_iff)
qed

fun flat_args :: "jsval \<Rightarrow> bool" where
  "flat_args (JObj kvs) = list_all (\<lambda>(k, v). flat_value v) kvs"
| "flat_args _ = False"

text \<open>The fields of an object.\<close>

fun field_map :: "jsval \<Rightarrow> string \<Rightarrow> jsval option" where
  "field_map (JObj kvs) = map_of kvs"
| "field_map _ = (\<lambda>_. None)"

definition sorted_fields :: "jsval \<Rightarrow> (string \<times> jsval) list" where
  "sorted_fields args = map (\<lambda>k. (k, the (field_map args k))) (sort (object_keys args))"

lemma flat_args_text:
  assumes "flat_args args"
  shows "json_text fr (sort (object_keys args)) args = Some (''{'' @ js_join '','' (map field_text (sorted_fields args)) @ ''}'')"
    and "set (sorted_fields args) \<subseteq> {kv. flat_value (snd kv)}"
proof -
  obtain kvs where args: "args = JObj kvs" using assms by (cases args) auto
  have flat: "flat_value v" if "map_of kvs k = Some v" for k v
    using assms map_of_SomeD [OF that] by (auto simp: args list_all_iff)
  have def: "\<exists>v. map_of kvs k = Some v \<and> flat_value v" if "k \<in> set (object_keys args)" for k
    using that flat weak_map_of_SomeI by (fastforce simp: args)
  let ?ks = "sort (object_keys args)"
  have ts: "map_of (map (map_prod id (json_text fr ks)) kvs) k = map_option (json_text fr ks) (map_of kvs k)" for ks k
    by (induction kvs) auto
  have "concat (map (\<lambda>k. case map_of (map (map_prod id (json_text fr ?ks)) kvs) k of
        Some (Some t) \<Rightarrow> [json_quote k @ '':'' @ t] | _ \<Rightarrow> []) ks) = map (\<lambda>k. field_text (k, the (map_of kvs k))) ks"
    if "set ks \<subseteq> set (object_keys args)" for ks
    using that
  proof (induction ks)
    case (Cons k ks)
    then obtain v where "map_of kvs k = Some v" "flat_value v" using def by auto
    then show ?case using Cons by (simp add: ts [unfolded id_def] flat_value_text field_text_def)
  qed simp
  from this [of ?ks]
  show "json_text fr ?ks args = Some (''{'' @ js_join '','' (map field_text (sorted_fields args)) @ ''}'')"
    by (simp add: args sorted_fields_def comp_def)
  show "set (sorted_fields args) \<subseteq> {kv. flat_value (snd kv)}" using def by (fastforce simp: sorted_fields_def args)
qed

lemma sorted_fields_map:
  assumes "flat_args args" "flat_args args'" "sorted_fields args = sorted_fields args'"
  shows "field_map args = field_map args'"
proof -
  have "map_of (sorted_fields a) = field_map a" if "flat_args a" for a
  proof
    fix k
    obtain kvs where a: "a = JObj kvs" using \<open>flat_args a\<close> by (cases a) auto
    show "map_of (sorted_fields a) k = field_map a k"
    proof (cases "map_of kvs k")
      case None
      then have "k \<notin> fst ` set kvs" by (simp add: map_of_eq_None_iff)
      then show ?thesis using None by (simp add: sorted_fields_def a map_of_map_restrict restrict_map_def comp_def)
    next
      case (Some v)
      then have "k \<in> fst ` set kvs" using map_of_SomeD by force
      then show ?thesis using Some by (simp add: sorted_fields_def a map_of_map_restrict restrict_map_def comp_def)
    qed
  qed
  then show ?thesis using assms by metis
qed

lemma field_map_sorted:
  assumes "flat_args args" "flat_args args'" "field_map args = field_map args'"
  shows "sorted_fields args = sorted_fields args'"
proof -
  obtain kvs kvs' where a: "args = JObj kvs" "args' = JObj kvs'" using assms(1,2) by (cases args; cases args') auto
  then have "set (map fst kvs) = set (map fst kvs')" using assms(3) by (metis dom_map_of_conv_image_fst field_map.simps(1) set_map)
  then have "sort (object_keys args) = sort (object_keys args')"
    by (simp add: a) (metis distinct_js_uniq set_js_uniq set_map sorted_list_of_set_sort_remdups distinct_remdups_id)
  then show ?thesis using assms(3) by (simp add: sorted_fields_def)
qed

text \<open>Two calls have the same text exactly when they have the same tool, the same arguments and the same id.\<close>

lemma logical_action_eq_iff:
  assumes "t \<in> set keyed_tools" "u \<in> set keyed_tools" "flat_args args" "flat_args args'"
  shows "logical_action fr t args c = logical_action fr u args' c' \<longleftrightarrow>
    t = u \<and> field_map args = field_map args' \<and> js_string fr c = js_string fr c'"
proof
  assume eq: "logical_action fr t args c = logical_action fr u args' c'"
  have "t = u"
  proof -
    have "hd (logical_action fr t args c) = hd t" "hd (logical_action fr u args' c') = hd u"
      using assms(1,2) by (auto simp: logical_action_def keyed_tools_def)
    then show ?thesis using eq assms(1,2) by (auto simp: keyed_tools_def)
  qed
  then have "js_join '','' (map field_text (sorted_fields args)) @ CHR ''}'' # '':'' @ js_string fr c
      = js_join '','' (map field_text (sorted_fields args')) @ CHR ''}'' # '':'' @ js_string fr c'"
    using eq by (simp add: logical_action_def flat_args_text(1) assms(3,4))
  from join_readable [OF field_readable _ flat_args_text(2) [OF assms(3)] flat_args_text(2) [OF assms(4)] this]
  show "t = u \<and> field_map args = field_map args' \<and> js_string fr c = js_string fr c'"
    using sorted_fields_map [OF assms(3,4)] \<open>t = u\<close> by simp
next
  assume "t = u \<and> field_map args = field_map args' \<and> js_string fr c = js_string fr c'"
  then show "logical_action fr t args c = logical_action fr u args' c'"
    using field_map_sorted [OF assms(3,4)] by (simp add: logical_action_def flat_args_text(1) assms(3,4))
qed

end
