(* ===== verification/Gemini_Claims.thy ===== *)
theory Gemini_Claims
  imports Logical_Action
begin

text \<open>
  What holds of the sessions of \<open>Gemini_Session\<close>: the tool calls it posts and their idempotency keys, in every
  run, and the runs in which the hook goes wrong.
\<close>

section \<open>Posted tool calls\<close>

definition fresh_uuids :: "(nat \<Rightarrow> string) \<Rightarrow> bool" where
  "fresh_uuids u \<longleftrightarrow> inj u \<and> (\<forall>n. u n \<noteq> [])"

text \<open>The keys handed out: one per logical action, each drawn once.\<close>

definition keys_ok :: "'r gemini_env \<Rightarrow> gs \<Rightarrow> bool" where
  "keys_ok env s \<longleftrightarrow>
     (\<forall>a k. jm_get (gs_keys s) a = Some k \<longrightarrow> (\<exists>i < gs_drawn s. k = ge_uuid env i))
     \<and> (\<forall>a b k. jm_get (gs_keys s) a = Some k \<longrightarrow> jm_get (gs_keys s) b = Some k \<longrightarrow> a = b)"

definition post_ok :: "'r gemini_env \<Rightarrow> gs \<Rightarrow> gs_effect \<Rightarrow> bool" where
  "post_ok env s e \<longleftrightarrow>
     (case e of
        Gs_Post_Tool t args c key \<Rightarrow> is_allowed_calendar_tool t \<and>
          (if t \<in> set keyed_tools
           then \<exists>k. key = Some k \<and> jm_get (gs_keys s) (logical_action (ge_frac env) t args c) = Some k else key = None)
      | _ \<Rightarrow> True)"

definition gs_ok :: "'r gemini_env \<Rightarrow> gs \<Rightarrow> bool" where
  "gs_ok env s \<longleftrightarrow> (fresh_uuids (ge_uuid env) \<longrightarrow> keys_ok env s \<and> list_all (post_ok env s) (gs_log s))"

definition quiet_effect :: "gs_effect \<Rightarrow> bool" where
  "quiet_effect e \<longleftrightarrow> (case e of Gs_Post_Tool _ _ _ _ \<Rightarrow> False | _ \<Rightarrow> True)"

text \<open>Steps that keep the keys and post nothing keep the invariant.\<close>

definition same_keys :: "gs \<Rightarrow> gs \<Rightarrow> bool" where
  "same_keys s s' \<longleftrightarrow> gs_keys s' = gs_keys s \<and> gs_drawn s' = gs_drawn s
     \<and> (\<exists>es. gs_log s' = es @ gs_log s \<and> list_all quiet_effect es)"

lemma same_keys_refl [simp]: "same_keys s s"
  by (simp add: same_keys_def)

lemma same_keys_trans: "same_keys s t \<Longrightarrow> same_keys t u \<Longrightarrow> same_keys s u"
  unfolding same_keys_def by (metis append.assoc list_all_append)

lemma same_keys_emit: "same_keys s (gs_emit e s) \<longleftrightarrow> quiet_effect e"
  by (auto simp: same_keys_def gs_emit_def)

lemma same_keys_fields:
  "gs_keys t = gs_keys s \<Longrightarrow> gs_drawn t = gs_drawn s \<Longrightarrow> gs_log t = gs_log s \<Longrightarrow> same_keys s t"
  by (simp add: same_keys_def)

lemma post_ok_keys: "gs_keys s' = gs_keys s \<Longrightarrow> post_ok env s' e = post_ok env s e"
  by (simp add: post_ok_def split: gs_effect.split)

lemma quiet_post_ok: "quiet_effect e \<Longrightarrow> post_ok env s e"
  by (simp add: quiet_effect_def post_ok_def split: gs_effect.splits)

lemma gs_ok_same:
  assumes "gs_ok env s" "same_keys s s'"
  shows "gs_ok env s'"
proof -
  obtain es where "gs_log s' = es @ gs_log s" "list_all quiet_effect es" "gs_keys s' = gs_keys s" "gs_drawn s' = gs_drawn s"
    using assms(2) by (auto simp: same_keys_def)
  moreover from this(3) have "post_ok env s' = post_ok env s" by (intro HOL.ext post_ok_keys)
  ultimately show ?thesis
    using assms(1) quiet_post_ok [of _ env s] by (auto simp: gs_ok_def keys_ok_def list_all_iff)
qed

lemmas gs_updates = gs_emit_def gs_wait_for_def gs_failed_def close_ref_def Let_def

lemma same_keys_chunk: "same_keys s (fst (play_audio_chunk fr t d s))"
proof (cases "base64_to_int16 (js_string fr d)")
  case (Ret ws)
  then show ?thesis by (simp add: play_audio_chunk_def gs_updates same_keys_def quiet_effect_def)
qed (simp add: play_audio_chunk_def)

lemma same_keys_parts: "same_keys s (fst (play_parts fr t ps s))"
proof (induction ps arbitrary: s)
  case (Cons p ps)
  define d where "d = get (get p ''inlineData'') ''data''"
  obtain s' b where c: "play_audio_chunk fr t d s = (s', b)" by fastforce
  then have "same_keys s s'" using same_keys_chunk [of s fr t d] by simp
  then have "same_keys s (fst (play_parts fr t ps s'))" using Cons.IH same_keys_trans by blast
  then show ?case using Cons.IH [of s] c \<open>same_keys s s'\<close> by (cases b) (simp_all add: Let_def flip: d_def)
qed simp

lemma same_keys_user: "same_keys s (fst (user_transcript env v s))"
  by (simp add: user_transcript_def Let_def same_keys_fields split: jsval.split)

lemma same_keys_content: "same_keys s (server_content env t c s)"
proof -
  define v where "v = get (get c ''inputTranscription'') ''text''"
  define w where "w = get (get c ''outputTranscription'') ''text''"
  obtain s1 b where u: "(if truthy v then user_transcript env v s else (s, True)) = (s1, b)" by fastforce
  have 1: "same_keys s s1" using u same_keys_user [of s env v] by (cases "truthy v") (auto simp: same_keys_def)
  define s2 where "s2 = (if truthy w then s1\<lparr>gs_messages := gs_messages s1 @ [(''assistant'', w)]\<rparr> else s1)"
  have "same_keys s1 s2" by (simp add: s2_def same_keys_fields)
  with 1 have 2: "same_keys s s2" by (rule same_keys_trans)
  have 3: "same_keys s (fst (play_parts (ge_frac env) t ps s2))" for ps
    using 2 same_keys_parts by (rule same_keys_trans)
  have 4: "same_keys s (s'\<lparr>gs_bot := False\<rparr>) = same_keys s s'" for s' by (simp add: same_keys_def)
  have "server_content env t c s = (if b then
      (case js_or (get (get c ''modelTurn'') ''parts'') (JArr []) of
             JArr ps \<Rightarrow> (case play_parts (ge_frac env) t ps s2 of
                 (s, ok) \<Rightarrow> if ok \<and> truthy (get c ''turnComplete'') then s\<lparr>gs_bot := False\<rparr> else s)
           | JStr _ \<Rightarrow> if truthy (get c ''turnComplete'') then s2\<lparr>gs_bot := False\<rparr> else s2
           | _ \<Rightarrow> s2) else s1)"
    unfolding server_content_def Let_def v_def [symmetric] w_def [symmetric] u s2_def by (simp split: bool.split)
  then show ?thesis using 1 2 3 4 by (auto simp: case_prod_unfold split: jsval.split)
qed

lemma same_keys_settled: "same_keys s (tool_settled env now x res s)"
  by (auto simp: tool_settled_def Let_def gs_emit_def same_keys_def quiet_effect_def split: prod.split option.split)

lemma post_ok_grow:
  "post_ok env s e \<Longrightarrow> gs_keys s' = jm_set a k (gs_keys s) \<Longrightarrow> jm_get (gs_keys s) a = None \<Longrightarrow> post_ok env s' e"
  by (auto simp: post_ok_def split: gs_effect.splits if_splits)

lemma stable_key_ok:
  assumes "stable_key env tool args c s = (key, s')" "gs_ok env s"
  shows "gs_ok env s' \<and> (fresh_uuids (ge_uuid env) \<longrightarrow> (\<forall>t. tool = JStr t \<longrightarrow> is_allowed_calendar_tool t \<longrightarrow>
        post_ok env s' (Gs_Post_Tool t args c key)))"
proof (cases "\<exists>t. tool = JStr t \<and> t \<in> set keyed_tools \<and> fresh_uuids (ge_uuid env)")
  case False
  then show ?thesis using assms
    by (auto simp: stable_key_def post_ok_def gs_ok_def Let_def split: jsval.splits if_splits option.splits list.splits)
next
  case True
  then obtain t where t: "tool = JStr t" "t \<in> set keyed_tools" and fresh: "fresh_uuids (ge_uuid env)" by blast
  define a where "a = logical_action (ge_frac env) t args c"
  from assms(2) fresh have ok: "keys_ok env s" "list_all (post_ok env s) (gs_log s)" by (simp_all add: gs_ok_def)
  show ?thesis
  proof (cases "jm_get (gs_keys s) a")
    case None
    then have s': "key = Some (ge_uuid env (gs_drawn s))"
      "s' = s\<lparr>gs_drawn := gs_drawn s + 1, gs_keys := jm_set a (ge_uuid env (gs_drawn s)) (gs_keys s)\<rparr>"
      using assms(1) t by (simp_all add: stable_key_def Let_def flip: a_def)
    have old: "\<exists>i < gs_drawn s. k = ge_uuid env i" if "jm_get (gs_keys s) b = Some k" for b k
      using that ok(1) by (simp add: keys_ok_def)
    have new: "k \<noteq> ge_uuid env (gs_drawn s)" if "jm_get (gs_keys s) b = Some k" for b k
      using old [OF that] fresh by (auto simp: fresh_uuids_def dest: injD)
    have "keys_ok env s'"
      unfolding keys_ok_def
    proof (intro conjI allI impI)
      fix b k
      assume "jm_get (gs_keys s') b = Some k"
      then have "k = ge_uuid env (gs_drawn s) \<or> jm_get (gs_keys s) b = Some k" by (auto simp: s' split: if_splits)
      then obtain i where "i \<le> gs_drawn s" "k = ge_uuid env i" using old less_imp_le by blast
      then show "\<exists>i < gs_drawn s'. k = ge_uuid env i" by (intro exI [of _ i]) (simp add: s')
    next
      fix b b' k
      assume "jm_get (gs_keys s') b = Some k" "jm_get (gs_keys s') b' = Some k"
      then show "b = b'" using ok(1) new by (auto simp: s' keys_ok_def split: if_splits)
    qed
    moreover have "list_all (post_ok env s') (gs_log s')"
      using ok(2) None post_ok_grow [of env s _ s'] by (auto simp: list_all_iff s')
    ultimately show ?thesis using t by (auto simp: gs_ok_def post_ok_def s' a_def)
  next
    case (Some k)
    then obtain i where "k = ge_uuid env i" using ok(1) by (auto simp: keys_ok_def)
    then have "k \<noteq> []" using fresh by (simp add: fresh_uuids_def)
    then have "key = Some k" "s' = s" using assms(1) t Some by (auto simp: stable_key_def Let_def a_def [symmetric] split: list.splits)
    then show ?thesis using assms(2) t Some by (simp add: post_ok_def a_def)
  qed
qed

lemma handle_call_ok:
  assumes "gs_ok env s"
  shows "gs_ok env (handle_call env now fc s)"
proof (cases "truthy (get fc ''name'')")
  case True
  define tool where "tool = get fc ''name''"
  define args where "args = js_or (get fc ''args'') (JObj [])"
  define c where "c = js_or (get fc ''id'') (JStr (''call_'' @ int_string now))"
  define s1 where "s1 = (if \<not> tool_allowed tool then s else s\<lparr>gs_scope := Some (decision Allow Calendar_intent True)\<rparr>)"
  obtain key s2 where k: "stable_key env tool args c s1 = (key, s2)" by fastforce
  have "same_keys s s1" by (simp add: s1_def same_keys_fields)
  then have "gs_ok env s1" using assms gs_ok_same by blast
  from stable_key_ok [OF k this] have s2: "gs_ok env s2"
    "\<And>t. fresh_uuids (ge_uuid env) \<Longrightarrow> tool = JStr t \<Longrightarrow> is_allowed_calendar_tool t \<Longrightarrow> post_ok env s2 (Gs_Post_Tool t args c key)"
    by auto
  define s3 where "s3 = add_gs_task (ge_frac env) fc s2"
  define x where "x = \<lparr>gx_task = gs_taskIds s2, gx_call = c, gx_tool = tool, gx_args = args, gx_key = key,
    gx_denied = \<not> tool_allowed tool, gx_start = now\<rparr>"
  have "same_keys s2 s3" by (simp add: s3_def add_gs_task_def Let_def same_keys_fields)
  then have s3: "gs_ok env s3" "gs_keys s3 = gs_keys s2" using s2(1) gs_ok_same by (auto simp: same_keys_def)
  have "gs_ok env (start_tool x s3)"
  proof (cases "\<exists>t. tool = JStr t \<and> is_allowed_calendar_tool t")
    case True
    then obtain t where t: "tool = JStr t" "is_allowed_calendar_tool t" by blast
    then have "start_tool x s3 = gs_emit (Gs_Post_Tool t args c key) s3" by (simp add: start_tool_def x_def tool_allowed_def)
    moreover have "keys_ok env (gs_emit e s3) = keys_ok env s3" for e by (simp add: keys_ok_def gs_emit_def)
    moreover have "post_ok env (gs_emit e s3) = post_ok env s2" "post_ok env s3 = post_ok env s2" for e
      by (rule HOL.ext, rule post_ok_keys, simp add: gs_emit_def s3(2))+
    ultimately show ?thesis using s2(2) [OF _ t] s3(1) by (simp add: gs_ok_def) (simp add: gs_emit_def)
  next
    case False
    then have "start_tool x s3 = s3" by (auto simp: start_tool_def x_def tool_allowed_def split: jsval.split)
    then show ?thesis using s3(1) by simp
  qed
  moreover have "same_keys u (gs_wait_for k u)" for u k by (simp add: gs_wait_for_def same_keys_fields)
  moreover have "handle_call env now fc s = gs_wait_for (Await_Tool x) (start_tool x s3)"
    using True k unfolding handle_call_def Let_def tool_def [symmetric] args_def [symmetric] c_def [symmetric] s1_def [symmetric]
    by (simp add: x_def s3_def)
  ultimately show ?thesis using gs_ok_same by metis
qed (use assms in \<open>simp add: handle_call_def\<close>)

lemma handle_calls_ok: "gs_ok env s \<Longrightarrow> gs_ok env (handle_calls env now fcs s)"
  by (induction fcs arbitrary: s) (simp_all add: handle_call_ok)

lemma message_ok: "gs_ok env s \<Longrightarrow> gs_ok env (on_gemini_message env now t msg s)"
  using handle_calls_ok gs_ok_same [OF _ same_keys_content]
  by (auto simp: on_gemini_message_def Let_def split: jsval.split)

lemma same_keys_resume: "(\<And>s. same_keys s (f s)) \<Longrightarrow> same_keys s (gs_resume k f s)"
  using same_keys_trans [OF same_keys_fields [of "s\<lparr>gs_waits := remove1 k (gs_waits s)\<rparr>" s]] by (simp add: gs_resume_def)

lemma same_keys_connecting:
  "same_keys s (gs_connect s)" "same_keys s (gemini_token_settled n m res s)" "same_keys s (context_settled n m ok s)"
  "same_keys s (live_settled n m ok s)" "same_keys s (gemini_mic_settled n m ans s)" "same_keys s (audio_process n xs s)"
  "same_keys s (gs_disconnect s)" "same_keys s (gs_toggle_mute s)"
  by (auto simp: gs_connect_def gemini_token_settled_def context_settled_def live_settled_def gemini_mic_settled_def
      audio_process_def gs_disconnect_def gs_toggle_mute_def gs_updates same_keys_def quiet_effect_def
      split: ext.split option.split mic_answer.split bool.split)

definition is_message :: "gs_event \<Rightarrow> bool" where
  "is_message e \<longleftrightarrow> (case e of Gemini_Message _ _ _ \<Rightarrow> True | _ \<Rightarrow> False)"

lemma same_keys_step: "\<not> is_message e \<Longrightarrow> same_keys s (gs_step env s e)"
  by (cases e) (simp_all add: is_message_def gs_step_def same_keys_resume same_keys_connecting same_keys_settled same_keys_fields)

interpretation gemini: machine "gs_step env" "gs_ok env" for env :: "'r gemini_env"
proof
  fix s e
  assume ok: "gs_ok env s"
  show "gs_ok env (gs_step env s e)"
  proof (cases "is_message e")
    case True
    then show ?thesis using ok message_ok by (auto simp: gs_step_def is_message_def split: gs_event.splits)
  next
    case False
    then have "same_keys s (gs_step env s e)" by (rule same_keys_step)
    with ok show ?thesis by (rule gs_ok_same)
  qed
qed

text \<open>C34. A booking or cancellation of the model reaches the backend under one idempotency key: in every run only allowed
tools are posted, a booking or cancellation always carries a key and any other call none. Two bookings or cancellations whose
arguments have the shape the tools declare (strings, integers, booleans, lists of them) carry the same key exactly when
they name the same tool, give the same value to every argument, in whatever order, and have the same call id; and a call
that is repeated as it is carries its key again, whatever its arguments are.\<close>

theorem tool_calls_share_keys:
  assumes "fresh_uuids (ge_uuid env)" "s = run (gs_step env) gs_init es"
    and "Gs_Post_Tool t args c key \<in> set (gs_log s)" "Gs_Post_Tool u args' c' key' \<in> set (gs_log s)"
  shows "is_allowed_calendar_tool t \<and> (key = None \<longleftrightarrow> t \<notin> set keyed_tools)
    \<and> (t \<in> set keyed_tools \<and> u \<in> set keyed_tools \<longrightarrow>
        (flat_args args \<and> flat_args args' \<longrightarrow>
           (key = key' \<longleftrightarrow> t = u \<and> field_map args = field_map args' \<and> js_string (ge_frac env) c = js_string (ge_frac env) c'))
        \<and> (t = u \<and> args = args' \<and> c = c' \<longrightarrow> key = key'))"
proof -
  have "gs_ok env gs_init" by (simp add: gs_ok_def gs_init_def keys_ok_def)
  from gemini.inv_run [OF this, of es] have ok: "keys_ok env s" "list_all (post_ok env s) (gs_log s)"
    using assms(1,2) by (simp_all add: gs_ok_def)
  then have posts: "post_ok env s (Gs_Post_Tool t args c key)" "post_ok env s (Gs_Post_Tool u args' c' key')"
    using assms(3,4) by (auto simp: list_all_iff)
  have "key = key' \<longleftrightarrow> logical_action (ge_frac env) t args c = logical_action (ge_frac env) u args' c'"
    if "t \<in> set keyed_tools" "u \<in> set keyed_tools"
    using ok(1) posts that by (auto simp: post_ok_def keys_ok_def)
  then show ?thesis using posts(1) logical_action_eq_iff [of t u args args' "ge_frac env" c c'] by (auto simp: post_ok_def)
qed

definition demo_env :: "string gemini_env" where
  "demo_env = \<lparr>ge_policy = demo_policy, ge_frac = (\<lambda>_. []), ge_uuid = (\<lambda>n. replicate (Suc n) (CHR ''u''))\<rparr>"

definition booking_call :: "string \<Rightarrow> string \<Rightarrow> jsval" where
  "booking_call i title = JObj [(''id'', JStr i), (''name'', JStr ''book_event''), (''args'', JObj [(''title'', JStr title)])]"

definition call_message :: "jsval list \<Rightarrow> gs_event" where
  "call_message fcs = Gemini_Message 0 0 (JObj [(''toolCall'', JObj [(''functionCalls'', JArr fcs)])])"

lemma demo_fresh: "fresh_uuids (ge_uuid demo_env)"
  by (auto simp: fresh_uuids_def demo_env_def inj_def)

definition demo_gemini :: gs where
  "demo_gemini = run (gs_step demo_env) gs_init
     [call_message [booking_call ''c1'' ''Demo'', booking_call ''c2'' ''Demo'', booking_call ''c1'' ''Call'', booking_call ''c1'' ''Demo'']]"

definition demo_args :: "string \<Rightarrow> jsval" where
  "demo_args title = JObj [(''title'', JStr title)]"

theorem tool_calls_share_keys_witness:
  "list_all (\<lambda>e. e \<in> set (gs_log demo_gemini))
     [Gs_Post_Tool ''book_event'' (demo_args ''Demo'') (JStr ''c1'') (Some ''u''),
      Gs_Post_Tool ''book_event'' (demo_args ''Demo'') (JStr ''c2'') (Some ''uu''),
      Gs_Post_Tool ''book_event'' (demo_args ''Call'') (JStr ''c1'') (Some ''uuu'')]
   \<and> (Some ''u'' = Some ''uuu'' \<longleftrightarrow> field_map (demo_args ''Demo'') = field_map (demo_args ''Call''))"
proof -
  have *: "list_all (\<lambda>e. e \<in> set (gs_log demo_gemini))
     [Gs_Post_Tool ''book_event'' (demo_args ''Demo'') (JStr ''c1'') (Some ''u''),
      Gs_Post_Tool ''book_event'' (demo_args ''Demo'') (JStr ''c2'') (Some ''uu''),
      Gs_Post_Tool ''book_event'' (demo_args ''Call'') (JStr ''c1'') (Some ''uuu'')]" by code_simp
  then have "Gs_Post_Tool ''book_event'' (demo_args ''Demo'') (JStr ''c1'') (Some ''u'') \<in> set (gs_log demo_gemini)"
    "Gs_Post_Tool ''book_event'' (demo_args ''Call'') (JStr ''c1'') (Some ''uuu'') \<in> set (gs_log demo_gemini)" by simp_all
  from tool_calls_share_keys [OF demo_fresh demo_gemini_def this]
  have "Some ''u'' = Some ''uuu'' \<longleftrightarrow> field_map (demo_args ''Demo'') = field_map (demo_args ''Call'')"
    by (simp add: keyed_tools_def demo_args_def)
  with * show ?thesis by blast
qed

section \<open>What goes wrong\<close>

definition token_reply :: reply where
  "token_reply = \<lparr>rp_status = 200, rp_json = Ret (JObj [(''token'', JStr ''t'')])\<rparr>"

definition connect_rest :: "bool \<Rightarrow> gs_event list" where
  "connect_rest m = [Gemini_Token_Settled 0 m (Ret token_reply), Context_Settled 0 m True, Live_Settled 0 m True,
     Microphone_Settled 0 m (Mic_Granted True)]"

text \<open>A session that is ended, or whose page is left, while it connects goes on connecting: it ends with an open session and
microphone.\<close>

lemma ended_connect_goes_on:
  "let s = run (gs_step env) gs_init ([Connect_Called, Disconnect_Called] @ connect_rest False) in
     gs_status s = Gs_Connected \<and> gs_session s = Some 0 \<and> gs_mic s = Some 0
     \<and> Gs_Stop_Microphone 0 \<notin> set (gs_log s) \<and> Gs_Close_Session 0 \<notin> set (gs_log s)"
  by (simp add: connect_rest_def token_reply_def reply_ok_def gs_step_def gs_resume_def gs_connect_def gs_disconnect_def
      gemini_token_settled_def context_settled_def live_settled_def gemini_mic_settled_def gs_updates gs_init_def)

text \<open>Who connects while muted is never heard: the processor keeps the mute state of the render that connected.\<close>

lemma muted_start_is_never_heard:
  "let s = run (gs_step env) gs_init ([Mute_Toggled, Connect_Called] @ connect_rest True @ [Mute_Toggled]) in
     \<not> gs_muted s \<and> gs_status s = Gs_Connected \<and> gs_step env s (Audio_Block 0 xs) = s"
  by (simp add: connect_rest_def token_reply_def reply_ok_def gs_step_def gs_resume_def gs_connect_def gs_toggle_mute_def
      gemini_token_settled_def context_settled_def live_settled_def gemini_mic_settled_def audio_process_def gs_updates gs_init_def)

text \<open>A refused microphone shows an error and leaves the session open.\<close>

lemma refused_microphone_keeps_session:
  "let s = run (gs_step env) gs_init ([Connect_Called, Gemini_Token_Settled 0 False (Ret token_reply), Context_Settled 0 False True,
         Live_Settled 0 False True, Microphone_Settled 0 False Mic_Refused]) in
     gs_status s = Gs_Error \<and> gs_session s = Some 0 \<and> Gs_Close_Session 0 \<notin> set (gs_log s)"
  by (simp add: token_reply_def reply_ok_def gs_step_def gs_resume_def gs_connect_def
      gemini_token_settled_def context_settled_def live_settled_def gemini_mic_settled_def gs_updates gs_init_def)

text \<open>A backend answer of \<open>null\<close> leaves the task running and the model without an answer.\<close>

lemma null_answer_is_dropped:
  assumes "\<not> gx_denied x" "gx_tool x = JStr t" "is_allowed_calendar_tool t"
  shows "gs_tasks (tool_settled env now x (Ret JNull) s) = gs_tasks s
    \<and> (Gs_Tool_Response n c v r \<in> set (gs_log (tool_settled env now x (Ret JNull) s)) \<longleftrightarrow> Gs_Tool_Response n c v r \<in> set (gs_log s))"
  using assms by (auto simp: tool_settled_def tool_result_def execute_backend_tool_def gs_emit_def)

text \<open>Two calls without an id that arrive in the same millisecond and differ only below the top level of their arguments share
one key: the list of keys filters every level. (The arguments are not of the declared shape.)\<close>

lemma nested_arguments_share_key:
  "logical_action fr ''book_event'' (JObj [(''attendees'', JArr [JObj [(''email'', JStr ''a'')]])]) c
   = logical_action fr ''book_event'' (JObj [(''attendees'', JArr [JObj [(''email'', JStr ''b'')]])]) c"
  by (simp add: logical_action_def js_uniq_def)

end
