(* ===== verification/Web_Account.thy ===== *)
theory Web_Account
  imports Web_Assistant Livekit_Runtime
begin

text \<open>
  Parts of the web app outside \<open>App.tsx\<close>: the sign-in page (\<open>frontend/src/app/sign-in/page.tsx\<close>), the calendar
  button (\<open>components/auth/GoogleCalendarAuth.tsx\<close>), the task card with its polling
  (\<open>components/tasks/TaskCard.tsx\<close>) and the labels of the audio controls (\<open>components/audio/AudioControls.tsx\<close>).
  Requests are those of \<open>Web_Assistant\<close>; \<open>enc\<close> is \<open>encodeURIComponent\<close>, \<open>fr\<close> prints fractions.
\<close>

section \<open>Signing in\<close>

datatype web_sign_mode = Web_Sign_In | Web_Sign_Up

definition initial_sign_mode :: "string option \<Rightarrow> web_sign_mode" where
  "initial_sign_mode param = (if param = Some ''sign-up'' then Web_Sign_Up else Web_Sign_In)"

definition names_user :: "jsval \<Rightarrow> bool" where
  "names_user v \<longleftrightarrow> truthy (get v ''user'') \<or> truthy (get (get v ''session'') ''user'')"

definition session_request :: wreq where
  "session_request = w_get ''/api/auth/get-session''"

text \<open>The check on mounting: whether the page, if it is still mounted, goes to the workspace.\<close>

definition already_signed_in :: "bool \<Rightarrow> reply ext \<Rightarrow> bool" where
  "already_signed_in active res \<longleftrightarrow>
     active \<and> (case res of Ret r \<Rightarrow> reply_ok r \<and> (case rp_json r of Ret v \<Rightarrow> names_user v | Throw _ \<Rightarrow> False) | Throw _ \<Rightarrow> False)"

definition sign_request :: "string \<Rightarrow> web_sign_mode \<Rightarrow> string \<Rightarrow> string \<Rightarrow> wreq" where
  "sign_request origin mode email password =
     w_send ''POST'' (''/api/auth/'' @ (if mode = Web_Sign_In then ''sign-in/email'' else ''sign-up/email''))
       (JObj [(''email'', JStr email), (''password'', JStr password), (''name'', JStr (takeWhile (\<lambda>c. c \<noteq> CHR ''@'') email)),
          (''callbackURL'', JStr (origin @ ''/''))])"

text \<open>\<open>new Error(v).message\<close>.\<close>

definition message_text :: "(rat \<Rightarrow> string) \<Rightarrow> jsval \<Rightarrow> string" where
  "message_text fr v = js_string fr v"

definition refused_sign_in :: "(rat \<Rightarrow> string) \<Rightarrow> reply \<Rightarrow> string" where
  "refused_sign_in fr r =
     (let p = json_or (JObj []) r in
      if nullish p then ''Cannot read properties''
      else message_text fr (js_or (get p ''message'') (js_or (get p ''error'') (JStr ''Authentication failed.''))))"

definition session_after_sign_in :: "reply ext \<Rightarrow> string + unit" where
  "session_after_sign_in res =
     (case (case res of Throw m \<Rightarrow> Throw m | Ret r \<Rightarrow> if reply_ok r then rp_json r else Ret JNull) of
        Throw m \<Rightarrow> Inl m
      | Ret v \<Rightarrow> if names_user v then Inr ()
          else Inl ''Sign-in completed but your session was not saved. Please retry; if this continues, contact support.'')"

definition submit_web :: "(rat \<Rightarrow> string) \<Rightarrow> string \<Rightarrow> web_sign_mode \<Rightarrow> string \<Rightarrow> string \<Rightarrow> wnet \<Rightarrow> (string + unit) \<times> wreq list" where
  "submit_web fr origin mode email password net =
     (let q = sign_request origin mode email password in
      case net q of
        Throw m \<Rightarrow> (Inl m, [q])
      | Ret r \<Rightarrow>
          if \<not> reply_ok r then (Inl (refused_sign_in fr r), [q])
          else (session_after_sign_in (net session_request), [q, session_request]))"

text \<open>Signing in with Google: the address the page leaves for.\<close>

definition google_request :: "string \<Rightarrow> wreq" where
  "google_request origin = w_send ''POST'' ''/api/auth/sign-in/social''
     (JObj [(''provider'', JStr ''google''), (''callbackURL'', JStr (origin @ ''/''))])"

definition google_sign_in_web :: "(rat \<Rightarrow> string) \<Rightarrow> reply ext \<Rightarrow> string + string" where
  "google_sign_in_web fr res =
     (case res of
        Throw m \<Rightarrow> Inl m
      | Ret r \<Rightarrow>
          let p = json_or (JObj []) r in
          if nullish p then Inl ''Cannot read properties''
          else if \<not> reply_ok r \<or> \<not> truthy (get p ''url'')
          then Inl (message_text fr (js_or (get p ''message'') (JStr ''Google sign-in is unavailable.'')))
          else Inr (js_string fr (get p ''url'')))"

text \<open>The page is left for the workspace only when the server, asked after an accepted sign-in, named the user of the
session.\<close>

theorem web_sign_in_needs_session:
  "case submit_web fr origin mode email password net of
     (Inr _, sent) \<Rightarrow> already_signed_in True (net session_request)
        \<and> sent = [sign_request origin mode email password, session_request]
   | (Inl _, sent) \<Rightarrow> hd sent = sign_request origin mode email password"
  by (auto simp: submit_web_def Let_def session_after_sign_in_def already_signed_in_def names_user_def
      split: ext.splits if_splits)

section \<open>The calendar button\<close>

record ga =
  ga_status :: jsval
  ga_loading :: bool
  ga_busy :: bool

definition ga_init :: ga where
  "ga_init = \<lparr>ga_status = JNull, ga_loading = True, ga_busy = False\<rparr>"

definition ga_fetched :: "reply ext \<Rightarrow> ga \<Rightarrow> ga" where
  "ga_fetched res g =
     (let off = JObj [(''connected'', JBool False)] in
      g\<lparr>ga_status := (case res of
           Throw _ \<Rightarrow> off
         | Ret r \<Rightarrow> if reply_ok r then (case rp_json r of Ret v \<Rightarrow> v | Throw _ \<Rightarrow> off) else off),
        ga_loading := False\<rparr>)"

definition ga_refetches :: "jsval \<Rightarrow> bool" where
  "ga_refetches data \<longleftrightarrow> get data ''type'' = JStr ''GOOGLE_AUTH_SUCCESS''"

text \<open>Where \<open>handleConnect\<close> sends the popup, if one opened.\<close>

definition ga_popup :: "(rat \<Rightarrow> string) \<Rightarrow> bool \<Rightarrow> reply ext \<Rightarrow> string option" where
  "ga_popup fr popup res =
     (if \<not> popup then None
      else Some (case res of
          Throw _ \<Rightarrow> ''/auth/google/login''
        | Ret r \<Rightarrow>
            if \<not> reply_ok r then ''/auth/google/login''
            else (case rp_json r of
                Throw _ \<Rightarrow> ''/auth/google/login''
              | Ret v \<Rightarrow> if truthy (get v ''auth_url'') then js_string fr (get v ''auth_url'') else ''/auth/google/login'')))"

definition ga_popup_closed :: "reply ext \<Rightarrow> ga \<Rightarrow> ga" where
  "ga_popup_closed res g = ga_fetched res (g\<lparr>ga_busy := False\<rparr>)"

definition ga_disconnect :: "unit ext \<Rightarrow> reply ext \<Rightarrow> ga \<Rightarrow> ga" where
  "ga_disconnect posted res g = (case posted of Ret _ \<Rightarrow> ga_fetched res g | Throw _ \<Rightarrow> g)\<lparr>ga_busy := False\<rparr>"

section \<open>The task card\<close>

text \<open>The polling effect runs for an unfinished booking: a run waits for its timer or for an answer.\<close>

record tc =
  tc_id :: string
  tc_tool :: string
  tc_status :: jsval
  tc_output :: jsval
  tc_error :: jsval
  tc_cancelling :: bool
  tc_mounted :: bool
  tc_runs :: nat
  tc_poll :: "(nat \<times> bool) option"   \<comment> \<open>the run, and whether it awaits an answer\<close>
  tc_sent :: "wreq list"

definition unfinished :: "jsval \<Rightarrow> bool" where
  "unfinished st \<longleftrightarrow> st \<in> {JStr ''pending'', JStr ''running'', JStr ''needs_reconnect''}"

definition polling_effect :: "tc \<Rightarrow> tc" where
  "polling_effect s =
     (if tc_tool s = ''book_event'' \<and> unfinished (tc_status s)
      then s\<lparr>tc_poll := Some (tc_runs s, False), tc_runs := tc_runs s + 1\<rparr> else s\<lparr>tc_poll := None\<rparr>)"

definition new_card :: "string \<Rightarrow> string \<Rightarrow> jsval \<Rightarrow> jsval \<Rightarrow> jsval \<Rightarrow> tc" where
  "new_card i tool st out err = polling_effect
     \<lparr>tc_id = i, tc_tool = tool, tc_status = st, tc_output = out, tc_error = err, tc_cancelling = False, tc_mounted = True,
      tc_runs = 0, tc_poll = None, tc_sent = []\<rparr>"

text \<open>The effect starts anew when the status changes.\<close>

definition set_card_status :: "jsval \<Rightarrow> tc \<Rightarrow> tc" where
  "set_card_status st s = (if st = tc_status s then s else polling_effect (s\<lparr>tc_status := st\<rparr>))"

definition booking_url :: "(string \<Rightarrow> string) \<Rightarrow> tc \<Rightarrow> string" where
  "booking_url enc s = ''/api/bookings/'' @ enc (tc_id s)"

definition poll_timer :: "(string \<Rightarrow> string) \<Rightarrow> nat \<Rightarrow> tc \<Rightarrow> tc" where
  "poll_timer enc n s =
     (if tc_poll s = Some (n, False) then s\<lparr>tc_poll := Some (n, True), tc_sent := tc_sent s @ [w_get (booking_url enc s)]\<rparr> else s)"

definition show_booking :: "jsval \<Rightarrow> tc \<Rightarrow> tc" where
  "show_booking b s =
     (let s = set_card_status (get b ''status'') s in
      s\<lparr>tc_output := js_or (get b ''result'') (tc_output s), tc_error := js_or (get b ''message'') (tc_error s)\<rparr>)"

definition poll_settled :: "nat \<Rightarrow> reply ext \<Rightarrow> tc \<Rightarrow> tc" where
  "poll_settled n res s =
     (if tc_poll s \<noteq> Some (n, True) then s
      else let s = s\<lparr>tc_poll := Some (n, False)\<rparr> in
        (case res of
           Ret r \<Rightarrow> if reply_ok r then (case rp_json r of Ret b \<Rightarrow> if nullish b then s else show_booking b s | Throw _ \<Rightarrow> s) else s
         | Throw _ \<Rightarrow> s))"

definition can_cancel :: "tc \<Rightarrow> bool" where
  "can_cancel s \<longleftrightarrow>
     (if tc_tool s = ''book_event'' then tc_status s \<in> {JStr ''pending'', JStr ''needs_reconnect''}
      else tc_status s \<in> {JStr ''running'', JStr ''pending''})"

definition cancel_clicked :: "(string \<Rightarrow> string) \<Rightarrow> tc \<Rightarrow> tc" where
  "cancel_clicked enc s =
     (if \<not> can_cancel s \<or> tc_cancelling s then s
      else s\<lparr>tc_cancelling := True, tc_sent := tc_sent s @ [\<lparr>wq_method = ''POST'',
               wq_url = (if tc_tool s = ''book_event'' then booking_url enc s else ''/api/tasks/'' @ enc (tc_id s)), wq_body = None\<rparr>]\<rparr>)"

definition cancel_settled :: "reply ext \<Rightarrow> tc \<Rightarrow> tc" where
  "cancel_settled res s =
     (if \<not> tc_cancelling s then s
      else let s = s\<lparr>tc_cancelling := False\<rparr> in
        (case res of
           Ret r \<Rightarrow> (case rp_json r of
               Ret v \<Rightarrow> if reply_ok r \<and> truthy (get v ''cancelled'') then set_card_status (JStr ''cancelled'') s else s
             | Throw _ \<Rightarrow> s)
         | Throw _ \<Rightarrow> s))"

datatype tc_event =
    Card_Props jsval jsval jsval
  | Poll_Timer nat
  | Poll_Settled nat "reply ext"
  | Cancel_Clicked
  | Cancel_Settled "reply ext"
  | Card_Unmounted

definition tc_step :: "(string \<Rightarrow> string) \<Rightarrow> tc \<Rightarrow> tc_event \<Rightarrow> tc" where
  "tc_step enc s e =
     (if \<not> tc_mounted s then s
      else case e of
        Card_Props st out err \<Rightarrow> (set_card_status st s)\<lparr>tc_output := out, tc_error := err\<rparr>
      | Poll_Timer n \<Rightarrow> poll_timer enc n s
      | Poll_Settled n res \<Rightarrow> poll_settled n res s
      | Cancel_Clicked \<Rightarrow> cancel_clicked enc s
      | Cancel_Settled res \<Rightarrow> cancel_settled res s
      | Card_Unmounted \<Rightarrow> s\<lparr>tc_poll := None, tc_mounted := False\<rparr>)"

text \<open>Exactly one run polls while the booking is unfinished, and none otherwise.\<close>

definition tc_ok :: "tc \<Rightarrow> bool" where
  "tc_ok s \<longleftrightarrow> (tc_poll s \<noteq> None \<longleftrightarrow> tc_mounted s \<and> tc_tool s = ''book_event'' \<and> unfinished (tc_status s))
     \<and> (\<forall>q \<in> set (tc_sent s). wq_method q = ''GET'' \<longrightarrow> tc_tool s = ''book_event'')"

lemma tc_ok_effect: "tc_mounted s \<Longrightarrow> \<forall>q \<in> set (tc_sent s). wq_method q = ''GET'' \<longrightarrow> tc_tool s = ''book_event'' \<Longrightarrow>
    tc_ok (polling_effect s)"
  by (auto simp: tc_ok_def polling_effect_def)

lemma tc_ok_status: "tc_ok s \<Longrightarrow> tc_mounted s \<Longrightarrow> tc_ok (set_card_status st s)"
  by (auto simp: set_card_status_def tc_ok_def polling_effect_def)

lemma tc_ok_update: "tc_ok (s\<lparr>tc_output := o', tc_error := e'\<rparr>) = tc_ok s" "tc_ok (s\<lparr>tc_cancelling := b\<rparr>) = tc_ok s"
  by (simp_all add: tc_ok_def)

interpretation card: machine "tc_step enc" tc_ok for enc
proof
  fix s e
  assume ok: "tc_ok s"
  have p: "tc_ok (s\<lparr>tc_poll := Some (n, b')\<rparr>)" if "tc_poll s = Some (n, b)" for n b b' using ok that by (simp add: tc_ok_def)
  show "tc_ok (tc_step enc s e)"
  proof (cases "tc_mounted s")
    case True
    show ?thesis
    proof (cases e)
      case (Poll_Settled n res)
      show ?thesis
      proof (cases "tc_poll s = Some (n, True)")
        case poll: True
        have "tc_ok (show_booking b (s\<lparr>tc_poll := Some (n, False)\<rparr>))" for b
          using p [OF poll] True by (simp add: show_booking_def Let_def tc_ok_update tc_ok_status)
        then show ?thesis using True Poll_Settled p [OF poll] poll
          by (simp add: tc_step_def poll_settled_def Let_def split: ext.split)
      qed (use ok True Poll_Settled in \<open>simp add: tc_step_def poll_settled_def\<close>)
    next
      case (Poll_Timer n)
      then show ?thesis using ok True by (auto simp: tc_step_def poll_timer_def tc_ok_def w_get_def)
    next
      case (Cancel_Settled res)
      then show ?thesis using ok True tc_ok_status [of "s\<lparr>tc_cancelling := False\<rparr>"]
        by (simp add: tc_step_def cancel_settled_def Let_def tc_ok_update split: ext.split)
    qed (use ok True tc_ok_status in \<open>auto simp: tc_step_def tc_ok_update cancel_clicked_def\<close>, auto simp: tc_ok_def)
  qed (use ok in \<open>simp add: tc_step_def\<close>)
qed

text \<open>C39. A booking is watched until it is finished: in every run of a task card, exactly while it is mounted with an unfinished
booking a poll is pending, so a status that is not final is always asked for again and a final one never; no other task is polled.\<close>

theorem unfinished_bookings_are_polled:
  "let s = run (tc_step enc) (new_card i tool st out err) es in
     (tc_poll s \<noteq> None \<longleftrightarrow> tc_mounted s \<and> tc_tool s = ''book_event'' \<and> unfinished (tc_status s))
     \<and> filter (\<lambda>q. wq_method q = ''GET'' \<and> tc_tool s \<noteq> ''book_event'') (tc_sent s) = []"
proof -
  have "tc_ok (new_card i tool st out err)" by (simp add: new_card_def tc_ok_effect)
  from card.inv_run [OF this, of enc es] show ?thesis by (auto simp: tc_ok_def Let_def filter_empty_conv)
qed

section \<open>The audio controls\<close>

fun status_text :: "conn_status \<Rightarrow> string" where
  "status_text Disconnected = ''disconnected''"
| "status_text Connecting = ''connecting''"
| "status_text Waiting_For_Agent = ''waiting_for_agent''"
| "status_text Waiting_For_Audio = ''waiting_for_audio''"
| "status_text Connected = ''connected''"
| "status_text Reconnecting = ''reconnecting''"
| "status_text Recovering = ''recovering''"
| "status_text Error = ''error''"

definition connection_label :: "conn_status \<Rightarrow> string" where
  "connection_label st =
     (if st = Waiting_For_Agent then ''Waiting for agent'' else if st = Waiting_For_Audio then ''Tap to enable audio''
      else if st = Recovering then ''Reconnecting to voice service'' else if st = Error then ''Voice service unavailable''
      else status_text st)"

definition controls_busy :: "conn_status \<Rightarrow> bool" where
  "controls_busy st \<longleftrightarrow> st \<in> {Connecting, Waiting_For_Agent, Waiting_For_Audio, Reconnecting, Recovering}"

definition connect_disabled :: "conn_status \<Rightarrow> bool" where
  "connect_disabled st \<longleftrightarrow> st \<in> {Connecting, Waiting_For_Agent, Reconnecting, Recovering}"

text \<open>The button is only enabled while busy to let the user unblock the audio.\<close>

lemma busy_button: "controls_busy st \<and> \<not> connect_disabled st \<longleftrightarrow> st = Waiting_For_Audio"
  by (cases st) (simp_all add: controls_busy_def connect_disabled_def)

end
