(* ===== verification/Connector_Entry.thy ===== *)
theory Connector_Entry
  imports Broker_Runtime Supervisor
begin

text \<open>
  \<open>connector/run-supervisor.mjs\<close>, the entry point of the connector: the HTTP calls to the credential broker and
  the factory of tenant runtimes that it gives to the supervisor, composed here with the models of the supervisor
  (\<open>Supervisor\<close>) and of the broker-bound runtime (\<open>Broker_Runtime\<close>). The environment is a function, \<open>fetch\<close> and
  \<open>encodeURIComponent\<close> are parameters.
\<close>

section \<open>Configuration\<close>

type_synonym process_env = "string \<Rightarrow> string option"

definition broker_url :: "process_env \<Rightarrow> string" where
  "broker_url env = get_env env ''CREDENTIAL_BROKER_URL'' ''http://127.0.0.1:8001''"

definition broker_secret :: "process_env \<Rightarrow> string" where
  "broker_secret env = get_env env ''CREDENTIAL_BROKER_SHARED_SECRET'' []"

definition is_digit :: "char \<Rightarrow> bool" where
  "is_digit c \<longleftrightarrow> c \<in> set ''0123456789''"

definition digits_value :: "string \<Rightarrow> int" where
  "digits_value ds = foldl (\<lambda>n c. n * 10 + (int (of_char c) - 48)) 0 ds"

text \<open>\<open>parseInt(s, 10)\<close>.\<close>

definition parse_int10 :: "string \<Rightarrow> jsval" where
  "parse_int10 s =
     (let t = dropWhile is_space s;
          neg = (t \<noteq> [] \<and> hd t = CHR ''-'');
          u = (if t \<noteq> [] \<and> hd t \<in> {CHR ''-'', CHR ''+''} then tl t else t);
          ds = takeWhile is_digit u
      in if ds = [] then JNaN else JNum (if neg then - digits_value ds else digits_value ds))"

definition reconcile_interval :: "process_env \<Rightarrow> jsval" where
  "reconcile_interval env = parse_int10 (get_env env ''RECONCILE_INTERVAL_MS'' ''15000'')"

text \<open>The module constructs the supervisor when it is loaded.\<close>

definition load_entry :: "process_env \<Rightarrow> sup ext" where
  "load_entry env =
     (if interval_ok (reconcile_interval env) then Ret new_sup
      else Throw ''reconcileIntervalMs must be between 1000 and 300000 ms'')"

section \<open>The credential broker\<close>

record broker_req =
  bq_method :: string
  bq_url :: string
  bq_headers :: "(string \<times> string) list"
  bq_body :: "jsval option"

definition broker_path :: "process_env \<Rightarrow> string \<Rightarrow> string" where
  "broker_path env p = strip_slashes (broker_url env) @ ''/internal/v1/threecx/'' @ p"

definition bearer :: "process_env \<Rightarrow> (string \<times> string) list" where
  "bearer env = (if broker_secret env = [] then [] else [(''Authorization'', ''Bearer '' @ broker_secret env)])"

definition shared_secret :: "process_env \<Rightarrow> (string \<times> string) list" where
  "shared_secret env = (if broker_secret env = [] then [] else [(''X-Broker-Secret'', broker_secret env)])"

definition active_tenants_request :: "process_env \<Rightarrow> broker_req" where
  "active_tenants_request env =
     \<lparr>bq_method = ''GET'', bq_url = broker_path env ''active-tenants'',
      bq_headers = (''Accept'', ''application/json'') # bearer env @ shared_secret env, bq_body = None\<rparr>"

definition active_tenants_answer :: "reply ext \<Rightarrow> jsval ext" where
  "active_tenants_answer res =
     (case res of
        Throw m \<Rightarrow> Throw m
      | Ret r \<Rightarrow>
          if \<not> reply_ok r then Throw (''Failed to fetch active tenants: HTTP '' @ int_string (rp_status r))
          else (case rp_json r of
              Throw m \<Rightarrow> Throw m
            | Ret v \<Rightarrow> if nullish v then Throw ''Cannot read properties'' else Ret (js_or (get v ''tenants'') (JArr []))))"

definition lease_request :: "process_env \<Rightarrow> jsval \<Rightarrow> broker_req" where
  "lease_request env ref =
     \<lparr>bq_method = ''POST'', bq_url = broker_path env ''tenant-lease'',
      bq_headers = (''Content-Type'', ''application/json'') # (''Accept'', ''application/json'') # bearer env @ shared_secret env,
      bq_body = Some (JObj [(''companyId'', get ref ''companyId'')])\<rparr>"

definition lease_answer :: "(rat \<Rightarrow> string) \<Rightarrow> jsval \<Rightarrow> reply ext \<Rightarrow> jsval ext" where
  "lease_answer fr ref res =
     (case res of
        Throw m \<Rightarrow> Throw m
      | Ret r \<Rightarrow>
          if \<not> reply_ok r
          then Throw (''Failed to acquire lease for '' @ js_string fr (get ref ''companyId'') @ '': HTTP '' @ int_string (rp_status r))
          else rp_json r)"

definition release_request :: "process_env \<Rightarrow> (string \<Rightarrow> string) \<Rightarrow> (rat \<Rightarrow> string) \<Rightarrow> jsval \<Rightarrow> broker_req" where
  "release_request env encode fr lease =
     \<lparr>bq_method = ''DELETE'', bq_url = broker_path env ''tenant-lease/'' @ encode (js_string fr (get lease ''leaseId'')),
      bq_headers = (''Accept'', ''application/json'') # bearer env, bq_body = None\<rparr>"

text \<open>The answer to a release is not looked at, a failed request is caught.\<close>

definition release_answer :: "reply ext \<Rightarrow> unit ext" where
  "release_answer res = Ret ()"

section \<open>The factory\<close>

definition entry_tenant_ref :: "jsval \<Rightarrow> jsval" where
  "entry_tenant_ref c = JObj [(''companyId'', get c ''companyId''), (''profileVersion'', js_or (get c ''profileVersion'') (JNum 1))]"

text \<open>\<open>createTenantRuntime\<close>: \<open>createBrokerBoundTenantRuntime\<close> checks the reference it is given.\<close>

definition entry_create :: "jsval \<Rightarrow> unit ext" where
  "entry_create c =
     (if nullish c then Throw ''Cannot read properties''
      else if \<not> is_tenant_ref (entry_tenant_ref c) then Throw ''A bounded tenant reference is required''
      else Ret ())"

text \<open>The line \<open>onSignal\<close> prints: the supervisor passes one object, the entry point prints it as its event.\<close>

definition signal_line :: "(rat \<Rightarrow> string) \<Rightarrow> string \<Rightarrow> jsval \<Rightarrow> string" where
  "signal_line fr timestamp sig = ''['' @ timestamp @ ''] [3CX Supervisor] '' @ js_string fr sig @ '' ''"

section \<open>What the entry point runs\<close>

lemma entry_create_throws: "\<not> create_ok entry_create c"
  by (simp add: create_ok_def entry_create_def entry_tenant_ref_def is_tenant_ref_def bounded_string_def)

definition no_tenants :: "sup \<Rightarrow> bool" where
  "no_tenants s \<longleftrightarrow> sp_tenants s = [] \<and> sp_created s = []
     \<and> list_all (\<lambda>g. case g of Sup_Signal e _ \<Rightarrow> e \<noteq> ''tenant_started'') (sp_signals s)
     \<and> (case sp_await s of Some (Starting_Tenant k, _) \<Rightarrow> False | Some (Stopping_Tenant k c, _) \<Rightarrow> False | _ \<Rightarrow> True)
     \<and> list_all (\<lambda>ks. ks = []) (sp_closings s)"

lemma no_tenants_end: "no_tenants (s\<lparr>sp_await := None\<rparr>) \<Longrightarrow> e \<noteq> ''tenant_started'' \<Longrightarrow> no_tenants (end_round e s)"
  by (simp add: no_tenants_def end_round_def notify_def schedule_next_def Let_def)

lemma no_tenants_sync:
  "no_tenants (s\<lparr>sp_await := None\<rparr>) \<Longrightarrow> list_all (\<lambda>w. case w of Sync _ _ \<Rightarrow> True | _ \<Rightarrow> False) ws \<Longrightarrow>
     no_tenants (advance entry_create fr ws s)"
proof (induction ws arbitrary: s)
  case Nil
  then show ?case by (simp add: no_tenants_end)
next
  case (Cons w ws)
  then obtain k c where w: "w = Sync k c" by (cases w) auto
  have t: "sp_tenants s = []" using Cons.prems(1) by (simp add: no_tenants_def)
  show ?case
  proof (cases "compute_fingerprint fr c")
    case (Ret fp)
    have "no_tenants ((notify ''tenant_start_failed'' k (s\<lparr>sp_tenants := jm_delete k (sp_tenants s)\<rparr>))\<lparr>sp_await := None\<rparr>)"
      using Cons.prems(1) by (simp add: no_tenants_def notify_def jm_delete_def)
    then show ?thesis using Cons.IH Cons.prems(2) Ret t by (simp add: w start_tenant_def entry_create_throws)
  qed (use Cons.prems in \<open>simp add: w no_tenants_end\<close>)
qed

lemma no_tenants_closing: "no_tenants s \<Longrightarrow> closing_done i k r s = s"
  by (auto simp: closing_done_def no_tenants_def list_all_length)

lemma no_tenants_step: "no_tenants s \<Longrightarrow> no_tenants (sup_step entry_create fr s e)"
proof (cases e)
  case (Closing_Done i k r)
  assume "no_tenants s"
  then show ?thesis using no_tenants_closing Closing_Done by simp
next
  case (Fetched r)
  assume s: "no_tenants s"
  then have n: "no_tenants (s\<lparr>sp_await := None\<rparr>)" by (simp add: no_tenants_def)
  have "no_tenants (advance entry_create fr (map (\<lambda>(k, c). Sync k c) act) s)" for act :: "(jsval, jsval) jsmap"
    by (rule no_tenants_sync [OF n]) (auto simp: list_all_iff)
  moreover have "sp_tenants s = []" using s by (simp add: no_tenants_def)
  ultimately have "no_tenants (fetched entry_create fr r s)"
    using n by (simp add: fetched_def Let_def no_tenants_end jm_keys_def split: ext.split jsval.split)
  then show ?thesis using s Fetched by (auto split: option.split prod.split round_await.split)
qed (auto simp: no_tenants_def start_sup_def begin_round_def notify_def timer_fires_def schedule_next_def Let_def shutdown_sup_def
    jm_keys_def sup_stopped_def split: option.splits round_await.splits)

interpretation entry: machine "sup_step entry_create fr" no_tenants for fr
  by unfold_locales (rule no_tenants_step)

text \<open>C38. The connector as it ships never runs a tenant: the factory of its entry point refuses every configuration, because it
passes an object where the broker-bound runtime requires a string, so in no run of the supervisor is a runtime created, a tenant
kept or a start reported, whatever the broker answers.\<close>

theorem entry_point_runs_no_tenant:
  "let s = run (sup_step entry_create fr) new_sup es in
     sp_tenants s = [] \<and> sp_created s = [] \<and> (\<forall>v. Sup_Signal ''tenant_started'' v \<notin> set (sp_signals s))"
proof -
  have "no_tenants new_sup" by (simp add: no_tenants_def new_sup_def)
  from entry.inv_run [OF this, of fr es] show ?thesis
    by (auto simp: no_tenants_def Let_def list_all_iff)
qed

text \<open>Nor could it with a proper reference: the lease is parsed from JSON, which holds no functions, so the runtime never gets
the client it requires.\<close>

lemma json_lease_is_refused: "\<not> is_lease (\<lambda>_. False) v ref now"
  by (simp add: is_lease_def)

lemma json_lease_fails_start:
  assumes "br_startPromise s = Some Acquiring" "bd_is_function d = (\<lambda>_. False)"
  shows "acquired d ref now (lease_answer fr ref' res) s = start_fails s"
  using assms by (simp add: acquired_def json_lease_is_refused split: ext.split)

text \<open>A release that the broker refuses or never receives counts as done: the runtime forgets its lease.\<close>

lemma refused_release_is_forgotten:
  assumes "br_releasing s" "br_startPromise s \<noteq> Some Start_Releasing" "br_waitRelease s = [res]"
  shows "br_lease (release_done (release_answer (Throw m)) s) = None
    \<and> br_state (release_done (release_answer (Throw m)) s) = Br_Stopped"
  using assms by (simp add: release_done_def release_answer_def after_release_def finish_shutdown_def br_answer_def Let_def)

text \<open>Every line of the log is the same.\<close>

lemma signal_line_says_nothing: "signal_line fr t (JObj a) = signal_line fr t (JObj b)"
  by (simp add: signal_line_def)

end
