(* ===== verification/Spec2Isabelle.thy ===== *)
theory Spec2Isabelle
  imports Call_Scenarios Assistant_Policy Backend_Proxy Mock_Store Livekit_Claims Media_Bridge
    Dispatch_Verifier Sdk_Adapter Tenant_Runtime Broker_Runtime Supervisor Mobile_Api
    Mobile_Voice_Claims Sandbox_Claims Web_Integrations Web_Pages
    Mobile_Account Mobile_Screens Mobile_Release
    Client_Vad Gemini_Claims Web_Account Connector_Entry
begin

text \<open>
  The program is a telephone and voice assistant product: a web app and a mobile app for the company that
  uses it, a Python backend, a Python LiveKit agent, and a connector that takes the inbound calls of a 3CX
  PBX, gives each one to an agent in a LiveKit room and bridges the audio. This library models its TypeScript
  and JavaScript core: the connector (\<open>connector/*.mjs\<close>) and the logic of the web app (\<open>frontend/src\<close>) and of
  the mobile app (\<open>mobile/src\<close>, \<open>mobile/app\<close>).

  The parts, from the PBX up.

  \<^item> \<open>Call_Controller\<close> (\<open>connector/call-controller.mjs\<close>): one tenant's calls. The record \<open>ctl\<close> is the class
    instance (\<open>calls\<close>, an insertion-ordered map of references to entries on a \<open>heap\<close>; \<open>stopping\<close>; and a ghost
    \<open>trace\<close> of every adapter call). Each adapter (claim, state update, lease renewal, dispatch, media, PBX
    fallback) is a field of \<open>deps\<close>, a function of its request and of an external world that may answer or
    reject; \<open>start_call\<close>, \<open>end_op\<close>, \<open>media_failure_op\<close>, \<open>hangup_op\<close>, \<open>renew_lease\<close>, \<open>shutdown_op\<close> are the
    private methods, one branch per return. \<open>Call_System\<close> interleaves them: \<open>sys_step\<close> is the inductive step
    relation (join events that await their claim, one operation at a time per call, lease timers),
    \<open>Call_Invariants\<close> what single operations keep, \<open>Call_Scenarios\<close> concrete tenants, adapters, witnesses and
    the claims about single operations, with the transition table of the durable store (\<open>db/threecx.py\<close>).
  \<^item> \<open>Sdk_Adapter\<close> (\<open>threecx-sdk-event-adapter.mjs\<close>): a queue of operations over the controller, each suspended at
    its await; \<open>sdk_step\<close> is one client event or one resumption. \<open>Tenant_Runtime\<close> (\<open>threecx-tenant-runtime.mjs\<close>),
    \<open>Broker_Runtime\<close> (\<open>broker-bound-tenant-runtime.mjs\<close>) and \<open>Supervisor\<close> (\<open>multi-tenant-supervisor.mjs\<close>) are the
    layers above it: start, drain, lease and reconciliation, as state machines whose steps run to the next await.
  \<^item> \<open>Pcm_Audio\<close> (\<open>pcm16-frame-assembler.mjs\<close>, \<open>pcm16-livekit-resampler.mjs\<close>): the audio path, on byte lists and
    16-bit words. \<open>Media_Bridge\<close> (\<open>threecx-livekit-media-bridge.mjs\<close>): the bridge between a PBX participant and a
    room, over that audio path. \<open>Dispatch_Verifier\<close> (\<open>livekit-dispatch-verifier.mjs\<close>, \<open>verified-threecx-livekit-media.mjs\<close>): which
    room participant is the agent of a call; its polling loop is a \<open>partial_function\<close> with a proof that it returns.
  \<^item> \<open>Assistant_Policy\<close> (\<open>frontend/src/lib/assistantPolicy.ts\<close>, \<open>capabilityRegistry.ts\<close>, \<open>tools.ts\<close>): what the
    assistant may be asked and which tools it gets. \<open>Backend_Proxy\<close> (\<open>sessionContext.ts\<close>, \<open>backendProxy.ts\<close> and the
    routes under \<open>app/api\<close>): the server that signs the verified identity onto every backend request.
  \<^item> \<open>Workspace_Cache\<close> (\<open>workspaceCache.ts\<close>), \<open>Mock_Store\<close> (\<open>mocks/\<close>): the client's cache and the in-memory backend.
  \<^item> \<open>Livekit_Runtime\<close>, \<open>Livekit_Session\<close>, \<open>Livekit_Claims\<close> (\<open>livekitSessionRuntime.ts\<close>, \<open>useLiveKitSession.ts\<close>): the
    browser's voice session. \<open>lk_step\<close> takes one user call, room event, timer or settled promise; refs that closures
    capture are captured by the suspended continuation.
  \<^item> \<open>Client_Vad\<close> (\<open>public/worklets/vad-processor.js\<close>, \<open>useClientVAD.ts\<close>): the voice detector, one frame per step, and the
    hook that mutes the assistant and reports an interruption.
  \<^item> \<open>Voice_Codec\<close>, \<open>Gemini_Session\<close>, \<open>Logical_Action\<close>, \<open>Gemini_Claims\<close> (\<open>useGeminiLiveSession.ts\<close>): the dormant session of
    the browser with Gemini Live, its audio encoding down to base64, its tool calls and their idempotency keys
    (\<open>Logical_Action\<close> shows that the text a key is filed under can be read back).
  \<^item> \<open>Sandbox_Session\<close>, \<open>Sandbox_Claims\<close> (\<open>components/sandbox/TestingSandboxPage.tsx\<close>): the page that tests the voice path;
    rooms and microphones are the resources its runs open.
  \<^item> \<open>Web_Assistant\<close>, \<open>Web_Integrations\<close>, \<open>Web_Pages\<close> (\<open>App.tsx\<close>): the forms of the assistant and onboarding pages with
    their reading, saving and publishing; the 3CX and calendar cards; the dashboard, the calls, the profile and the
    routing of the workspace. A handler is a function of its form and the network and yields its outcome and its requests.
    \<open>Web_Account\<close> (\<open>app/sign-in/page.tsx\<close>, \<open>GoogleCalendarAuth.tsx\<close>, \<open>TaskCard.tsx\<close>, \<open>AudioControls.tsx\<close>): the sign-in page
    and the components that keep a state of their own.
  \<^item> \<open>Mobile_Api\<close> (\<open>mobile/src/services/api.ts\<close>): the HTTP client of the mobile app; each method is a function of the
    service's configuration and the network, and yields its result and the requests it sent.
  \<^item> \<open>Mobile_Voice_Api\<close>, \<open>Mobile_Voice\<close>, \<open>Mobile_Voice_Claims\<close> (\<open>livekitApi.ts\<close>, \<open>voicePackets.ts\<close>, \<open>useVoiceBot.ts\<close>): the
    mobile voice session, one callback, room event or settled promise per step.
  \<^item> \<open>Mobile_Account\<close> (\<open>AuthContext.tsx\<close>, \<open>SignInScreen.tsx\<close>, the start and sign-in routes), \<open>Mobile_Screens\<close> (onboarding,
    settings, integrations, dashboard, calls, \<open>TaskDeck.tsx\<close>), \<open>Mobile_Release\<close> (\<open>scripts/validate-public-env.mjs\<close>, the
    guards of the other routes, \<open>VoiceAssistant.tsx\<close>, \<open>voiceBot.ts\<close>, \<open>ThemeContext.tsx\<close>): the state behind the mobile screens.
  \<^item> \<open>Connector_Entry\<close> (\<open>connector/run-supervisor.mjs\<close>): the broker requests and the runtime factory of the entry point,
    composed with \<open>Supervisor\<close> and \<open>Broker_Runtime\<close>.

  \<open>Prelude\<close> has the JavaScript values (\<open>jsval\<close>), awaited outcomes (\<open>ext\<close>: a value or an error), insertion-ordered maps
  and the two generic interfaces: the locale \<open>keyed_store\<close> of maps and the locale \<open>machine\<close> of a step function with an
  invariant, which every state machine interprets. The shutdown contract of the connector is the locale \<open>drainable\<close>
  (\<open>Sdk_Adapter\<close>), extended by \<open>drain_layer\<close> (\<open>Tenant_Runtime\<close>): a layer that answered \<open>stopped\<close> is quiet and stays
  so. The controller, the adapter and the tenant runtime interpret it, each from the layer below, and the broker's
  claim rests on the last one; \<open>adapter_client\<close> carries what every controller call keeps through the adapter.

  What the claims show. For calls: media and agent never outlive the tracking of a call, the PBX moves a caller only after
  they are released, state updates follow the life cycle (the best-effort update of a claim given up included), and every request names the bound company; shutdown completes
  when the adapters oblige; where single operations do less than their comments say, it is proved. For the layers above:
  the intake opens at once only for the first connection and afterwards only on a reconciled snapshot, the controller is only told of vetted events, a stopped runtime has no
  call, a lease outlives its calls, a reconciliation round reaches its target, framing and resampling lose no sample, only
  the verified agent's audio is bridged; and
  the entry point as it ships starts no tenant. For the server: identity, origin and tool vetting of each request. For the
  browser: the shown status is true, replaced sessions are inert, an interruption comes 320 milliseconds after the detector reported a
  speech and not at all for sounds that end early enough, a microphone frame survives its encoding, tool calls share an
  idempotency key exactly when they are equal, an idle sandbox holds nothing;
  what the pages publish was validated, forms compile and read back, unfinished bookings are polled. For the mobile app: calls
  are tracked, rooms are joined with credentials, what the call history computes is well formed. Lemmas without a claim show the round trips
  of samples, the requests of each page and client, what a checked release ships, and, under \<open>What goes wrong\<close>, concrete
  runs of the defects the manifest lists.

  Bounds. Strings are HOL strings (code points below 256), so \<open>length\<close> is the number of UTF-16 units; numbers are
  integers and rationals, without the rounding of doubles (the code only compares and adds small integers); samples and
  bytes are words of 16 and 8 bits. The fuel of \<open>drive\<close> (\<open>Supervisor\<close>) is two awaits per tenant, which the claim proves
  to be enough. Steps run from await to await; the controller's operations under the adapter run to completion.

  Not modelled. Rendering, styles, animation and purely visual components of both apps, and the time stamps they show; the
  Google authorization poll of the mobile app, which a constant switches off; the vendored live API console; the Python
  backend, agent and broker, of which only the transition table is used; process signals and exit codes, the check of the
  Node version, tests and tooling. Third-party code (the LiveKit, 3CX and Gemini SDKs, Web Audio, SHA-256, URL and date
  parsing) is a parameter wherever it is used.
\<close>

end
